(* ===== verification/GoBase.thy ===== *)
theory GoBase
  imports Main "HOL-Library.AList" "HOL-Library.Word" "HOL-Library.Multiset"
    "HOL-Library.Char_ord" "HOL-Library.List_Lexorder" "HOL-Library.Product_Lexorder"
begin

text \<open>
  The prelude: the parts of the Go language and of its standard library that the modelled code
  uses, and the lemmas about them that every component shares.

  \<^item> A Go \<open>string\<close> is a byte list (\<open>string\<close>); \<open>strings.ToLower\<close>, \<open>strings.TrimSpace\<close> and
    \<open>strings.EqualFold\<close> are modelled on ASCII, which is what addresses, hashes and keys are.
  \<^item> A \<open>*big.Int\<close> is an \<open>int\<close>, or an \<open>int option\<close> where the code tests for nil;
    \<open>big.Int.String\<close> and \<open>SetString(_, 10)\<close> are \<open>int_str\<close> and \<open>parse_int10\<close>.
  \<^item> A \<open>uint64\<close> is a \<open>64 word\<close>; an \<open>int64\<close> is an \<open>int\<close> whose arithmetic is wrapped by \<open>i64\<close>.
  \<^item> A Go map is an association list with distinct keys. The list order is the order in which
    \<open>range\<close> happens to visit the map, which Go leaves open: a statement for every list is a
    statement for every iteration order.
\<close>

named_theorems go_simps \<open>evaluation of the modelled Go operations\<close>
named_theorems wf_intros \<open>well-formedness (distinct keys) of Go maps\<close>

type_synonym u64 = "64 word"
type_synonym u32 = "32 word"
type_synonym ('k, 'v) gomap = "('k \<times> 'v) list"

section \<open>ASCII strings\<close>

definition is_space :: "char \<Rightarrow> bool" where
  "is_space c \<longleftrightarrow> (let n = (of_char c :: nat) in n = 32 \<or> (9 \<le> n \<and> n \<le> 13))"

definition lower_char :: "char \<Rightarrow> char" where
  "lower_char c = (let n = (of_char c :: nat) in if 65 \<le> n \<and> n \<le> 90 then char_of (n + 32) else c)"

definition to_lower :: "string \<Rightarrow> string" where
  "to_lower s = map lower_char s"

definition trim_space :: "string \<Rightarrow> string" where
  "trim_space s = rev (dropWhile is_space (rev (dropWhile is_space s)))"

definition equal_fold :: "string \<Rightarrow> string \<Rightarrow> bool" where
  "equal_fold s t \<longleftrightarrow> to_lower s = to_lower t"

definition has_prefix :: "string \<Rightarrow> string \<Rightarrow> bool" where
  "has_prefix s p \<longleftrightarrow> take (length p) s = p"

text \<open>Evaluation works on the bits of a character.\<close>

lemma is_space_code [code]:
  "is_space (Char b0 b1 b2 b3 b4 b5 b6 b7) = (\<not> b7 \<and> \<not> b6 \<and> \<not> b4 \<and>
     (if b5 then \<not> b3 \<and> \<not> b2 \<and> \<not> b1 \<and> \<not> b0 else b3 \<and> (if b2 then \<not> b1 else b1 \<or> b0)))"
  by (cases b0; cases b1; cases b2; cases b3; cases b4; cases b5; cases b6; cases b7; simp add: is_space_def)

lemma lower_char_code [code]:
  "lower_char (Char b0 b1 b2 b3 b4 b5 b6 b7) =
     (if \<not> b7 \<and> b6 \<and> \<not> b5 \<and> (b0 \<or> b1 \<or> b2 \<or> b3 \<or> b4) \<and> \<not> (b4 \<and> b3 \<and> (b2 \<or> b1 \<and> b0))
      then Char b0 b1 b2 b3 b4 True b6 b7 else Char b0 b1 b2 b3 b4 b5 b6 b7)"
  by (cases b0; cases b1; cases b2; cases b3; cases b4; cases b5; cases b6; cases b7;
      simp add: lower_char_def char_of_def bit_0)

text \<open>The idiom \<open>strings.ToLower(strings.TrimSpace(s))\<close>.\<close>

definition norm_addr :: "string \<Rightarrow> string" where
  "norm_addr s = to_lower (trim_space s)"

lemma of_char_bound: "(of_char c :: nat) < 256"
  by (metis of_char_mod_256 pos_mod_bound mod_less_divisor zero_less_numeral)

lemma lower_char_idem [simp]: "lower_char (lower_char c) = lower_char c"
  using of_char_bound [of c] by (auto simp: lower_char_def Let_def of_char_of)

lemma to_lower_idem [simp]: "to_lower (to_lower s) = to_lower s"
  by (simp add: to_lower_def comp_def)

lemma length_to_lower [simp]: "length (to_lower s) = length s"
  by (simp add: to_lower_def)

lemma to_lower_Nil [simp]: "to_lower [] = []"
  by (simp add: to_lower_def)

lemma to_lower_eq_Nil [simp]: "to_lower s = [] \<longleftrightarrow> s = []"
  by (simp add: to_lower_def)

lemma to_lower_append: "to_lower (s @ t) = to_lower s @ to_lower t"
  by (simp add: to_lower_def)

lemma equal_fold_refl [simp]: "equal_fold s s"
  by (simp add: equal_fold_def)

lemma equal_fold_sym: "equal_fold s t \<longleftrightarrow> equal_fold t s"
  by (auto simp: equal_fold_def)

lemma equal_fold_trans: "equal_fold s t \<Longrightarrow> equal_fold t u \<Longrightarrow> equal_fold s u"
  by (simp add: equal_fold_def)

lemma equal_fold_lower [simp]:
  "equal_fold (to_lower s) t \<longleftrightarrow> equal_fold s t"
  "equal_fold s (to_lower t) \<longleftrightarrow> equal_fold s t"
  by (simp_all add: equal_fold_def)

lemma is_space_lower [simp]: "is_space (lower_char c) \<longleftrightarrow> is_space c"
  using of_char_bound [of c] by (auto simp: lower_char_def is_space_def Let_def of_char_of)

lemma dropWhile_space_lower:
  "dropWhile is_space (map lower_char s) = map lower_char (dropWhile is_space s)"
  by (induction s) auto

lemma trim_to_lower: "trim_space (to_lower s) = to_lower (trim_space s)"
  by (simp add: trim_space_def to_lower_def dropWhile_space_lower rev_map)

lemma dropWhile_no_space: "(\<forall>c \<in> set s. \<not> is_space c) \<Longrightarrow> dropWhile is_space s = s"
  by (induction s) auto

lemma trim_space_none: "(\<forall>c \<in> set s. \<not> is_space c) \<Longrightarrow> trim_space s = s"
  by (simp add: trim_space_def dropWhile_no_space)

lemma dropWhile_rev_dropWhile_idem:
  "dropWhile P (rev (dropWhile P (rev (dropWhile P s)))) = rev (dropWhile P (rev (dropWhile P s)))"
proof (cases "dropWhile P s")
  case Nil
  then show ?thesis by (simp only: rev.simps dropWhile.simps)
next
  case (Cons x xs)
  then have x: "\<not> P x" by (metis dropWhile_eq_Cons_conv)
  show ?thesis
  proof (cases "\<forall>y \<in> set xs. P y")
    case True
    with x Cons show ?thesis by (simp add: dropWhile_append)
  next
    case False
    then obtain zs where "dropWhile P (rev xs @ [x]) = zs @ [x]"
      by (auto simp: dropWhile_append)
    with x Cons show ?thesis
      by (metis dropWhile_idem rev.simps(2) rev_append rev_rev_ident append_Cons dropWhile.simps(2))
  qed
qed

lemma trim_space_blank: "trim_space (s @ '' '') = trim_space s"
proof -
  have b: "is_space (CHR '' '')" by (simp add: is_space_def)
  show ?thesis
  proof (cases "\<forall>x \<in> set s. is_space x")
    case True
    then have "dropWhile is_space s = []" by (simp only: dropWhile_eq_Nil_conv)
    moreover have "dropWhile is_space (s @ '' '') = []" unfolding dropWhile_eq_Nil_conv using True b by auto
    ultimately show ?thesis unfolding trim_space_def by (simp only:)
  next
    case False
    then have "dropWhile is_space (s @ '' '') = dropWhile is_space s @ '' ''" by (auto simp: dropWhile_append)
    then show ?thesis using b by (simp add: trim_space_def)
  qed
qed

lemma trim_space_idem [simp]: "trim_space (trim_space s) = trim_space s"
  by (simp add: trim_space_def dropWhile_rev_dropWhile_idem)

lemma norm_addr_idem [simp]: "norm_addr (norm_addr s) = norm_addr s"
  by (simp add: norm_addr_def trim_to_lower)

lemma norm_addr_lower [simp]: "to_lower (norm_addr s) = norm_addr s"
  by (simp add: norm_addr_def)

section \<open>Decimal notation of big integers\<close>

definition digit_char :: "nat \<Rightarrow> char" where
  "digit_char d = char_of (48 + d)"

definition char_digit :: "char \<Rightarrow> nat option" where
  "char_digit c = (let n = (of_char c :: nat) in if 48 \<le> n \<and> n \<le> 57 then Some (n - 48) else None)"

fun nat_str :: "nat \<Rightarrow> string" where
  "nat_str n = (if n < 10 then [digit_char n] else nat_str (n div 10) @ [digit_char (n mod 10)])"

declare nat_str.simps [simp del]

text \<open>\<open>big.Int.String\<close>.\<close>

definition int_str :: "int \<Rightarrow> string" where
  "int_str i = (if i < 0 then CHR ''-'' # nat_str (nat (- i)) else nat_str (nat i))"

text \<open>The digits of \<open>SetString\<close>: every character a decimal digit.\<close>

fun parse_digits :: "nat \<Rightarrow> string \<Rightarrow> nat option" where
  "parse_digits acc [] = Some acc"
| "parse_digits acc (c # cs) =
     (case char_digit c of None \<Rightarrow> None | Some d \<Rightarrow> parse_digits (10 * acc + d) cs)"

text \<open>\<open>new(big.Int).SetString(s, 10)\<close>: an optional sign, then at least one digit.\<close>

definition parse_int10 :: "string \<Rightarrow> int option" where
  "parse_int10 s = (case s of [] \<Rightarrow> None
    | c # cs \<Rightarrow>
        if c = CHR ''-'' then (if cs = [] then None else map_option (\<lambda>n. - int n) (parse_digits 0 cs))
        else if c = CHR ''+'' then (if cs = [] then None else map_option int (parse_digits 0 cs))
        else map_option int (parse_digits 0 s))"

lemma char_digit_code [code]:
  "char_digit (Char b0 b1 b2 b3 b4 b5 b6 b7) =
     (if \<not> b7 \<and> \<not> b6 \<and> b5 \<and> b4 \<and> \<not> (b3 \<and> (b2 \<or> b1))
      then Some (if b3 then (if b0 then 9 else 8)
        else if b2 then (if b1 then (if b0 then 7 else 6) else (if b0 then 5 else 4))
        else (if b1 then (if b0 then 3 else 2) else (if b0 then 1 else 0))) else None)"
  by (cases b0; cases b1; cases b2; cases b3; cases b4; cases b5; cases b6; cases b7; simp add: char_digit_def)

lemma char_digit_digit_char [simp]: "d < 10 \<Longrightarrow> char_digit (digit_char d) = Some d"
  by (simp add: char_digit_def digit_char_def Let_def of_char_of)

lemma parse_digits_append:
  "parse_digits a (xs @ ys) =
     (case parse_digits a xs of None \<Rightarrow> None | Some b \<Rightarrow> parse_digits b ys)"
  by (induction a xs rule: parse_digits.induct) (auto split: option.splits)

lemma parse_digits_nat_str [simp]: "parse_digits 0 (nat_str n) = Some n"
proof (induction n rule: nat_str.induct)
  case (1 n)
  show ?case
  proof (cases "n < 10")
    case True
    then show ?thesis by (subst nat_str.simps) simp
  next
    case False
    with "1.IH" have "parse_digits 0 (nat_str (n div 10)) = Some (n div 10)" by simp
    with False show ?thesis
      by (subst nat_str.simps) (simp add: parse_digits_append)
  qed
qed

lemma nat_str_nonempty [simp]: "nat_str n \<noteq> []"
  by (subst nat_str.simps) simp

lemma of_char_digit_char: "d < 10 \<Longrightarrow> (of_char (digit_char d) :: nat) = 48 + d"
  by (simp add: digit_char_def of_char_of)

lemma set_nat_str: "c \<in> set (nat_str n) \<Longrightarrow> \<exists>d < 10. c = digit_char d"
proof (induction n rule: nat_str.induct)
  case (1 n)
  then show ?case
    by (subst (asm) nat_str.simps)
      (auto split: if_splits intro: exI [where x = "n mod 10"])
qed

lemma nat_str_hd_digit: "\<exists>d cs. d < 10 \<and> nat_str n = digit_char d # cs"
proof (cases "nat_str n")
  case (Cons c cs)
  then have "c \<in> set (nat_str n)" by simp
  from set_nat_str [OF this] Cons show ?thesis by auto
qed simp

lemma digit_char_not_sign: "d < 10 \<Longrightarrow> digit_char d \<noteq> CHR ''-''" "d < 10 \<Longrightarrow> digit_char d \<noteq> CHR ''+''"
  by (drule of_char_digit_char, auto)+

lemma digit_char_not_space: "d < 10 \<Longrightarrow> \<not> is_space (digit_char d)"
  by (simp add: is_space_def of_char_digit_char Let_def)

text \<open>The round trip that every stored amount goes through.\<close>

lemma parse_int_str [simp]: "parse_int10 (int_str i) = Some i"
proof (cases "i < 0")
  case True
  then show ?thesis by (simp add: int_str_def parse_int10_def)
next
  case False
  obtain d cs where "d < 10" and eq: "nat_str (nat i) = digit_char d # cs"
    using nat_str_hd_digit by blast
  moreover have "parse_digits 0 (digit_char d # cs) = Some (nat i)"
    using parse_digits_nat_str [of "nat i"] eq by simp
  ultimately show ?thesis using False digit_char_not_sign [of d]
    by (simp add: int_str_def parse_int10_def)
qed

lemma int_str_no_space: "\<forall>c \<in> set (int_str i). \<not> is_space c"
  by (auto simp: int_str_def is_space_def dest!: set_nat_str)
    (auto simp: of_char_digit_char is_space_def Let_def)

lemma trim_int_str [simp]: "trim_space (int_str i) = int_str i"
  by (simp add: trim_space_none int_str_no_space)

lemma int_str_nonempty [simp]: "int_str i \<noteq> []"
  by (simp add: int_str_def)

lemma int_str_inj [simp]: "int_str i = int_str j \<longleftrightarrow> i = j"
  by (metis option.inject parse_int_str)

text \<open>
  \<open>NewAmountFromStringOrZero\<close> and its copies in the contracts (\<open>parseBig\<close>, \<open>ivBig\<close>, \<open>vbBig\<close>,
  \<open>lpBig\<close>): trim, parse, and read anything else as zero.
\<close>

definition big_or_zero :: "string \<Rightarrow> int" where
  "big_or_zero s = (case parse_int10 (trim_space s) of None \<Rightarrow> 0 | Some i \<Rightarrow> i)"

lemma big_or_zero_int_str [simp]: "big_or_zero (int_str i) = i"
  by (simp add: big_or_zero_def)

lemma big_or_zero_Nil [simp]: "big_or_zero [] = 0"
  by (simp add: big_or_zero_def trim_space_def parse_int10_def)

section \<open>Integer arithmetic\<close>

text \<open>\<open>big.Int.Div\<close> is Euclidean: for a positive divisor it is \<open>div\<close>.\<close>

definition big_div :: "int \<Rightarrow> int \<Rightarrow> int" where
  "big_div n d = (if d < 0 then - (n div (- d)) else n div d)"

lemma big_div_pos [simp]: "0 \<le> d \<Longrightarrow> big_div n d = n div d"
  by (simp add: big_div_def)

text \<open>Two's complement \<open>int64\<close> arithmetic on \<open>int\<close>, and the test \<open>big.Int.IsInt64\<close>.\<close>

definition i64 :: "int \<Rightarrow> int" where
  "i64 x = (x + 2 ^ 63) mod 2 ^ 64 - 2 ^ 63"

definition is_i64 :: "int \<Rightarrow> bool" where
  "is_i64 x \<longleftrightarrow> - (2 ^ 63) \<le> x \<and> x < 2 ^ 63"

lemma i64_id: "is_i64 x \<Longrightarrow> i64 x = x"
  by (simp add: i64_def is_i64_def)

lemma is_i64_i64 [simp]: "is_i64 (i64 x)"
proof -
  have "0 \<le> (x + 2 ^ 63) mod 2 ^ 64" "(x + 2 ^ 63) mod 2 ^ 64 < (2 :: int) ^ 64"
    by (simp_all only: pos_mod_sign pos_mod_bound zero_less_numeral zero_less_power)
  then show ?thesis by (simp add: i64_def is_i64_def)
qed

text \<open>Basis points: \<open>amount * bps / 10000\<close> never exceeds the amount for \<open>bps \<le> 10000\<close>.\<close>

lemma bps_nonneg: "0 \<le> (a::int) \<Longrightarrow> 0 \<le> b \<Longrightarrow> 0 \<le> a * b div 10000"
  by (simp add: pos_imp_zdiv_nonneg_iff)

lemma bps_le: "0 \<le> (a::int) \<Longrightarrow> b \<le> 10000 \<Longrightarrow> a * b div 10000 \<le> a"
proof -
  assume "0 \<le> a" "b \<le> 10000"
  then have "a * b \<le> a * 10000" by (simp add: mult_left_mono)
  then have "a * b div 10000 \<le> a * 10000 div 10000" by (rule zdiv_mono1) simp
  then show ?thesis by simp
qed

lemma div_mult_le_self: "0 < (d::int) \<Longrightarrow> n div d * d \<le> n"
  using div_mult_mod_eq [of n d] pos_mod_sign [of d n] by linarith

lemma less_div_mult_add: "0 < (d::int) \<Longrightarrow> n < n div d * d + d"
  using div_mult_mod_eq [of n d] pos_mod_bound [of d n] by linarith

section \<open>Go maps\<close>

abbreviation keys_of :: "('k, 'v) gomap \<Rightarrow> 'k list" where
  "keys_of m \<equiv> map fst m"

abbreviation wf_map :: "('k, 'v) gomap \<Rightarrow> bool" where
  "wf_map m \<equiv> distinct (keys_of m)"

abbreviation mput :: "'k \<Rightarrow> 'v \<Rightarrow> ('k, 'v) gomap \<Rightarrow> ('k, 'v) gomap" where
  "mput \<equiv> AList.update"

abbreviation mdel :: "'k \<Rightarrow> ('k, 'v) gomap \<Rightarrow> ('k, 'v) gomap" where
  "mdel \<equiv> AList.delete"

lemma map_of_mput [simp]: "map_of (mput k v m) = (map_of m)(k \<mapsto> v)"
  by (rule ext) (simp add: update_conv')

lemma map_of_mdel [simp]: "map_of (mdel k m) = (map_of m)(k := None)"
  by (rule ext) (simp add: delete_conv')

lemma wf_mput [wf_intros]: "wf_map m \<Longrightarrow> wf_map (mput k v m)"
  by (rule distinct_update)

lemma wf_mdel [wf_intros]: "wf_map m \<Longrightarrow> wf_map (mdel k m)"
  by (rule distinct_delete)

lemma wf_filter [wf_intros]: "wf_map m \<Longrightarrow> wf_map (filter P m)"
  by (induction m) (auto simp: image_iff)

lemma wf_map_of_mem: "wf_map m \<Longrightarrow> (k, v) \<in> set m \<longleftrightarrow> map_of m k = Some v"
  by (simp add: map_of_eq_Some_iff)

text \<open>Two visiting orders of one map agree on every lookup.\<close>

lemma map_of_perm: "wf_map m \<Longrightarrow> mset m = mset m' \<Longrightarrow> map_of m = map_of m'"
proof -
  assume wf: "wf_map m" and eq: "mset m = mset m'"
  from eq have "mset (keys_of m) = mset (keys_of m')" by (metis mset_map)
  with wf have "wf_map m'" by (metis mset_eq_imp_distinct_iff)
  moreover from eq have "set m = set m'" by (metis set_mset_mset)
  ultimately show ?thesis using wf by (metis map_of_inject_set)
qed

text \<open>Sums over the values of a map, the shape of every conservation law below.\<close>

lemma list_all_mput: "list_all P m \<Longrightarrow> P (k, v) \<Longrightarrow> list_all P (mput k v m)"
  by (induction m) auto

lemma mput_fresh: "map_of m k = None \<Longrightarrow> mput k v m = m @ [(k, v)]"
  by (induction m) (auto split: if_split_asm)

definition vsum :: "('v \<Rightarrow> 'a::comm_monoid_add) \<Rightarrow> ('k, 'v) gomap \<Rightarrow> 'a" where
  "vsum f m = sum_list (map (f \<circ> snd) m)"

lemma vsum_Nil [simp]: "vsum f [] = 0"
  by (simp add: vsum_def)

lemma vsum_Cons [simp]: "vsum f (p # m) = f (snd p) + vsum f m"
  by (simp add: vsum_def)

lemma vsum_perm: "mset m = mset m' \<Longrightarrow> vsum f m = vsum f m'"
  unfolding vsum_def by (metis mset_map sum_mset_sum_list)

lemma vsum_filter_key:
  "wf_map m \<Longrightarrow> vsum (\<lambda>b. b) (filter (\<lambda>(key, _). key = k) m) = (case map_of m k of None \<Rightarrow> 0 | Some b \<Rightarrow> (b :: int))"
proof (induction m)
  case (Cons p m)
  have "k \<notin> fst ` set m \<Longrightarrow> filter (\<lambda>(key, _). key = k) m = []" by (force simp: filter_empty_conv)
  with Cons show ?case by (cases p) auto
qed simp

lemma vsum_mput_new: "map_of m k = None \<Longrightarrow> vsum f (mput k v m) = vsum f m + f v"
  by (induction m) (auto simp: add_ac split: if_splits)

lemma vsum_mput_old:
  fixes f :: "'v \<Rightarrow> 'a::ab_group_add"
  shows "wf_map m \<Longrightarrow> map_of m k = Some w \<Longrightarrow> vsum f (mput k v m) = vsum f m + f v - f w"
proof (induction m)
  case (Cons p m)
  then show ?case by (cases p) (auto simp: algebra_simps)
qed simp

lemma vsum_nonneg:
  fixes f :: "'v \<Rightarrow> 'a::ordered_comm_monoid_add"
  shows "(\<And>k v. (k, v) \<in> set m \<Longrightarrow> 0 \<le> f v) \<Longrightarrow> 0 \<le> vsum f m"
  unfolding vsum_def by (rule sum_list_nonneg) auto

end
