(* ===== verification/Float64.thy ===== *)
theory Float64
  imports Complex_Main GoBase
begin

text \<open>
  IEEE 754 binary64 as Go's \<open>float64\<close> uses it: a finite value is the rational it denotes, every
  operation computes exactly and rounds once to the nearest representable value, ties to even,
  with gradual underflow below \<open>2^-1022\<close> and overflow to infinity at \<open>2^1024\<close>. The sign of zero is
  not represented: no modelled code observes it. The lemmas bound the rounding error, show which
  values are exact, and bound the error of a running sum in any order, which is what the voting
  power of a quorum is.
\<close>

datatype f64 = Fin rat | PInf | NInf | NaN

section \<open>Rounding\<close>

text \<open>Powers of two with an integer exponent.\<close>

definition pow2 :: "int \<Rightarrow> rat" where
  "pow2 e = (if 0 \<le> e then 2 ^ nat e else 1 / 2 ^ nat (- e))"

fun flog2 :: "nat \<Rightarrow> nat" where
  "flog2 n = (if n < 2 then 0 else Suc (flog2 (n div 2)))"

declare flog2.simps [simp del]

text \<open>The binary exponent of a positive rational: \<open>2^e \<le> a < 2^(e+1)\<close>.\<close>

definition ilog2 :: "rat \<Rightarrow> int" where
  "ilog2 a = (if 1 \<le> a then int (flog2 (nat \<lfloor>a\<rfloor>))
     else (let j = flog2 (nat \<lfloor>1 / a\<rfloor>) in if 2 ^ j * a = 1 then - int j else - int j - 1))"

definition round_even :: "rat \<Rightarrow> int" where
  "round_even q = (let f = \<lfloor>q\<rfloor>; d = q - of_int f in
     if d < 1 / 2 then f else if 1 / 2 < d then f + 1 else if even f then f else f + 1)"

text \<open>The exponent of the last place of the binade of \<open>a\<close>.\<close>

definition ulp_exp :: "rat \<Rightarrow> int" where
  "ulp_exp a = max (ilog2 a) (- 1022) - 52"

definition rnd :: "rat \<Rightarrow> f64" where
  "rnd x = (if x = 0 then Fin 0 else
     let u = pow2 (ulp_exp \<bar>x\<bar>); v = of_int (round_even (\<bar>x\<bar> / u)) * u in
     if pow2 1024 \<le> v then (if 0 < x then PInf else NInf)
     else Fin (if 0 < x then v else - v))"

section \<open>Operations\<close>

fun fneg :: "f64 \<Rightarrow> f64" where
  "fneg (Fin a) = Fin (- a)" | "fneg PInf = NInf" | "fneg NInf = PInf" | "fneg NaN = NaN"

fun fadd :: "f64 \<Rightarrow> f64 \<Rightarrow> f64" where
  "fadd (Fin a) (Fin b) = rnd (a + b)"
| "fadd NaN y = NaN"
| "fadd x NaN = NaN"
| "fadd PInf NInf = NaN"
| "fadd NInf PInf = NaN"
| "fadd PInf y = PInf"
| "fadd NInf y = NInf"
| "fadd x PInf = PInf"
| "fadd x NInf = NInf"

definition fsub :: "f64 \<Rightarrow> f64 \<Rightarrow> f64" where
  "fsub x y = fadd x (fneg y)"

definition inf_of_sign :: "rat \<Rightarrow> f64" where
  "inf_of_sign s = (if 0 < s then PInf else if s < 0 then NInf else NaN)"

fun fmul :: "f64 \<Rightarrow> f64 \<Rightarrow> f64" where
  "fmul (Fin a) (Fin b) = rnd (a * b)"
| "fmul NaN y = NaN"
| "fmul x NaN = NaN"
| "fmul (Fin a) PInf = inf_of_sign a"
| "fmul (Fin a) NInf = inf_of_sign (- a)"
| "fmul PInf (Fin b) = inf_of_sign b"
| "fmul NInf (Fin b) = inf_of_sign (- b)"
| "fmul PInf PInf = PInf"
| "fmul NInf NInf = PInf"
| "fmul PInf NInf = NInf"
| "fmul NInf PInf = NInf"

text \<open>Division by a finite value; a divisor that is zero gives an infinity or NaN.\<close>

fun fdiv :: "f64 \<Rightarrow> f64 \<Rightarrow> f64" where
  "fdiv (Fin a) (Fin b) = (if b = 0 then inf_of_sign a else rnd (a / b))"
| "fdiv NaN y = NaN"
| "fdiv x NaN = NaN"
| "fdiv (Fin a) y = Fin 0"
| "fdiv PInf (Fin b) = (if 0 \<le> b then PInf else NInf)"
| "fdiv NInf (Fin b) = (if 0 \<le> b then NInf else PInf)"
| "fdiv x y = NaN"

fun fless :: "f64 \<Rightarrow> f64 \<Rightarrow> bool" where
  "fless (Fin a) (Fin b) = (a < b)"
| "fless NaN y = False"
| "fless x NaN = False"
| "fless x NInf = False"
| "fless NInf y = True"
| "fless PInf y = False"
| "fless x PInf = True"

fun fle :: "f64 \<Rightarrow> f64 \<Rightarrow> bool" where
  "fle (Fin a) (Fin b) = (a \<le> b)"
| "fle NaN y = False"
| "fle x NaN = False"
| "fle NInf y = True"
| "fle x NInf = False"
| "fle x PInf = True"
| "fle PInf y = False"

text \<open>\<open>math.Nextafter(x, math.Inf(1))\<close>.\<close>

fun next_up :: "f64 \<Rightarrow> f64" where
  "next_up (Fin a) =
     (if a = 0 then Fin (pow2 (- 1074))
      else if 0 < a then (let v = a + pow2 (ulp_exp a) in if pow2 1024 \<le> v then PInf else Fin v)
      else (let b = - a; u = pow2 (ulp_exp b) in
        Fin (- (if b = pow2 (ilog2 b) \<and> - 1022 < ilog2 b then b - u / 2 else b - u))))"
| "next_up PInf = PInf"
| "next_up NInf = Fin (- ((2 - pow2 (- 52)) * pow2 1023))"
| "next_up NaN = NaN"

definition f_of_int :: "int \<Rightarrow> f64" where
  "f_of_int i = rnd (of_int i)"

text \<open>\<open>math.Max\<close> and \<open>math.Abs\<close>.\<close>

fun fmax :: "f64 \<Rightarrow> f64 \<Rightarrow> f64" where
  "fmax PInf y = PInf"
| "fmax x PInf = PInf"
| "fmax NaN y = NaN"
| "fmax x NaN = NaN"
| "fmax (Fin a) (Fin b) = Fin (max a b)"
| "fmax NInf y = y"
| "fmax x NInf = x"

fun fabs :: "f64 \<Rightarrow> f64" where
  "fabs (Fin a) = Fin \<bar>a\<bar>" | "fabs NaN = NaN" | "fabs PInf = PInf" | "fabs NInf = PInf"

section \<open>Facts about rounding\<close>

lemma flog2_bounds: "0 < n \<Longrightarrow> 2 ^ flog2 n \<le> n \<and> n < 2 ^ Suc (flog2 n)"
proof (induction n rule: flog2.induct)
  case (1 n)
  show ?case
  proof (cases "n < 2")
    case True
    with "1.prems" have "n = 1" by simp
    then show ?thesis by (simp add: flog2.simps)
  next
    case False
    with "1.IH" have "2 ^ flog2 (n div 2) \<le> n div 2" "n div 2 < 2 ^ Suc (flog2 (n div 2))" by auto
    then have "2 * 2 ^ flog2 (n div 2) \<le> n" "n < 2 * 2 ^ Suc (flog2 (n div 2))" by linarith+
    with False show ?thesis by (simp add: flog2.simps [of n])
  qed
qed

lemma pow2_powi: "pow2 e = 2 powi e"
  by (simp add: pow2_def power_int_def inverse_eq_divide power_one_over)

lemma pow2_pos [simp]: "0 < pow2 e"
  by (simp add: pow2_def)

lemma pow2_nonzero [simp]: "pow2 e \<noteq> 0"
  using pow2_pos [of e] by linarith

lemma pow2_nonneg [simp]: "0 \<le> pow2 e"
  using pow2_pos [of e] by linarith

lemma pow2_add: "pow2 (a + b) = pow2 a * pow2 b"
  by (simp add: pow2_powi power_int_add)

lemma pow2_diff: "pow2 (a - b) = pow2 a / pow2 b"
  by (simp add: pow2_powi power_int_diff)

lemma pow2_minus: "pow2 (- a) = 1 / pow2 a"
  by (simp add: pow2_powi power_int_minus inverse_eq_divide)

lemma pow2_0 [simp]: "pow2 0 = 1" and pow2_1 [simp]: "pow2 1 = 2"
  by (simp_all add: pow2_def)

lemma pow2_of_nat: "pow2 (int n) = 2 ^ n"
  by (simp add: pow2_def)

lemma pow2_less [simp]: "pow2 a < pow2 b \<longleftrightarrow> a < b"
proof -
  have mono: "pow2 m < pow2 n" if "m < n" for m n
    using power_int_strict_increasing [OF that, of "2 :: rat"] by (simp add: pow2_powi)
  show ?thesis by (metis mono linorder_neqE_linordered_idom less_asym less_irrefl)
qed

lemma pow2_le [simp]: "pow2 a \<le> pow2 b \<longleftrightarrow> a \<le> b"
  by (metis pow2_less linorder_not_le)

lemma flog2_floor: "1 \<le> (b :: rat) \<Longrightarrow>
  2 ^ flog2 (nat \<lfloor>b\<rfloor>) \<le> b \<and> b < 2 ^ Suc (flog2 (nat \<lfloor>b\<rfloor>))"
proof -
  assume b: "1 \<le> b"
  define n where "n = nat \<lfloor>b\<rfloor>"
  from b have fl: "1 \<le> \<lfloor>b\<rfloor>" by (simp add: le_floor_iff)
  then have n: "rat_of_nat n = of_int \<lfloor>b\<rfloor>" "0 < n" by (simp_all add: n_def)
  from flog2_bounds [OF n(2)] have "2 ^ flog2 n \<le> n" "n + 1 \<le> 2 ^ Suc (flog2 n)" by auto
  then have "rat_of_nat (2 ^ flog2 n) \<le> of_nat n" "rat_of_nat (n + 1) \<le> of_nat (2 ^ Suc (flog2 n))"
    by (simp_all only: of_nat_le_iff)
  then have "2 ^ flog2 n \<le> rat_of_nat n" "rat_of_nat n + 1 \<le> 2 ^ Suc (flog2 n)" by simp_all
  with n(1) floor_correct [of b] show ?thesis unfolding n_def [symmetric] by linarith
qed

lemma ilog2_bounds: "0 < a \<Longrightarrow> pow2 (ilog2 a) \<le> a \<and> a < pow2 (ilog2 a + 1)"
proof (cases "1 \<le> a")
  case True
  from flog2_floor [OF this] True show ?thesis
    by (simp add: ilog2_def pow2_add pow2_of_nat)
next
  case False
  assume a: "0 < a"
  define j where "j = flog2 (nat \<lfloor>1 / a\<rfloor>)"
  have "1 \<le> 1 / a" using a False by simp
  from flog2_floor [OF this] have j: "2 ^ j \<le> 1 / a" "1 / a < 2 * 2 ^ j"
    by (simp_all add: j_def)
  then have j': "2 ^ j * a \<le> 1" "1 < 2 * 2 ^ j * a" using a by (simp_all add: field_simps)
  show ?thesis
  proof (cases "2 ^ j * a = 1")
    case True
    then have l: "ilog2 a = - int j" using False by (simp add: ilog2_def Let_def j_def)
    from True have "a = 1 / 2 ^ j" by (simp add: field_simps)
    then have aj: "a = pow2 (- int j)" by (simp add: pow2_minus pow2_of_nat)
    have "a = pow2 (ilog2 a)" unfolding l by (rule aj)
    moreover have "pow2 (ilog2 a) < pow2 (ilog2 a + 1)" by simp
    ultimately show ?thesis by (metis order_refl)
  next
    case ne: False
    then have l: "ilog2 a = - int (Suc j)" using False by (simp add: ilog2_def Let_def j_def)
    have eqs: "pow2 (ilog2 a) = 1 / (2 * 2 ^ j)" "pow2 (ilog2 a + 1) = 1 / 2 ^ j"
      using pow2_minus [of "int (Suc j)"] pow2_minus [of "int j"] pow2_of_nat [of "Suc j"] pow2_of_nat [of j]
      by (simp_all add: l)
    have "1 / (2 * 2 ^ j) \<le> a" "a < 1 / 2 ^ j"
      using ne j' by (simp_all add: divide_le_eq less_divide_eq mult_ac)
    then show ?thesis unfolding eqs by simp
  qed
qed

lemma ilog2_unique:
  assumes "pow2 e \<le> a" "a < pow2 (e + 1)"
  shows "ilog2 a = e"
proof -
  have "0 < a" using assms(1) pow2_pos [of e] by linarith
  from ilog2_bounds [OF this] assms have "pow2 (ilog2 a) < pow2 (e + 1)" "pow2 e < pow2 (ilog2 a + 1)"
    by linarith+
  then show ?thesis by simp
qed

lemma round_even_near: "\<bar>of_int (round_even q) - q\<bar> \<le> 1 / 2"
proof -
  have "of_int \<lfloor>q\<rfloor> \<le> q" "q < of_int \<lfloor>q\<rfloor> + 1" by linarith+
  then show ?thesis unfolding round_even_def Let_def by (auto simp: abs_le_iff)
qed

lemma round_even_int [simp]: "round_even (of_int k) = k"
  by (simp add: round_even_def Let_def)

lemma round_even_ge_int: "of_int k \<le> q \<Longrightarrow> k \<le> round_even q"
proof -
  assume "of_int k \<le> q"
  then have "k \<le> \<lfloor>q\<rfloor>" by (simp add: le_floor_iff)
  then show ?thesis unfolding round_even_def Let_def by auto
qed

lemma round_even_nonneg: "0 \<le> q \<Longrightarrow> 0 \<le> round_even q"
  using round_even_ge_int [of 0 q] by simp

text \<open>A rational \<open>m * 2^e\<close> with a 53-bit significand in range is represented exactly.\<close>

lemma rnd_exact:
  assumes "x = of_int m * pow2 e" "\<bar>m\<bar> < 2 ^ 53" "- 1074 \<le> e" "\<bar>x\<bar> < pow2 1024"
  shows "rnd x = Fin x"
proof (cases "x = 0")
  case False
  define a where "a = \<bar>x\<bar>"
  have a: "0 < a" "a = of_int \<bar>m\<bar> * pow2 e" using assms(1) False by (simp_all add: a_def abs_mult)
  have "(of_int \<bar>m\<bar> :: rat) < 2 ^ 53" using assms(2) by (metis of_int_less_iff of_int_numeral of_int_power)
  then have "a < 2 ^ 53 * pow2 e" using a(2) by simp
  also have "2 ^ 53 * pow2 e = pow2 (53 + e)" using pow2_of_nat [of 53] by (simp add: pow2_add)
  finally have "pow2 (ilog2 a) < pow2 (53 + e)" using ilog2_bounds [OF a(1)] by linarith
  then have le: "ulp_exp a \<le> e" using assms(3) by (simp add: ulp_exp_def)
  define k where "k = \<bar>m\<bar> * 2 ^ nat (e - ulp_exp a)"
  have "pow2 e = pow2 (int (nat (e - ulp_exp a)) + ulp_exp a)" using le by simp
  then have "pow2 e = 2 ^ nat (e - ulp_exp a) * pow2 (ulp_exp a)"
    by (simp only: pow2_add pow2_of_nat)
  then have k: "a = of_int k * pow2 (ulp_exp a)"
    using a(2) by (simp add: k_def)
  then have q: "a / pow2 (ulp_exp a) = of_int k"
    by (metis nonzero_mult_div_cancel_right pow2_nonzero)
  have "of_int (round_even (a / pow2 (ulp_exp a))) * pow2 (ulp_exp a) = a"
    unfolding q round_even_int by (rule k [symmetric])
  with assms(4) False show ?thesis
    by (auto simp: rnd_def Let_def simp flip: a_def) (auto simp: a_def)
qed (simp add: rnd_def)

lemma rnd_of_int: "\<bar>i\<bar> < 2 ^ 53 \<Longrightarrow> rnd (of_int i) = Fin (of_int i)"
proof (rule rnd_exact [of _ i 0])
  assume i: "\<bar>i\<bar> < 2 ^ 53"
  have "\<bar>of_int i :: rat\<bar> < 2 ^ 53" using i by (metis of_int_abs of_int_less_iff of_int_numeral of_int_power)
  also have "(2 :: rat) ^ 53 = pow2 53" by (simp add: pow2_def)
  also have "pow2 53 < pow2 1024" by simp
  finally show "\<bar>of_int i :: rat\<bar> < pow2 1024" .
qed auto

lemma rnd_numeral [go_simps]:
  "rnd 0 = Fin 0" "rnd 1 = Fin 1"
  "(numeral n :: int) < 2 ^ 53 \<Longrightarrow> rnd (numeral n) = Fin (numeral n)"
  using rnd_of_int [of 0] rnd_of_int [of 1] rnd_of_int [of "numeral n"] by auto

section \<open>Error bounds\<close>

text \<open>The unit roundoff.\<close>

abbreviation uro :: rat where "uro \<equiv> pow2 (- 53)"

lemma uro_small: "uro \<le> 1 / 2 ^ 52" "0 < uro" "uro \<le> 1 / 4"
  by (simp_all add: pow2_def)

text \<open>In the normal range one rounding has a relative error of at most \<open>2^-53\<close>.\<close>

lemma rnd_normal:
  assumes lo: "pow2 (- 1022) \<le> x" and hi: "x \<le> pow2 1000"
  obtains v where "rnd x = Fin v" "\<bar>v - x\<bar> \<le> x * uro" "\<bar>v - x\<bar> \<le> pow2 (ilog2 x - 53)"
    "pow2 (ilog2 x) \<le> v"
proof -
  define e where "e = ilog2 x"
  define u where "u = pow2 (e - 52)"
  have x: "0 < x" using lo pow2_pos [of "- 1022"] by linarith
  from ilog2_bounds [OF x] have b: "pow2 e \<le> x" "x < pow2 (e + 1)" by (simp_all add: e_def)
  with lo have "pow2 (- 1022) < pow2 (e + 1)" by linarith
  then have ue: "ulp_exp x = e - 52" by (simp add: ulp_exp_def e_def)
  define v where "v = of_int (round_even (x / u)) * u"
  have u: "0 < u" by (simp add: u_def)
  have "\<bar>of_int (round_even (x / u)) - x / u\<bar> * u \<le> 1 / 2 * u"
    using round_even_near [of "x / u"] u by (intro mult_right_mono) simp_all
  also have "\<bar>of_int (round_even (x / u)) - x / u\<bar> * u = \<bar>(of_int (round_even (x / u)) - x / u) * u\<bar>"
    using u by (simp add: abs_mult)
  also have "(of_int (round_even (x / u)) - x / u) * u = v - x"
    using u by (simp add: v_def left_diff_distrib)
  also have "1 / 2 * u = pow2 (e - 53)"
    using pow2_add [of "e - 53" 1] by (simp add: u_def)
  finally have near: "\<bar>v - x\<bar> \<le> pow2 (e - 53)" .
  moreover have "pow2 (e - 53) = pow2 e * uro" using pow2_add [of e "- 53"] by simp
  moreover have "pow2 e * uro \<le> x * uro" using b(1) by (intro mult_right_mono) simp_all
  ultimately have rel: "\<bar>v - x\<bar> \<le> x * uro" by linarith
  have "pow2 e = of_int (2 ^ 52) * u" using pow2_add [of 52 "e - 52"] pow2_of_nat [of 52] by (simp add: u_def)
  with b(1) u have "of_int (2 ^ 52) \<le> x / u" by (simp add: pos_le_divide_eq)
  then have "2 ^ 52 \<le> round_even (x / u)" by (rule round_even_ge_int)
  then have "of_int (2 ^ 52) * u \<le> v"
    unfolding v_def using u by (intro mult_right_mono) (simp_all only: of_int_le_iff less_imp_le)
  with \<open>pow2 e = _\<close> have ge: "pow2 e \<le> v" by simp
  have "x * uro \<le> x" using uro_small(3) x by (simp add: mult_left_le)
  with rel hi have "v \<le> 2 * pow2 1000" by linarith
  also have "2 * pow2 1000 = pow2 1001" using pow2_add [of 1 1000] by simp
  also have "pow2 1001 < pow2 1024" by simp
  finally have "rnd x = Fin v"
    using x by (simp add: rnd_def Let_def ue v_def u_def)
  with near rel ge show thesis by (intro that) (simp_all add: e_def)
qed

text \<open>A running sum, as the loops over voting power compute it.\<close>

definition fsum :: "f64 list \<Rightarrow> f64" where
  "fsum xs = foldl fadd (Fin 0) xs"

lemma fsum_Nil [simp]: "fsum [] = Fin 0"
  by (simp add: fsum_def)

lemma fsum_snoc [simp]: "fsum (xs @ [x]) = fadd (fsum xs) x"
  by (simp add: fsum_def)

lemma one_minus_power: "0 \<le> u \<Longrightarrow> u \<le> 1 \<Longrightarrow> 1 - of_nat n * u \<le> (1 - u :: rat) ^ n"
proof (induction n)
  case (Suc n)
  then have "(1 - of_nat n * u) * (1 - u) \<le> (1 - u) ^ n * (1 - u)"
    by (intro mult_right_mono) simp_all
  moreover have "1 - of_nat (Suc n) * u \<le> (1 - of_nat n * u) * (1 - u)"
    using Suc.prems by (simp add: algebra_simps)
  ultimately show ?case by (simp add: mult.commute)
qed simp

lemma of_nat_le_pow40: "n \<le> 2 ^ 40 \<Longrightarrow> rat_of_nat n \<le> 2 ^ 40"
  by (metis of_nat_le_iff of_nat_numeral of_nat_power)

lemma pow_uro_bounds:
  assumes "n \<le> 2 ^ 40"
  shows "1 - 1 / 2 ^ 12 \<le> (1 - uro) ^ n" "(1 + uro) ^ n \<le> 1 + 1 / 2 ^ 11"
proof -
  have "of_nat n * uro \<le> 2 ^ 40 * (1 / 2 ^ 52)"
    by (rule mult_mono [OF of_nat_le_pow40 [OF assms] uro_small(1)]) simp_all
  then have n: "of_nat n * uro \<le> 1 / 2 ^ 12" by simp
  have u: "0 \<le> uro" "uro \<le> 1" using uro_small by simp_all
  from one_minus_power [OF u, of n] n show lo: "1 - 1 / 2 ^ 12 \<le> (1 - uro) ^ n" by linarith
  have "(1 + uro) ^ n * (1 - uro) ^ n = ((1 + uro) * (1 - uro)) ^ n" by (simp add: power_mult_distrib)
  also have "\<dots> \<le> 1" using u by (intro power_le_one) (simp_all add: algebra_simps mult_le_one)
  finally have "(1 + uro) ^ n * (1 - uro) ^ n \<le> 1" .
  moreover have "(1 + uro) ^ n * (1 - 1 / 2 ^ 12) \<le> (1 + uro) ^ n * (1 - uro) ^ n"
    using lo u by (intro mult_left_mono) simp_all
  ultimately show "(1 + uro) ^ n \<le> 1 + 1 / 2 ^ 11" by simp
qed

definition power_ok :: "rat \<Rightarrow> bool" where
  "power_ok p \<longleftrightarrow> pow2 (- 1000) \<le> p \<and> p \<le> pow2 900"

lemma sum_power_le:
  "\<forall>p \<in> set ps. power_ok p \<Longrightarrow> sum_list ps \<le> of_nat (length ps) * pow2 900"
  by (induction ps) (auto simp: power_ok_def algebra_simps)

lemma sum_power_nonneg: "\<forall>p \<in> set ps. power_ok p \<Longrightarrow> 0 \<le> sum_list ps"
  by (rule sum_list_nonneg) (auto simp: power_ok_def intro: order_trans [OF less_imp_le [OF pow2_pos]])

lemma sum_power_pos: "\<forall>p \<in> set ps. power_ok p \<Longrightarrow> ps \<noteq> [] \<Longrightarrow> pow2 (- 1000) \<le> sum_list ps"
  using sum_power_nonneg [of "tl ps"] by (cases ps) (auto simp: power_ok_def)

lemma fsum_bounds:
  assumes "\<forall>p \<in> set ps. power_ok p" "length ps \<le> 2 ^ 40"
  shows "\<exists>s. fsum (map Fin ps) = Fin s \<and>
    (1 - uro) ^ length ps * sum_list ps \<le> s \<and> s \<le> (1 + uro) ^ length ps * sum_list ps \<and>
    (if ps = [] then s = 0 else pow2 (- 1001) \<le> s)"
  using assms
proof (induction ps rule: rev_induct)
  case (snoc p ps)
  let ?S = "sum_list ps" and ?n = "length ps"
  from snoc obtain s where s: "fsum (map Fin ps) = Fin s"
    "(1 - uro) ^ ?n * ?S \<le> s" "s \<le> (1 + uro) ^ ?n * ?S" "if ps = [] then s = 0 else pow2 (- 1001) \<le> s"
    by auto
  have p: "power_ok p" and ok: "\<forall>p \<in> set ps. power_ok p" and n: "?n \<le> 2 ^ 40"
    using snoc.prems by auto
  note S0 = sum_power_nonneg [OF ok]
  have pl: "pow2 (- 1000) \<le> p" "p \<le> pow2 900" using p by (simp_all add: power_ok_def)
  have p0: "0 < p" using pl(1) pow2_pos [of "- 1000"] by linarith
  have s0: "0 \<le> s" using s(4) by (auto split: if_splits intro: order_trans [OF less_imp_le [OF pow2_pos]])
  have x1: "pow2 (- 1000) \<le> s + p" using pl s0 by linarith
  have "?S \<le> of_nat ?n * pow2 900" by (rule sum_power_le [OF ok])
  also have "\<dots> \<le> 2 ^ 40 * pow2 900"
    by (rule mult_right_mono [OF of_nat_le_pow40 [OF n]]) simp
  also have "(2 :: rat) ^ 40 = pow2 40" by (simp add: pow2_def)
  also have "pow2 40 * pow2 900 = pow2 940" using pow2_add [of 40 900] by simp
  finally have "?S \<le> pow2 940" .
  have "(1 + uro) ^ ?n \<le> 2" using pow_uro_bounds(2) [OF n] by simp
  then have "(1 + uro) ^ ?n * ?S \<le> 2 * pow2 940"
    using \<open>?S \<le> pow2 940\<close> S0 by (intro mult_mono) simp_all
  moreover have "pow2 900 \<le> pow2 940" "pow2 942 \<le> pow2 1000" by simp_all
  moreover have "3 * pow2 940 \<le> pow2 942" using pow2_add [of 2 940] pow2_of_nat [of 2] by simp
  ultimately have x2: "s + p \<le> pow2 1000" using s(3) pl by linarith
  have "pow2 (- 1022) \<le> pow2 (- 1000)" by simp
  then have "pow2 (- 1022) \<le> s + p" using x1 by linarith
  then obtain v where v: "rnd (s + p) = Fin v" "\<bar>v - (s + p)\<bar> \<le> (s + p) * uro"
    using x2 by (rule rnd_normal)
  have e: "(s + p) * (1 - uro) \<le> v" "v \<le> (s + p) * (1 + uro)"
    using v(2) by (simp_all add: algebra_simps abs_le_iff)
  have u: "0 \<le> uro" "uro \<le> 1" using uro_small by simp_all
  have le1: "(1 - uro) ^ ?n \<le> 1" using u by (intro power_le_one) simp_all
  have ge1: "1 \<le> (1 + uro) ^ ?n" using u by (intro one_le_power) simp
  have "(1 - uro) ^ ?n * (?S + p) \<le> s + p"
    using s(2) mult_right_mono [OF le1 less_imp_le [OF p0]] by (simp add: distrib_left)
  then have "(1 - uro) ^ ?n * (?S + p) * (1 - uro) \<le> v"
    using e(1) u by (meson mult_right_mono order_trans diff_ge_0_iff_ge)
  moreover have "s + p \<le> (1 + uro) ^ ?n * (?S + p)"
    using s(3) mult_right_mono [OF ge1 less_imp_le [OF p0]] by (simp add: distrib_left)
  then have "v \<le> (1 + uro) ^ ?n * (?S + p) * (1 + uro)"
    using e(2) u by (meson mult_right_mono order_trans add_nonneg_nonneg zero_le_one)
  moreover have "pow2 (- 1001) \<le> v"
  proof -
    have "pow2 (- 1001) = pow2 (- 1000) * (1 / 2)" using pow2_add [of "- 1001" 1] by simp
    also have "\<dots> \<le> (s + p) * (1 - uro)" using x1 uro_small(3) s0 p0 by (intro mult_mono) simp_all
    finally show ?thesis using e(1) by linarith
  qed
  ultimately show ?case using s(1) v(1) by (simp add: mult_ac)
qed simp

text \<open>Doubling and taking the next value up are well behaved away from the ends of the range.\<close>

definition is_f64 :: "rat \<Rightarrow> bool" where
  "is_f64 x \<longleftrightarrow> rnd x = Fin x"

lemma rnd_double:
  assumes "is_f64 t" "pow2 (- 1022) \<le> t" "t \<le> pow2 999"
  shows "rnd (2 * t) = Fin (2 * t)"
proof -
  have t: "0 < t" using assms(2) pow2_pos [of "- 1022"] by linarith
  note b = ilog2_bounds [OF t]
  have l2: "ilog2 (2 * t) = ilog2 t + 1"
  proof (rule ilog2_unique)
    show "pow2 (ilog2 t + 1) \<le> 2 * t" using b by (simp add: pow2_add)
    show "2 * t < pow2 (ilog2 t + 1 + 1)" using b pow2_add [of "ilog2 t + 1" 1] by simp
  qed
  from b assms(2) have "pow2 (- 1022) < pow2 (ilog2 t + 1)" by linarith
  then have e: "ulp_exp t = ilog2 t - 52" "ulp_exp (2 * t) = ulp_exp t + 1"
    by (simp_all add: ulp_exp_def l2)
  let ?u = "pow2 (ulp_exp t)"
  have u2: "pow2 (ulp_exp (2 * t)) = 2 * ?u" by (simp add: e(2) pow2_add)
  have "pow2 999 < pow2 1023" by simp
  then have "t < pow2 1023" using assms(3) by linarith
  moreover have "pow2 1024 = 2 * pow2 1023" using pow2_add [of 1 1023] by simp
  moreover have "of_int (round_even (t / ?u)) * ?u = t"
    using assms(1) t unfolding is_f64_def rnd_def Let_def by (auto split: if_splits)
  moreover have "\<bar>2 * t\<bar> = 2 * t" "2 * t / (2 * ?u) = t / ?u" using t by simp_all
  ultimately show ?thesis using t unfolding rnd_def Let_def u2 by (simp add: u2)
qed

lemma next_up_gt:
  assumes "pow2 (- 1022) \<le> y" "y \<le> pow2 1000"
  obtains r where "(case rnd y of Fin v \<Rightarrow> next_up (Fin v) | z \<Rightarrow> z) = Fin r" "y < r" "r \<le> y * (1 + 8 * uro)"
proof -
  from assms obtain v where v: "rnd y = Fin v" "\<bar>v - y\<bar> \<le> y * uro" "\<bar>v - y\<bar> \<le> pow2 (ilog2 y - 53)"
    "pow2 (ilog2 y) \<le> v" by (rule rnd_normal)
  have y: "0 < y" using assms(1) pow2_pos [of "- 1022"] by linarith
  note b = ilog2_bounds [OF y]
  have v0: "0 < v" using v(4) pow2_pos [of "ilog2 y"] by linarith
  note bv = ilog2_bounds [OF v0]
  from b assms(1) have "pow2 (- 1022) < pow2 (ilog2 y + 1)" by linarith
  then have e: "- 1022 \<le> ilog2 y" by simp
  from v(4) bv have "pow2 (ilog2 y) < pow2 (ilog2 v + 1)" by linarith
  then have le: "ilog2 y \<le> ilog2 v" by simp
  then have uv: "ulp_exp v = ilog2 v - 52" using e by (simp add: ulp_exp_def)
  have "pow2 (ilog2 y - 53) < pow2 (ilog2 v - 52)" using le by simp
  moreover have "y - v \<le> pow2 (ilog2 y - 53)" using v(3) by (simp add: abs_le_iff)
  ultimately have gt: "y < v + pow2 (ulp_exp v)" unfolding uv by linarith
  have "pow2 (ulp_exp v) = pow2 (ilog2 v) * (2 * uro)"
    using pow2_add [of "ilog2 v" "- 52"] pow2_add [of 1 "- 53"] by (simp add: uv)
  also have "\<dots> \<le> v * (2 * uro)" using bv by (intro mult_right_mono) simp_all
  finally have ulp: "pow2 (ulp_exp v) \<le> v * (2 * uro)" .
  have vy: "v \<le> y * (1 + uro)" using v(2) by (simp add: algebra_simps abs_le_iff)
  also have "\<dots> \<le> y * 2" using y uro_small(3) by (intro mult_left_mono) simp_all
  finally have v2: "v \<le> y * 2" .
  define w where "w = y * uro"
  have w: "0 < w" "v \<le> y + w" using y v(2) by (simp_all add: w_def abs_le_iff)
  have "v * (2 * uro) \<le> (y * 2) * (2 * uro)" using v2 by (intro mult_right_mono) simp_all
  also have "\<dots> = 4 * w" by (simp add: w_def)
  finally have "v + pow2 (ulp_exp v) \<le> y + 8 * w" using ulp w by linarith
  then have up: "v + pow2 (ulp_exp v) \<le> y * (1 + 8 * uro)" by (simp add: w_def distrib_left)
  also have "\<dots> \<le> pow2 1000 * 4"
    using assms(2) uro_small(3) y by (intro mult_mono) simp_all
  also have "\<dots> = pow2 1002" using pow2_add [of 1000 2] pow2_of_nat [of 2] by simp
  also have "pow2 1002 < pow2 1024" by simp
  finally have "next_up (Fin v) = Fin (v + pow2 (ulp_exp v))"
    using v0 by (simp add: Let_def)
  with v(1) gt up show thesis by (intro that) simp_all
qed

end
