(* ===== verification/Crypto.thy ===== *)
theory Crypto
  imports GoBase
begin

text \<open>
  What the modelled code takes from outside the repository or from primitives that are not
  computed here: SHA-256 and ECDSA public-key recovery (\<open>crypto.SigToPub\<close> of go-ethereum on the
  \<open>accounts.TextHash\<close> of a message, read back as the checksummed address). They are the fields of
  the record \<open>crypto\<close>, an argument of every definition that uses them. Hexadecimal and
  \<open>strconv\<close> are the standard library's and are defined here.
\<close>

record crypto =
  sha256 :: "string \<Rightarrow> string"
  recover :: "string \<Rightarrow> string \<Rightarrow> string option"

definition hex_digit :: "nat \<Rightarrow> char" where
  "hex_digit d = (if d < 10 then char_of (48 + d) else char_of (87 + d))"

definition hex_val :: "char \<Rightarrow> nat option" where
  "hex_val c = (let n = (of_char c :: nat) in
     if 48 \<le> n \<and> n \<le> 57 then Some (n - 48)
     else if 97 \<le> n \<and> n \<le> 102 then Some (n - 87)
     else if 65 \<le> n \<and> n \<le> 70 then Some (n - 55) else None)"

text \<open>\<open>hex.EncodeToString\<close> and \<open>hex.DecodeString\<close>.\<close>

fun hex_encode :: "string \<Rightarrow> string" where
  "hex_encode [] = []"
| "hex_encode (c # cs) =
     hex_digit ((of_char c :: nat) div 16) # hex_digit ((of_char c :: nat) mod 16) # hex_encode cs"

fun hex_decode :: "string \<Rightarrow> string option" where
  "hex_decode [] = Some []"
| "hex_decode [c] = None"
| "hex_decode (a # b # cs) =
     (case hex_val a of None \<Rightarrow> None | Some x \<Rightarrow>
       (case hex_val b of None \<Rightarrow> None | Some y \<Rightarrow>
         (case hex_decode cs of None \<Rightarrow> None | Some r \<Rightarrow> Some (char_of (16 * x + y) # r))))"

text \<open>The same on the bits of a character.\<close>

definition nibbleDigit :: "bool \<Rightarrow> bool \<Rightarrow> bool \<Rightarrow> bool \<Rightarrow> char" where
  "nibbleDigit b3 b2 b1 b0 = (if b3 then 
       (if b2 then (if b1 then (if b0 then CHR ''f'' else CHR ''e'') else (if b0 then CHR ''d'' else CHR ''c'')) else (if b1 then (if b0 then CHR ''b'' else CHR ''a'') else (if b0 then CHR ''9'' else CHR ''8''))) else 
       (if b2 then (if b1 then (if b0 then CHR ''7'' else CHR ''6'') else (if b0 then CHR ''5'' else CHR ''4'')) else (if b1 then (if b0 then CHR ''3'' else CHR ''2'') else (if b0 then CHR ''1'' else CHR ''0''))))"

definition octal :: "bool \<Rightarrow> bool \<Rightarrow> bool \<Rightarrow> nat" where
  "octal b2 b1 b0 = (if b2 then (if b1 then (if b0 then 7 else 6) else (if b0 then 5 else 4)) else (if b1 then (if b0 then 3 else 2) else (if b0 then 1 else 0)))"

lemma hex_encode_Nil [code]: "hex_encode [] = []"
  by simp

lemma hex_encode_Char [code]:
  "hex_encode (Char b0 b1 b2 b3 b4 b5 b6 b7 # cs) = nibbleDigit b7 b6 b5 b4 # nibbleDigit b3 b2 b1 b0 # hex_encode cs"
  by (cases b0; cases b1; cases b2; cases b3; cases b4; cases b5; cases b6; cases b7;
      simp add: nibbleDigit_def hex_digit_def char_of_def bit_0)

lemma hex_val_code [code]:
  "hex_val (Char b0 b1 b2 b3 b4 b5 b6 b7) =
     (if b7 then None
      else if b6 then (if b4 \<or> b3 \<or> \<not> (b2 \<or> b1 \<or> b0) \<or> b2 \<and> b1 \<and> b0 then None else Some (9 + octal b2 b1 b0))
      else if b5 \<and> b4 \<and> \<not> (b3 \<and> (b2 \<or> b1)) then Some (if b3 then (if b0 then 9 else 8) else octal b2 b1 b0) else None)"
  by (cases b0; cases b1; cases b2; cases b3; cases b4; cases b5; cases b6; cases b7; simp add: hex_val_def octal_def)

lemma hex_val_digit: "d < 16 \<Longrightarrow> hex_val (hex_digit d) = Some d"
  by (auto simp: hex_val_def hex_digit_def Let_def of_char_of)

lemma hex_decode_encode [simp]: "hex_decode (hex_encode s) = Some s"
proof (induction s)
  case (Cons c s)
  have "(of_char c :: nat) div 16 < 16"
    using of_char_bound [of c] by (simp add: less_mult_imp_div_less)
  then have "hex_val (hex_digit ((of_char c :: nat) div 16)) = Some ((of_char c :: nat) div 16)"
    by (rule hex_val_digit)
  moreover have "hex_val (hex_digit ((of_char c :: nat) mod 16)) = Some ((of_char c :: nat) mod 16)"
    by (rule hex_val_digit) simp
  moreover have "char_of (16 * ((of_char c :: nat) div 16) + (of_char c :: nat) mod 16) = c"
    by (simp add: mult_div_mod_eq)
  ultimately show ?case using Cons by simp
qed simp

lemma hex_encode_inject [simp]: "hex_encode a = hex_encode b \<longleftrightarrow> a = b"
  by (metis hex_decode_encode option.inject)

definition trim_prefix :: "string \<Rightarrow> string \<Rightarrow> string" where
  "trim_prefix s p = (if has_prefix s p then drop (length p) s else s)"

definition hex0x :: "string \<Rightarrow> string" where
  "hex0x bytes = ''0x'' @ hex_encode bytes"

text \<open>\<open>%d\<close> on an unsigned value, and \<open>strconv.ParseUint(s, 10, 64)\<close>.\<close>

definition u64_str :: "u64 \<Rightarrow> string" where
  "u64_str h = nat_str (unat h)"

definition u32_str :: "u32 \<Rightarrow> string" where
  "u32_str r = nat_str (unat r)"

definition parse_uint64 :: "string \<Rightarrow> u64 option" where
  "parse_uint64 s = (if s = [] then None else
     (case parse_digits 0 s of None \<Rightarrow> None
      | Some n \<Rightarrow> if n < 2 ^ 64 then Some (of_nat n) else None))"

lemma parse_u64_str [simp]: "parse_uint64 (u64_str h) = Some h"
proof -
  have "unat h < 2 ^ 64" using unsigned_less [of h] by simp
  then show ?thesis by (simp add: parse_uint64_def u64_str_def)
qed

text \<open>\<open>strings.Cut(s, "/")\<close>: the part before the first slash, if there is one.\<close>

definition cut_slash :: "string \<Rightarrow> (string \<times> string) option" where
  "cut_slash s = (if CHR ''/'' \<in> set s
     then Some (takeWhile (\<lambda>c. c \<noteq> CHR ''/'') s, tl (dropWhile (\<lambda>c. c \<noteq> CHR ''/'') s)) else None)"

lemma digit_char_not_slash: "d < 10 \<Longrightarrow> digit_char d \<noteq> CHR ''/''"
  by (drule of_char_digit_char, auto)

lemma nat_str_no_slash: "CHR ''/'' \<notin> set (nat_str n)"
  using set_nat_str digit_char_not_slash by metis

lemma takeWhile_no_slash: "CHR ''/'' \<notin> set s \<Longrightarrow>
    takeWhile (\<lambda>c. c \<noteq> CHR ''/'') (s @ CHR ''/'' # t) = s"
  by (induction s) auto

lemma dropWhile_no_slash: "CHR ''/'' \<notin> set s \<Longrightarrow>
    dropWhile (\<lambda>c. c \<noteq> CHR ''/'') (s @ CHR ''/'' # t) = CHR ''/'' # t"
  by (induction s) auto

lemma cut_slash_append: "CHR ''/'' \<notin> set s \<Longrightarrow> cut_slash (s @ CHR ''/'' # t) = Some (s, t)"
  by (simp add: cut_slash_def takeWhile_no_slash dropWhile_no_slash)

lemma slash_append_inject:
  assumes "CHR ''/'' \<notin> set s" "CHR ''/'' \<notin> set s'"
  shows "s @ CHR ''/'' # t = s' @ CHR ''/'' # t' \<longleftrightarrow> s = s' \<and> t = t'"
  by (metis assms cut_slash_append option.inject prod.inject)

lemma nat_str_inject [simp]: "nat_str m = nat_str n \<longleftrightarrow> m = n"
  by (metis option.inject parse_digits_nat_str)

lemma u64_str_inject [simp]: "u64_str a = u64_str b \<longleftrightarrow> a = b"
  by (simp add: u64_str_def word_unat_eq_iff)

lemma u32_str_inject [simp]: "u32_str a = u32_str b \<longleftrightarrow> a = b"
  by (simp add: u32_str_def word_unat_eq_iff)

lemma str_no_slash [simp]: "CHR ''/'' \<notin> set (u64_str a)" "CHR ''/'' \<notin> set (u32_str b)"
  by (simp_all add: u64_str_def u32_str_def nat_str_no_slash)

end
