(* ===== verification/ConsensusState.thy ===== *)
theory ConsensusState
  imports Float64 Crypto
begin

text \<open>
  The BFT engine's data (\<open>BlockchainComponent/consensus_bft.go\<close>, \<open>consensus_vrf.go\<close>) and its
  round timer: \<open>ConsensusVote\<close>, \<open>QuorumCertificate\<close>, the timeout and VRF counterparts, the struct
  \<open>BFTConsensusState\<close> and the operations that only touch rounds and history. The mutex is not
  modelled: every operation holds it from its first read to its return, so operations are atomic
  steps. \<open>time.Now\<close> is an argument.
\<close>

definition StepPrevote :: string where "StepPrevote = ''prevote''"
definition StepPrecommit :: string where "StepPrecommit = ''precommit''"

lemma step_distinct [simp]: "StepPrevote \<noteq> StepPrecommit" "StepPrecommit \<noteq> StepPrevote"
  by (simp_all add: StepPrevote_def StepPrecommit_def)

record ValidatorPower =
  vp_Address :: string
  vp_Power :: f64
  vp_NativeBondWeight :: f64
  vp_LiquidityCredit :: f64
  vp_HybridBonded :: bool

record ConsensusVote =
  cv_Height :: u64
  cv_Round :: u32
  cv_Step :: string
  cv_BlockHash :: string
  cv_Validator :: string
  cv_Signature :: string

record QuorumCertificate =
  qc_Height :: u64
  qc_Round :: u32
  qc_Step :: string
  qc_BlockHash :: string
  qc_VotingPower :: f64
  qc_RequiredPower :: f64
  qc_Validators :: "string list"
  qc_Randomness :: string
  qc_Hash :: string

record ConsensusTimeoutVote =
  tv_Height :: u64
  tv_Round :: u32
  tv_Validator :: string
  tv_Signature :: string

record TimeoutCertificate =
  tc_Height :: u64
  tc_Round :: u32
  tc_VotingPower :: f64
  tc_RequiredPower :: f64
  tc_Validators :: "string list"
  tc_Hash :: string

record EquivocationEvidence =
  ee_Validator :: string
  ee_Height :: u64
  ee_Round :: u32
  ee_Step :: string
  ee_VoteA :: ConsensusVote
  ee_VoteB :: ConsensusVote
  ee_Hash :: string

record ValidatorSetTransition =
  st_ActivationHeight :: u64
  st_OldSet :: "ValidatorPower list"
  st_NewSet :: "ValidatorPower list"

record ConsensusVRFProof =
  vrf_Height :: u64
  vrf_Round :: u32
  vrf_SpecHash :: string
  vrf_Seed :: string
  vrf_Validator :: string
  vrf_Suite :: string
  vrf_PublicKey :: string
  vrf_Proof :: string
  vrf_Output :: string
  vrf_KeyBinding :: string

record ConsensusVRFBeacon =
  vb_Height :: u64
  vb_Round :: u32
  vb_Seed :: string
  vb_Output :: string
  vb_Validators :: "string list"
  vb_VotingPower :: f64
  vb_RequiredPower :: f64
  vb_Finalized :: bool

record BFTConsensusState =
  EpochLength :: u64
  ActiveSet :: "ValidatorPower list"
  PendingTransition :: "ValidatorSetTransition option"
  Votes :: "(string, (string, ConsensusVote) gomap) gomap"
  LockedHash :: string
  LockedRound :: u32
  LastQC :: "QuorumCertificate option"
  Evidence :: "EquivocationEvidence list"
  MaxLiquidityCreditBPS :: u32
  CurrentRounds :: "(u64, u32) gomap"
  RoundStartedAt :: "(u64, int) gomap"
  RoundTimeoutSeconds :: int
  TimeoutVotes :: "(string, (string, ConsensusTimeoutVote) gomap) gomap"
  LastTimeoutCertificate :: "TimeoutCertificate option"
  VRFProofs :: "(string, (string, ConsensusVRFProof) gomap) gomap"
  LastVRFBeacon :: "ConsensusVRFBeacon option"

text \<open>\<open>DefaultEpochLength\<close> of \<open>protocol_spec.go\<close>.\<close>

definition DefaultEpochLength :: u64 where "DefaultEpochLength = 100"

definition NewBFTConsensusState :: "u64 \<Rightarrow> BFTConsensusState" where
  "NewBFTConsensusState epochLength = \<lparr>
     EpochLength = (if epochLength = 0 then DefaultEpochLength else epochLength),
     ActiveSet = [], PendingTransition = None, Votes = [], LockedHash = [], LockedRound = 0,
     LastQC = None, Evidence = [], MaxLiquidityCreditBPS = 5000, CurrentRounds = [],
     RoundStartedAt = [], RoundTimeoutSeconds = 8, TimeoutVotes = [],
     LastTimeoutCertificate = None, VRFProofs = [], LastVRFBeacon = None\<rparr>"

text \<open>A nil map and an empty one read alike, so \<open>ensure\<close> only repairs the three scalars.\<close>

definition ensure :: "BFTConsensusState \<Rightarrow> BFTConsensusState" where
  "ensure s = s\<lparr>
     EpochLength := (if EpochLength s = 0 then DefaultEpochLength else EpochLength s),
     MaxLiquidityCreditBPS := (if MaxLiquidityCreditBPS s = 0 then 5000 else MaxLiquidityCreditBPS s),
     RoundTimeoutSeconds := (if RoundTimeoutSeconds s \<le> 0 then 8 else RoundTimeoutSeconds s)\<rparr>"

lemma ensure_fields [simp]:
  "ActiveSet (ensure s) = ActiveSet s" "PendingTransition (ensure s) = PendingTransition s"
  "Votes (ensure s) = Votes s" "LockedHash (ensure s) = LockedHash s"
  "LastQC (ensure s) = LastQC s" "Evidence (ensure s) = Evidence s"
  "CurrentRounds (ensure s) = CurrentRounds s" "RoundStartedAt (ensure s) = RoundStartedAt s"
  "TimeoutVotes (ensure s) = TimeoutVotes s"
  "LastTimeoutCertificate (ensure s) = LastTimeoutCertificate s"
  "VRFProofs (ensure s) = VRFProofs s" "LastVRFBeacon (ensure s) = LastVRFBeacon s"
  "LockedRound (ensure s) = LockedRound s"
  by (simp_all add: ensure_def)

lemma ensure_idem [simp]: "ensure (ensure s) = ensure s"
  by (simp add: ensure_def DefaultEpochLength_def)

section \<open>Rounds\<close>

text \<open>Reading a Go map at a missing key gives the zero value.\<close>

definition round_of :: "BFTConsensusState \<Rightarrow> u64 \<Rightarrow> u32" where
  "round_of s h = (case map_of (CurrentRounds s) h of None \<Rightarrow> 0 | Some r \<Rightarrow> r)"

definition started_of :: "BFTConsensusState \<Rightarrow> u64 \<Rightarrow> int" where
  "started_of s h = (case map_of (RoundStartedAt s) h of None \<Rightarrow> 0 | Some t \<Rightarrow> t)"

definition CurrentConsensusRound :: "int \<Rightarrow> u64 \<Rightarrow> BFTConsensusState \<Rightarrow> BFTConsensusState \<times> u32" where
  "CurrentConsensusRound now height s0 = (let s = ensure s0;
     s1 = (if started_of s height = 0 then s\<lparr>RoundStartedAt := mput height now (RoundStartedAt s)\<rparr> else s)
     in (s1, round_of s1 height))"

definition AdvanceConsensusRound ::
  "int \<Rightarrow> u64 \<Rightarrow> int \<Rightarrow> BFTConsensusState \<Rightarrow> BFTConsensusState \<times> u32 \<times> bool" where
  "AdvanceConsensusRound now height nowUnix s0 =
     (if height = 0 then (s0, 0, False) else
      let s = ensure s0;
          t = (if nowUnix \<le> 0 then now else nowUnix);
          started = started_of s height;
          currentRound = round_of s height in
      if started = 0 then
        (s\<lparr>RoundStartedAt := mput height t (RoundStartedAt s)\<rparr>, currentRound, False)
      else if i64 (t - started) < RoundTimeoutSeconds s then (s, currentRound, False)
      else if (case LastTimeoutCertificate s of None \<Rightarrow> True
               | Some tc \<Rightarrow> tc_Height tc \<noteq> height \<or> tc_Round tc \<noteq> currentRound)
        then (s, currentRound, False)
      else if (case LastQC s of None \<Rightarrow> False
               | Some qc \<Rightarrow> height \<le> qc_Height qc \<and> qc_Step qc = StepPrecommit)
        then (s, currentRound, False)
      else (s\<lparr>CurrentRounds := mput height (currentRound + 1) (CurrentRounds s),
              RoundStartedAt := mput height t (RoundStartedAt s)\<rparr>, currentRound + 1, True))"

definition ConsensusRoundTimedOut :: "int \<Rightarrow> u64 \<Rightarrow> int \<Rightarrow> BFTConsensusState \<Rightarrow> bool" where
  "ConsensusRoundTimedOut now height nowUnix s0 = (height \<noteq> 0 \<and>
     (let s = ensure s0; t = (if nowUnix \<le> 0 then now else nowUnix); started = started_of s height
      in 0 < started \<and> RoundTimeoutSeconds s \<le> i64 (t - started)))"

section \<open>Keys and pruning\<close>

definition consensusHistoryRetentionHeights :: u64 where "consensusHistoryRetentionHeights = 128"

definition consensusHistoryHeight :: "string \<Rightarrow> u64 option" where
  "consensusHistoryHeight key = (case cut_slash (trim_space key) of
     None \<Rightarrow> None
   | Some (heightPart, _) \<Rightarrow> if heightPart = [] then None else parse_uint64 heightPart)"

definition consensusVoteKeyAt :: "u64 \<Rightarrow> u32 \<Rightarrow> string \<Rightarrow> string" where
  "consensusVoteKeyAt h r step = u64_str h @ ''/'' @ u32_str r @ ''/'' @ step"

definition consensusVoteKey :: "ConsensusVote \<Rightarrow> string" where
  "consensusVoteKey v = consensusVoteKeyAt (cv_Height v) (cv_Round v) (cv_Step v)"

definition timeoutVoteKey :: "u64 \<Rightarrow> u32 \<Rightarrow> string" where
  "timeoutVoteKey h r = u64_str h @ ''/'' @ u32_str r"

definition consensusVRFKey :: "u64 \<Rightarrow> u32 \<Rightarrow> string" where
  "consensusVRFKey h r = u64_str h @ ''/'' @ u32_str r"

text \<open>The predicate of the three history loops.\<close>

definition prunedKey :: "u64 \<Rightarrow> string \<Rightarrow> bool" where
  "prunedKey pruneThrough key = (case consensusHistoryHeight key of
     None \<Rightarrow> False | Some h \<Rightarrow> h \<le> pruneThrough)"

definition pruneConsensusRounds :: "u64 \<Rightarrow> BFTConsensusState \<Rightarrow> BFTConsensusState" where
  "pruneConsensusRounds finalizedHeight s0 =
     (let s = s0\<lparr>CurrentRounds := filter (\<lambda>(h, _). \<not> h \<le> finalizedHeight) (CurrentRounds s0),
                 RoundStartedAt := filter (\<lambda>(h, _). \<not> h \<le> finalizedHeight) (RoundStartedAt s0)\<rparr> in
      if finalizedHeight \<le> consensusHistoryRetentionHeights then s
      else let pruneThrough = finalizedHeight - consensusHistoryRetentionHeights in
        s\<lparr>Votes := filter (\<lambda>(k, _). \<not> prunedKey pruneThrough k) (Votes s),
          TimeoutVotes := filter (\<lambda>(k, _). \<not> prunedKey pruneThrough k) (TimeoutVotes s),
          VRFProofs := filter (\<lambda>(k, _). \<not> prunedKey pruneThrough k) (VRFProofs s)\<rparr>)"

lemma consensusVoteKeyAt_inject [simp]:
  "consensusVoteKeyAt h r st = consensusVoteKeyAt h' r' st' \<longleftrightarrow> h = h' \<and> r = r' \<and> st = st'"
  by (simp add: consensusVoteKeyAt_def slash_append_inject)

lemma timeoutVoteKey_inject [simp]:
  "timeoutVoteKey h r = timeoutVoteKey h' r' \<longleftrightarrow> h = h' \<and> r = r'"
  by (simp add: timeoutVoteKey_def slash_append_inject)

lemma trim_space_key:
  assumes "\<forall>c \<in> set s. \<not> is_space c" "s \<noteq> []"
  shows "\<exists>t'. trim_space (s @ t) = s @ t'"
proof -
  obtain c cs where s: "s = c # cs" "\<not> is_space c" using assms by (cases s) auto
  then have d: "dropWhile is_space (s @ t) = s @ t" by simp
  have "dropWhile is_space (rev (s @ t)) =
      (if \<forall>x \<in> set t. is_space x then rev s else dropWhile is_space (rev t) @ rev s)"
    using assms(1) by (auto simp: dropWhile_append dropWhile_no_space)
  then show ?thesis by (simp add: trim_space_def d)
qed

lemma nat_str_no_space: "\<forall>c \<in> set (nat_str n). \<not> is_space c"
  by (auto dest!: set_nat_str simp: digit_char_not_space)

lemma u64_str_key_trim: "\<exists>t'. trim_space (u64_str h @ ''/'' @ t) = u64_str h @ ''/'' @ t'"
proof -
  have "\<forall>c \<in> set (u64_str h @ ''/''). \<not> is_space c"
    using nat_str_no_space [of "unat h"] by (auto simp: u64_str_def is_space_def Let_def)
  from trim_space_key [OF this, of t] show ?thesis by simp
qed

text \<open>The history loops read back the height that every key was built from.\<close>

lemma consensusHistoryHeight_prefix: "consensusHistoryHeight (u64_str h @ ''/'' @ t) = Some h"
proof -
  obtain t' where "trim_space (u64_str h @ ''/'' @ t) = u64_str h @ ''/'' @ t'"
    using u64_str_key_trim by blast
  moreover have "u64_str h \<noteq> []" by (simp add: u64_str_def)
  ultimately show ?thesis
    using cut_slash_append [of "u64_str h" t'] by (simp add: consensusHistoryHeight_def)
qed

lemma history_height_keys [simp]:
  "consensusHistoryHeight (consensusVoteKeyAt h r st) = Some h"
  "consensusHistoryHeight (timeoutVoteKey h r) = Some h"
  "consensusHistoryHeight (consensusVRFKey h r) = Some h"
  by (simp_all add: consensusVoteKeyAt_def timeoutVoteKey_def consensusVRFKey_def
      consensusHistoryHeight_prefix del: append_Cons append_Nil)

end
