(* ===== verification/ConsensusPower.thy ===== *)
theory ConsensusPower
  imports ConsensusState
begin

text \<open>
  Validator voting power (\<open>buildValidatorPowerSet\<close> and its helpers in \<open>validator.go\<close>), the power of
  a set, the power behind a block hash and the quorum threshold. All of it is \<open>float64\<close>; the sums
  run over Go maps, so their rounding depends on the visiting order. The locale \<open>weighted_quorum\<close>
  states what the vote and timeout handlers need from the threshold, and is interpreted on
  \<open>requiredQuorum\<close> with the rounding bounds of \<open>Float64\<close>.
\<close>

section \<open>Square root\<close>

fun isqrt :: "nat \<Rightarrow> nat" where
  "isqrt n = (if n = 0 then 0 else
     let r = 2 * isqrt (n div 4) in if (r + 1) ^ 2 \<le> n then r + 1 else r)"

declare isqrt.simps [simp del]

text \<open>
  \<open>math.Sqrt\<close> is correctly rounded: 61 bits of the root and half a unit for a remainder decide the
  rounding of the exact root.
\<close>

definition sqrt_rat :: "rat \<Rightarrow> f64" where
  "sqrt_rat a = (let k = 60 - ilog2 a div 2; q = a * pow2 (2 * k); s = isqrt (nat \<lfloor>q\<rfloor>) in
     rnd ((if of_nat (s * s) = q then of_nat s else of_nat s + 1 / 2) / pow2 k))"

fun fsqrt :: "f64 \<Rightarrow> f64" where
  "fsqrt (Fin a) = (if a < 0 then NaN else if a = 0 then Fin 0 else sqrt_rat a)"
| "fsqrt PInf = PInf" | "fsqrt NInf = NaN" | "fsqrt NaN = NaN"

fun fceil :: "f64 \<Rightarrow> f64" where
  "fceil (Fin a) = Fin (of_int \<lceil>a\<rceil>)" | "fceil x = x"

lemma isqrt_bounds: "isqrt n * isqrt n \<le> n \<and> n < (isqrt n + 1) * (isqrt n + 1)"
proof (induction n rule: isqrt.induct)
  case (1 n)
  show ?case
  proof (cases "n = 0")
    case False
    define r where "r = isqrt (n div 4)"
    from "1.IH" False have "r * r \<le> n div 4" "n div 4 < (r + 1) * (r + 1)" by (auto simp: r_def)
    then have "4 * (r * r) \<le> n" "n < 4 * ((r + 1) * (r + 1))" by linarith+
    then have "2 * r * (2 * r) \<le> n" "n < (2 * r + 2) * (2 * r + 2)" by (simp_all add: algebra_simps)
    with False show ?thesis
      by (subst (1 2 3 4) isqrt.simps) (simp add: Let_def power2_eq_square algebra_simps flip: r_def)
  qed (simp add: isqrt.simps)
qed

section \<open>Validators\<close>

text \<open>
  The fields of \<open>Validator\<close> that voting power reads. A \<open>time.Time\<close> is its Unix time in
  nanoseconds, \<open>None\<close> the zero time.
\<close>

record Validator =
  v_Address :: string
  v_DEXAddress :: string
  v_PairKey :: string
  v_LPTokenAmount :: string
  v_LockedLiquidityUSD :: f64
  v_LPStakeAmount :: f64
  v_NativeBond :: f64
  v_LockTime :: "int option"
  v_LiquidityPower :: f64
  v_PenaltyScore :: f64

definition isDEXBackedValidator :: "Validator \<Rightarrow> bool" where
  "isDEXBackedValidator v \<longleftrightarrow> trim_space (v_DEXAddress v) \<noteq> [] \<or> trim_space (v_LPTokenAmount v) \<noteq> []
     \<or> fless (Fin 0) (v_LockedLiquidityUSD v) \<or> trim_space (v_PairKey v) \<noteq> []"

definition hour_ns :: int where "hour_ns = 3600000000000"

text \<open>\<open>time.Until(t)\<close> saturates to an \<open>int64\<close>; \<open>Duration.Hours\<close> adds whole hours and the fraction.\<close>

definition duration_hours :: "int \<Rightarrow> f64" where
  "duration_hours d = (let a = \<bar>d\<bar>; h = sgn d * (a div hour_ns); r = sgn d * (a mod hour_ns) in
     fadd (f_of_int h) (fdiv (f_of_int r) (Fin 3600000000000)))"

definition sat_i64 :: "int \<Rightarrow> int" where
  "sat_i64 d = max (- (2 ^ 63)) (min (2 ^ 63 - 1) d)"

definition legacyLiquidityPower :: "int \<Rightarrow> f64 \<Rightarrow> int option \<Rightarrow> f64" where
  "legacyLiquidityPower now stakeAmount lockTime =
     (let remainingHours = (case lockTime of None \<Rightarrow> duration_hours (- (2 ^ 63))
                            | Some t \<Rightarrow> duration_hours (sat_i64 (t - now))) in
      if fle remainingHours (Fin 0) then Fin 0
      else let remainingDays = fceil (fdiv remainingHours (Fin 24)) in
        fmul stakeAmount (fdiv (fmul remainingDays (Fin 24)) (Fin 8760)))"

definition validatorEffectiveWeight :: "int \<Rightarrow> Validator \<Rightarrow> f64" where
  "validatorEffectiveWeight now v =
     (if (case v_LockTime v of None \<Rightarrow> False | Some t \<Rightarrow> t < now) then Fin 0 else
      let dex = isDEXBackedValidator v;
          power = (if fle (v_LiquidityPower v) (Fin 0) then
                     (if dex then v_LPStakeAmount v
                      else legacyLiquidityPower now (v_LPStakeAmount v) (v_LockTime v))
                   else v_LiquidityPower v) in
      if fle power (Fin 0) then Fin 0
      else let f = fsub (Fin 1) (v_PenaltyScore v);
               penaltyFactor = (if fless f (Fin 0) then Fin 0 else f) in
        fmul power penaltyFactor)"

text \<open>The contribution of one validator, \<open>None\<close> where the loop body continues.\<close>

definition powerEntry :: "int \<Rightarrow> f64 \<Rightarrow> Validator \<Rightarrow> ValidatorPower option" where
  "powerEntry now minStake v =
     (if trim_space (v_Address v) = [] \<or> fle (validatorEffectiveWeight now v) (Fin 0) then None else
      let nativeBond = (if fle (v_NativeBond v) (Fin 0) \<and> \<not> isDEXBackedValidator v
                        then v_LPStakeAmount v else v_NativeBond v);
          nativeWeight = (if fless (Fin 0) nativeBond then fsqrt nativeBond else Fin 0);
          liquidity = fmax (Fin 0) (v_LiquidityPower v);
          hybrid = fless (Fin 0) nativeWeight;
          capBase = (if nativeWeight = Fin 0 then fsqrt (fmax (Fin 1) minStake) else nativeWeight);
          maxCredit = fmul capBase (Fin (1 / 2));
          liquidity' = (if fless maxCredit liquidity then maxCredit else liquidity);
          power = fmul (fadd capBase liquidity') (fmax (Fin 0) (fsub (Fin 1) (v_PenaltyScore v))) in
      if fle power (Fin 0) then None
      else Some \<lparr>vp_Address = to_lower (v_Address v), vp_Power = power,
             vp_NativeBondWeight = nativeWeight, vp_LiquidityCredit = liquidity',
             vp_HybridBonded = hybrid\<rparr>)"

text \<open>Nil pointers of the validator slice are \<open>None\<close>; the result is sorted by address.\<close>

definition buildValidatorPowerSet :: "int \<Rightarrow> f64 \<Rightarrow> Validator option list \<Rightarrow> ValidatorPower list" where
  "buildValidatorPowerSet now minStake vs =
     sort_key vp_Address (List.map_filter (\<lambda>v. Option.bind v (powerEntry now minStake)) vs)"

section \<open>Sums of power\<close>

definition validatorSetPower :: "ValidatorPower list \<Rightarrow> f64" where
  "validatorSetPower vs = fsum (map vp_Power vs)"

fun validatorPowerFor :: "ValidatorPower list \<Rightarrow> string \<Rightarrow> f64" where
  "validatorPowerFor [] a = Fin 0"
| "validatorPowerFor (v # vs) a =
     (if equal_fold (vp_Address v) a then vp_Power v else validatorPowerFor vs a)"

definition requiredQuorum :: "f64 \<Rightarrow> f64" where
  "requiredQuorum tot = next_up (fdiv (fmul tot (Fin 2)) (Fin 3))"

text \<open>The voters for a hash, in the visiting order of the vote map.\<close>

definition votersForHash ::
  "(string, ConsensusVote) gomap \<Rightarrow> ValidatorPower list \<Rightarrow> string \<Rightarrow> string list" where
  "votersForHash votes vs hash = [a. (a, vote) \<leftarrow> votes,
     equal_fold (cv_BlockHash vote) hash \<and> \<not> fle (validatorPowerFor vs a) (Fin 0)]"

definition votePowerForHash ::
  "(string, ConsensusVote) gomap \<Rightarrow> ValidatorPower list \<Rightarrow> string \<Rightarrow> f64 \<times> string list" where
  "votePowerForHash votes vs hash = (let as = votersForHash votes vs hash in
     (fsum (map (validatorPowerFor vs) as), sort (map to_lower as)))"

lemma votersForHash_Cons:
  "votersForHash ((a, v) # m) vs h =
     (if equal_fold (cv_BlockHash v) h \<and> \<not> fle (validatorPowerFor vs a) (Fin 0) then [a] else [])
       @ votersForHash m vs h"
  by (simp add: votersForHash_def)

lemma votersForHash_Nil [simp]: "votersForHash [] vs h = []"
  by (simp add: votersForHash_def)

lemma set_votersForHash: "set (votersForHash m vs h) =
   {a. \<exists>v. (a, v) \<in> set m \<and> equal_fold (cv_BlockHash v) h \<and> \<not> fle (validatorPowerFor vs a) (Fin 0)}"
  by (induction m) (auto simp: votersForHash_Cons split: prod.splits if_splits)

lemma voterE:
  assumes "wf_map m" "a \<in> set (votersForHash m vs h)"
  obtains v where "map_of m a = Some v" "equal_fold (cv_BlockHash v) h"
    "\<not> fle (validatorPowerFor vs a) (Fin 0)"
proof -
  from assms(2) obtain v where v: "(a, v) \<in> set m" "equal_fold (cv_BlockHash v) h"
    "\<not> fle (validatorPowerFor vs a) (Fin 0)" unfolding set_votersForHash by blast
  from that [OF _ v(2,3)] map_of_is_SomeI [OF assms(1) v(1)] show thesis by blast
qed

lemma distinct_votersForHash: "wf_map m \<Longrightarrow> distinct (votersForHash m vs h)"
proof (induction m)
  case (Cons p m)
  have "fst p \<notin> set (votersForHash m vs h)" using Cons.prems by (auto simp: set_votersForHash image_iff)
  with Cons show ?case by (cases p) (auto simp: votersForHash_Cons)
qed simp

text \<open>One vote per address: the voters for two different hashes are disjoint.\<close>

lemma votersForHash_disjoint:
  assumes "wf_map m" "\<not> equal_fold h h'"
  shows "set (votersForHash m vs h) \<inter> set (votersForHash m vs h') = {}"
proof (rule ccontr)
  assume "\<not> ?thesis"
  then obtain a v v' where "(a, v) \<in> set m" "(a, v') \<in> set m"
    "equal_fold (cv_BlockHash v) h" "equal_fold (cv_BlockHash v') h'"
    unfolding set_votersForHash by blast
  with assms show False by (metis wf_map_of_mem option.inject equal_fold_sym equal_fold_trans)
qed

lemma validatorPowerFor_fold: "equal_fold a b \<Longrightarrow> validatorPowerFor vs a = validatorPowerFor vs b"
  by (induction vs) (auto simp: equal_fold_def)

lemma validatorPowerFor_mem:
  "\<not> fle (validatorPowerFor vs a) (Fin 0) \<Longrightarrow>
     \<exists>v \<in> set vs. equal_fold (vp_Address v) a \<and> validatorPowerFor vs a = vp_Power v"
  by (induction vs) auto

section \<open>The quorum threshold\<close>

text \<open>The threshold is strictly above two thirds of the total, by at most a few roundings.\<close>

lemma requiredQuorum_strict:
  assumes "is_f64 t" "pow2 (- 1000) \<le> t" "t \<le> pow2 990"
  shows "\<exists>r. requiredQuorum (Fin t) = Fin r \<and> 2 * t / 3 < r \<and> r \<le> 2 * t / 3 * (1 + 8 * uro)"
proof -
  have le: "pow2 (- 1022) \<le> pow2 (- 1000)" "pow2 990 \<le> pow2 999" by simp_all
  then have d: "rnd (2 * t) = Fin (2 * t)" using assms by (intro rnd_double) linarith+
  have "2 * pow2 (- 1001) = pow2 (- 1000)" using pow2_add [of 1 "- 1001"] by simp
  moreover have "pow2 (- 1022) \<le> pow2 (- 1001)" by simp
  ultimately have lo: "pow2 (- 1022) \<le> 2 * t / 3" using assms(2) pow2_pos [of "- 1001"] by linarith
  have "2 * t / 3 \<le> pow2 1000" using assms(3) pow2_pos [of 990] le(2) pow2_le [of 999 1000] by linarith
  with lo obtain r where r: "(case rnd (2 * t / 3) of Fin v \<Rightarrow> next_up (Fin v) | z \<Rightarrow> z) = Fin r"
    "2 * t / 3 < r" "r \<le> 2 * t / 3 * (1 + 8 * uro)" by (rule next_up_gt)
  have "requiredQuorum (Fin t) = next_up (rnd (2 * t / 3))"
    using d by (simp add: requiredQuorum_def mult.commute del: next_up.simps)
  also have "\<dots> = Fin r" using r(1) by (cases "rnd (2 * t / 3)") simp_all
  finally show ?thesis using r by blast
qed

text \<open>For any finite total, rounded or not, the threshold is at least two thirds of it, up to one rounding.\<close>

lemma threshold_lower:
  assumes "pow2 (- 1001) \<le> t" "t \<le> pow2 941"
  shows "\<exists>r. requiredQuorum (Fin t) = Fin r \<and> 2 / 3 * (1 - uro) * t < r"
proof -
  have t: "0 < t" using assms(1) pow2_pos [of "- 1001"] by linarith
  have "pow2 (- 1022) \<le> pow2 (- 1001)" by simp
  then have lo: "pow2 (- 1022) \<le> 2 * t" using assms(1) t by linarith
  have "2 * pow2 941 = pow2 942" using pow2_add [of 1 941] by simp
  then have hi: "2 * t \<le> pow2 942" using assms(2) by linarith
  moreover have "pow2 942 \<le> pow2 999" "pow2 999 \<le> pow2 1000" by simp_all
  ultimately have "2 * t \<le> pow2 1000" by linarith
  with lo obtain d where d: "rnd (2 * t) = Fin d" "\<bar>d - 2 * t\<bar> \<le> 2 * t * uro" by (rule rnd_normal)
  have "2 * t * uro \<le> 2 * t * (1 / 4)" by (rule mult_left_mono [OF uro_small(3)]) (use t in simp)
  with d(2) have db: "3 / 2 * t \<le> d" "d \<le> 4 * t" by (simp_all add: abs_le_iff)
  have "2 * pow2 (- 1002) = pow2 (- 1001)" using pow2_add [of 1 "- 1002"] by simp
  moreover have "pow2 (- 1022) \<le> pow2 (- 1002)" by simp
  ultimately have lo3: "pow2 (- 1022) \<le> d / 3" using db(1) assms(1) t by linarith
  have "d / 3 \<le> pow2 1000" using db(2) hi \<open>pow2 942 \<le> pow2 999\<close> \<open>pow2 999 \<le> pow2 1000\<close> t by linarith
  with lo3 obtain r where r: "(case rnd (d / 3) of Fin v \<Rightarrow> next_up (Fin v) | z \<Rightarrow> z) = Fin r" "d / 3 < r"
    by (rule next_up_gt)
  have "requiredQuorum (Fin t) = next_up (rnd (d / 3))"
    using d(1) by (simp add: requiredQuorum_def mult.commute del: next_up.simps)
  also have "\<dots> = Fin r" using r(1) by (cases "rnd (d / 3)") simp_all
  finally have rq: "requiredQuorum (Fin t) = Fin r" .
  have "2 / 3 * (1 - uro) * t \<le> d / 3" using d(2) by (simp add: abs_le_iff algebra_simps)
  then have "2 / 3 * (1 - uro) * t < r" using r(2) by (rule le_less_trans)
  with rq show ?thesis by blast
qed

text \<open>The exact power behind an address, and sets on which the rounding stays controlled.\<close>

definition weight :: "ValidatorPower list \<Rightarrow> string \<Rightarrow> rat" where
  "weight vs a = (case validatorPowerFor vs a of Fin p \<Rightarrow> max 0 p | _ \<Rightarrow> 0)"

definition members :: "ValidatorPower list \<Rightarrow> string set" where
  "members vs = set (map (to_lower \<circ> vp_Address) vs)"

definition wf_power_set :: "ValidatorPower list \<Rightarrow> bool" where
  "wf_power_set vs \<longleftrightarrow> distinct (map (to_lower \<circ> vp_Address) vs) \<and> length vs \<le> 2 ^ 40 \<and>
     (\<forall>v \<in> set vs. case vp_Power v of Fin p \<Rightarrow> power_ok p | _ \<Rightarrow> False)"

definition power_quorum :: "ValidatorPower list \<Rightarrow> string set \<Rightarrow> bool" where
  "power_quorum vs Q \<longleftrightarrow> wf_power_set vs \<and> vs \<noteq> [] \<and> Q \<subseteq> members vs \<and> (\<exists>as. distinct as \<and> set as = Q \<and>
     \<not> fless (fsum (map (validatorPowerFor vs) as)) (requiredQuorum (validatorSetPower vs)))"

locale weighted_quorum =
  fixes M :: "'a set" and w :: "'a \<Rightarrow> rat" and quorum :: "'a set \<Rightarrow> bool" and slack :: rat
  assumes finite_members: "finite M"
    and weight_nonneg: "0 \<le> w a"
    and quorum_members: "quorum Q \<Longrightarrow> Q \<subseteq> M"
    and quorum_heavy: "quorum Q \<Longrightarrow> (2 / 3 - slack) * sum w M \<le> sum w Q"
begin

lemma quorum_intersection:
  assumes "quorum P" "quorum Q"
  shows "(1 / 3 - 2 * slack) * sum w M \<le> sum w (P \<inter> Q)"
proof -
  have fin: "finite P" "finite Q" using assms quorum_members finite_members finite_subset by blast+
  have "sum w P + sum w Q = sum w (P \<union> Q) + sum w (P \<inter> Q)" by (rule sum.union_inter [OF fin, symmetric])
  moreover have "sum w (P \<union> Q) \<le> sum w M"
    using assms quorum_members finite_members by (intro sum_mono2) (auto simp: weight_nonneg)
  moreover have "(2 / 3 - slack) * sum w M + (2 / 3 - slack) * sum w M =
      sum w M + (1 / 3 - 2 * slack) * sum w M" by (simp add: algebra_simps)
  ultimately show ?thesis using quorum_heavy [OF assms(1)] quorum_heavy [OF assms(2)] by linarith
qed

text \<open>Faulty weight below the overlap leaves a non-faulty member in both quorums.\<close>

lemma honest_in_both:
  assumes "quorum P" "quorum Q" "finite F" "sum w F < (1 / 3 - 2 * slack) * sum w M"
  shows "\<exists>a \<in> P \<inter> Q. a \<notin> F"
proof (rule ccontr)
  assume "\<not> ?thesis"
  then have "P \<inter> Q \<subseteq> F" by blast
  then have "sum w (P \<inter> Q) \<le> sum w F" using assms(3) by (intro sum_mono2) (auto simp: weight_nonneg)
  with quorum_intersection [OF assms(1,2)] assms(4) show False by linarith
qed

lemma no_disjoint_quorums:
  assumes "quorum P" "quorum Q" "0 < sum w M" "slack < 1 / 6"
  shows "P \<inter> Q \<noteq> {}"
proof -
  have "0 < (1 / 3 - 2 * slack) * sum w M" using assms(3,4) by (intro mult_pos_pos) simp_all
  with quorum_intersection [OF assms(1,2)] show ?thesis by auto
qed

end

lemma weight_power_ok:
  assumes "wf_power_set vs" "a \<in> members vs"
  shows "validatorPowerFor vs a = Fin (weight vs a) \<and> power_ok (weight vs a)"
proof -
  from assms(2) have "\<exists>v \<in> set vs. validatorPowerFor vs a = vp_Power v"
    by (induction vs) (auto simp: members_def equal_fold_def)
  then obtain v where v: "v \<in> set vs" "validatorPowerFor vs a = vp_Power v" by blast
  with assms(1) obtain p where p: "validatorPowerFor vs a = Fin p" "power_ok p"
    unfolding wf_power_set_def by (cases "vp_Power v") auto
  have "0 < p" using p(2) pow2_pos [of "- 1000"] unfolding power_ok_def by linarith
  with p show ?thesis by (simp add: weight_def)
qed

lemma weight_Cons: "weight (v # vs) a = (if to_lower (vp_Address v) = to_lower a
    then (case vp_Power v of Fin p \<Rightarrow> max 0 p | _ \<Rightarrow> 0) else weight vs a)"
  by (simp add: weight_def equal_fold_def)

lemma members_Cons: "members (v # vs) = insert (to_lower (vp_Address v)) (members vs)"
  by (simp add: members_def)

lemma members_lower: "a \<in> members vs \<Longrightarrow> to_lower a = a"
  by (auto simp: members_def)

text \<open>Summing over the members is summing over the entries of the set.\<close>

lemma sum_weight_members:
  assumes "distinct (map (to_lower \<circ> vp_Address) vs)"
  shows "sum (weight vs) (members vs) =
    sum_list (map (\<lambda>v. case vp_Power v of Fin p \<Rightarrow> max 0 p | _ \<Rightarrow> 0) vs)"
  using assms
proof (induction vs)
  case (Cons v vs)
  then have "to_lower (vp_Address v) \<notin> members vs" by (auto simp: members_def)
  moreover from this have "sum (weight (v # vs)) (members vs) = sum (weight vs) (members vs)"
    by (intro sum.cong) (auto simp: weight_Cons members_lower)
  ultimately show ?case using Cons by (simp add: members_Cons weight_Cons) (simp add: members_def)
qed (simp add: members_def)

lemma sum_weight_list: "distinct as \<Longrightarrow> sum (weight vs) (set as) = sum_list (map (weight vs) as)"
  by (simp add: sum_list_distinct_conv_sum_set)

lemma set_powers_fin:
  assumes "wf_power_set vs"
  shows "\<exists>ps. map vp_Power vs = map Fin ps \<and> (\<forall>p \<in> set ps. power_ok p) \<and>
    sum_list ps = sum (weight vs) (members vs)"
proof -
  let ?p = "\<lambda>v. case vp_Power v of Fin p \<Rightarrow> max 0 p | _ \<Rightarrow> 0"
  have "vp_Power v = Fin (?p v) \<and> power_ok (?p v)" if "v \<in> set vs" for v
  proof -
    from that assms obtain p where p: "vp_Power v = Fin p" "power_ok p"
      unfolding wf_power_set_def by (cases "vp_Power v") auto
    moreover have "0 < p" using p(2) pow2_pos [of "- 1000"] unfolding power_ok_def by linarith
    ultimately show ?thesis by simp
  qed
  then have "map vp_Power vs = map Fin (map ?p vs)" "\<forall>p \<in> set (map ?p vs). power_ok p" by auto
  moreover have "sum_list (map ?p vs) = sum (weight vs) (members vs)"
    using assms by (simp add: sum_weight_members wf_power_set_def)
  ultimately show ?thesis by blast
qed

lemma card_members: "wf_power_set vs \<Longrightarrow> card (members vs) = length vs"
  unfolding members_def wf_power_set_def by (metis distinct_card length_map)

text \<open>A quorum by the rounded comparison holds two thirds of the exact weight, up to \<open>2^-10\<close>.\<close>

lemma power_quorum_heavy:
  assumes "power_quorum vs Q"
  shows "(2 / 3 - 1 / 2 ^ 10) * sum (weight vs) (members vs) \<le> sum (weight vs) Q"
proof -
  from assms obtain as where wf: "wf_power_set vs" and ne: "vs \<noteq> []" and as: "distinct as" "set as = Q"
    and sub: "Q \<subseteq> members vs"
    and ge: "\<not> fless (fsum (map (validatorPowerFor vs) as)) (requiredQuorum (validatorSetPower vs))"
    unfolding power_quorum_def by blast
  define T where "T = sum (weight vs) (members vs)"
  define A where "A = sum (weight vs) Q"
  from set_powers_fin [OF wf] obtain ps where ps: "map vp_Power vs = map Fin ps"
    "\<forall>p \<in> set ps. power_ok p" "sum_list ps = T" by (auto simp: T_def)
  have len: "length ps = length vs" using ps(1) by (metis length_map)
  then have n: "length ps \<le> 2 ^ 40" "ps \<noteq> []" using wf ne by (auto simp: wf_power_set_def)
  from fsum_bounds [OF ps(2) n(1)] n(2) obtain t where t: "validatorSetPower vs = Fin t"
    "(1 - uro) ^ length ps * T \<le> t" "t \<le> (1 + uro) ^ length ps * T" "pow2 (- 1001) \<le> t"
    by (auto simp: validatorSetPower_def ps)
  have T0: "0 \<le> T" using sum_power_nonneg [OF ps(2)] ps(3) by simp
  have tlo: "(1 - 1 / 2 ^ 12) * T \<le> t"
    using t(2) mult_right_mono [OF pow_uro_bounds(1) [OF n(1)] T0] by linarith
  have eqs: "map (validatorPowerFor vs) as = map Fin (map (weight vs) as)"
    and oks: "\<forall>p \<in> set (map (weight vs) as). power_ok p"
    using weight_power_ok [OF wf] as sub by auto
  have "card Q \<le> card (members vs)" by (rule card_mono [OF _ sub]) (simp add: members_def)
  then have "length as \<le> length vs" using as card_members [OF wf] by (metis distinct_card)
  then have m: "length (map (weight vs) as) \<le> 2 ^ 40" using n(1) len by simp
  from fsum_bounds [OF oks m] obtain a where a: "fsum (map (validatorPowerFor vs) as) = Fin a"
    "a \<le> (1 + uro) ^ length (map (weight vs) as) * A"
    using sum_weight_list [OF as(1)] as(2) by (auto simp: eqs A_def)
  have A0: "0 \<le> A" using sum_power_nonneg [OF oks] sum_weight_list [OF as(1)] as(2) by (simp add: A_def)
  have ahi: "a \<le> (1 + 1 / 2 ^ 11) * A"
    using a(2) mult_right_mono [OF pow_uro_bounds(2) [OF m] A0] by linarith
  have "T \<le> of_nat (length ps) * pow2 900" using sum_power_le [OF ps(2)] ps(3) by simp
  also have "\<dots> \<le> 2 ^ 40 * pow2 900" by (rule mult_right_mono [OF of_nat_le_pow40 [OF n(1)]]) simp
  also have "\<dots> = pow2 940" using pow2_add [of 40 900] pow2_of_nat [of 40] by simp
  finally have "T \<le> pow2 940" .
  have "t \<le> (1 + 1 / 2 ^ 11) * T"
    using t(3) mult_right_mono [OF pow_uro_bounds(2) [OF n(1)] T0] by linarith
  also have "\<dots> \<le> 2 * pow2 940" using \<open>T \<le> pow2 940\<close> T0 by (intro mult_mono) simp_all
  also have "\<dots> = pow2 941" using pow2_add [of 1 940] by simp
  finally have thi: "t \<le> pow2 941" .
  obtain r where r: "requiredQuorum (Fin t) = Fin r" "2 / 3 * (1 - uro) * t < r"
    using threshold_lower [OF t(4) thi] by blast
  from ge have "r \<le> a" by (simp add: a(1) t(1) r(1))
  have "2 / 3 * (1 - uro) * ((1 - 1 / 2 ^ 12) * T) \<le> 2 / 3 * (1 - uro) * t"
    using tlo uro_small by (intro mult_left_mono) simp_all
  then have low: "2 / 3 * (1 - uro) * ((1 - 1 / 2 ^ 12) * T) \<le> (1 + 1 / 2 ^ 11) * A"
    using less_imp_le [OF r(2)] \<open>r \<le> a\<close> ahi by (meson order_trans)
  have "(1 + 1 / 2 ^ 11) * (2 / 3 - 1 / 2 ^ 10) \<le> 2 / 3 * (1 - uro) * (1 - 1 / 2 ^ 12)"
    using uro_small(1) by simp
  then have "(1 + 1 / 2 ^ 11) * (2 / 3 - 1 / 2 ^ 10) * T \<le> 2 / 3 * (1 - uro) * (1 - 1 / 2 ^ 12) * T"
    using T0 by (rule mult_right_mono)
  then have "(1 + 1 / 2 ^ 11) * ((2 / 3 - 1 / 2 ^ 10) * T) \<le> 2 / 3 * (1 - uro) * ((1 - 1 / 2 ^ 12) * T)"
    by (simp only: mult.assoc)
  from order_trans [OF this low] have "(1 + 1 / 2 ^ 11) * ((2 / 3 - 1 / 2 ^ 10) * T) \<le> (1 + 1 / 2 ^ 11) * A" .
  then show ?thesis by (simp add: T_def A_def)
qed

interpretation pq: weighted_quorum "members vs" "weight vs" "power_quorum vs" "1 / 2 ^ 10" for vs
proof
  show "finite (members vs)" by (simp add: members_def)
  show "0 \<le> weight vs a" for a by (simp add: weight_def split: f64.splits)
  show "power_quorum vs Q \<Longrightarrow> Q \<subseteq> members vs" for Q by (simp add: power_quorum_def)
  show "power_quorum vs Q \<Longrightarrow> (2 / 3 - 1 / 2 ^ 10) * sum (weight vs) (members vs) \<le> sum (weight vs) Q"
    for Q by (rule power_quorum_heavy)
qed

end
