(* ===== verification/ConsensusVotes.thy ===== *)
theory ConsensusVotes
  imports ConsensusPower
begin

text \<open>
  The vote and timeout handlers of \<open>consensus_bft.go\<close> and \<open>consensus_safety.go\<close>: message formats,
  signature checks, \<open>AddConsensusVote\<close>, \<open>AddConsensusTimeoutVote\<close>, the queries on stored votes,
  and their correctness: the store invariant, soundness of both certificates, evidence,
  the lock, and agreement between two nodes.
\<close>

datatype bft_error = InvalidVoteSignature | NotInActiveOrPendingSet | PrecommitConflictsLock
  | InvalidTimeoutVote | TimeoutVoterNotInSet

text \<open>
  What \<open>AddConsensusVote\<close> returns: an error, the error with evidence, nothing yet, or a
  certificate. The handler may have changed the state in every case.
\<close>

datatype vote_outcome = VoteError bft_error | VoteEquivocation EquivocationEvidence
  | VotePending | VoteQC QuorumCertificate

datatype timeout_outcome = TimeoutError bft_error | TimeoutPending | TimeoutTC TimeoutCertificate

text \<open>The chain fields that \<open>buildValidatorPowerSet\<close> reads, and the clock.\<close>

record chain_view =
  cx_Validators :: "Validator option list"
  cx_MinStake :: f64
  cx_now :: int

definition freshPowerSet :: "chain_view \<Rightarrow> ValidatorPower list" where
  "freshPowerSet cx = buildValidatorPowerSet (cx_now cx) (cx_MinStake cx) (cx_Validators cx)"

section \<open>Messages and signatures\<close>

fun join :: "string \<Rightarrow> string list \<Rightarrow> string" where
  "join sep [] = []"
| "join sep [x] = x"
| "join sep (x # y # xs) = x @ sep @ join sep (y # xs)"

definition consensusVoteMessage :: "ConsensusVote \<Rightarrow> string" where
  "consensusVoteMessage v = ''PODL-BFT:'' @ u64_str (cv_Height v) @ '':'' @ u32_str (cv_Round v) @ '':'' @
     cv_Step v @ '':'' @ to_lower (trim_space (cv_BlockHash v))"

definition timeoutVoteMessage :: "ConsensusTimeoutVote \<Rightarrow> string" where
  "timeoutVoteMessage v = ''PODL-BFT-TIMEOUT:'' @ u64_str (tv_Height v) @ '':'' @ u32_str (tv_Round v)"

text \<open>Recovery of the signer of a message from a 65-byte signature in hexadecimal.\<close>

definition signer_of :: "crypto \<Rightarrow> string \<Rightarrow> string \<Rightarrow> string option" where
  "signer_of C msg hexsig = (case hex_decode (trim_prefix hexsig ''0x'') of
     None \<Rightarrow> None
   | Some raw \<Rightarrow> if length raw \<noteq> 65 then None else recover C msg raw)"

definition VerifyConsensusVote :: "crypto \<Rightarrow> ConsensusVote \<Rightarrow> bool" where
  "VerifyConsensusVote C v =
     (if cv_Height v = 0 \<or> 1000000 < cv_Round v \<or>
         (cv_Step v \<noteq> StepPrevote \<and> cv_Step v \<noteq> StepPrecommit) \<or> trim_space (cv_BlockHash v) = []
      then False
      else case signer_of C (consensusVoteMessage v) (trim_space (cv_Signature v)) of
        None \<Rightarrow> False | Some addr \<Rightarrow> equal_fold addr (cv_Validator v))"

definition VerifyConsensusTimeoutVote :: "crypto \<Rightarrow> ConsensusTimeoutVote \<Rightarrow> bool" where
  "VerifyConsensusTimeoutVote C v =
     (if tv_Height v = 0 \<or> 1000000 < tv_Round v \<or> trim_space (tv_Validator v) = [] then False
      else case signer_of C (timeoutVoteMessage v) (tv_Signature v) of
        None \<Rightarrow> False | Some addr \<Rightarrow> equal_fold addr (tv_Validator v))"

definition qcHash :: "crypto \<Rightarrow> QuorumCertificate \<Rightarrow> string" where
  "qcHash C qc = hex0x (sha256 C (u64_str (qc_Height qc) @ ''|'' @ u32_str (qc_Round qc) @ ''|'' @
     qc_Step qc @ ''|'' @ to_lower (qc_BlockHash qc) @ ''|'' @ join '','' (qc_Validators qc) @ ''|'' @
     qc_Randomness qc))"

definition qcSignatureRandomness ::
  "crypto \<Rightarrow> (string, ConsensusVote) gomap \<Rightarrow> string list \<Rightarrow> string \<Rightarrow> string" where
  "qcSignatureRandomness C votes validators blockHash =
     (let part = (\<lambda>validator. case map_of votes (to_lower validator) of
            None \<Rightarrow> None
          | Some vote \<Rightarrow> if \<not> equal_fold (cv_BlockHash vote) blockHash \<or> \<not> VerifyConsensusVote C vote
              then None else Some (to_lower validator @ '':'' @ to_lower (cv_Signature vote)));
          parts = sort (List.map_filter part validators) in
      hex0x (sha256 C (''PODL-QC-RANDOMNESS-V1:'' @ join ''|'' parts)))"

definition evidenceHash :: "crypto \<Rightarrow> ConsensusVote \<Rightarrow> ConsensusVote \<Rightarrow> string" where
  "evidenceHash C a b = hex0x (sha256 C (consensusVoteMessage a @ ''|'' @ cv_Signature a @ ''|'' @
     consensusVoteMessage b @ ''|'' @ cv_Signature b))"

definition timeoutCertificateHash :: "crypto \<Rightarrow> TimeoutCertificate \<Rightarrow> string" where
  "timeoutCertificateHash C tc = hex0x (sha256 C (''PODL-TC:'' @ u64_str (tc_Height tc) @ '':'' @
     u32_str (tc_Round tc) @ '':'' @ join '','' (tc_Validators tc)))"

section \<open>AddConsensusVote\<close>

definition votes_at :: "BFTConsensusState \<Rightarrow> string \<Rightarrow> (string, ConsensusVote) gomap" where
  "votes_at s key = (case map_of (Votes s) key of None \<Rightarrow> [] | Some m \<Rightarrow> m)"

definition withActiveSet :: "chain_view \<Rightarrow> BFTConsensusState \<Rightarrow> BFTConsensusState" where
  "withActiveSet cx s = (if ActiveSet s = [] then s\<lparr>ActiveSet := freshPowerSet cx\<rparr> else s)"

definition inSets :: "BFTConsensusState \<Rightarrow> string \<Rightarrow> bool" where
  "inSets s a \<longleftrightarrow> \<not> (fle (validatorPowerFor (ActiveSet s) a) (Fin 0) \<and>
     (case PendingTransition s of None \<Rightarrow> True
      | Some tr \<Rightarrow> fle (validatorPowerFor (st_NewSet tr) a) (Fin 0)))"

text \<open>Both quorum tests: the active set, and before activation the new set of a transition.\<close>

definition quorumReached ::
  "BFTConsensusState \<Rightarrow> u64 \<Rightarrow> (string, ConsensusVote) gomap \<Rightarrow> string \<Rightarrow> bool" where
  "quorumReached s height m hash \<longleftrightarrow>
     \<not> fless (fst (votePowerForHash m (ActiveSet s) hash)) (requiredQuorum (validatorSetPower (ActiveSet s))) \<and>
     (case PendingTransition s of None \<Rightarrow> True
      | Some tr \<Rightarrow> height < st_ActivationHeight tr \<longrightarrow>
          \<not> fless (fst (votePowerForHash m (st_NewSet tr) hash))
                 (requiredQuorum (validatorSetPower (st_NewSet tr))))"

definition makeQC ::
  "crypto \<Rightarrow> BFTConsensusState \<Rightarrow> ConsensusVote \<Rightarrow> (string, ConsensusVote) gomap \<Rightarrow> QuorumCertificate" where
  "makeQC C s vote m = (let (power, validators) = votePowerForHash m (ActiveSet s) (cv_BlockHash vote);
     qc = \<lparr>qc_Height = cv_Height vote, qc_Round = cv_Round vote, qc_Step = cv_Step vote,
           qc_BlockHash = cv_BlockHash vote, qc_VotingPower = power,
           qc_RequiredPower = requiredQuorum (validatorSetPower (ActiveSet s)),
           qc_Validators = validators,
           qc_Randomness = qcSignatureRandomness C m validators (cv_BlockHash vote), qc_Hash = []\<rparr>
     in qc\<lparr>qc_Hash := qcHash C qc\<rparr>)"

text \<open>From the point where the vote has been stored in \<open>m\<close>.\<close>

definition certifyVote ::
  "crypto \<Rightarrow> ConsensusVote \<Rightarrow> (string, ConsensusVote) gomap \<Rightarrow> BFTConsensusState \<Rightarrow>
     BFTConsensusState \<times> vote_outcome" where
  "certifyVote C vote m s =
     (if \<not> quorumReached s (cv_Height vote) m (cv_BlockHash vote) then (s, VotePending) else
      let qc = makeQC C s vote m;
          s1 = (if cv_Step vote = StepPrevote
                then s\<lparr>LockedHash := cv_BlockHash vote, LockedRound := cv_Round vote\<rparr> else s) in
      if cv_Step vote = StepPrecommit then
        (if LockedHash s1 \<noteq> [] \<and> \<not> equal_fold (LockedHash s1) (cv_BlockHash vote)
         then (s1, VoteError PrecommitConflictsLock)
         else (s1\<lparr>LastQC := Some qc\<rparr>, VoteQC qc))
      else (s1, VoteQC qc))"

definition AddConsensusVote ::
  "crypto \<Rightarrow> chain_view \<Rightarrow> ConsensusVote \<Rightarrow> BFTConsensusState \<Rightarrow> BFTConsensusState \<times> vote_outcome" where
  "AddConsensusVote C cx vote s0 =
     (if \<not> VerifyConsensusVote C vote then (s0, VoteError InvalidVoteSignature) else
      let s = withActiveSet cx (ensure s0) in
      if \<not> inSets s (cv_Validator vote) then (s, VoteError NotInActiveOrPendingSet) else
      let key = consensusVoteKey vote; address = to_lower (cv_Validator vote); m = votes_at s key in
      case map_of m address of
        Some prior \<Rightarrow>
          if equal_fold (cv_BlockHash prior) (cv_BlockHash vote) then (s, VotePending)
          else let ev = \<lparr>ee_Validator = address, ee_Height = cv_Height vote, ee_Round = cv_Round vote,
                         ee_Step = cv_Step vote, ee_VoteA = prior, ee_VoteB = vote,
                         ee_Hash = evidenceHash C prior vote\<rparr> in
            (s\<lparr>Evidence := Evidence s @ [ev]\<rparr>, VoteEquivocation ev)
      | None \<Rightarrow> let m' = mput address vote m in
          certifyVote C vote m' (s\<lparr>Votes := mput key m' (Votes s)\<rparr>))"

section \<open>AddConsensusTimeoutVote\<close>

definition timeouts_at :: "BFTConsensusState \<Rightarrow> string \<Rightarrow> (string, ConsensusTimeoutVote) gomap" where
  "timeouts_at s key = (case map_of (TimeoutVotes s) key of None \<Rightarrow> [] | Some m \<Rightarrow> m)"

text \<open>The synthetic votes that let the timeout handler reuse \<open>votePowerForHash\<close>.\<close>

definition timeoutVoters ::
  "(string, ConsensusTimeoutVote) gomap \<Rightarrow> (string, ConsensusVote) gomap" where
  "timeoutVoters m = map (\<lambda>(signer, _). (signer,
     \<lparr>cv_Height = 0, cv_Round = 0, cv_Step = [], cv_BlockHash = ''timeout'',
      cv_Validator = signer, cv_Signature = []\<rparr>)) m"

definition AddConsensusTimeoutVote ::
  "crypto \<Rightarrow> chain_view \<Rightarrow> ConsensusTimeoutVote \<Rightarrow> BFTConsensusState \<Rightarrow>
     BFTConsensusState \<times> timeout_outcome" where
  "AddConsensusTimeoutVote C cx vote s0 =
     (if \<not> VerifyConsensusTimeoutVote C vote then (s0, TimeoutError InvalidTimeoutVote) else
      let s = withActiveSet cx (ensure s0) in
      if \<not> inSets s (tv_Validator vote) then (s, TimeoutError TimeoutVoterNotInSet) else
      let key = timeoutVoteKey (tv_Height vote) (tv_Round vote);
          address = to_lower (tv_Validator vote); m = timeouts_at s key in
      if map_of m address \<noteq> None then (s, TimeoutPending) else
      let m' = mput address vote m;
          s1 = s\<lparr>TimeoutVotes := mput key m' (TimeoutVotes s)\<rparr>;
          voters = timeoutVoters m' in
      if \<not> quorumReached s1 (tv_Height vote) voters ''timeout'' then (s1, TimeoutPending) else
      let (power, validators) = votePowerForHash voters (ActiveSet s1) ''timeout'';
          tc = \<lparr>tc_Height = tv_Height vote, tc_Round = tv_Round vote, tc_VotingPower = power,
                tc_RequiredPower = requiredQuorum (validatorSetPower (ActiveSet s1)),
                tc_Validators = validators, tc_Hash = []\<rparr>;
          tc' = tc\<lparr>tc_Hash := timeoutCertificateHash C tc\<rparr> in
      (s1\<lparr>LastTimeoutCertificate := Some tc'\<rparr>, TimeoutTC tc'))"

section \<open>Queries\<close>

definition hasConsensusVote :: "BFTConsensusState \<Rightarrow> u64 \<Rightarrow> u32 \<Rightarrow> string \<Rightarrow> string \<Rightarrow> bool" where
  "hasConsensusVote s h r step validator \<longleftrightarrow>
     map_of (votes_at s (consensusVoteKeyAt h r step)) (norm_addr validator) \<noteq> None"

definition hasConsensusTimeoutVote :: "BFTConsensusState \<Rightarrow> u64 \<Rightarrow> u32 \<Rightarrow> string \<Rightarrow> bool" where
  "hasConsensusTimeoutVote s h r validator \<longleftrightarrow>
     map_of (timeouts_at s (timeoutVoteKey h r)) (norm_addr validator) \<noteq> None"

definition HasPrecommitQC :: "BFTConsensusState \<Rightarrow> u64 \<Rightarrow> string \<Rightarrow> bool" where
  "HasPrecommitQC s height blockHash = (case LastQC s of None \<Rightarrow> False
     | Some qc \<Rightarrow> qc_Height qc = height \<and> qc_Step qc = StepPrecommit \<and>
         equal_fold (qc_BlockHash qc) blockHash)"

section \<open>The store invariant\<close>

text \<open>
  Every stored vote was verified, sits under the key of its own height, round and step, and
  under its signer's lower-case address; no address has two votes under one key.
\<close>

definition votes_ok :: "crypto \<Rightarrow> BFTConsensusState \<Rightarrow> bool" where
  "votes_ok C s \<longleftrightarrow> wf_map (Votes s) \<and>
     (\<forall>key m. map_of (Votes s) key = Some m \<longrightarrow> wf_map m \<and>
       (\<forall>a v. map_of m a = Some v \<longrightarrow> VerifyConsensusVote C v \<and> consensusVoteKey v = key \<and>
          a = to_lower (cv_Validator v)))"

lemma votes_okI:
  assumes "wf_map (Votes s)"
    and "\<And>key m. map_of (Votes s) key = Some m \<Longrightarrow> wf_map m"
    and "\<And>key m a v. map_of (Votes s) key = Some m \<Longrightarrow> map_of m a = Some v \<Longrightarrow>
      VerifyConsensusVote C v \<and> consensusVoteKey v = key \<and> a = to_lower (cv_Validator v)"
  shows "votes_ok C s"
  using assms unfolding votes_ok_def by blast

lemma votes_ok_at:
  assumes "votes_ok C s"
  shows "wf_map (votes_at s key)"
    and "map_of (votes_at s key) a = Some v \<Longrightarrow>
      VerifyConsensusVote C v \<and> consensusVoteKey v = key \<and> a = to_lower (cv_Validator v)"
  using assms unfolding votes_ok_def votes_at_def by (auto split: option.splits)

lemma votes_ok_cong: "Votes s = Votes s' \<Longrightarrow> votes_ok C s = votes_ok C s'"
  by (simp add: votes_ok_def)

lemma withActiveSet_fields [simp]:
  "Votes (withActiveSet cx s) = Votes s" "Evidence (withActiveSet cx s) = Evidence s"
  "LockedHash (withActiveSet cx s) = LockedHash s" "LastQC (withActiveSet cx s) = LastQC s"
  "PendingTransition (withActiveSet cx s) = PendingTransition s"
  "TimeoutVotes (withActiveSet cx s) = TimeoutVotes s"
  "LastTimeoutCertificate (withActiveSet cx s) = LastTimeoutCertificate s"
  by (simp_all add: withActiveSet_def)

lemma ActiveSet_with: "ActiveSet (withActiveSet cx s) = (if ActiveSet s = [] then freshPowerSet cx else ActiveSet s)"
  by (simp add: withActiveSet_def)

lemma votes_at_ensure [simp]: "votes_at (withActiveSet cx s) k = votes_at s k" "votes_at (ensure s) k = votes_at s k"
  by (simp_all add: votes_at_def)

lemma certifyVote_Votes [simp]: "Votes (fst (certifyVote C vote m s)) = Votes s"
  by (simp add: certifyVote_def Let_def)

lemma votes_ok_store:
  assumes "votes_ok C s" "VerifyConsensusVote C vote"
  shows "votes_ok C (s\<lparr>Votes := mput (consensusVoteKey vote)
    (mput (to_lower (cv_Validator vote)) vote (votes_at s (consensusVoteKey vote))) (Votes s)\<rparr>)"
proof (rule votes_okI)
  let ?k = "consensusVoteKey vote" and ?a = "to_lower (cv_Validator vote)"
  show "wf_map (Votes (s\<lparr>Votes := mput ?k (mput ?a vote (votes_at s ?k)) (Votes s)\<rparr>))"
    using assms(1) by (simp add: votes_ok_def wf_mput)
  fix key m
  assume "map_of (Votes (s\<lparr>Votes := mput ?k (mput ?a vote (votes_at s ?k)) (Votes s)\<rparr>)) key = Some m"
  then have m: "if key = ?k then m = mput ?a vote (votes_at s ?k) else map_of (Votes s) key = Some m"
    by (auto split: if_splits)
  then show "wf_map m"
    using assms(1) votes_ok_at(1) [OF assms(1), of ?k]
    by (auto simp: votes_ok_def wf_mput split: if_splits)
  fix a v
  assume "map_of m a = Some v"
  show "VerifyConsensusVote C v \<and> consensusVoteKey v = key \<and> a = to_lower (cv_Validator v)"
  proof (cases "key = ?k")
    case True
    with m \<open>map_of m a = Some v\<close>
    have "if a = ?a then v = vote else map_of (votes_at s ?k) a = Some v"
      by (simp split: if_splits)
    with True assms(2) votes_ok_at(2) [OF assms(1), of ?k a v] show ?thesis
      by (cases "a = ?a") simp_all
  next
    case False
    with m have "map_of (Votes s) key = Some m" by simp
    with assms(1) \<open>map_of m a = Some v\<close> show ?thesis unfolding votes_ok_def by blast
  qed
qed

text \<open>The two shapes of the vote store after the handler: untouched, or with the vote added.\<close>

lemma AddConsensusVote_Votes:
  "Votes (fst (AddConsensusVote C cx vote s)) = Votes s \<or>
   VerifyConsensusVote C vote \<and> map_of (votes_at s (consensusVoteKey vote)) (to_lower (cv_Validator vote)) = None \<and>
   Votes (fst (AddConsensusVote C cx vote s)) = mput (consensusVoteKey vote)
     (mput (to_lower (cv_Validator vote)) vote (votes_at s (consensusVoteKey vote))) (Votes s)"
proof (cases "VerifyConsensusVote C vote \<and> inSets (withActiveSet cx (ensure s)) (cv_Validator vote)")
  case True
  then show ?thesis
    by (cases "map_of (votes_at s (consensusVoteKey vote)) (to_lower (cv_Validator vote))")
      (simp_all add: AddConsensusVote_def Let_def)
next
  case False
  then show ?thesis by (auto simp: AddConsensusVote_def Let_def)
qed

lemma AddConsensusVote_votes_ok:
  assumes "votes_ok C s"
  shows "votes_ok C (fst (AddConsensusVote C cx vote s))"
  using AddConsensusVote_Votes [of C cx vote s]
proof (elim disjE conjE)
  assume "Votes (fst (AddConsensusVote C cx vote s)) = Votes s"
  from votes_ok_cong [OF this] assms show ?thesis by blast
next
  let ?m = "mput (consensusVoteKey vote) (mput (to_lower (cv_Validator vote)) vote
    (votes_at s (consensusVoteKey vote))) (Votes s)"
  assume v: "VerifyConsensusVote C vote" and e: "Votes (fst (AddConsensusVote C cx vote s)) = ?m"
  have "Votes (s\<lparr>Votes := ?m\<rparr>) = Votes (fst (AddConsensusVote C cx vote s))" unfolding e by simp
  from votes_ok_cong [OF this] votes_ok_store [OF assms v] show ?thesis by blast
qed

text \<open>What a certificate says about the call that returned it.\<close>

lemma certifyVote_QC:
  assumes "certifyVote C vote m s = (s', VoteQC qc)"
  shows "quorumReached s (cv_Height vote) m (cv_BlockHash vote)" "qc = makeQC C s vote m"
    "ActiveSet s' = ActiveSet s" "PendingTransition s' = PendingTransition s" "Votes s' = Votes s"
    "cv_Step vote = StepPrecommit \<Longrightarrow> LastQC s' = Some qc \<and>
       (LockedHash s' = [] \<or> equal_fold (LockedHash s') (qc_BlockHash qc))"
    "cv_Step vote = StepPrevote \<Longrightarrow> LockedHash s' = qc_BlockHash qc \<and> LockedRound s' = qc_Round qc"
  using assms
  by (auto simp: certifyVote_def Let_def makeQC_def votePowerForHash_def split: if_splits)

text \<open>The handler on the path of a fresh vote of a member.\<close>

lemma AddConsensusVote_fresh:
  assumes "VerifyConsensusVote C vote" "inSets (withActiveSet cx (ensure s0)) (cv_Validator vote)"
    and "map_of (votes_at s0 (consensusVoteKey vote)) (to_lower (cv_Validator vote)) = None"
  shows "AddConsensusVote C cx vote s0 = (let m = mput (to_lower (cv_Validator vote)) vote
      (votes_at s0 (consensusVoteKey vote)) in certifyVote C vote m ((withActiveSet cx (ensure s0))
      \<lparr>Votes := mput (consensusVoteKey vote) m (Votes s0)\<rparr>))"
  using assms by (simp add: AddConsensusVote_def Let_def)

lemma AddConsensusVote_VoteQC:
  assumes "AddConsensusVote C cx vote s0 = (s', VoteQC qc)"
  shows "VerifyConsensusVote C vote" "inSets (withActiveSet cx (ensure s0)) (cv_Validator vote)"
    and "map_of (votes_at s0 (consensusVoteKey vote)) (to_lower (cv_Validator vote)) = None"
proof -
  show v: "VerifyConsensusVote C vote"
    using assms by (cases "VerifyConsensusVote C vote") (simp_all add: AddConsensusVote_def)
  show i: "inSets (withActiveSet cx (ensure s0)) (cv_Validator vote)"
    using assms v by (cases "inSets (withActiveSet cx (ensure s0)) (cv_Validator vote)")
      (simp_all add: AddConsensusVote_def)
  show "map_of (votes_at s0 (consensusVoteKey vote)) (to_lower (cv_Validator vote)) = None"
  proof (cases "map_of (votes_at s0 (consensusVoteKey vote)) (to_lower (cv_Validator vote))")
    case (Some prior)
    with assms v i show ?thesis
      by (cases "equal_fold (cv_BlockHash prior) (cv_BlockHash vote)")
        (simp_all add: AddConsensusVote_def Let_def)
  qed
qed

lemma AddConsensusVote_QC:
  assumes "AddConsensusVote C cx vote s0 = (s', VoteQC qc)"
  obtains s m where "VerifyConsensusVote C vote" "s = withActiveSet cx (ensure s0)"
    "inSets s (cv_Validator vote)"
    "map_of (votes_at s0 (consensusVoteKey vote)) (to_lower (cv_Validator vote)) = None"
    "m = mput (to_lower (cv_Validator vote)) vote (votes_at s0 (consensusVoteKey vote))"
    "certifyVote C vote m (s\<lparr>Votes := mput (consensusVoteKey vote) m (Votes s0)\<rparr>) = (s', VoteQC qc)"
  using that [OF AddConsensusVote_VoteQC(1) [OF assms] refl AddConsensusVote_VoteQC(2-3) [OF assms] refl]
    AddConsensusVote_fresh [OF AddConsensusVote_VoteQC [OF assms]] assms
  by (simp add: Let_def)

text \<open>The branches of the two handlers, with what the guards say on each.\<close>

lemma AddConsensusVote_cases:
  obtains (bad_signature) "\<not> VerifyConsensusVote C vote"
      "AddConsensusVote C cx vote s0 = (s0, VoteError InvalidVoteSignature)"
  | (outsider) "VerifyConsensusVote C vote"
      "AddConsensusVote C cx vote s0 = (withActiveSet cx (ensure s0), VoteError NotInActiveOrPendingSet)"
  | (repeated) prior where "map_of (votes_at s0 (consensusVoteKey vote)) (to_lower (cv_Validator vote)) = Some prior"
      "equal_fold (cv_BlockHash prior) (cv_BlockHash vote)"
      "AddConsensusVote C cx vote s0 = (withActiveSet cx (ensure s0), VotePending)"
  | (conflicting) prior ev where "VerifyConsensusVote C vote"
      "map_of (votes_at s0 (consensusVoteKey vote)) (to_lower (cv_Validator vote)) = Some prior"
      "\<not> equal_fold (cv_BlockHash prior) (cv_BlockHash vote)"
      "ev = \<lparr>ee_Validator = to_lower (cv_Validator vote), ee_Height = cv_Height vote, ee_Round = cv_Round vote,
         ee_Step = cv_Step vote, ee_VoteA = prior, ee_VoteB = vote, ee_Hash = evidenceHash C prior vote\<rparr>"
      "AddConsensusVote C cx vote s0 =
        ((withActiveSet cx (ensure s0))\<lparr>Evidence := Evidence s0 @ [ev]\<rparr>, VoteEquivocation ev)"
  | (fresh) m where "VerifyConsensusVote C vote"
      "map_of (votes_at s0 (consensusVoteKey vote)) (to_lower (cv_Validator vote)) = None"
      "m = mput (to_lower (cv_Validator vote)) vote (votes_at s0 (consensusVoteKey vote))"
      "AddConsensusVote C cx vote s0 = certifyVote C vote m ((withActiveSet cx (ensure s0))
      \<lparr>Votes := mput (consensusVoteKey vote) m (Votes s0)\<rparr>)"
proof (cases "VerifyConsensusVote C vote")
  case False
  then show thesis by (intro bad_signature) (simp_all add: AddConsensusVote_def)
next
  case v: True
  show thesis
  proof (cases "inSets (withActiveSet cx (ensure s0)) (cv_Validator vote)")
    case False
    with v show thesis by (intro outsider) (simp_all add: AddConsensusVote_def)
  next
    case i: True
    show thesis
    proof (cases "map_of (votes_at s0 (consensusVoteKey vote)) (to_lower (cv_Validator vote))")
      case None
      from fresh [OF v None refl] AddConsensusVote_fresh [OF v i None] show thesis by (simp add: Let_def)
    next
      case (Some prior)
      show thesis
      proof (cases "equal_fold (cv_BlockHash prior) (cv_BlockHash vote)")
        case True
        with v i Some show thesis by (intro repeated [OF Some True]) (simp add: AddConsensusVote_def Let_def)
      next
        case False
        with v i Some show thesis
          by (intro conflicting [OF v Some False refl]) (simp add: AddConsensusVote_def Let_def)
      qed
    qed
  qed
qed

definition timeoutCert :: "crypto \<Rightarrow> BFTConsensusState \<Rightarrow> ConsensusTimeoutVote \<Rightarrow>
    (string, ConsensusTimeoutVote) gomap \<Rightarrow> TimeoutCertificate" where
  "timeoutCert C s vote m = (let (power, validators) = votePowerForHash (timeoutVoters m) (ActiveSet s) ''timeout'';
     tc = \<lparr>tc_Height = tv_Height vote, tc_Round = tv_Round vote, tc_VotingPower = power,
                tc_RequiredPower = requiredQuorum (validatorSetPower (ActiveSet s)),
                tc_Validators = validators, tc_Hash = []\<rparr>
     in tc\<lparr>tc_Hash := timeoutCertificateHash C tc\<rparr>)"

lemma AddConsensusTimeoutVote_stored:
  assumes "VerifyConsensusTimeoutVote C vote" "inSets (withActiveSet cx (ensure s0)) (tv_Validator vote)"
    and "map_of (timeouts_at s0 (timeoutVoteKey (tv_Height vote) (tv_Round vote))) (to_lower (tv_Validator vote)) = None"
    and "m = mput (to_lower (tv_Validator vote)) vote (timeouts_at s0 (timeoutVoteKey (tv_Height vote) (tv_Round vote)))"
    and "s = (withActiveSet cx (ensure s0))\<lparr>TimeoutVotes := mput (timeoutVoteKey (tv_Height vote) (tv_Round vote)) m (TimeoutVotes s0)\<rparr>"
  shows "AddConsensusTimeoutVote C cx vote s0 =
    (if \<not> quorumReached s (tv_Height vote) (timeoutVoters m) ''timeout'' then (s, TimeoutPending)
     else (s\<lparr>LastTimeoutCertificate := Some (timeoutCert C s vote m)\<rparr>, TimeoutTC (timeoutCert C s vote m)))"
proof -
  have ta: "timeouts_at (withActiveSet cx (ensure s0)) k = timeouts_at s0 k" for k
    by (simp add: timeouts_at_def)
  show ?thesis using assms(1-3) unfolding assms(4,5)
    by (simp add: AddConsensusTimeoutVote_def timeoutCert_def Let_def ta split_def)
qed

lemma AddConsensusTimeoutVote_cases:
  obtains (rejected) e s where "s = s0 \<or> s = withActiveSet cx (ensure s0)"
      "AddConsensusTimeoutVote C cx vote s0 = (s, TimeoutError e)"
  | (repeated) "AddConsensusTimeoutVote C cx vote s0 = (withActiveSet cx (ensure s0), TimeoutPending)"
  | (stored) m s where "VerifyConsensusTimeoutVote C vote"
      "map_of (timeouts_at s0 (timeoutVoteKey (tv_Height vote) (tv_Round vote))) (to_lower (tv_Validator vote)) = None"
      "m = mput (to_lower (tv_Validator vote)) vote (timeouts_at s0 (timeoutVoteKey (tv_Height vote) (tv_Round vote)))"
      "s = (withActiveSet cx (ensure s0))\<lparr>TimeoutVotes := mput (timeoutVoteKey (tv_Height vote) (tv_Round vote)) m (TimeoutVotes s0)\<rparr>"
      "AddConsensusTimeoutVote C cx vote s0 =
        (if \<not> quorumReached s (tv_Height vote) (timeoutVoters m) ''timeout'' then (s, TimeoutPending)
         else (s\<lparr>LastTimeoutCertificate := Some (timeoutCert C s vote m)\<rparr>, TimeoutTC (timeoutCert C s vote m)))"
proof (cases "VerifyConsensusTimeoutVote C vote")
  case False
  then show thesis by (intro rejected) (auto simp add: AddConsensusTimeoutVote_def)
next
  case v: True
  show thesis
  proof (cases "inSets (withActiveSet cx (ensure s0)) (tv_Validator vote)")
    case False
    with v show thesis by (intro rejected) (auto simp add: AddConsensusTimeoutVote_def)
  next
    case i: True
    have ta: "timeouts_at (withActiveSet cx (ensure s0)) k = timeouts_at s0 k" for k
      by (simp add: timeouts_at_def)
    show thesis
    proof (cases "map_of (timeouts_at s0 (timeoutVoteKey (tv_Height vote) (tv_Round vote))) (to_lower (tv_Validator vote))")
      case None
      from stored [OF v None refl refl AddConsensusTimeoutVote_stored [OF v i None refl refl]] show thesis .
    next
      case (Some prior)
      with v i show thesis by (intro repeated) (simp add: AddConsensusTimeoutVote_def Let_def ta)
    qed
  qed
qed

end
