(* ===== verification/ConsensusProposer.thy ===== *)
theory ConsensusProposer
  imports ConsensusVotes
begin

text \<open>
  The epoch snapshot of the validator set (\<open>PrepareValidatorSetTransition\<close>), weighted rendezvous
  selection of the proposer (\<open>selectBlockProposerWithEntropy\<close>) and the proposer certificate of
  \<open>consensus_safety.go\<close>. What selection reads besides the state is the record \<open>proposer_env\<close>.
\<close>

record ProposerCertificate =
  pc_Height :: u64
  pc_Round :: u32
  pc_Epoch :: u64
  pc_SpecHash :: string
  pc_SetHash :: string
  pc_Proposer :: string
  pc_Entropy :: string
  pc_Seed :: string
  pc_ScoreDigest :: string

text \<open>
  \<open>math.Log\<close> is not correctly rounded and \<open>json.Marshal\<close> of a power set prints floats, so both are
  fields, as are the hash of the chain specification and the entropy of the parent block's proof.
\<close>

record proposer_env =
  pe_Log :: "f64 \<Rightarrow> f64"
  pe_SetJSON :: "ValidatorPower list \<Rightarrow> string"
  pe_SpecHash :: string
  pe_BlockEntropy :: "u64 \<Rightarrow> string"

section \<open>The epoch snapshot\<close>

definition activateTransition :: "u64 \<Rightarrow> BFTConsensusState \<Rightarrow> BFTConsensusState" where
  "activateTransition height s = (case PendingTransition s of None \<Rightarrow> s
     | Some tr \<Rightarrow> if st_ActivationHeight tr \<le> height
         then s\<lparr>ActiveSet := st_NewSet tr, PendingTransition := None\<rparr> else s)"

definition PrepareValidatorSetTransition ::
  "chain_view \<Rightarrow> u64 \<Rightarrow> BFTConsensusState \<Rightarrow> BFTConsensusState" where
  "PrepareValidatorSetTransition cx height s0 =
     (let s = ensure s0 in
      if ActiveSet s = [] then s\<lparr>ActiveSet := freshPowerSet cx\<rparr>
      else if height = 0 \<or> height mod EpochLength s \<noteq> 0 then s
      else let s1 = activateTransition height s in
        case PendingTransition s1 of Some _ \<Rightarrow> s1
        | None \<Rightarrow> s1\<lparr>PendingTransition := Some \<lparr>st_ActivationHeight = height + EpochLength s1,
            st_OldSet = ActiveSet s1, st_NewSet = freshPowerSet cx\<rparr>\<rparr>)"

section \<open>Selection\<close>

definition be_bytes :: "nat \<Rightarrow> nat \<Rightarrow> string" where
  "be_bytes k n = map (\<lambda>i. char_of (n div 256 ^ (k - 1 - i) mod 256)) [0..<k]"

definition be_nat :: "string \<Rightarrow> nat" where
  "be_nat s = foldl (\<lambda>n c. 256 * n + of_char c) 0 s"

definition candidateScore ::
  "crypto \<Rightarrow> (f64 \<Rightarrow> f64) \<Rightarrow> u64 \<Rightarrow> u32 \<Rightarrow> string \<Rightarrow> ValidatorPower \<Rightarrow> f64" where
  "candidateScore C logf height rd entropy candidate =
     (let seed = be_bytes 8 (unat height) @ be_bytes 4 (unat rd);
          material = ''PODL-QC-SORTITION-V1:'' @ to_lower entropy @ '':'' @ seed @ to_lower (vp_Address candidate);
          raw = be_nat (take 8 (sha256 C material));
          u = fdiv (fadd (f_of_int (int raw)) (Fin 1)) (fadd (f_of_int (2 ^ 64 - 1)) (Fin 1)) in
      fdiv (fneg (logf u)) (vp_Power candidate))"

text \<open>The loop over the set: the best address so far and its score.\<close>

fun pickProposer ::
  "(ValidatorPower \<Rightarrow> f64) \<Rightarrow> ValidatorPower list \<Rightarrow> string \<times> f64 \<Rightarrow> string \<times> f64" where
  "pickProposer score [] best = best"
| "pickProposer score (c # cs) best =
     pickProposer score cs
       (if fle (vp_Power c) (Fin 0) then best
        else if fless (score c) (snd best) then (vp_Address c, score c) else best)"

fun findValidator :: "Validator option list \<Rightarrow> string \<Rightarrow> Validator option" where
  "findValidator [] a = None"
| "findValidator (v # vs) a = (case v of None \<Rightarrow> findValidator vs a
     | Some w \<Rightarrow> if equal_fold (v_Address w) a then Some w else findValidator vs a)"

definition selectBlockProposerWithEntropy ::
  "crypto \<Rightarrow> proposer_env \<Rightarrow> chain_view \<Rightarrow> u64 \<Rightarrow> u32 \<Rightarrow> string \<Rightarrow> BFTConsensusState \<Rightarrow>
     BFTConsensusState \<times> Validator option" where
  "selectBlockProposerWithEntropy C E cx height rd entropy s0 =
     (if cx_Validators cx = [] then (s0, None) else
      let s = PrepareValidatorSetTransition cx height s0 in
      if ActiveSet s = [] then (s, None)
      else (s, findValidator (cx_Validators cx)
        (fst (pickProposer (candidateScore C (pe_Log E) height rd entropy) (ActiveSet s) ([], PInf)))))"

definition proposerEntropy :: "proposer_env \<Rightarrow> u64 \<Rightarrow> BFTConsensusState \<Rightarrow> string" where
  "proposerEntropy E height s =
     (if pe_BlockEntropy E height \<noteq> [] then pe_BlockEntropy E height
      else case LastQC s of None \<Rightarrow> pe_SpecHash E
        | Some qc \<Rightarrow> if qc_Height qc + 1 = height \<and> qc_Randomness qc \<noteq> [] then qc_Randomness qc
            else pe_SpecHash E)"

definition SelectBlockProposer ::
  "crypto \<Rightarrow> proposer_env \<Rightarrow> chain_view \<Rightarrow> u64 \<Rightarrow> u32 \<Rightarrow> BFTConsensusState \<Rightarrow>
     BFTConsensusState \<times> Validator option" where
  "SelectBlockProposer C E cx height rd s =
     selectBlockProposerWithEntropy C E cx height rd (proposerEntropy E height s) s"

section \<open>The proposer certificate\<close>

definition validatorPowerSetHash :: "crypto \<Rightarrow> proposer_env \<Rightarrow> ValidatorPower list \<Rightarrow> string" where
  "validatorPowerSetHash C E vs = hex0x (sha256 C (pe_SetJSON E (sort_key vp_Address vs)))"

definition proposerSeed :: "crypto \<Rightarrow> string \<Rightarrow> string \<Rightarrow> string \<Rightarrow> u64 \<Rightarrow> u32 \<Rightarrow> string" where
  "proposerSeed C specHash setHash entropy height rd =
     hex0x (sha256 C (''PODL-PROPOSER-V3:'' @ specHash @ '':'' @ setHash @ '':'' @ entropy @ '':'' @
       u64_str height @ '':'' @ u32_str rd))"

definition proposerScoreDigest :: "crypto \<Rightarrow> string \<Rightarrow> string \<Rightarrow> string" where
  "proposerScoreDigest C seed proposer = hex0x (sha256 C (to_lower seed @ ''|'' @ to_lower proposer))"

definition BuildProposerCertificate ::
  "crypto \<Rightarrow> proposer_env \<Rightarrow> chain_view \<Rightarrow> u64 \<Rightarrow> u32 \<Rightarrow> BFTConsensusState \<Rightarrow>
     BFTConsensusState \<times> ProposerCertificate option" where
  "BuildProposerCertificate C E cx height rd s0 =
     (case SelectBlockProposer C E cx height rd s0 of
        (s, None) \<Rightarrow> (s, None)
      | (s, Some proposer) \<Rightarrow>
          let setHash = validatorPowerSetHash C E (ActiveSet s);
              specHash = pe_SpecHash E;
              entropy = proposerEntropy E height s;
              seed = proposerSeed C specHash setHash entropy height rd in
          (s, Some \<lparr>pc_Height = height, pc_Round = rd, pc_Epoch = height div EpochLength s,
                pc_SpecHash = specHash, pc_SetHash = setHash, pc_Proposer = to_lower (v_Address proposer),
                pc_Entropy = entropy, pc_Seed = seed,
                pc_ScoreDigest = proposerScoreDigest C seed (v_Address proposer)\<rparr>))"

definition VerifyProposerCertificate ::
  "crypto \<Rightarrow> proposer_env \<Rightarrow> chain_view \<Rightarrow> ProposerCertificate \<Rightarrow> BFTConsensusState \<Rightarrow>
     BFTConsensusState \<times> bool" where
  "VerifyProposerCertificate C E cx cert s =
     (if pc_Height cert = 0 \<or> pc_SpecHash cert \<noteq> pe_SpecHash E then (s, False) else
      let setHash = validatorPowerSetHash C E (ActiveSet s) in
      if pc_Entropy cert = [] \<or> pc_SetHash cert \<noteq> setHash \<or>
         pc_Seed cert \<noteq> proposerSeed C (pc_SpecHash cert) setHash (pc_Entropy cert) (pc_Height cert) (pc_Round cert) \<or>
         pc_ScoreDigest cert \<noteq> proposerScoreDigest C (pc_Seed cert) (pc_Proposer cert) then (s, False)
      else if pc_Entropy cert \<noteq> proposerEntropy E (pc_Height cert) s then (s, False)
      else case selectBlockProposerWithEntropy C E cx (pc_Height cert) (pc_Round cert) (pc_Entropy cert) s of
        (s', None) \<Rightarrow> (s', False)
      | (s', Some expected) \<Rightarrow> (s', equal_fold (v_Address expected) (pc_Proposer cert)))"

section \<open>Lemmas\<close>

lemma ensure_EpochLength: "EpochLength (ensure s) \<noteq> 0"
  by (simp add: ensure_def DefaultEpochLength_def)

lemma ensure_id: "EpochLength s \<noteq> 0 \<Longrightarrow> MaxLiquidityCreditBPS s \<noteq> 0 \<Longrightarrow> 0 < RoundTimeoutSeconds s \<Longrightarrow> ensure s = s"
  by (simp add: ensure_def)

lemma Prepare_fields [simp]:
  "Votes (PrepareValidatorSetTransition cx h s) = Votes s"
  "TimeoutVotes (PrepareValidatorSetTransition cx h s) = TimeoutVotes s"
  "Evidence (PrepareValidatorSetTransition cx h s) = Evidence s"
  "LockedHash (PrepareValidatorSetTransition cx h s) = LockedHash s"
  "LastQC (PrepareValidatorSetTransition cx h s) = LastQC s"
  "CurrentRounds (PrepareValidatorSetTransition cx h s) = CurrentRounds s"
  "EpochLength (PrepareValidatorSetTransition cx h s) = EpochLength (ensure s)"
  by (simp_all add: PrepareValidatorSetTransition_def activateTransition_def Let_def split: option.splits)

lemma activate_fields [simp]:
  "EpochLength (activateTransition h s) = EpochLength s"
  "MaxLiquidityCreditBPS (activateTransition h s) = MaxLiquidityCreditBPS s"
  "RoundTimeoutSeconds (activateTransition h s) = RoundTimeoutSeconds s"
  by (simp_all add: activateTransition_def split: option.splits)

lemma Prepare_ensured [simp]:
  "ensure (PrepareValidatorSetTransition cx h s) = PrepareValidatorSetTransition cx h s"
proof (rule ensure_id)
  let ?s1 = "PrepareValidatorSetTransition cx h s"
  show "EpochLength ?s1 \<noteq> 0" by (simp add: ensure_EpochLength)
  show "MaxLiquidityCreditBPS ?s1 \<noteq> 0" "0 < RoundTimeoutSeconds ?s1"
    by (simp_all add: PrepareValidatorSetTransition_def Let_def ensure_def split: option.splits)
qed

text \<open>The boundary step of a height: what is pending afterwards activates later.\<close>

lemma Prepare_boundary:
  assumes "ActiveSet s \<noteq> []" "h \<noteq> 0" "h mod EpochLength (ensure s) = 0"
    and "h < h + EpochLength (ensure s)"
  obtains tr where "PendingTransition (PrepareValidatorSetTransition cx h s) = Some tr"
    "h < st_ActivationHeight tr"
proof -
  let ?a = "activateTransition h (ensure s)"
  have s1: "PrepareValidatorSetTransition cx h s = (case PendingTransition ?a of Some _ \<Rightarrow> ?a
    | None \<Rightarrow> ?a\<lparr>PendingTransition := Some \<lparr>st_ActivationHeight = h + EpochLength ?a,
            st_OldSet = ActiveSet ?a, st_NewSet = freshPowerSet cx\<rparr>\<rparr>)"
    using assms by (simp add: PrepareValidatorSetTransition_def Let_def)
  show thesis
  proof (cases "PendingTransition ?a")
    case None
    with that s1 assms(4) show thesis by simp
  next
    case (Some tr)
    then have "h < st_ActivationHeight tr"
      by (auto simp: activateTransition_def not_le split: option.splits if_splits)
    with that s1 Some show thesis by simp
  qed
qed

text \<open>Preparing a height twice leaves the active set of the first time.\<close>

lemma Prepare_again:
  assumes "h < h + EpochLength (ensure s)" "ActiveSet s \<noteq> []"
    and "ActiveSet (PrepareValidatorSetTransition cx h s) \<noteq> []"
  shows "PrepareValidatorSetTransition cx h (PrepareValidatorSetTransition cx h s) =
    PrepareValidatorSetTransition cx h s"
proof (cases "h = 0 \<or> h mod EpochLength (ensure s) \<noteq> 0")
  case True
  with assms(3) show ?thesis
    by (subst PrepareValidatorSetTransition_def) (auto simp: Let_def)
next
  case False
  then have h: "h \<noteq> 0" "h mod EpochLength (ensure s) = 0" by simp_all
  obtain tr where "PendingTransition (PrepareValidatorSetTransition cx h s) = Some tr"
    "h < st_ActivationHeight tr" by (rule Prepare_boundary [OF assms(2) h assms(1)])
  with assms(3) False show ?thesis
    by (subst PrepareValidatorSetTransition_def) (simp add: Let_def activateTransition_def)
qed

lemma fless_trans: "fless a b \<Longrightarrow> fless b c \<Longrightarrow> fless a c"
  by (cases a; cases b; cases c) simp_all

lemma pickProposer_score:
  "snd (pickProposer f cs b) = snd b \<or> fless (snd (pickProposer f cs b)) (snd b)"
proof (induction cs arbitrary: b)
  case (Cons c cs)
  show ?case
  proof (cases "\<not> fle (vp_Power c) (Fin 0) \<and> fless (f c) (snd b)")
    case True
    with Cons [of "(vp_Address c, f c)"] show ?thesis by (auto intro: fless_trans)
  next
    case False
    with Cons [of b] show ?thesis by auto
  qed
qed simp

text \<open>No candidate of positive power scores below the chosen score.\<close>

lemma pickProposer_min:
  "c \<in> set cs \<Longrightarrow> \<not> fle (vp_Power c) (Fin 0) \<Longrightarrow> \<not> fless (f c) (snd (pickProposer f cs b))"
proof (induction cs arbitrary: b)
  case (Cons d cs)
  show ?case
  proof (cases "c \<in> set cs")
    case True
    from Cons.IH [OF this Cons.prems(2)] show ?thesis by simp
  next
    case False
    with Cons.prems have d: "d = c" by simp
    let ?b = "if fless (f c) (snd b) then (vp_Address c, f c) else b"
    have nb: "\<not> fless (f c) (snd ?b)" by (cases "f c"; cases "snd b") simp_all
    have r: "pickProposer f (d # cs) b = pickProposer f cs ?b" using Cons.prems(2) d by simp
    from pickProposer_score [of f cs ?b] show ?thesis
    proof
      assume "snd (pickProposer f cs ?b) = snd ?b"
      with nb show ?thesis by (simp only: r not_False_eq_True)
    next
      assume "fless (snd (pickProposer f cs ?b)) (snd ?b)"
      with nb show ?thesis unfolding r using fless_trans by blast
    qed
  qed
qed simp

lemma pickProposer_mem:
  "pickProposer f cs b = b \<or> (\<exists>c \<in> set cs. \<not> fle (vp_Power c) (Fin 0) \<and>
     pickProposer f cs b = (vp_Address c, f c))"
proof (induction cs arbitrary: b)
  case (Cons c cs)
  show ?case
  proof (cases "\<not> fle (vp_Power c) (Fin 0) \<and> fless (f c) (snd b)")
    case True
    with Cons [of "(vp_Address c, f c)"] show ?thesis by auto
  next
    case False
    with Cons [of b] show ?thesis by auto
  qed
qed simp

lemma findValidator_Some:
  "findValidator vs a = Some w \<Longrightarrow> Some w \<in> set vs \<and> equal_fold (v_Address w) a"
  by (induction vs) (auto split: option.splits if_splits)

end
