(* ===== verification/ConsensusProtocol.thy ===== *)
theory ConsensusProtocol
  imports ConsensusProposer
begin

text \<open>
  The consensus state as a machine: \<open>bft_step\<close> has one rule per operation that the node calls on
  \<open>ConsensusV2\<close>, in any order and on any input. \<open>bft_ok\<close> is its invariant: stored votes and timeouts
  verify and sit under their own keys, recorded evidence is two verified votes of one validator for
  one slot, and every certificate kept in the state is backed by verified votes.
\<close>

section \<open>What the state promises\<close>

definition backed_vote :: "crypto \<Rightarrow> QuorumCertificate \<Rightarrow> string \<Rightarrow> ConsensusVote \<Rightarrow> bool" where
  "backed_vote C qc a v \<longleftrightarrow> VerifyConsensusVote C v \<and> to_lower (cv_Validator v) = a \<and>
     cv_Height v = qc_Height qc \<and> cv_Round v = qc_Round qc \<and> cv_Step v = qc_Step qc \<and>
     equal_fold (cv_BlockHash v) (qc_BlockHash qc)"

definition qc_backed :: "crypto \<Rightarrow> QuorumCertificate \<Rightarrow> bool" where
  "qc_backed C qc \<longleftrightarrow> (\<forall>a \<in> set (qc_Validators qc). \<exists>v. backed_vote C qc a v)"

definition tc_backed :: "crypto \<Rightarrow> TimeoutCertificate \<Rightarrow> bool" where
  "tc_backed C tc \<longleftrightarrow> (\<forall>a \<in> set (tc_Validators tc). \<exists>v. VerifyConsensusTimeoutVote C v \<and>
     to_lower (tv_Validator v) = a \<and> tv_Height v = tc_Height tc \<and> tv_Round v = tc_Round tc)"

definition evidence_ok :: "crypto \<Rightarrow> EquivocationEvidence \<Rightarrow> bool" where
  "evidence_ok C e \<longleftrightarrow> VerifyConsensusVote C (ee_VoteA e) \<and> VerifyConsensusVote C (ee_VoteB e) \<and>
     consensusVoteKey (ee_VoteA e) = consensusVoteKey (ee_VoteB e) \<and>
     to_lower (cv_Validator (ee_VoteA e)) = ee_Validator e \<and>
     to_lower (cv_Validator (ee_VoteB e)) = ee_Validator e \<and>
     \<not> equal_fold (cv_BlockHash (ee_VoteA e)) (cv_BlockHash (ee_VoteB e))"

definition timeouts_ok :: "crypto \<Rightarrow> BFTConsensusState \<Rightarrow> bool" where
  "timeouts_ok C s \<longleftrightarrow> wf_map (TimeoutVotes s) \<and>
     (\<forall>key m. map_of (TimeoutVotes s) key = Some m \<longrightarrow> wf_map m \<and>
       (\<forall>a v. map_of m a = Some v \<longrightarrow> VerifyConsensusTimeoutVote C v \<and>
          timeoutVoteKey (tv_Height v) (tv_Round v) = key \<and> a = to_lower (tv_Validator v)))"

definition bft_ok :: "crypto \<Rightarrow> BFTConsensusState \<Rightarrow> bool" where
  "bft_ok C s \<longleftrightarrow> votes_ok C s \<and> timeouts_ok C s \<and> (\<forall>e \<in> set (Evidence s). evidence_ok C e) \<and>
     (\<forall>qc. LastQC s = Some qc \<longrightarrow> qc_Step qc = StepPrecommit \<and> qc_backed C qc) \<and>
     (\<forall>tc. LastTimeoutCertificate s = Some tc \<longrightarrow> tc_backed C tc)"

section \<open>Steps\<close>

inductive bft_step :: "crypto \<Rightarrow> BFTConsensusState \<Rightarrow> BFTConsensusState \<Rightarrow> bool" for C where
  vote: "bft_step C s (fst (AddConsensusVote C cx v s))"
| timeout: "bft_step C s (fst (AddConsensusTimeoutVote C cx tv s))"
| current: "bft_step C s (fst (CurrentConsensusRound now h s))"
| advance: "bft_step C s (fst (AdvanceConsensusRound now h t s))"
| prepare: "bft_step C s (PrepareValidatorSetTransition cx h s)"
| prune: "bft_step C s (pruneConsensusRounds h s)"

inductive bft_reachable :: "crypto \<Rightarrow> BFTConsensusState \<Rightarrow> bool" for C where
  start: "bft_reachable C (NewBFTConsensusState e)"
| step: "bft_reachable C s \<Longrightarrow> bft_step C s s' \<Longrightarrow> bft_reachable C s'"

section \<open>The vote handler\<close>

lemma voters_lower:
  assumes "\<And>a v. map_of m a = Some v \<Longrightarrow> a = to_lower (f v)" "wf_map m"
  shows "map to_lower (votersForHash m vs h) = votersForHash m vs h"
proof (rule map_idI)
  fix a
  assume "a \<in> set (votersForHash m vs h)"
  with assms(2) obtain v where "map_of m a = Some v" by (rule voterE)
  from assms(1) [OF this] show "to_lower a = a" by simp
qed

lemma makeQC_fields [simp]:
  "qc_Height (makeQC C s v m) = cv_Height v" "qc_Round (makeQC C s v m) = cv_Round v"
  "qc_Step (makeQC C s v m) = cv_Step v" "qc_BlockHash (makeQC C s v m) = cv_BlockHash v"
  "qc_Validators (makeQC C s v m) = sort (map to_lower (votersForHash m (ActiveSet s) (cv_BlockHash v)))"
  by (simp_all add: makeQC_def votePowerForHash_def Let_def)

lemma consensusVoteKey_inject:
  "consensusVoteKey v = consensusVoteKey w \<longleftrightarrow>
     cv_Height v = cv_Height w \<and> cv_Round v = cv_Round w \<and> cv_Step v = cv_Step w"
  by (simp add: consensusVoteKey_def)

lemma makeQC_backed:
  assumes "wf_map m" "\<And>a v. map_of m a = Some v \<Longrightarrow>
      VerifyConsensusVote C v \<and> consensusVoteKey v = consensusVoteKey w \<and> a = to_lower (cv_Validator v)"
  shows "qc_backed C (makeQC C s w m)"
proof -
  have low: "map to_lower (votersForHash m (ActiveSet s) (cv_BlockHash w)) =
      votersForHash m (ActiveSet s) (cv_BlockHash w)"
    using assms by (intro voters_lower [of m cv_Validator]) auto
  show ?thesis
    unfolding qc_backed_def
  proof
    fix a
    assume "a \<in> set (qc_Validators (makeQC C s w m))"
    then have "a \<in> set (votersForHash m (ActiveSet s) (cv_BlockHash w))" by (simp add: low)
    with assms(1) obtain v where "map_of m a = Some v" "equal_fold (cv_BlockHash v) (cv_BlockHash w)"
      by (rule voterE)
    with assms(2) [OF this(1)] show "\<exists>v. backed_vote C (makeQC C s w m) a v"
      by (auto simp: backed_vote_def consensusVoteKey_inject)
  qed
qed

text \<open>The fields certification can write.\<close>

lemma certifyVote_fields [simp]:
  "Evidence (fst (certifyVote C v m s)) = Evidence s"
  "TimeoutVotes (fst (certifyVote C v m s)) = TimeoutVotes s"
  "LastTimeoutCertificate (fst (certifyVote C v m s)) = LastTimeoutCertificate s"
  "PendingTransition (fst (certifyVote C v m s)) = PendingTransition s"
  "ActiveSet (fst (certifyVote C v m s)) = ActiveSet s"
  "CurrentRounds (fst (certifyVote C v m s)) = CurrentRounds s"
  by (simp_all add: certifyVote_def Let_def)

lemma certifyVote_LastQC:
  "LastQC (fst (certifyVote C v m s)) = LastQC s \<or>
   LastQC (fst (certifyVote C v m s)) = Some (makeQC C s v m) \<and> cv_Step v = StepPrecommit"
  by (simp add: certifyVote_def Let_def)

lemma withActiveSet_ok [simp]: "bft_ok C (withActiveSet cx (ensure s)) = bft_ok C s"
  by (simp add: bft_ok_def votes_ok_def timeouts_ok_def)

lemma AddConsensusVote_bft_ok:
  assumes ok: "bft_ok C s0"
  shows "bft_ok C (fst (AddConsensusVote C cx vote s0))"
proof (cases rule: AddConsensusVote_cases [where C = C and vote = vote and cx = cx and ?s0.0 = s0])
  case (conflicting prior ev)
  from ok have "votes_ok C s0" by (simp add: bft_ok_def)
  from votes_ok_at(2) [OF this conflicting(2)] conflicting(1,3)
  have "evidence_ok C ev" by (simp add: evidence_ok_def conflicting(4))
  with ok show ?thesis
    by (simp add: conflicting(5) bft_ok_def votes_ok_def timeouts_ok_def)
next
  case (fresh m)
  let ?s = "(withActiveSet cx (ensure s0))\<lparr>Votes := mput (consensusVoteKey vote) m (Votes s0)\<rparr>"
  have v: "votes_ok C s0" using ok by (simp add: bft_ok_def)
  have m: "map_of m a = Some v \<Longrightarrow> VerifyConsensusVote C v \<and> consensusVoteKey v = consensusVoteKey vote \<and>
      a = to_lower (cv_Validator v)" for a v
    using votes_ok_at(2) [OF v, of "consensusVoteKey vote" a v] fresh(1)
    by (auto simp: fresh(3) split: if_splits)
  have "wf_map m" using votes_ok_at(1) [OF v] by (simp add: fresh(3) wf_mput)
  then have qc: "qc_backed C (makeQC C ?s vote m)" using m by (rule makeQC_backed)
  have vs: "votes_ok C (fst (AddConsensusVote C cx vote s0))" by (rule AddConsensusVote_votes_ok [OF v])
  from ok certifyVote_LastQC [of C vote m ?s] qc vs show ?thesis
    by (auto simp: fresh(4) bft_ok_def timeouts_ok_def)
qed (use ok in simp_all)

section \<open>The timeout handler\<close>

lemma timeoutVoters_map: "map_of (timeoutVoters m) a =
   (case map_of m a of None \<Rightarrow> None | Some _ \<Rightarrow> Some \<lparr>cv_Height = 0, cv_Round = 0, cv_Step = [],
      cv_BlockHash = ''timeout'', cv_Validator = a, cv_Signature = []\<rparr>)"
  by (induction m) (auto simp: timeoutVoters_def)

lemma keys_timeoutVoters: "map fst (timeoutVoters m) = map fst m"
  by (induction m) (auto simp: timeoutVoters_def)

lemma wf_timeoutVoters [simp]: "wf_map (timeoutVoters m) = wf_map m"
  by (simp add: keys_timeoutVoters)

lemma timeoutCert_fields [simp]:
  "tc_Height (timeoutCert C s v m) = tv_Height v" "tc_Round (timeoutCert C s v m) = tv_Round v"
  "tc_Validators (timeoutCert C s v m) =
     sort (map to_lower (votersForHash (timeoutVoters m) (ActiveSet s) ''timeout''))"
  by (simp_all add: timeoutCert_def votePowerForHash_def Let_def)

lemma timeoutCert_backed:
  assumes "wf_map m" "\<And>a v. map_of m a = Some v \<Longrightarrow> VerifyConsensusTimeoutVote C v \<and>
      tv_Height v = tv_Height w \<and> tv_Round v = tv_Round w \<and> a = to_lower (tv_Validator v)"
  shows "tc_backed C (timeoutCert C s w m)"
  unfolding tc_backed_def
proof
  fix a
  assume "a \<in> set (tc_Validators (timeoutCert C s w m))"
  then obtain b where b: "a = to_lower b" "b \<in> set (votersForHash (timeoutVoters m) (ActiveSet s) ''timeout'')"
    by auto
  have "wf_map (timeoutVoters m)" using assms(1) by simp
  from this b(2) obtain cv where "map_of (timeoutVoters m) b = Some cv" by (rule voterE)
  then obtain v where "map_of m b = Some v" by (auto simp: timeoutVoters_map split: option.splits)
  from assms(2) [OF this] b(1) show "\<exists>v. VerifyConsensusTimeoutVote C v \<and> to_lower (tv_Validator v) = a \<and>
      tv_Height v = tc_Height (timeoutCert C s w m) \<and> tv_Round v = tc_Round (timeoutCert C s w m)"
    by auto
qed

lemma timeouts_ok_at:
  assumes "timeouts_ok C s"
  shows "wf_map (timeouts_at s key)"
    and "map_of (timeouts_at s key) a = Some v \<Longrightarrow> VerifyConsensusTimeoutVote C v \<and>
      timeoutVoteKey (tv_Height v) (tv_Round v) = key \<and> a = to_lower (tv_Validator v)"
  using assms unfolding timeouts_ok_def timeouts_at_def by (auto split: option.splits)

lemma timeouts_ok_put:
  assumes "timeouts_ok C s0" "TimeoutVotes s = mput key m (TimeoutVotes s0)" "wf_map m"
    and "\<And>a v. map_of m a = Some v \<Longrightarrow> VerifyConsensusTimeoutVote C v \<and>
      timeoutVoteKey (tv_Height v) (tv_Round v) = key \<and> a = to_lower (tv_Validator v)"
  shows "timeouts_ok C s"
  unfolding timeouts_ok_def assms(2)
proof (intro conjI allI impI)
  show "wf_map (mput key m (TimeoutVotes s0))" using assms(1) by (simp add: timeouts_ok_def wf_mput)
  fix k n
  assume n: "map_of (mput key m (TimeoutVotes s0)) k = Some n"
  then show "wf_map n"
    using assms(1,3) by (cases "k = key") (auto simp: timeouts_ok_def)
  fix a v
  assume v: "map_of n a = Some v"
  have "VerifyConsensusTimeoutVote C v \<and> timeoutVoteKey (tv_Height v) (tv_Round v) = k \<and> a = to_lower (tv_Validator v)"
  proof (cases "k = key")
    case True
    with n v assms(4) [of a v] show ?thesis by simp
  next
    case False
    with n have "map_of (TimeoutVotes s0) k = Some n" by simp
    with assms(1) v show ?thesis unfolding timeouts_ok_def by blast
  qed
  then show "VerifyConsensusTimeoutVote C v" "timeoutVoteKey (tv_Height v) (tv_Round v) = k"
    "a = to_lower (tv_Validator v)" by blast+
qed

lemma AddConsensusTimeoutVote_bft_ok:
  assumes ok: "bft_ok C s0"
  shows "bft_ok C (fst (AddConsensusTimeoutVote C cx vote s0))"
proof (cases rule: AddConsensusTimeoutVote_cases [where C = C and vote = vote and cx = cx and ?s0.0 = s0])
  case (rejected e s)
  then show ?thesis using ok by auto
next
  case repeated
  then show ?thesis using ok by simp
next
  case (stored m s)
  let ?key = "timeoutVoteKey (tv_Height vote) (tv_Round vote)"
  have t: "timeouts_ok C s0" using ok by (simp add: bft_ok_def)
  have m: "map_of m a = Some v \<Longrightarrow> VerifyConsensusTimeoutVote C v \<and>
      timeoutVoteKey (tv_Height v) (tv_Round v) = ?key \<and> a = to_lower (tv_Validator v)" for a v
    using timeouts_ok_at(2) [OF t, of ?key a v] stored(1) by (auto simp: stored(3) split: if_splits)
  have wf: "wf_map m" using timeouts_ok_at(1) [OF t] by (simp add: stored(3) wf_mput)
  have ts: "timeouts_ok C s" by (rule timeouts_ok_put [OF t _ wf m]) (simp add: stored(4))
  have tc: "tc_backed C (timeoutCert C s vote m)" using wf m by (intro timeoutCert_backed) auto
  have s: "bft_ok C s" using ok ts by (simp add: bft_ok_def votes_ok_def stored(4))
  then have "bft_ok C (s\<lparr>LastTimeoutCertificate := Some (timeoutCert C s vote m)\<rparr>)"
    using tc by (simp add: bft_ok_def votes_ok_def timeouts_ok_def)
  with s show ?thesis by (simp add: stored(5))
qed

section \<open>The remaining steps and the invariant\<close>

lemma CurrentConsensusRound_ok: "bft_ok C (fst (CurrentConsensusRound now h s)) = bft_ok C s"
  by (simp add: CurrentConsensusRound_def Let_def bft_ok_def votes_ok_def timeouts_ok_def)

lemma AdvanceConsensusRound_fields:
  "Votes (fst (AdvanceConsensusRound now h t s)) = Votes s"
  "TimeoutVotes (fst (AdvanceConsensusRound now h t s)) = TimeoutVotes s"
  "Evidence (fst (AdvanceConsensusRound now h t s)) = Evidence s"
  "LastQC (fst (AdvanceConsensusRound now h t s)) = LastQC s"
  "LastTimeoutCertificate (fst (AdvanceConsensusRound now h t s)) = LastTimeoutCertificate s"
  "LockedHash (fst (AdvanceConsensusRound now h t s)) = LockedHash s"
  "LockedRound (fst (AdvanceConsensusRound now h t s)) = LockedRound s"
  by (simp_all add: AdvanceConsensusRound_def Let_def)

lemma Prepare_LastTC: "LastTimeoutCertificate (PrepareValidatorSetTransition cx h s) = LastTimeoutCertificate s"
  by (simp add: PrepareValidatorSetTransition_def activateTransition_def Let_def split: option.splits)

lemma prune_fields [simp]:
  "Evidence (pruneConsensusRounds h s) = Evidence s" "LastQC (pruneConsensusRounds h s) = LastQC s"
  "LastTimeoutCertificate (pruneConsensusRounds h s) = LastTimeoutCertificate s"
  "LockedHash (pruneConsensusRounds h s) = LockedHash s" "ActiveSet (pruneConsensusRounds h s) = ActiveSet s"
  by (simp_all add: pruneConsensusRounds_def Let_def)

lemma prune_Votes: "Votes (pruneConsensusRounds h s) = filter (\<lambda>(k, _). h \<le> consensusHistoryRetentionHeights \<or>
     \<not> prunedKey (h - consensusHistoryRetentionHeights) k) (Votes s)"
  by (simp add: pruneConsensusRounds_def Let_def)

lemma prune_TimeoutVotes: "TimeoutVotes (pruneConsensusRounds h s) =
   filter (\<lambda>(k, _). h \<le> consensusHistoryRetentionHeights \<or>
     \<not> prunedKey (h - consensusHistoryRetentionHeights) k) (TimeoutVotes s)"
  by (simp add: pruneConsensusRounds_def Let_def)

lemma map_of_filter_key: "map_of (filter (\<lambda>(k, _). P k) m) k = (if P k then map_of m k else None)"
  by (induction m) auto

lemma prune_ok:
  assumes "bft_ok C s"
  shows "bft_ok C (pruneConsensusRounds h s)"
proof -
  have "votes_ok C (pruneConsensusRounds h s)"
  proof (rule votes_okI)
    show "wf_map (Votes (pruneConsensusRounds h s))"
      using assms by (simp add: prune_Votes bft_ok_def votes_ok_def wf_filter)
    fix key m
    assume "map_of (Votes (pruneConsensusRounds h s)) key = Some m"
    then have m: "map_of (Votes s) key = Some m"
      by (simp add: prune_Votes map_of_filter_key split: if_splits)
    with assms show "wf_map m" by (simp add: bft_ok_def votes_ok_def)
    show "VerifyConsensusVote C v \<and> consensusVoteKey v = key \<and> a = to_lower (cv_Validator v)"
      if "map_of m a = Some v" for a v
      using assms m that unfolding bft_ok_def votes_ok_def by blast
  qed
  moreover have "timeouts_ok C (pruneConsensusRounds h s)"
    unfolding timeouts_ok_def
  proof (intro conjI allI impI)
    show "wf_map (TimeoutVotes (pruneConsensusRounds h s))"
      using assms by (simp add: prune_TimeoutVotes bft_ok_def timeouts_ok_def wf_filter)
    fix key m
    assume "map_of (TimeoutVotes (pruneConsensusRounds h s)) key = Some m"
    then have m: "map_of (TimeoutVotes s) key = Some m"
      by (simp add: prune_TimeoutVotes map_of_filter_key split: if_splits)
    have t: "timeouts_ok C s" using assms by (simp add: bft_ok_def)
    from t m show "wf_map m" unfolding timeouts_ok_def by blast
    fix a v
    assume "map_of m a = Some v"
    with t m show "VerifyConsensusTimeoutVote C v" "timeoutVoteKey (tv_Height v) (tv_Round v) = key"
      "a = to_lower (tv_Validator v)" unfolding timeouts_ok_def by blast+
  qed
  ultimately show ?thesis using assms by (simp add: bft_ok_def)
qed

lemma bft_step_ok:
  assumes "bft_step C s s'" "bft_ok C s"
  shows "bft_ok C s'"
  using assms
proof (induction rule: bft_step.induct)
  case (advance s now h t)
  then show ?case by (simp add: AdvanceConsensusRound_fields bft_ok_def votes_ok_def timeouts_ok_def)
next
  case (prepare s cx h)
  then show ?case by (simp add: Prepare_LastTC bft_ok_def votes_ok_def timeouts_ok_def)
qed (simp_all add: AddConsensusVote_bft_ok AddConsensusTimeoutVote_bft_ok CurrentConsensusRound_ok prune_ok)

lemma NewBFT_ok: "bft_ok C (NewBFTConsensusState e)"
  by (simp add: NewBFTConsensusState_def bft_ok_def votes_ok_def timeouts_ok_def)

section \<open>Quorums behind certificates\<close>

text \<open>Two quorum tests, one per validator set in force, make two \<open>power_quorum\<close>s.\<close>

lemma voters_power_quorum:
  assumes "wf_map m" "\<And>a v. map_of m a = Some v \<Longrightarrow> to_lower a = a" "wf_power_set vs" "vs \<noteq> []"
    and "\<not> fless (fst (votePowerForHash m vs h)) (requiredQuorum (validatorSetPower vs))"
  shows "power_quorum vs (set (votersForHash m vs h))"
  unfolding power_quorum_def
proof (intro conjI exI)
  show "set (votersForHash m vs h) \<subseteq> members vs"
  proof
    fix a
    assume "a \<in> set (votersForHash m vs h)"
    with assms(1) obtain v where "map_of m a = Some v" and p: "\<not> fle (validatorPowerFor vs a) (Fin 0)"
      by (rule voterE)
    from assms(2) [OF this(1)] have "to_lower a = a" .
    moreover from validatorPowerFor_mem [OF p] obtain w where "w \<in> set vs" "equal_fold (vp_Address w) a" by blast
    ultimately show "a \<in> members vs" by (auto simp: members_def equal_fold_def image_iff)
  qed
  show "\<not> fless (fsum (map (validatorPowerFor vs) (votersForHash m vs h))) (requiredQuorum (validatorSetPower vs))"
    using assms(5) by (simp add: votePowerForHash_def Let_def)
qed (use assms distinct_votersForHash in simp_all)

lemma stored_votes:
  assumes "votes_ok C s0" "VerifyConsensusVote C vote"
    and "m = mput (to_lower (cv_Validator vote)) vote (votes_at s0 (consensusVoteKey vote))"
  shows "wf_map m" "\<And>a v. map_of m a = Some v \<Longrightarrow> VerifyConsensusVote C v \<and>
      consensusVoteKey v = consensusVoteKey vote \<and> a = to_lower (cv_Validator v)"
proof -
  show "wf_map m" using votes_ok_at(1) [OF assms(1)] by (simp add: assms(3) wf_mput)
  fix a v
  assume "map_of m a = Some v"
  then have "v = vote \<and> a = to_lower (cv_Validator vote) \<or> map_of (votes_at s0 (consensusVoteKey vote)) a = Some v"
    by (simp add: assms(3) split: if_splits)
  then show "VerifyConsensusVote C v \<and> consensusVoteKey v = consensusVoteKey vote \<and> a = to_lower (cv_Validator v)"
    using votes_ok_at(2) [OF assms(1)] assms(2) by blast
qed

text \<open>A certificate's listed validators are a quorum of backed votes.\<close>

lemma AddConsensusVote_quorum:
  assumes "AddConsensusVote C cx vote s0 = (s', VoteQC qc)" "votes_ok C s0"
    and "wf_power_set (ActiveSet s')" "ActiveSet s' \<noteq> []"
  shows "power_quorum (ActiveSet s') (set (qc_Validators qc))" "qc_backed C qc"
    and "sorted (qc_Validators qc)" "distinct (qc_Validators qc)"
    and "qc_Height qc = cv_Height vote" "qc_Round qc = cv_Round vote" "qc_Step qc = cv_Step vote"
      "qc_BlockHash qc = cv_BlockHash vote"
proof -
  obtain s m where v: "VerifyConsensusVote C vote" and s: "s = withActiveSet cx (ensure s0)"
    and m: "m = mput (to_lower (cv_Validator vote)) vote (votes_at s0 (consensusVoteKey vote))"
    and c: "certifyVote C vote m (s\<lparr>Votes := mput (consensusVoteKey vote) m (Votes s0)\<rparr>) = (s', VoteQC qc)"
    using AddConsensusVote_QC [OF assms(1)] by blast
  note st = stored_votes [OF assms(2) v m]
  let ?s = "s\<lparr>Votes := mput (consensusVoteKey vote) m (Votes s0)\<rparr>"
  note q = certifyVote_QC [OF c]
  have as: "ActiveSet s' = ActiveSet ?s" by (rule q(3))
  have low: "map to_lower (votersForHash m (ActiveSet ?s) (cv_BlockHash vote)) =
      votersForHash m (ActiveSet ?s) (cv_BlockHash vote)"
    using st by (intro voters_lower [of m cv_Validator]) auto
  have vs: "qc_Validators qc = sort (votersForHash m (ActiveSet s') (cv_BlockHash vote))"
    using low by (simp add: q(2) as)
  have "\<not> fless (fst (votePowerForHash m (ActiveSet s') (cv_BlockHash vote)))
      (requiredQuorum (validatorSetPower (ActiveSet s')))"
    using q(1) by (simp add: quorumReached_def as)
  moreover have lc: "to_lower a = a" if "map_of m a = Some v" for a v using st(2) [OF that] by simp
  ultimately show "power_quorum (ActiveSet s') (set (qc_Validators qc))"
    using voters_power_quorum [OF st(1) _ assms(3,4)] by (simp add: vs)
  show "qc_backed C qc" unfolding q(2) by (rule makeQC_backed [OF st])
  show "sorted (qc_Validators qc)" "distinct (qc_Validators qc)"
    using distinct_votersForHash [OF st(1)] by (simp_all add: vs)
  show "qc_Height qc = cv_Height vote" "qc_Round qc = cv_Round vote" "qc_Step qc = cv_Step vote"
    "qc_BlockHash qc = cv_BlockHash vote" by (simp_all add: q(2))
qed

text \<open>During a transition the new set holds a quorum of backed votes as well.\<close>

lemma AddConsensusVote_joint:
  assumes "AddConsensusVote C cx vote s0 = (s', VoteQC qc)" "votes_ok C s0"
    and "PendingTransition s' = Some tr" "qc_Height qc < st_ActivationHeight tr"
    and "wf_power_set (st_NewSet tr)" "st_NewSet tr \<noteq> []"
  shows "\<exists>Q. power_quorum (st_NewSet tr) Q \<and> (\<forall>a \<in> Q. \<exists>v. backed_vote C qc a v)"
proof -
  obtain s m where v: "VerifyConsensusVote C vote"
    and m: "m = mput (to_lower (cv_Validator vote)) vote (votes_at s0 (consensusVoteKey vote))"
    and c: "certifyVote C vote m (s\<lparr>Votes := mput (consensusVoteKey vote) m (Votes s0)\<rparr>) = (s', VoteQC qc)"
    using AddConsensusVote_QC [OF assms(1)] by blast
  let ?s = "s\<lparr>Votes := mput (consensusVoteKey vote) m (Votes s0)\<rparr>"
  note st = stored_votes [OF assms(2) v m]
  note q = certifyVote_QC [OF c]
  have qc: "qc_Height qc = cv_Height vote" "qc_Round qc = cv_Round vote" "qc_Step qc = cv_Step vote"
    "qc_BlockHash qc = cv_BlockHash vote" by (simp_all add: q(2))
  let ?Q = "set (votersForHash m (st_NewSet tr) (cv_BlockHash vote))"
  have "PendingTransition ?s = Some tr" using q(4) assms(3) by simp
  with q(1) assms(4) have nq: "\<not> fless (fst (votePowerForHash m (st_NewSet tr) (cv_BlockHash vote)))
      (requiredQuorum (validatorSetPower (st_NewSet tr)))"
    by (simp add: quorumReached_def qc)
  have "to_lower a = a" if "map_of m a = Some v" for a v using st(2) [OF that] by simp
  from voters_power_quorum [OF st(1) this assms(5,6) nq] have "power_quorum (st_NewSet tr) ?Q" .
  moreover have "\<exists>v. backed_vote C qc a v" if a: "a \<in> ?Q" for a
  proof -
    from st(1) a obtain v where "map_of m a = Some v" "equal_fold (cv_BlockHash v) (cv_BlockHash vote)"
      by (rule voterE)
    with st(2) [OF this(1)] show ?thesis by (auto simp: backed_vote_def qc consensusVoteKey_inject)
  qed
  ultimately show ?thesis by blast
qed

text \<open>
  Honest validators: for one height, round and step they sign one message, which carries the hash in
  lower case and without outer white space.
\<close>

definition signs_once :: "crypto \<Rightarrow> string set \<Rightarrow> bool" where
  "signs_once C F \<longleftrightarrow> (\<forall>v w. VerifyConsensusVote C v \<and> VerifyConsensusVote C w \<and>
     consensusVoteKey v = consensusVoteKey w \<and> to_lower (cv_Validator v) = to_lower (cv_Validator w) \<and>
     to_lower (cv_Validator v) \<notin> F \<longrightarrow> consensusVoteMessage v = consensusVoteMessage w)"

lemma consensusVoteMessage_hash:
  "consensusVoteKey v = consensusVoteKey w \<Longrightarrow>
     consensusVoteMessage v = consensusVoteMessage w \<longleftrightarrow> norm_addr (cv_BlockHash v) = norm_addr (cv_BlockHash w)"
  by (simp add: consensusVoteMessage_def consensusVoteKey_inject norm_addr_def)

lemma equal_fold_norm: "equal_fold a b \<Longrightarrow> norm_addr a = norm_addr b"
  by (simp add: equal_fold_def norm_addr_def flip: trim_to_lower)

lemma backed_agree:
  assumes "backed_vote C qc a v" "backed_vote C qd a w" "a \<notin> F" "signs_once C F"
    and "qc_Height qc = qc_Height qd" "qc_Round qc = qc_Round qd" "qc_Step qc = qc_Step qd"
  shows "norm_addr (qc_BlockHash qc) = norm_addr (qc_BlockHash qd)"
proof -
  have k: "consensusVoteKey v = consensusVoteKey w"
    using assms(1,2,5-7) by (simp add: backed_vote_def consensusVoteKey_inject)
  have "consensusVoteMessage v = consensusVoteMessage w"
    using assms(1-4) k unfolding backed_vote_def signs_once_def by metis
  with k have "norm_addr (cv_BlockHash v) = norm_addr (cv_BlockHash w)" by (simp add: consensusVoteMessage_hash)
  moreover have "norm_addr (cv_BlockHash v) = norm_addr (qc_BlockHash qc)"
    "norm_addr (cv_BlockHash w) = norm_addr (qc_BlockHash qd)"
    using assms(1,2) by (auto simp: backed_vote_def intro: equal_fold_norm)
  ultimately show ?thesis by simp
qed

end
