(* ===== verification/ConsensusDemo.thy ===== *)
theory ConsensusDemo
  imports ConsensusProtocol
begin

text \<open>
  A concrete network for the witnesses of the consensus properties: four validators of power one, a
  hash that is the identity and a signature scheme in which a signature names its signer and
  only the listed messages are signed, except by \<open>d\<close>, who signs everything.
\<close>

definition demo_crypto :: "string list \<Rightarrow> crypto" where
  "demo_crypto ms = \<lparr>sha256 = (\<lambda>s. s), recover = (\<lambda>msg raw. if raw = [] then None
     else if hd raw = CHR ''d'' \<or> msg \<in> set ms then Some [hd raw] else None)\<rparr>"

definition demo_vote :: "char \<Rightarrow> string \<Rightarrow> string \<Rightarrow> ConsensusVote" where
  "demo_vote c st h = \<lparr>cv_Height = 1, cv_Round = 0, cv_Step = st, cv_BlockHash = h, cv_Validator = [c],
     cv_Signature = hex_encode (replicate 65 c)\<rparr>"

lemma demo_vote_fields [simp]:
  "cv_Step (demo_vote c st h) = st" "cv_BlockHash (demo_vote c st h) = h" "cv_Height (demo_vote c st h) = 1"
  "cv_Round (demo_vote c st h) = 0" "cv_Validator (demo_vote c st h) = [c]"
  by (simp_all add: demo_vote_def)

definition demo_power :: "char \<Rightarrow> ValidatorPower" where
  "demo_power c = \<lparr>vp_Address = [c], vp_Power = Fin 1, vp_NativeBondWeight = Fin 1,
     vp_LiquidityCredit = Fin 0, vp_HybridBonded = True\<rparr>"

definition demo_set :: "ValidatorPower list" where
  "demo_set = map demo_power ''abcd''"

definition demo_cx :: chain_view where
  "demo_cx = \<lparr>cx_Validators = [], cx_MinStake = Fin 1, cx_now = 0\<rparr>"

definition demo_state :: BFTConsensusState where
  "demo_state = (NewBFTConsensusState 0)\<lparr>ActiveSet := demo_set\<rparr>"

text \<open>The state that has stored the votes of \<open>a\<close> and \<open>b\<close> for one block.\<close>

definition demo_two :: "string \<Rightarrow> BFTConsensusState" where
  "demo_two st = demo_state\<lparr>Votes := [(consensusVoteKeyAt 1 0 st,
     [(''a'', demo_vote CHR ''a'' st ''0xb''), (''b'', demo_vote CHR ''b'' st ''0xb'')])]\<rparr>"

definition prevote_msg :: string where "prevote_msg = ''PODL-BFT:1:0:prevote:0xb''"
definition precommit_msg :: string where "precommit_msg = ''PODL-BFT:1:0:precommit:0xb''"
definition timeout_msg :: string where "timeout_msg = ''PODL-BFT-TIMEOUT:1:0''"

definition demo_full :: crypto where
  "demo_full = demo_crypto [prevote_msg, precommit_msg, timeout_msg]"

text \<open>A signature of the scheme verifies on a listed message.\<close>

lemma hex_digit_not_space: "d < 16 \<Longrightarrow> \<not> is_space (hex_digit d)"
  by (auto simp: is_space_def hex_digit_def Let_def of_char_of)

lemma hex_encode_no_space: "\<forall>c \<in> set (hex_encode s). \<not> is_space c"
proof (induction s)
  case (Cons c s)
  have "(of_char c :: nat) div 16 < 16" using of_char_bound [of c] by (simp add: less_mult_imp_div_less)
  with Cons show ?case by (simp add: hex_digit_not_space)
qed simp

lemma char_six: "(char_of (54 :: nat) :: char) \<noteq> CHR ''0''"
  by code_simp

lemma demo_raw:
  assumes "c \<in> set ''abcd''"
  shows "trim_prefix (trim_space (hex_encode (replicate 65 c))) ''0x'' = hex_encode (replicate 65 c)"
proof -
  have "hex_encode (replicate 65 c) = hex_encode (c # replicate 64 c)" by (simp flip: replicate_Suc)
  moreover have "\<not> has_prefix (hex_encode (c # replicate 64 c)) ''0x''"
    using assms char_six by (auto simp: has_prefix_def hex_digit_def)
  ultimately show ?thesis
    unfolding trim_space_none [OF hex_encode_no_space] trim_prefix_def by (simp only: if_False)
qed

lemma demo_lower: "to_lower [c] = [c]" if "c \<in> set ''abcd''" for c
  using that by (auto simp: to_lower_def lower_char_def)

lemma demo_signer:
  assumes "c \<in> set ''abcd''" "msg \<in> set ms \<or> c = CHR ''d''"
  shows "signer_of (demo_crypto ms) msg (trim_space (hex_encode (replicate 65 c))) = Some [c]"
  using assms demo_raw [OF assms(1)] by (auto simp: signer_of_def demo_crypto_def)

lemma small_strs: "nat_str 0 = ''0''" "nat_str (Suc 0) = ''1''"
  by code_simp+

lemma demo_messages:
  "consensusVoteMessage (demo_vote c StepPrevote ''0xb'') = prevote_msg"
  "consensusVoteMessage (demo_vote c StepPrecommit ''0xb'') = precommit_msg"
  by (simp_all add: consensusVoteMessage_def demo_vote_def prevote_msg_def precommit_msg_def u64_str_def
    u32_str_def StepPrevote_def StepPrecommit_def trim_space_def is_space_def to_lower_def lower_char_def
    small_strs)

lemma demo_verify:
  assumes "c \<in> set ''abcd''" "st = StepPrevote \<or> st = StepPrecommit" "trim_space h \<noteq> []"
    and "consensusVoteMessage (demo_vote c st h) \<in> set ms \<or> c = CHR ''d''"
  shows "VerifyConsensusVote (demo_crypto ms) (demo_vote c st h)"
  using assms demo_signer [OF assms(1,4)]
  by (auto simp: VerifyConsensusVote_def demo_vote_def)

lemma demo_hash_trim: "trim_space ''0xb'' = ''0xb''"
  by (simp add: trim_space_def is_space_def)

lemma demo_verify_prevote: "c \<in> set ''abcd'' \<Longrightarrow>
    VerifyConsensusVote (demo_crypto [prevote_msg]) (demo_vote c StepPrevote ''0xb'')"
  by (rule demo_verify) (simp_all add: demo_messages demo_hash_trim)

lemma demo_verify_full:
  "c \<in> set ''abcd'' \<Longrightarrow> VerifyConsensusVote demo_full (demo_vote c StepPrevote ''0xb'')"
  "c \<in> set ''abcd'' \<Longrightarrow> VerifyConsensusVote demo_full (demo_vote c StepPrecommit ''0xb'')"
  unfolding demo_full_def by (rule demo_verify; simp add: demo_messages demo_hash_trim)+

lemma power_ok_one: "power_ok 1"
  using pow2_le [of "- 1000" 0] pow2_le [of 0 900] by (simp add: power_ok_def del: pow2_le)

lemma demo_wf: "wf_power_set demo_set" "demo_set \<noteq> []"
  by (simp_all add: wf_power_set_def demo_set_def demo_power_def power_ok_one demo_lower)

lemma demo_members: "members demo_set = {''a'', ''b'', ''c'', ''d''}"
  by (auto simp: members_def demo_set_def demo_power_def demo_lower)

lemma demo_power_for: "c \<in> set ''abcd'' \<Longrightarrow> validatorPowerFor demo_set [c] = Fin 1"
  by (auto simp: demo_set_def demo_power_def equal_fold_def demo_lower)

lemma demo_weights: "sum (weight demo_set) (members demo_set) = 4"
  by (simp add: demo_members weight_def demo_power_for)

lemma demo_total: "validatorSetPower demo_set = Fin 4"
  by (simp add: validatorSetPower_def fsum_def demo_set_def demo_power_def go_simps)

lemma demo_quorum: "\<exists>r. requiredQuorum (Fin 4) = Fin r \<and> 2 < r \<and> r < 3"
proof -
  have "is_f64 4" by (simp add: is_f64_def go_simps)
  moreover have "pow2 (- 1000) \<le> 4" "4 \<le> pow2 990"
    using pow2_le [of "- 1000" 2] pow2_le [of 2 990] pow2_of_nat [of 2] by (simp_all del: pow2_le)
  ultimately obtain r where r: "requiredQuorum (Fin 4) = Fin r" "2 * 4 / 3 < r" "r \<le> 2 * 4 / 3 * (1 + 8 * uro)"
    using requiredQuorum_strict by blast
  from r(3) have "r \<le> 8 / 3 + 64 / 3 * uro" by (simp add: algebra_simps)
  also have "\<dots> \<le> 8 / 3 + 64 / 3 * (1 / 2 ^ 52)" using uro_small(1) by (intro add_left_mono mult_left_mono) simp_all
  also have "\<dots> < (3 :: rat)" by simp
  finally have "r < 3" .
  with r show ?thesis by (intro exI [of _ r]) simp
qed

text \<open>Three votes of four reach the quorum.\<close>

lemma demo_three:
  assumes "PendingTransition s = None" "ActiveSet s = demo_set" "st = StepPrevote \<or> st = StepPrecommit"
    and "m = map (\<lambda>c. ([c], demo_vote c st ''0xb'')) ''abc''"
  shows "quorumReached s h m ''0xb''"
    and "votersForHash m (ActiveSet s) ''0xb'' = [''a'', ''b'', ''c'']"
proof -
  show v: "votersForHash m (ActiveSet s) ''0xb'' = [''a'', ''b'', ''c'']"
    by (simp add: assms votersForHash_Cons demo_power_for demo_vote_def)
  then have p: "fst (votePowerForHash m demo_set ''0xb'') = Fin 3"
    by (simp add: votePowerForHash_def fsum_def demo_power_for go_simps assms(2))
  obtain r where r: "requiredQuorum (Fin 4) = Fin r" "r < 3" using demo_quorum by blast
  show "quorumReached s h m ''0xb''"
    using r(2) by (simp add: quorumReached_def assms(1,2) p demo_total r(1))
qed

lemma demo_two_ok:
  assumes "VerifyConsensusVote C (demo_vote CHR ''a'' st ''0xb'')" "VerifyConsensusVote C (demo_vote CHR ''b'' st ''0xb'')"
  shows "votes_ok C (demo_two st)"
  by (rule votes_okI) (use assms in \<open>auto simp: demo_two_def consensusVoteKey_def demo_lower split: if_splits\<close>)

text \<open>The third vote reaches certification, whatever the lock.\<close>

lemma demo_third_call:
  assumes "VerifyConsensusVote C (demo_vote CHR ''c'' st ''0xb'')" "st = StepPrevote \<or> st = StepPrecommit"
  obtains m t where
    "AddConsensusVote C demo_cx (demo_vote CHR ''c'' st ''0xb'') ((demo_two st)\<lparr>LockedHash := l\<rparr>) =
      certifyVote C (demo_vote CHR ''c'' st ''0xb'') m t"
    "quorumReached t 1 m ''0xb''" "votersForHash m (ActiveSet t) ''0xb'' = [''a'', ''b'', ''c'']"
    "ActiveSet t = demo_set" "PendingTransition t = None" "LockedHash t = l"
    "m = map (\<lambda>c. ([c], demo_vote c st ''0xb'')) ''abc''" "Votes t = [(consensusVoteKeyAt 1 0 st, m)]"
proof -
  let ?start = "(demo_two st)\<lparr>LockedHash := l\<rparr>"
  let ?v = "demo_vote CHR ''c'' st ''0xb''" and ?s = "withActiveSet demo_cx (ensure ?start)"
  let ?k = "consensusVoteKey ?v"
  let ?m = "mput (to_lower (cv_Validator ?v)) ?v (votes_at ?start ?k)"
  have k: "?k = consensusVoteKeyAt 1 0 st" by (simp add: consensusVoteKey_def demo_vote_def)
  have at: "votes_at ?start ?k = map (\<lambda>c. ([c], demo_vote c st ''0xb'')) ''ab''"
    by (simp add: votes_at_def demo_two_def k)
  have low: "to_lower (cv_Validator ?v) = ''c''" by (simp add: demo_vote_def demo_lower)
  have m: "?m = map (\<lambda>c. ([c], demo_vote c st ''0xb'')) ''abc''" unfolding at low by simp
  have as: "ActiveSet ?s = demo_set" "PendingTransition ?s = None"
    by (simp_all add: withActiveSet_def demo_two_def demo_state_def demo_wf NewBFTConsensusState_def)
  have i: "inSets ?s (cv_Validator ?v)" by (simp add: inSets_def as demo_vote_def demo_power_for)
  have n: "map_of (votes_at ?start ?k) (to_lower (cv_Validator ?v)) = None" unfolding at low by simp
  let ?t = "?s\<lparr>Votes := mput ?k ?m (Votes ?start)\<rparr>"
  have t: "PendingTransition ?t = None" "ActiveSet ?t = demo_set" using as by simp_all
  have l: "LockedHash ?t = l" by simp
  have vt: "Votes ?t = [(consensusVoteKeyAt 1 0 st, ?m)]" by (simp add: k demo_two_def)
  have r: "AddConsensusVote C demo_cx ?v ?start = certifyVote C ?v ?m ?t"
    using AddConsensusVote_fresh [OF assms(1) i n] by (simp add: Let_def)
  show thesis by (rule that [OF r demo_three [OF t assms(2) m] t(2,1) l m vt])
qed

text \<open>With no lock it returns the certificate.\<close>

lemma demo_third:
  assumes "VerifyConsensusVote C (demo_vote CHR ''c'' st ''0xb'')" "st = StepPrevote \<or> st = StepPrecommit"
  obtains s' qc where "AddConsensusVote C demo_cx (demo_vote CHR ''c'' st ''0xb'') (demo_two st) = (s', VoteQC qc)"
    "ActiveSet s' = demo_set" "PendingTransition s' = None" "qc_Validators qc = [''a'', ''b'', ''c'']"
    "qc_Height qc = 1" "qc_Round qc = 0" "qc_Step qc = st" "qc_BlockHash qc = ''0xb''"
proof -
  have e: "(demo_two st)\<lparr>LockedHash := []\<rparr> = demo_two st"
    by (simp add: demo_two_def demo_state_def NewBFTConsensusState_def)
  obtain m t where c: "AddConsensusVote C demo_cx (demo_vote CHR ''c'' st ''0xb'') (demo_two st) =
      certifyVote C (demo_vote CHR ''c'' st ''0xb'') m t"
    and q: "quorumReached t 1 m ''0xb''" "votersForHash m (ActiveSet t) ''0xb'' = [''a'', ''b'', ''c'']"
    and t: "ActiveSet t = demo_set" "PendingTransition t = None" "LockedHash t = []"
    by (rule demo_third_call [OF assms, of "[]", unfolded e])
  obtain s' qc where r: "certifyVote C (demo_vote CHR ''c'' st ''0xb'') m t = (s', VoteQC qc)"
    using q(1) assms(2) t by (fastforce simp: certifyVote_def Let_def)
  note d = certifyVote_QC [OF r]
  have "qc_Validators qc = [''a'', ''b'', ''c'']" using q(2) by (simp add: d(2) demo_lower)
  then show thesis using that [of s' qc] c r d(2-4) t by simp
qed

lemma demo_signs_once: "signs_once (demo_crypto [prevote_msg]) {''d''}"
proof -
  have msg: "consensusVoteMessage v = prevote_msg"
    if v: "VerifyConsensusVote (demo_crypto [prevote_msg]) v" "to_lower (cv_Validator v) \<noteq> ''d''" for v
  proof (rule ccontr)
    assume n: "consensusVoteMessage v \<noteq> prevote_msg"
    from v(1) obtain addr where a: "signer_of (demo_crypto [prevote_msg]) (consensusVoteMessage v)
        (trim_space (cv_Signature v)) = Some addr" "equal_fold addr (cv_Validator v)"
      by (auto simp: VerifyConsensusVote_def split: if_splits option.splits)
    with n have "addr = ''d''" by (auto simp: signer_of_def demo_crypto_def split: option.splits if_splits)
    with a(2) v(2) demo_lower [of "CHR ''d''"] show False by (simp add: equal_fold_def)
  qed
  then show ?thesis unfolding signs_once_def by (metis singletonI)
qed

section \<open>Timeouts and selection\<close>

definition demo_timeout :: "char \<Rightarrow> ConsensusTimeoutVote" where
  "demo_timeout c = \<lparr>tv_Height = 1, tv_Round = 0, tv_Validator = [c], tv_Signature = hex_encode (replicate 65 c)\<rparr>"

lemma demo_timeout_fields [simp]:
  "tv_Height (demo_timeout c) = 1" "tv_Round (demo_timeout c) = 0" "tv_Validator (demo_timeout c) = [c]"
  by (simp_all add: demo_timeout_def)

lemma demo_verify_timeout:
  assumes "c \<in> set ''abcd''"
  shows "VerifyConsensusTimeoutVote demo_full (demo_timeout c)"
proof -
  have msg: "timeoutVoteMessage (demo_timeout c) = timeout_msg"
    by (simp add: timeoutVoteMessage_def timeout_msg_def u64_str_def u32_str_def small_strs)
  have "trim_space (hex_encode (replicate 65 c)) = hex_encode (replicate 65 c)"
    by (rule trim_space_none [OF hex_encode_no_space])
  moreover have "trim_space [c] \<noteq> []" using assms by (auto simp: trim_space_def is_space_def)
  ultimately show ?thesis
    using demo_signer [OF assms, of timeout_msg "[prevote_msg, precommit_msg, timeout_msg]"] msg
    by (simp add: VerifyConsensusTimeoutVote_def demo_full_def) (simp add: demo_timeout_def)
qed

definition demo_late :: BFTConsensusState where
  "demo_late = demo_state\<lparr>TimeoutVotes := [(timeoutVoteKey 1 0, [(''a'', demo_timeout CHR ''a''), (''b'', demo_timeout CHR ''b'')])]\<rparr>"

lemma demo_late_ok: "bft_ok demo_full demo_late"
proof -
  have "votes_ok demo_full demo_late" by (simp add: votes_ok_def demo_late_def demo_state_def NewBFTConsensusState_def)
  moreover have "timeouts_ok demo_full demo_late"
    unfolding timeouts_ok_def by (auto simp: demo_late_def demo_verify_timeout demo_lower split: if_splits)
  ultimately show ?thesis by (simp add: bft_ok_def) (simp add: demo_late_def demo_state_def NewBFTConsensusState_def)
qed

lemma demo_third_timeout:
  obtains s' tc where "AddConsensusTimeoutVote demo_full demo_cx (demo_timeout CHR ''c'') demo_late = (s', TimeoutTC tc)"
    "ActiveSet s' = demo_set" "tc_Validators tc = [''a'', ''b'', ''c'']"
proof -
  let ?v = "demo_timeout CHR ''c''" and ?s = "withActiveSet demo_cx (ensure demo_late)"
  let ?m = "map (\<lambda>c. ([c], demo_timeout c)) ''abc''"
  let ?t = "?s\<lparr>TimeoutVotes := [(timeoutVoteKey 1 0, ?m)]\<rparr>"
  have as: "ActiveSet ?s = demo_set" "PendingTransition ?s = None"
    by (simp_all add: ActiveSet_with demo_late_def demo_state_def demo_wf NewBFTConsensusState_def)
  have i: "inSets ?s [CHR ''c'']" by (simp add: inSets_def as demo_power_for)
  have tv: "TimeoutVotes demo_late = [(timeoutVoteKey 1 0, [(''a'', demo_timeout CHR ''a''), (''b'', demo_timeout CHR ''b'')])]"
    by (simp add: demo_late_def)
  have vf: "votersForHash (timeoutVoters ?m) demo_set ''timeout'' = [''a'', ''b'', ''c'']"
    by (simp add: timeoutVoters_def votersForHash_Cons demo_power_for)
  then have p: "votePowerForHash (timeoutVoters ?m) demo_set ''timeout'' = (Fin 3, [''a'', ''b'', ''c''])"
    by (simp add: votePowerForHash_def fsum_def demo_power_for go_simps demo_lower)
  obtain r where r: "requiredQuorum (Fin 4) = Fin r" "r < 3" using demo_quorum by blast
  have q: "quorumReached ?t 1 (timeoutVoters ?m) ''timeout''"
  proof -
    have "ActiveSet ?t = demo_set" "PendingTransition ?t = None" using as by simp_all
    then show ?thesis using r(2) by (simp only: quorumReached_def p demo_total r(1)) simp
  qed
  have n: "map_of (timeouts_at demo_late (timeoutVoteKey (tv_Height ?v) (tv_Round ?v))) (to_lower (tv_Validator ?v)) = None"
    by (simp add: timeouts_at_def tv demo_lower)
  have m: "?m = mput (to_lower (tv_Validator ?v)) ?v (timeouts_at demo_late (timeoutVoteKey (tv_Height ?v) (tv_Round ?v)))"
    by (simp add: timeouts_at_def tv demo_lower)
  have t: "?t = ?s\<lparr>TimeoutVotes := mput (timeoutVoteKey (tv_Height ?v) (tv_Round ?v)) ?m (TimeoutVotes demo_late)\<rparr>"
    by (simp add: tv)
  have v: "VerifyConsensusTimeoutVote demo_full ?v" by (simp add: demo_verify_timeout)
  have "AddConsensusTimeoutVote demo_full demo_cx ?v demo_late =
      (?t\<lparr>LastTimeoutCertificate := Some (timeoutCert demo_full ?t ?v ?m)\<rparr>, TimeoutTC (timeoutCert demo_full ?t ?v ?m))"
    using AddConsensusTimeoutVote_stored [OF v _ n m t] i q by simp
  moreover have "tc_Validators (timeoutCert demo_full ?t ?v ?m) = [''a'', ''b'', ''c'']"
    using vf by (simp add: as demo_lower)
  ultimately show thesis using that as by simp
qed

end
