(* ===== verification/ConsensusTheorems.thy ===== *)
theory ConsensusTheorems
  imports ConsensusDemo
begin

text \<open>
  The properties of the consensus components, each with its claim id and, where it has hypotheses,
  an instance on the network of \<open>ConsensusDemo\<close>.
\<close>

section \<open>Certificates\<close>

text \<open>C1: Agreement. Two nodes whose consensus states satisfy the store invariant and hold the same
  active set each return a certificate for the same height, round and step. If the validators
  outside \<open>F\<close> sign one message per slot and \<open>F\<close> weighs less than a third of the set (less the
  rounding slack of the float sums), both certificates name the same block.\<close>

theorem quorum_certificates_agree:
  assumes "AddConsensusVote C cxA va sA = (sA', VoteQC qa)" "AddConsensusVote C cxB vb sB = (sB', VoteQC qb)"
    and "votes_ok C sA" "votes_ok C sB"
    and "ActiveSet sA' = vs" "ActiveSet sB' = vs" "wf_power_set vs" "vs \<noteq> []"
    and "qc_Height qa = qc_Height qb" "qc_Round qa = qc_Round qb" "qc_Step qa = qc_Step qb"
    and "signs_once C F" "finite F"
    and "sum (weight vs) F < (1 / 3 - 2 * (1 / 2 ^ 10)) * sum (weight vs) (members vs)"
  shows "norm_addr (qc_BlockHash qa) = norm_addr (qc_BlockHash qb)"
proof -
  have wf: "wf_power_set (ActiveSet sA')" "ActiveSet sA' \<noteq> []" "wf_power_set (ActiveSet sB')" "ActiveSet sB' \<noteq> []"
    using assms(5-8) by simp_all
  note A = AddConsensusVote_quorum [OF assms(1,3) wf(1,2)] and B = AddConsensusVote_quorum [OF assms(2,4) wf(3,4)]
  obtain a where a: "a \<in> set (qc_Validators qa)" "a \<in> set (qc_Validators qb)" "a \<notin> F"
    using pq.honest_in_both [OF A(1) [unfolded assms(5)] B(1) [unfolded assms(6)] assms(13,14)] by blast
  obtain v w where "backed_vote C qa a v" "backed_vote C qb a w"
    using A(2) B(2) a(1,2) unfolding qc_backed_def by blast
  then show ?thesis using a(3) assms(12,9-11) by (rule backed_agree)
qed

lemma quorum_certificates_agree_witness:
  "\<exists>qa qb sA sB. AddConsensusVote (demo_crypto [prevote_msg]) demo_cx (demo_vote CHR ''c'' StepPrevote ''0xb'')
      (demo_two StepPrevote) = (sA, VoteQC qa) \<and>
    AddConsensusVote (demo_crypto [prevote_msg]) demo_cx (demo_vote CHR ''c'' StepPrevote ''0xb'')
      (demo_two StepPrevote) = (sB, VoteQC qb) \<and> norm_addr (qc_BlockHash qa) = norm_addr (qc_BlockHash qb)"
proof -
  let ?C = "demo_crypto [prevote_msg]"
  have v: "VerifyConsensusVote ?C (demo_vote CHR ''c'' StepPrevote ''0xb'')" by (simp add: demo_verify_prevote)
  obtain s' qc where q: "AddConsensusVote ?C demo_cx (demo_vote CHR ''c'' StepPrevote ''0xb'') (demo_two StepPrevote) =
    (s', VoteQC qc)" "ActiveSet s' = demo_set" by (rule demo_third [OF v]) simp_all
  have ok: "votes_ok ?C (demo_two StepPrevote)" by (intro demo_two_ok) (simp_all add: demo_verify_prevote)
  have "weight demo_set ''d'' = 1" by (simp add: weight_def demo_power_for)
  then have "sum (weight demo_set) {''d''} < (1 / 3 - 2 * (1 / 2 ^ 10)) * sum (weight demo_set) (members demo_set)"
    unfolding demo_weights by simp
  from quorum_certificates_agree [OF q(1) q(1) ok ok q(2,2) demo_wf refl refl refl demo_signs_once _ this] q(1)
  show ?thesis by blast
qed

text \<open>C2: Soundness of a certificate. Its validator list is sorted and free of duplicates, is a
  quorum of the active set by the code's own threshold, and every listed validator has a
  verified vote for exactly this height, round, step and block; while a transition waits for its
  activation height, the new set holds such a quorum as well.\<close>

theorem quorum_certificate_sound:
  assumes "AddConsensusVote C cx vote s = (s', VoteQC qc)" "votes_ok C s"
    and "wf_power_set (ActiveSet s')" "ActiveSet s' \<noteq> []"
  shows "sorted (qc_Validators qc) \<and> distinct (qc_Validators qc) \<and>
    power_quorum (ActiveSet s') (set (qc_Validators qc)) \<and>
    (\<forall>a \<in> set (qc_Validators qc). \<exists>v. backed_vote C qc a v) \<and>
    (case PendingTransition s' of None \<Rightarrow> True | Some tr \<Rightarrow>
       qc_Height qc < st_ActivationHeight tr \<and> wf_power_set (st_NewSet tr) \<and> st_NewSet tr \<noteq> [] \<longrightarrow>
         (\<exists>Q. power_quorum (st_NewSet tr) Q \<and> (\<forall>a \<in> Q. \<exists>v. backed_vote C qc a v)))"
  using AddConsensusVote_quorum [OF assms] AddConsensusVote_joint [OF assms(1,2)]
  by (auto simp: qc_backed_def split: option.splits)

lemma quorum_certificate_sound_witness:
  "\<exists>qc s'. AddConsensusVote demo_full demo_cx (demo_vote CHR ''c'' StepPrecommit ''0xb'') (demo_two StepPrecommit) =
      (s', VoteQC qc) \<and> qc_Validators qc = [''a'', ''b'', ''c''] \<and>
    power_quorum (ActiveSet s') (set (qc_Validators qc))"
proof -
  have v: "VerifyConsensusVote demo_full (demo_vote CHR ''c'' StepPrecommit ''0xb'')" by (simp add: demo_verify_full)
  obtain s' qc where q: "AddConsensusVote demo_full demo_cx (demo_vote CHR ''c'' StepPrecommit ''0xb'')
      (demo_two StepPrecommit) = (s', VoteQC qc)" "ActiveSet s' = demo_set" "qc_Validators qc = [''a'', ''b'', ''c'']"
    by (rule demo_third [OF v]) simp_all
  have ok: "votes_ok demo_full (demo_two StepPrecommit)" by (intro demo_two_ok) (simp_all add: demo_verify_full)
  show ?thesis using quorum_certificate_sound [OF q(1) ok] q demo_wf by auto
qed

text \<open>C3: Invariant of the whole consensus state. In every state reachable from a fresh one by
  votes, timeout votes, round timers, set transitions and pruning, on any inputs and in any order, stored
  votes and timeouts verify and sit under the key of their own slot and signer, every piece of
  evidence is two verified votes of one validator for one slot with different hashes, and
  the last precommit and timeout certificates are backed by verified votes.\<close>

theorem reachable_bft_ok:
  assumes "bft_reachable C s"
  shows "bft_ok C s"
  using assms by (induction rule: bft_reachable.induct) (simp_all add: NewBFT_ok bft_step_ok)

lemma reachable_bft_ok_witness:
  "bft_ok demo_full (fst (AddConsensusVote demo_full demo_cx (demo_vote CHR ''a'' StepPrevote ''0xb'')
     (PrepareValidatorSetTransition demo_cx 1 (NewBFTConsensusState 10))))"
  by (rule reachable_bft_ok [OF bft_reachable.step [OF bft_reachable.step [OF bft_reachable.start
    bft_step.prepare] bft_step.vote]])

section \<open>Equivocation\<close>

text \<open>Whoever holds an honest validator's vote can make the handler record equivocation
  evidence against it. A signature covers the hash in lower case without outer white space, but the conflict
  test compares the raw hashes, so the same vote with a blank appended to its hash verifies and
  counts as a conflicting vote.\<close>

theorem equivocation_by_padding:
  assumes "bft_ok C s" "map_of (votes_at s (consensusVoteKey v)) (to_lower (cv_Validator v)) = Some v"
    and "inSets (withActiveSet cx (ensure s)) (cv_Validator v)"
  shows "\<exists>s' ev. AddConsensusVote C cx (v\<lparr>cv_BlockHash := cv_BlockHash v @ '' ''\<rparr>) s = (s', VoteEquivocation ev) \<and>
    ee_Validator ev = to_lower (cv_Validator v) \<and> ee_VoteA ev = v \<and> Evidence s' = Evidence s @ [ev]"
proof -
  let ?w = "v\<lparr>cv_BlockHash := cv_BlockHash v @ '' ''\<rparr>"
  have v: "VerifyConsensusVote C v" using assms(1,2) votes_ok_at(2) by (auto simp: bft_ok_def)
  then have w: "VerifyConsensusVote C ?w"
    by (simp add: VerifyConsensusVote_def consensusVoteMessage_def trim_space_blank split: if_splits option.splits)
  have "\<not> equal_fold (cv_BlockHash v) (cv_BlockHash ?w)"
    using arg_cong [of _ _ length] by (fastforce simp: equal_fold_def dest: arg_cong [of _ _ length])
  moreover have "consensusVoteKey ?w = consensusVoteKey v" by (simp add: consensusVoteKey_def)
  ultimately show ?thesis using assms(2,3) w by (simp add: AddConsensusVote_def Let_def)
qed

lemma equivocation_by_padding_witness:
  "\<exists>s' ev. AddConsensusVote demo_full demo_cx (demo_vote CHR ''a'' StepPrevote ''0xb '') (demo_two StepPrevote) =
     (s', VoteEquivocation ev) \<and> ee_Validator ev = ''a''"
proof -
  let ?v = "demo_vote CHR ''a'' StepPrevote ''0xb''"
  have m: "map_of (votes_at (demo_two StepPrevote) (consensusVoteKey ?v)) (to_lower (cv_Validator ?v)) = Some ?v"
    by (simp add: votes_at_def demo_two_def consensusVoteKey_def demo_lower)
  have i: "inSets (withActiveSet demo_cx (ensure (demo_two StepPrevote))) (cv_Validator ?v)"
    by (simp add: inSets_def withActiveSet_def demo_two_def demo_state_def demo_wf demo_power_for)
  have vs: "votes_ok demo_full (demo_two StepPrevote)" by (intro demo_two_ok) (simp_all add: demo_verify_full)
  have "bft_ok demo_full (demo_two StepPrevote)"
    using vs by (simp add: bft_ok_def timeouts_ok_def demo_two_def demo_state_def NewBFTConsensusState_def)
  from equivocation_by_padding [OF this m i] show ?thesis by (auto simp: demo_vote_def demo_lower)
qed

section \<open>The lock\<close>

text \<open>C4: The lock. The only outcome that changes the locked hash is a prevote certificate, and it
  locks that certificate's block and round; a precommit certificate is returned only if there
  is no lock or the lock is on its block.\<close>

theorem lock_follows_prevote_certificates:
  assumes "AddConsensusVote C cx vote s = (s', out)"
  shows "(LockedHash s' \<noteq> LockedHash s \<longrightarrow> (\<exists>qc. out = VoteQC qc \<and> qc_Step qc = StepPrevote \<and>
      LockedHash s' = qc_BlockHash qc \<and> LockedRound s' = qc_Round qc)) \<and>
    (\<forall>qc. out = VoteQC qc \<and> qc_Step qc = StepPrecommit \<longrightarrow>
      (LockedHash s = [] \<or> equal_fold (LockedHash s) (qc_BlockHash qc)) \<and> LastQC s' = Some qc)"
proof (cases rule: AddConsensusVote_cases [where C = C and vote = vote and cx = cx and ?s0.0 = s])
  case (fresh m)
  let ?s = "(withActiveSet cx (ensure s))\<lparr>Votes := mput (consensusVoteKey vote) m (Votes s)\<rparr>"
  have l: "LockedHash ?s = LockedHash s" by simp
  show ?thesis
  proof (cases "quorumReached ?s (cv_Height vote) m (cv_BlockHash vote)")
    case False
    with assms fresh(4) show ?thesis by (auto simp: certifyVote_def)
  next
    case True
    consider "cv_Step vote = StepPrevote" | "cv_Step vote = StepPrecommit"
      using fresh(1) by (auto simp: VerifyConsensusVote_def split: if_splits)
    then show ?thesis
      using assms fresh(4) True l by cases (auto simp: certifyVote_def Let_def split: if_splits)
  qed
qed (use assms in auto)

lemma lock_follows_prevote_certificates_witness:
  "LockedHash (fst (AddConsensusVote demo_full demo_cx (demo_vote CHR ''c'' StepPrevote ''0xb'') (demo_two StepPrevote))) =
   ''0xb''"
proof -
  have v: "VerifyConsensusVote demo_full (demo_vote CHR ''c'' StepPrevote ''0xb'')" by (simp add: demo_verify_full)
  obtain s' qc where q: "AddConsensusVote demo_full demo_cx (demo_vote CHR ''c'' StepPrevote ''0xb'')
      (demo_two StepPrevote) = (s', VoteQC qc)" "qc_BlockHash qc = ''0xb''" by (rule demo_third [OF v]) simp_all
  obtain s m where c: "certifyVote demo_full (demo_vote CHR ''c'' StepPrevote ''0xb'') m s = (s', VoteQC qc)"
    by (rule AddConsensusVote_QC [OF q(1)]) blast
  have "LockedHash s' = ''0xb''" using certifyVote_QC(7) [OF c] q(2) by simp
  moreover have "LockedHash (demo_two StepPrevote) = []"
    by (simp add: demo_two_def demo_state_def NewBFTConsensusState_def)
  ultimately show ?thesis using lock_follows_prevote_certificates [OF q(1)] q by simp
qed

text \<open>A refused precommit certificate is lost. When the vote that completes the quorum arrives while
  the lock is still on another block, the vote is stored and an error returned. Sending any of
  the stored votes again, after the lock has moved to this very block, returns nothing:
  the certificate is never formed from the votes the node holds.\<close>

theorem refused_precommit_is_lost:
  assumes "AddConsensusVote C cx vote s = (s', VoteError PrecommitConflictsLock)"
    and "map_of (votes_at s' (consensusVoteKey w)) (to_lower (cv_Validator w)) = Some w"
    and "VerifyConsensusVote C w" "inSets (withActiveSet cx' (ensure s')) (cv_Validator w)"
  shows "quorumReached s' (cv_Height vote) (votes_at s' (consensusVoteKey vote)) (cv_BlockHash vote) \<and>
    snd (AddConsensusVote C cx' w (s'\<lparr>LockedHash := cv_BlockHash vote\<rparr>)) = VotePending"
proof
  let ?t = "s'\<lparr>LockedHash := cv_BlockHash vote\<rparr>"
  have "inSets (withActiveSet cx' (ensure ?t)) (cv_Validator w)"
    using assms(4) by (simp add: inSets_def ActiveSet_with)
  moreover have "votes_at ?t k = votes_at s' k" for k by (simp add: votes_at_def)
  ultimately show "snd (AddConsensusVote C cx' w ?t) = VotePending"
    using assms(2,3) by (simp add: AddConsensusVote_def Let_def)
  show "quorumReached s' (cv_Height vote) (votes_at s' (consensusVoteKey vote)) (cv_BlockHash vote)"
  proof (cases rule: AddConsensusVote_cases [where C = C and vote = vote and cx = cx and ?s0.0 = s])
    case (fresh m)
    let ?s = "(withActiveSet cx (ensure s))\<lparr>Votes := mput (consensusVoteKey vote) m (Votes s)\<rparr>"
    have c: "certifyVote C vote m ?s = (s', VoteError PrecommitConflictsLock)" using assms(1) fresh(4) by simp
    then have q: "quorumReached ?s (cv_Height vote) m (cv_BlockHash vote)"
      by (auto simp: certifyVote_def split: if_splits)
    have f: "Votes s' = Votes ?s" "ActiveSet s' = ActiveSet ?s" "PendingTransition s' = PendingTransition ?s"
      using c certifyVote_Votes [of C vote m ?s] certifyVote_fields(4,5) [of C vote m ?s] by simp_all
    then have "votes_at s' (consensusVoteKey vote) = m" by (simp add: votes_at_def)
    with q f show ?thesis by (simp add: quorumReached_def)
  qed (use assms(1) in simp_all)
qed

lemma refused_precommit_is_lost_witness:
  "\<exists>s'. AddConsensusVote demo_full demo_cx (demo_vote CHR ''c'' StepPrecommit ''0xb'')
      ((demo_two StepPrecommit)\<lparr>LockedHash := ''0xc''\<rparr>) = (s', VoteError PrecommitConflictsLock) \<and>
    snd (AddConsensusVote demo_full demo_cx (demo_vote CHR ''a'' StepPrecommit ''0xb'') (s'\<lparr>LockedHash := ''0xb''\<rparr>)) =
      VotePending"
proof -
  let ?v = "demo_vote CHR ''c'' StepPrecommit ''0xb''" and ?w = "demo_vote CHR ''a'' StepPrecommit ''0xb''"
  have v: "VerifyConsensusVote demo_full ?v" "VerifyConsensusVote demo_full ?w" by (simp_all add: demo_verify_full)
  obtain m t where c: "AddConsensusVote demo_full demo_cx ?v ((demo_two StepPrecommit)\<lparr>LockedHash := ''0xc''\<rparr>) =
      certifyVote demo_full ?v m t" "quorumReached t 1 m ''0xb''" "ActiveSet t = demo_set" "LockedHash t = ''0xc''"
    and m: "m = map (\<lambda>c. ([c], demo_vote c StepPrecommit ''0xb'')) ''abc''"
      "Votes t = [(consensusVoteKeyAt 1 0 StepPrecommit, m)]"
    by (rule demo_third_call [OF v(1)]) simp_all
  have "\<not> equal_fold ''0xc'' ''0xb''" by (simp add: equal_fold_def to_lower_def lower_char_def)
  then have r: "certifyVote demo_full ?v m t = (t, VoteError PrecommitConflictsLock)"
    using c by (simp add: certifyVote_def)
  have a: "AddConsensusVote demo_full demo_cx ?v ((demo_two StepPrecommit)\<lparr>LockedHash := ''0xc''\<rparr>) =
      (t, VoteError PrecommitConflictsLock)" using c(1) r by simp
  have at: "map_of (votes_at t (consensusVoteKey ?w)) (to_lower (cv_Validator ?w)) = Some ?w"
    by (simp add: votes_at_def m consensusVoteKey_def demo_lower)
  have i: "inSets (withActiveSet demo_cx (ensure t)) (cv_Validator ?w)"
    by (simp add: inSets_def ActiveSet_with c(3) demo_wf demo_power_for)
  show ?thesis using refused_precommit_is_lost [OF a at v(2) i] a by auto
qed

section \<open>Timeouts and rounds\<close>

text \<open>C5: Soundness of a timeout certificate. Its listed validators are a quorum of the active set and
  each signed a timeout vote for exactly this height and round.\<close>

theorem timeout_certificate_sound:
  assumes "AddConsensusTimeoutVote C cx vote s = (s', TimeoutTC tc)" "bft_ok C s"
    and "wf_power_set (ActiveSet s')" "ActiveSet s' \<noteq> []"
  shows "power_quorum (ActiveSet s') (set (tc_Validators tc)) \<and> tc_backed C tc \<and>
    tc_Height tc = tv_Height vote \<and> tc_Round tc = tv_Round vote \<and> LastTimeoutCertificate s' = Some tc"
proof (cases rule: AddConsensusTimeoutVote_cases [where C = C and vote = vote and cx = cx and ?s0.0 = s])
  case (stored m s1)
  let ?key = "timeoutVoteKey (tv_Height vote) (tv_Round vote)"
  from assms(1) stored(5) have q: "quorumReached s1 (tv_Height vote) (timeoutVoters m) ''timeout''"
    and tc: "tc = timeoutCert C s1 vote m" and s': "s' = s1\<lparr>LastTimeoutCertificate := Some tc\<rparr>"
    by (auto split: if_splits)
  have t: "timeouts_ok C s" using assms(2) by (simp add: bft_ok_def)
  have m: "VerifyConsensusTimeoutVote C v \<and> timeoutVoteKey (tv_Height v) (tv_Round v) = ?key \<and>
      a = to_lower (tv_Validator v)" if "map_of m a = Some v" for a v
    using timeouts_ok_at(2) [OF t, of ?key a v] stored(1) that by (auto simp: stored(3) split: if_splits)
  have wf: "wf_map m" using timeouts_ok_at(1) [OF t] by (simp add: stored(3) wf_mput)
  have low: "to_lower a = a" if "map_of (timeoutVoters m) a = Some v" for a v
    using that m by (fastforce simp: timeoutVoters_map split: option.splits)
  have vs: "map to_lower (votersForHash (timeoutVoters m) (ActiveSet s1) ''timeout'') =
      votersForHash (timeoutVoters m) (ActiveSet s1) ''timeout''"
    by (intro voters_lower [of _ cv_Validator])
      (use wf m low in \<open>auto simp: timeoutVoters_map split: option.splits\<close>)
  have "wf_power_set (ActiveSet s1)" "ActiveSet s1 \<noteq> []"
    "\<not> fless (fst (votePowerForHash (timeoutVoters m) (ActiveSet s1) ''timeout'')) (requiredQuorum (validatorSetPower (ActiveSet s1)))"
    using assms(3,4) q by (simp_all add: s' quorumReached_def)
  with voters_power_quorum [of "timeoutVoters m", OF _ low] wf
  have "power_quorum (ActiveSet s1) (set (votersForHash (timeoutVoters m) (ActiveSet s1) ''timeout''))" by simp
  moreover have "tc_backed C (timeoutCert C s1 vote m)" using wf m by (intro timeoutCert_backed) auto
  ultimately show ?thesis by (simp add: s' tc vs)
qed (use assms(1) in simp_all)

lemma timeout_certificate_sound_witness:
  "\<exists>s' tc. AddConsensusTimeoutVote demo_full demo_cx (demo_timeout CHR ''c'') demo_late = (s', TimeoutTC tc) \<and>
     power_quorum demo_set {''a'', ''b'', ''c''} \<and> LastTimeoutCertificate s' = Some tc"
proof -
  obtain s' tc where t: "AddConsensusTimeoutVote demo_full demo_cx (demo_timeout CHR ''c'') demo_late = (s', TimeoutTC tc)"
    "ActiveSet s' = demo_set" "tc_Validators tc = [''a'', ''b'', ''c'']" by (rule demo_third_timeout)
  show ?thesis using timeout_certificate_sound [OF t(1) demo_late_ok] t demo_wf by auto
qed

text \<open>A view change needs a certificate and keeps the lock. The round of a height advances, by
  one, only after the round's timeout has elapsed, with a backed timeout certificate for exactly
  this height and round, and while no block of this height or above is finalized; the lock, the votes and the
  certificates are untouched, and the timer restarts.\<close>

theorem advance_needs_certificate:
  assumes "AdvanceConsensusRound now h t s = (s', r, True)" "bft_ok C s"
  shows "(\<exists>tc. LastTimeoutCertificate s = Some tc \<and> tc_backed C tc \<and> tc_Height tc = h \<and> tc_Round tc = round_of s h) \<and>
    r = round_of s h + 1 \<and> round_of s' h = r \<and> started_of s' h = (if t \<le> 0 then now else t) \<and>
    started_of s h \<noteq> 0 \<and>
    RoundTimeoutSeconds (ensure s) \<le> i64 ((if t \<le> 0 then now else t) - started_of s h) \<and>
    (\<forall>qc. LastQC s = Some qc \<longrightarrow> qc_Height qc < h \<or> qc_Step qc \<noteq> StepPrecommit) \<and>
    LockedHash s' = LockedHash s \<and> LockedRound s' = LockedRound s \<and> Votes s' = Votes s"
proof -
  let ?now = "if t \<le> 0 then now else t"
  from assms(1) have h: "h \<noteq> 0" by (auto simp: AdvanceConsensusRound_def)
  have e: "started_of (ensure s) h = started_of s h" "round_of (ensure s) h = round_of s h"
    by (simp_all add: started_of_def round_of_def)
  have st: "started_of s h \<noteq> 0" "RoundTimeoutSeconds (ensure s) \<le> i64 (?now - started_of s h)"
    using assms(1) h e by (auto simp: AdvanceConsensusRound_def Let_def split: if_splits)
  then obtain tc where tc: "LastTimeoutCertificate s = Some tc" "tc_Height tc = h" "tc_Round tc = round_of s h"
    using assms(1) h e by (cases "LastTimeoutCertificate s") (auto simp: AdvanceConsensusRound_def Let_def split: if_splits)
  have qc: "\<forall>qc. LastQC s = Some qc \<longrightarrow> qc_Height qc < h \<or> qc_Step qc \<noteq> StepPrecommit"
    using assms(1) h e st tc by (auto simp: AdvanceConsensusRound_def Let_def not_le split: if_splits)
  have "s' = (ensure s)\<lparr>CurrentRounds := mput h (round_of s h + 1) (CurrentRounds s),
      RoundStartedAt := mput h ?now (RoundStartedAt s)\<rparr> \<and> r = round_of s h + 1"
    using assms(1) h e by (auto simp: AdvanceConsensusRound_def Let_def split: if_splits)
  then show ?thesis
    using tc st qc assms(2) by (auto simp: bft_ok_def round_of_def started_of_def)
qed

lemma advance_needs_certificate_witness:
  "\<exists>s s'. AdvanceConsensusRound 0 1 100 s = (s', 1, True) \<and> LockedHash s = ''0xb'' \<and> LockedHash s' = ''0xb''"
proof -
  let ?tc = "\<lparr>tc_Height = 1, tc_Round = 0, tc_VotingPower = Fin 3, tc_RequiredPower = Fin 3,
    tc_Validators = [''a'', ''b'', ''c''], tc_Hash = []\<rparr>"
  let ?s = "demo_late\<lparr>RoundStartedAt := [(1, 5)], LockedHash := ''0xb'', LastTimeoutCertificate := Some ?tc\<rparr>"
  have "\<exists>v. VerifyConsensusTimeoutVote demo_full v \<and> to_lower (tv_Validator v) = [c] \<and> tv_Height v = 1 \<and> tv_Round v = 0"
    if "c \<in> set ''abcd''" for c
    using demo_verify_timeout [OF that] demo_lower [OF that] by (intro exI [of _ "demo_timeout c"]) simp
  then have tc: "tc_backed demo_full ?tc" by (simp add: tc_backed_def)
  have l: "votes_ok demo_full demo_late" "timeouts_ok demo_full demo_late" "\<forall>e \<in> set (Evidence demo_late). evidence_ok demo_full e"
    "\<forall>qc. LastQC demo_late = Some qc \<longrightarrow> qc_Step qc = StepPrecommit \<and> qc_backed demo_full qc"
    using demo_late_ok unfolding bft_ok_def by blast+
  have "votes_ok demo_full ?s" "timeouts_ok demo_full ?s"
    using l(1,2) by (simp_all add: votes_ok_def timeouts_ok_def)
  then have ok: "bft_ok demo_full ?s" using l(3,4) tc by (simp add: bft_ok_def)
  obtain s' where s: "AdvanceConsensusRound 0 1 100 ?s = (s', 1, True)"
    by (simp add: AdvanceConsensusRound_def Let_def started_of_def round_of_def demo_late_def demo_state_def
        NewBFTConsensusState_def ensure_def i64_def)
  show ?thesis using advance_needs_certificate [OF s ok] s by (intro exI [of _ ?s] exI [of _ s']) simp
qed

section \<open>History\<close>

text \<open>Pruning at a finalized height drops exactly the votes and timeouts of heights more than 128
  below it, and neither the lock, the certificates nor the evidence.\<close>

theorem prune_keeps_recent_votes:
  "votes_at (pruneConsensusRounds f s) (consensusVoteKeyAt h r st) =
     (if consensusHistoryRetentionHeights < f \<and> h \<le> f - consensusHistoryRetentionHeights then []
      else votes_at s (consensusVoteKeyAt h r st)) \<and>
   timeouts_at (pruneConsensusRounds f s) (timeoutVoteKey h r) =
     (if consensusHistoryRetentionHeights < f \<and> h \<le> f - consensusHistoryRetentionHeights then []
      else timeouts_at s (timeoutVoteKey h r)) \<and>
   round_of (pruneConsensusRounds f s) h = (if h \<le> f then 0 else round_of s h) \<and>
   LockedHash (pruneConsensusRounds f s) = LockedHash s \<and> LastQC (pruneConsensusRounds f s) = LastQC s \<and>
   Evidence (pruneConsensusRounds f s) = Evidence s"
proof -
  have "round_of (pruneConsensusRounds f s) h = (if h \<le> f then 0 else round_of s h)"
    by (simp add: round_of_def pruneConsensusRounds_def Let_def map_of_filter_key)
  then show ?thesis
    by (auto simp: votes_at_def timeouts_at_def prune_Votes prune_TimeoutVotes map_of_filter_key prunedKey_def)
qed

section \<open>Threshold and proposer\<close>

text \<open>The threshold is strict. For any total power that is a float between \<open>2^-1000\<close> and \<open>2^990\<close>,
  the threshold the code computes is strictly above two thirds of it in exact arithmetic, and by at
  most eight units of roundoff.\<close>

theorem quorum_threshold_strict:
  assumes "is_f64 t" "pow2 (- 1000) \<le> t" "t \<le> pow2 990"
  shows "\<exists>r. requiredQuorum (Fin t) = Fin r \<and> 2 * t < 3 * r \<and> 3 * r \<le> 2 * t * (1 + 8 * uro)"
  using requiredQuorum_strict [OF assms] by (fastforce simp: field_simps)

lemma quorum_threshold_strict_witness: "\<exists>r. requiredQuorum (Fin 4) = Fin r \<and> 8 < 3 * r"
proof -
  have "is_f64 4" by (simp add: is_f64_def go_simps)
  moreover have "pow2 (- 1000) \<le> 4" "4 \<le> pow2 990"
    using pow2_le [of "- 1000" 2] pow2_le [of 2 990] pow2_of_nat [of 2] by (simp_all del: pow2_le)
  ultimately show ?thesis using quorum_threshold_strict [of 4] by auto
qed

text \<open>The proposer is a member of minimal score. Whoever selection returns has the address
  of a member of the prepared active set with positive power, and no member of positive power has
  a lower score.\<close>

theorem proposer_minimal_score:
  assumes "selectBlockProposerWithEntropy C E cx h r e s = (s', Some v)" "\<forall>w. Some w \<in> set (cx_Validators cx) \<longrightarrow> v_Address w \<noteq> []"
  shows "s' = PrepareValidatorSetTransition cx h s \<and> Some v \<in> set (cx_Validators cx) \<and>
    (\<exists>c \<in> set (ActiveSet s'). equal_fold (v_Address v) (vp_Address c) \<and> \<not> fle (vp_Power c) (Fin 0) \<and>
      (\<forall>d \<in> set (ActiveSet s'). \<not> fle (vp_Power d) (Fin 0) \<longrightarrow>
        \<not> fless (candidateScore C (pe_Log E) h r e d) (candidateScore C (pe_Log E) h r e c)))"
proof -
  let ?f = "candidateScore C (pe_Log E) h r e" and ?s = "PrepareValidatorSetTransition cx h s"
  let ?p = "pickProposer ?f (ActiveSet ?s) ([], PInf)"
  have s: "s' = ?s" "findValidator (cx_Validators cx) (fst ?p) = Some v"
    using assms(1) by (auto simp: selectBlockProposerWithEntropy_def Let_def split: if_splits)
  from findValidator_Some [OF s(2)] have v: "Some v \<in> set (cx_Validators cx)" "equal_fold (v_Address v) (fst ?p)" by blast+
  have "fst ?p \<noteq> []" using v assms(2) by (auto simp: equal_fold_def)
  then obtain c where c: "c \<in> set (ActiveSet ?s)" "\<not> fle (vp_Power c) (Fin 0)" "?p = (vp_Address c, ?f c)"
    using pickProposer_mem [of ?f "ActiveSet ?s" "([], PInf)"] by fastforce
  have "\<not> fless (?f d) (?f c)" if "d \<in> set (ActiveSet ?s)" "\<not> fle (vp_Power d) (Fin 0)" for d
    using pickProposer_min [OF that, of ?f "([], PInf)"] c(3) by simp
  with c v s(1) show ?thesis by auto
qed

definition demo_env :: proposer_env where
  "demo_env = \<lparr>pe_Log = (\<lambda>_. Fin (- 1)), pe_SetJSON = (\<lambda>vs. concat (map vp_Address vs)), pe_SpecHash = ''spec'',
     pe_BlockEntropy = (\<lambda>_. [])\<rparr>"

definition demo_validator :: "char \<Rightarrow> Validator" where
  "demo_validator c = \<lparr>v_Address = [c], v_DEXAddress = [], v_PairKey = [], v_LPTokenAmount = [], v_LockedLiquidityUSD = Fin 0,
     v_LPStakeAmount = Fin 1, v_NativeBond = Fin 1, v_LockTime = None, v_LiquidityPower = Fin 0, v_PenaltyScore = Fin 0\<rparr>"

definition demo_chain :: chain_view where
  "demo_chain = \<lparr>cx_Validators = map (Some \<circ> demo_validator) ''abcd'', cx_MinStake = Fin 1, cx_now = 0\<rparr>"

lemma demo_select:
  "selectBlockProposerWithEntropy C demo_env demo_chain 1 0 e demo_state = (demo_state, Some (demo_validator CHR ''a''))"
proof -
  have p: "PrepareValidatorSetTransition cx 1 demo_state = demo_state" for cx
    by (simp add: PrepareValidatorSetTransition_def demo_state_def demo_wf NewBFTConsensusState_def ensure_def
        DefaultEpochLength_def Let_def)
  have a: "ActiveSet demo_state = demo_set" by (simp add: demo_state_def)
  have s: "candidateScore C (pe_Log demo_env) 1 0 e (demo_power c) = Fin 1" for c
    by (simp add: candidateScore_def demo_env_def demo_power_def Let_def go_simps)
  have "pickProposer (candidateScore C (pe_Log demo_env) 1 0 e) demo_set ([], PInf) = (''a'', Fin 1)"
    by (simp add: demo_set_def s) (simp add: demo_power_def)
  then show ?thesis
    by (simp add: selectBlockProposerWithEntropy_def demo_chain_def p a demo_wf Let_def)
      (simp add: demo_validator_def equal_fold_def demo_lower)
qed

lemma proposer_minimal_score_witness:
  "\<exists>c \<in> set (ActiveSet demo_state). equal_fold (v_Address (demo_validator CHR ''a'')) (vp_Address c)"
  using proposer_minimal_score [OF demo_select]
  by (fastforce simp: demo_chain_def demo_validator_def)

text \<open>C6: Proposer certificates. A certificate that a node builds verifies on that node's
  state afterwards, and on any state that agrees with it on the active set, the last
  certificate and the epoch; a node that still holds a set with another hash rejects it before its own
  preparation of the height.\<close>

theorem proposer_certificate_roundtrip:
  assumes "BuildProposerCertificate C E cx h r s = (s', Some cert)"
    and "h \<noteq> 0" "h < h + EpochLength (ensure s)" "ActiveSet s \<noteq> []" "pe_SpecHash E \<noteq> []"
  shows "VerifyProposerCertificate C E cx cert s' = (s', True) \<and>
    (\<forall>t. validatorPowerSetHash C E (ActiveSet t) \<noteq> validatorPowerSetHash C E (ActiveSet s') \<longrightarrow>
       VerifyProposerCertificate C E cx cert t = (t, False))"
proof -
  let ?e = "proposerEntropy E h s"
  obtain p where sel: "SelectBlockProposer C E cx h r s = (s', Some p)"
    using assms(1) by (auto simp: BuildProposerCertificate_def Let_def split: prod.splits option.splits)
  let ?set = "validatorPowerSetHash C E (ActiveSet s')"
  let ?seed = "proposerSeed C (pe_SpecHash E) ?set (proposerEntropy E h s') h r"
  have cert: "cert = \<lparr>pc_Height = h, pc_Round = r, pc_Epoch = h div EpochLength s',
                pc_SpecHash = pe_SpecHash E, pc_SetHash = ?set, pc_Proposer = to_lower (v_Address p),
                pc_Entropy = proposerEntropy E h s', pc_Seed = ?seed,
                pc_ScoreDigest = proposerScoreDigest C ?seed (v_Address p)\<rparr>"
    using assms(1) sel by (simp add: BuildProposerCertificate_def Let_def)
  have s': "s' = PrepareValidatorSetTransition cx h s" "ActiveSet s' \<noteq> []" "cx_Validators cx \<noteq> []"
    and p: "findValidator (cx_Validators cx) (fst (pickProposer (candidateScore C (pe_Log E) h r ?e) (ActiveSet s') ([], PInf))) = Some p"
    using sel by (auto simp: SelectBlockProposer_def selectBlockProposerWithEntropy_def Let_def split: if_splits)
  have e: "proposerEntropy E h s' = ?e" by (simp add: s'(1) proposerEntropy_def)
  have "PrepareValidatorSetTransition cx h s' = s'"
    using Prepare_again [OF assms(3,4)] s'(1,2) by simp
  then have "selectBlockProposerWithEntropy C E cx h r ?e s' = (s', Some p)"
    using s'(2,3) p by (simp add: selectBlockProposerWithEntropy_def Let_def)
  moreover have "?e \<noteq> []" using assms(5) by (auto simp: proposerEntropy_def split: option.splits)
  moreover have "proposerScoreDigest C x (to_lower (v_Address p)) = proposerScoreDigest C x (v_Address p)" for x
    by (simp add: proposerScoreDigest_def)
  ultimately show ?thesis
    using assms(2) e by (simp add: VerifyProposerCertificate_def cert Let_def)
qed

lemma proposer_certificate_roundtrip_witness:
  "\<exists>cert. BuildProposerCertificate demo_full demo_env demo_chain 1 0 demo_state = (demo_state, Some cert) \<and>
     VerifyProposerCertificate demo_full demo_env demo_chain cert demo_state = (demo_state, True)"
proof -
  obtain cert where b: "BuildProposerCertificate demo_full demo_env demo_chain 1 0 demo_state = (demo_state, Some cert)"
    by (simp add: BuildProposerCertificate_def SelectBlockProposer_def demo_select Let_def)
  have "(1 :: u64) < 1 + EpochLength (ensure demo_state)"
    by (simp add: ensure_def demo_state_def NewBFTConsensusState_def DefaultEpochLength_def)
  from proposer_certificate_roundtrip [OF b _ this] b show ?thesis
    by (simp add: demo_env_def) (simp add: demo_state_def demo_wf)
qed

end
