(* ===== verification/BFTModel.thy ===== *)
theory BFTModel
  imports GoBase
begin

text \<open>
  The bounded model checker of \<open>consensus_model.go\<close>: the report it produces for a range of set
  sizes, with its loops as list comprehensions in the order of the code, and the theorem that
  the checker never finds a violation, for any range and not only the bounds a run explores.
  \<open>int\<close> values are mathematical: the counters stay far below \<open>2^63\<close> for ranges a run can finish.
\<close>

record BFTModelReport =
  rp_MinValidators :: int
  rp_MaxValidators :: int
  rp_Configurations :: int
  rp_StatesExplored :: u64
  rp_SafetyViolations :: "string list"
  rp_LivenessViolations :: "string list"
  rp_JointQuorumChecked :: bool
  rp_StrictQuorumChecked :: bool

definition integerStrictQuorum :: "int \<Rightarrow> int" where
  "integerStrictQuorum n = (2 * n) div 3 + 1"

definition livenessViolations :: "int \<Rightarrow> string list" where
  "livenessViolations n = (let faults = (n - 1) div 3; quorum = integerStrictQuorum n; honest = n - faults in
     if honest < quorum then [''n='' @ int_str n @ '' honest='' @ int_str honest @ '' quorum='' @ int_str quorum] else [])"

text \<open>The distributions of honest votes over two blocks, each visited once.\<close>

definition voteDistributions :: "int \<Rightarrow> (int \<times> int) list" where
  "voteDistributions n = (let honest = n - (n - 1) div 3 in
     [(a, b). a \<leftarrow> [0..honest], b \<leftarrow> [0..honest - a]])"

definition splitViolations :: "int \<Rightarrow> string list" where
  "splitViolations n = (let faults = (n - 1) div 3; quorum = integerStrictQuorum n in
     [''n='' @ int_str n @ '' f='' @ int_str faults @ '' a='' @ int_str a @ '' b='' @ int_str b @ '' q='' @ int_str quorum.
        (a, b) \<leftarrow> voteDistributions n, quorum \<le> a + faults \<and> quorum \<le> b + faults])"

definition jointViolations :: "int \<Rightarrow> string list" where
  "jointViolations n = (let quorum = integerStrictQuorum n in
     map (\<lambda>(ov, nv). ''joint quorum bypass n='' @ int_str n @ '' old='' @ int_str ov @ '' new='' @ int_str nv)
       (filter (\<lambda>(ov, nv). let joint = quorum \<le> ov \<and> quorum \<le> nv in joint \<and> (ov < quorum \<or> nv < quorum))
         (List.product [0..n] [0..n])))"

definition statesOf :: "int \<Rightarrow> nat" where
  "statesOf n = length (voteDistributions n) + length [0..n] * length [0..n]"

definition CheckBoundedBFTModel :: "int \<Rightarrow> int \<Rightarrow> BFTModelReport" where
  "CheckBoundedBFTModel minValidators maxValidators =
     (let lo = (if minValidators < 4 then 4 else minValidators);
          hi = (if maxValidators < lo then lo else maxValidators) in
      \<lparr>rp_MinValidators = lo, rp_MaxValidators = hi, rp_Configurations = int (length [lo..hi]),
       rp_StatesExplored = of_nat (sum_list (map statesOf [lo..hi])),
       rp_SafetyViolations = concat (map (\<lambda>n. splitViolations n @ jointViolations n) [lo..hi]),
       rp_LivenessViolations = concat (map livenessViolations [lo..hi]),
       rp_JointQuorumChecked = True, rp_StrictQuorumChecked = True\<rparr>)"

definition Valid :: "BFTModelReport \<Rightarrow> bool" where
  "Valid r \<longleftrightarrow> 0 < rp_Configurations r \<and> 0 < rp_StatesExplored r \<and> rp_SafetyViolations r = [] \<and>
     rp_LivenessViolations r = [] \<and> rp_JointQuorumChecked r \<and> rp_StrictQuorumChecked r"

section \<open>The checker's claims\<close>

lemma quorum_bounds:
  "3 * ((n - 1) div 3) \<le> n - 1" "n - 1 < 3 * ((n - 1) div 3) + 3"
  "3 * integerStrictQuorum n \<le> 2 * n + 3" "2 * n < 3 * integerStrictQuorum n" for n :: int
  unfolding integerStrictQuorum_def by arith+

lemma no_split:
  assumes "a + b \<le> n - (n - 1) div 3" "integerStrictQuorum n \<le> a + (n - 1) div 3"
  shows "b + (n - 1) div 3 < integerStrictQuorum n"
  using assms quorum_bounds [of n] by linarith

lemma enough_honest: "integerStrictQuorum n \<le> n - (n - 1) div 3"
proof (rule ccontr)
  assume "\<not> ?thesis"
  then have "n - (n - 1) div 3 + 1 \<le> integerStrictQuorum n" by simp
  with quorum_bounds [of n] show False by linarith
qed

lemma splitViolations_none: "splitViolations n = []"
proof -
  have "\<not> (integerStrictQuorum n \<le> a + (n - 1) div 3 \<and> integerStrictQuorum n \<le> b + (n - 1) div 3)"
    if "(a, b) \<in> set (voteDistributions n)" for a b
    using that no_split [of a b n] by (auto simp: voteDistributions_def Let_def)
  then show ?thesis by (auto simp: splitViolations_def Let_def)
qed

text \<open>The bounded checker's verdict holds for every range. For all bounds the report lists no
  safety violation, no liveness violation and no joint-quorum bypass, so the strict integer
  quorum of \<open>n\<close> equal validators tolerates \<open>(n - 1) div 3\<close> faults for every \<open>n\<close> from 4 on; the report is
  valid unless the 64-bit state counter wraps to zero.\<close>

theorem bounded_model_always_safe:
  "rp_SafetyViolations (CheckBoundedBFTModel l h) = [] \<and> rp_LivenessViolations (CheckBoundedBFTModel l h) = [] \<and>
   Valid (CheckBoundedBFTModel l h) = (rp_StatesExplored (CheckBoundedBFTModel l h) \<noteq> 0)"
proof -
  have "jointViolations n = []" for n
    by (auto simp: jointViolations_def Let_def filter_empty_conv)
  then have s: "splitViolations n = []" "jointViolations n = []" "livenessViolations n = []" for n
    using splitViolations_none enough_honest [of n] by (simp_all add: livenessViolations_def Let_def not_less)
  have e: "rp_SafetyViolations (CheckBoundedBFTModel l h) = []" "rp_LivenessViolations (CheckBoundedBFTModel l h) = []"
    by (simp_all add: CheckBoundedBFTModel_def Let_def s)
  have "0 < rp_Configurations (CheckBoundedBFTModel l h)" by (simp add: CheckBoundedBFTModel_def Let_def)
  with e show ?thesis by (simp add: Valid_def word_gt_0) (simp add: CheckBoundedBFTModel_def Let_def)
qed

end
