(* ===== verification/Ledger.thy ===== *)
theory Ledger
  imports GoBase
begin

text \<open>
  Native balances: \<open>amount.go\<close> and the account operations of \<open>blockchain_struct.go\<close>. The map
  \<open>Accounts\<close> from addresses to non-nil big integers is an association list in the visiting order
  of the runtime. The locale \<open>money\<close> states what the modules that move value need; it is interpreted
  on these operations here and on contract storage later.
\<close>

section \<open>Amounts and addresses\<close>

definition NewAmountFromString :: "string \<Rightarrow> int option" where
  "NewAmountFromString s = (let t = trim_space s in if t = [] then Some 0 else parse_int10 t)"

definition NewAmountFromStringOrZero :: "string \<Rightarrow> int" where
  "NewAmountFromStringOrZero s = (case NewAmountFromString s of None \<Rightarrow> 0 | Some a \<Rightarrow> a)"

definition AmountString :: "int option \<Rightarrow> string" where
  "AmountString a = (case a of None \<Rightarrow> ''0'' | Some i \<Rightarrow> int_str i)"

definition ValidateAddress :: "string \<Rightarrow> bool" where
  "ValidateAddress addr \<longleftrightarrow> has_prefix addr ''0x'' \<and> length addr = 42"

definition normalizeAccountAddress :: "string \<Rightarrow> string" where
  "normalizeAccountAddress address = (let a = trim_space address in if ValidateAddress a then to_lower a else a)"

type_synonym accounts = "(string, int) gomap"

section \<open>Operations\<close>

definition accountKeyForRead :: "accounts \<Rightarrow> string \<Rightarrow> string option" where
  "accountKeyForRead m address =
     (if map_of m address \<noteq> None then Some address else
      let normalized = normalizeAccountAddress address in
      if map_of m normalized \<noteq> None then Some normalized
      else find (\<lambda>key. equal_fold key address) (keys_of m))"

definition accountKeyForWrite :: "accounts \<Rightarrow> string \<Rightarrow> string" where
  "accountKeyForWrite m address =
     (if map_of m address \<noteq> None then address
      else case find (\<lambda>key. equal_fold key address) (keys_of m) of
        Some key \<Rightarrow> key | None \<Rightarrow> normalizeAccountAddress address)"

definition getAccountBalance :: "accounts \<Rightarrow> string \<Rightarrow> int option" where
  "getAccountBalance m address = (case accountKeyForRead m address of None \<Rightarrow> None | Some key \<Rightarrow> map_of m key)"

definition setAccountBalance :: "string \<Rightarrow> int \<Rightarrow> accounts \<Rightarrow> accounts" where
  "setAccountBalance address value m = mput (accountKeyForWrite m address) value m"

definition addAccountBalance :: "string \<Rightarrow> int \<Rightarrow> accounts \<Rightarrow> accounts" where
  "addAccountBalance address delta m = (let key = accountKeyForWrite m address;
     cur = (case map_of m key of None \<Rightarrow> 0 | Some b \<Rightarrow> b) in mput key (cur + delta) m)"

definition subAccountBalance :: "string \<Rightarrow> int \<Rightarrow> accounts \<Rightarrow> accounts option" where
  "subAccountBalance address delta m = (let key = accountKeyForWrite m address in
     case map_of m key of None \<Rightarrow> None
     | Some bal \<Rightarrow> if bal < delta then None else Some (mput key (bal - delta) m))"

definition accountMatch :: "string \<Rightarrow> string \<Rightarrow> bool" where
  "accountMatch address key \<longleftrightarrow> (let normalized = normalizeAccountAddress address in
     key = address \<or> key = normalized \<or> equal_fold key address \<or>
     equal_fold (normalizeAccountAddress key) normalized)"

definition AccountBalanceAmount :: "accounts \<Rightarrow> string \<Rightarrow> int" where
  "AccountBalanceAmount m address0 = (let address = trim_space address0 in
     if address = [] then 0
     else vsum (\<lambda>b. b) (filter (\<lambda>(key, _). accountMatch address key) m))"

section \<open>The interface of value-moving modules\<close>

locale money =
  fixes inv :: "'s \<Rightarrow> bool" and tot_of :: "'s \<Rightarrow> int" and balance :: "'s \<Rightarrow> 'a \<Rightarrow> int"
    and credit :: "'a \<Rightarrow> int \<Rightarrow> 's \<Rightarrow> 's" and debit :: "'a \<Rightarrow> int \<Rightarrow> 's \<Rightarrow> 's option"
    and same :: "'a \<Rightarrow> 'a \<Rightarrow> bool"
  assumes credit_inv: "inv s \<Longrightarrow> inv (credit a d s)"
    and credit_supply: "inv s \<Longrightarrow> tot_of (credit a d s) = tot_of s + d"
    and credit_balance: "inv s \<Longrightarrow> balance (credit a d s) b = balance s b + (if same a b then d else 0)"
    and debit_inv: "inv s \<Longrightarrow> debit a d s = Some s' \<Longrightarrow> inv s'"
    and debit_supply: "inv s \<Longrightarrow> debit a d s = Some s' \<Longrightarrow> tot_of s' = tot_of s - d"
    and debit_balance: "inv s \<Longrightarrow> debit a d s = Some s' \<Longrightarrow>
      balance s' b = balance s b - (if same a b then d else 0)"
begin

text \<open>A debit followed by a credit of the same amount.\<close>

lemma transfer_supply:
  assumes "inv s" "debit a d s = Some s'"
  shows "tot_of (credit b d s') = tot_of s" "inv (credit b d s')"
  using assms debit_inv debit_supply credit_inv credit_supply by force+

lemma transfer_balance:
  assumes "inv s" "debit a d s = Some s'"
  shows "balance (credit b d s') c = balance s c - (if same a c then d else 0) + (if same b c then d else 0)"
  using credit_balance [OF debit_inv [OF assms]] debit_balance [OF assms] by simp

lemma two_credits_supply: "inv s \<Longrightarrow> tot_of (credit b e (credit a d s)) = tot_of s + d + e"
  by (simp add: credit_supply credit_inv)

end

section \<open>The laws on \<open>Accounts\<close>\<close>

lemma equal_fold_trim: "equal_fold x y \<Longrightarrow> equal_fold (trim_space x) (trim_space y)"
  by (simp add: equal_fold_def flip: trim_to_lower)

lemma normalize_fold: "equal_fold (normalizeAccountAddress x) y = equal_fold (trim_space x) y"
  "equal_fold y (normalizeAccountAddress x) = equal_fold y (trim_space x)"
  by (simp_all add: normalizeAccountAddress_def equal_fold_def Let_def)

text \<open>All four disjuncts of the balance query say one thing.\<close>

lemma accountMatch_iff: "accountMatch (trim_space a) k \<longleftrightarrow> equal_fold (trim_space k) (trim_space a)"
proof -
  have "k = normalizeAccountAddress (trim_space a) \<Longrightarrow> equal_fold k (trim_space a)"
    using normalize_fold(1) [of "trim_space a" "trim_space a"] by simp
  then show ?thesis
    unfolding accountMatch_def Let_def normalize_fold
    using equal_fold_trim [of k "trim_space a"] by auto
qed

lemma find_fold: "find (\<lambda>key. equal_fold key a) ks = Some k \<Longrightarrow> equal_fold k a"
  by (simp add: find_Some_iff) blast

lemma accountKeyForWrite_fold: "equal_fold (trim_space (accountKeyForWrite m a)) (trim_space a)"
proof (cases "map_of m a")
  case None
  show ?thesis
  proof (cases "find (\<lambda>key. equal_fold key a) (keys_of m)")
    case (Some k)
    with None equal_fold_trim [OF find_fold [OF Some]] show ?thesis by (simp add: accountKeyForWrite_def)
  next
    case f: None
    have "trim_space (normalizeAccountAddress a) = normalizeAccountAddress a"
      by (simp add: normalizeAccountAddress_def Let_def trim_to_lower)
    with None f show ?thesis by (simp add: accountKeyForWrite_def normalize_fold)
  qed
qed (simp add: accountKeyForWrite_def)

definition same_account :: "string \<Rightarrow> string \<Rightarrow> bool" where
  "same_account a b \<longleftrightarrow> equal_fold (trim_space a) (trim_space b) \<and> trim_space b \<noteq> []"

lemma filter_mput_in:
  assumes "P k" "wf_map m"
  shows "vsum f (filter (\<lambda>(k, _). P k) (mput k v m)) =
    vsum f (filter (\<lambda>(k, _). P k) m) + f v - (case map_of m k of None \<Rightarrow> 0 | Some w \<Rightarrow> (f w :: int))"
  using assms(2) by (induction m) (auto simp: assms(1) map_of_eq_None_iff split: option.splits)

lemma filter_mput_out: "\<not> P k \<Longrightarrow> filter (\<lambda>(k, _). P k) (mput k v m) = filter (\<lambda>(k, _). P k) m"
  by (induction m) auto

lemma AccountBalance_mput:
  assumes "wf_map m" "equal_fold (trim_space k) (trim_space a)"
  shows "AccountBalanceAmount (mput k v m) b = AccountBalanceAmount m b +
    (if same_account a b then v - (case map_of m k of None \<Rightarrow> 0 | Some w \<Rightarrow> w) else 0)"
proof (cases "trim_space b = []")
  case False
  have "accountMatch (trim_space b) k \<longleftrightarrow> same_account a b"
    unfolding accountMatch_iff same_account_def using assms(2) False
    by (metis equal_fold_sym equal_fold_trans)
  with False assms(1) show ?thesis
    using filter_mput_in [of "accountMatch (trim_space b)" k m "\<lambda>b. b" v]
      filter_mput_out [of "accountMatch (trim_space b)" k v m]
    by (simp add: AccountBalanceAmount_def)
qed (simp add: AccountBalanceAmount_def same_account_def)

lemma subAccountBalance_Some:
  assumes "subAccountBalance a d m = Some m'"
  obtains bal where "map_of m (accountKeyForWrite m a) = Some bal" "d \<le> bal"
    "m' = mput (accountKeyForWrite m a) (bal - d) m"
  using assms by (auto simp: subAccountBalance_def Let_def split: option.splits if_splits)

interpretation acc: money "\<lambda>m :: accounts. wf_map m" "vsum (\<lambda>b. b)" AccountBalanceAmount
  addAccountBalance subAccountBalance same_account
proof
  fix s s' :: accounts and a b :: string and d :: int
  assume wf: "wf_map s"
  let ?k = "accountKeyForWrite s a"
  show "wf_map (addAccountBalance a d s)" using wf by (simp add: addAccountBalance_def Let_def wf_mput)
  show "vsum (\<lambda>b. b) (addAccountBalance a d s) = vsum (\<lambda>b. b) s + d"
    using wf vsum_mput_old [of s ?k _ "\<lambda>b. b"] vsum_mput_new [of s ?k "\<lambda>b. b"]
    by (auto simp: addAccountBalance_def Let_def split: option.splits)
  show "AccountBalanceAmount (addAccountBalance a d s) b =
      AccountBalanceAmount s b + (if same_account a b then d else 0)"
    using AccountBalance_mput [OF wf accountKeyForWrite_fold]
    by (simp add: addAccountBalance_def Let_def split: option.splits)
  assume sub: "subAccountBalance a d s = Some s'"
  then obtain bal where s': "map_of s ?k = Some bal" "s' = mput ?k (bal - d) s" by (rule subAccountBalance_Some)
  show "wf_map s'" using wf by (simp add: s'(2) wf_mput)
  show "vsum (\<lambda>b. b) s' = vsum (\<lambda>b. b) s - d"
    using wf s' vsum_mput_old [of s ?k bal "\<lambda>b. b"] by simp
  show "AccountBalanceAmount s' b = AccountBalanceAmount s b - (if same_account a b then d else 0)"
    using AccountBalance_mput [OF wf accountKeyForWrite_fold, of s a "bal - d" b] s' by simp
qed

text \<open>No balance becomes negative by moving value.\<close>

definition nonneg_accounts :: "accounts \<Rightarrow> bool" where
  "nonneg_accounts m \<longleftrightarrow> (\<forall>k b. map_of m k = Some b \<longrightarrow> 0 \<le> b)"

lemma nonneg_add: "nonneg_accounts m \<Longrightarrow> 0 \<le> d \<Longrightarrow> nonneg_accounts (addAccountBalance a d m)"
  by (auto simp: nonneg_accounts_def addAccountBalance_def Let_def split: option.splits)

lemma nonneg_sub: "nonneg_accounts m \<Longrightarrow> subAccountBalance a d m = Some m' \<Longrightarrow> nonneg_accounts m'"
  by (elim subAccountBalance_Some) (auto simp: nonneg_accounts_def)

text \<open>C7: Native transfers. A debit that succeeds followed by the credit of the same amount keeps the total
  of all balances, never makes a balance negative, and changes the reported balance of exactly
  the two accounts, however the addresses are spelled in case and outer white space.\<close>

theorem transfer_conserves:
  assumes "wf_map m" "nonneg_accounts m" "0 \<le> d" "subAccountBalance a d m = Some m1"
  shows "let m2 = addAccountBalance b d m1 in
    vsum (\<lambda>x. x) m2 = vsum (\<lambda>x. x) m \<and> wf_map m2 \<and> nonneg_accounts m2 \<and>
    (\<forall>c. AccountBalanceAmount m2 c = AccountBalanceAmount m c -
       (if same_account a c then d else 0) + (if same_account b c then d else 0))"
  using acc.transfer_supply [OF assms(1,4)] acc.transfer_balance [OF assms(1,4)]
    nonneg_add [OF nonneg_sub [OF assms(2,4)] assms(3)]
  unfolding Let_def by blast

lemma transfer_conserves_witness:
  "\<exists>m1. subAccountBalance ''alice'' 30 [(''alice'', 100), (''bob'', 5)] = Some m1 \<and>
     AccountBalanceAmount (addAccountBalance '' BOB'' 30 m1) ''bob'' = 35"
proof -
  let ?m = "[(''alice'', 100 :: int), (''bob'', 5)]"
  obtain m1 where s: "subAccountBalance ''alice'' 30 ?m = Some m1"
    by (simp add: subAccountBalance_def accountKeyForWrite_def)
  have ok: "wf_map ?m" "nonneg_accounts ?m" by (simp_all add: nonneg_accounts_def)
  have "same_account '' BOB'' ''bob''" "\<not> same_account ''alice'' ''bob''" "AccountBalanceAmount ?m ''bob'' = 5"
    by code_simp+
  with transfer_conserves [OF ok _ s, of "'' BOB''"] s show ?thesis by (simp add: Let_def)
qed

end
