(* ===== verification/Economics.thy ===== *)
theory Economics
  imports Ledger Crypto
begin

text \<open>
  The revenue waterfall (\<open>economic_policy.go\<close>) and the custody operations on it
  (\<open>economic_operations.go\<close>): capture, buyback burn and treasury deployment. A revenue entry
  keeps its allocations as decimal strings, like the source. \<open>time.Now\<close> is the argument \<open>now\<close>;
  saving to disk is not modelled. A nil dereference is the outcome \<open>EPanic\<close>.
\<close>

section \<open>Data\<close>

definition EconomicInsurance :: string where "EconomicInsurance = ''insurance_reserve''"
definition EconomicLPYield :: string where "EconomicLPYield = ''lp_real_yield''"
definition EconomicOperations :: string where "EconomicOperations = ''operations''"
definition EconomicBuyback :: string where "EconomicBuyback = ''verified_surplus_buyback''"

definition ProtocolRevenueEscrowAddress :: string where
  "ProtocolRevenueEscrowAddress = ''0x0000000000000000000000000000000000000e01''"
definition ProtocolBurnAddress :: string where
  "ProtocolBurnAddress = ''0x000000000000000000000000000000000000dead''"

record EconomicPolicy =
  ep_InsuranceBPS :: int
  ep_LPYieldBPS :: int
  ep_OperationsBPS :: int
  ep_BuybackBPS :: int
  ep_MinInsuranceBalance :: string
  ep_BuybackEnabled :: bool
  ep_IssuanceCap :: string
  ep_TreasuryDeployCapBPS :: int
  ep_LQDExposureCapBPS :: int

record ProtocolRevenueEntry =
  re_ID :: string
  re_Source :: string
  re_Amount :: int
  re_Timestamp :: int
  re_Reference :: string
  re_Allocations :: "(string, string) gomap"

record TreasuryDeployment =
  td_ID :: string
  td_Target :: string
  td_Amount :: int
  td_GovernanceID :: string
  td_PurposeHash :: string
  td_Timestamp :: int
  td_ProtocolOnly :: bool

record RewardLedgerEntry =
  rl_ID :: string
  rl_Timestamp :: int
  rl_Address :: string
  rl_Bucket :: string
  rl_Source :: string
  rl_Amount :: string
  rl_Status :: string
  rl_BalanceAfter :: string

record econ_state =
  es_Accounts :: accounts
  es_Policy :: EconomicPolicy
  es_Balances :: "(string, int) gomap"
  es_Revenue :: "ProtocolRevenueEntry list"
  es_Deployments :: "TreasuryDeployment list"
  es_TotalBurned :: int
  es_RewardLedger :: "RewardLedgerEntry list"

datatype 'a econ_outcome = EOk 'a | EErr string | EPanic

definition DefaultEconomicPolicy :: EconomicPolicy where
  "DefaultEconomicPolicy = \<lparr>ep_InsuranceBPS = 2500, ep_LPYieldBPS = 4500, ep_OperationsBPS = 2000,
     ep_BuybackBPS = 1000, ep_MinInsuranceBalance = ''0'', ep_BuybackEnabled = False,
     ep_IssuanceCap = ''100000000000000000'', ep_TreasuryDeployCapBPS = 2000, ep_LQDExposureCapBPS = 3000\<rparr>"

text \<open>The \<open>int64\<close> sum of the four shares wraps.\<close>

definition Validate :: "EconomicPolicy \<Rightarrow> string option" where
  "Validate p =
     (if ep_InsuranceBPS p < 0 \<or> ep_LPYieldBPS p < 0 \<or> ep_OperationsBPS p < 0 \<or> ep_BuybackBPS p < 0 \<or>
         i64 (i64 (i64 (ep_InsuranceBPS p + ep_LPYieldBPS p) + ep_OperationsBPS p) + ep_BuybackBPS p) \<noteq> 10000
      then Some ''economic waterfall must total 10000 bps''
      else if parse_int10 (trim_space (ep_MinInsuranceBalance p)) = None
      then Some ''invalid minimum insurance balance''
      else case parse_int10 (trim_space (ep_IssuanceCap p)) of
        None \<Rightarrow> Some ''invalid issuance, treasury deployment or LQD exposure cap''
      | Some issuanceCap \<Rightarrow>
          if issuanceCap \<le> 0 \<or> ep_TreasuryDeployCapBPS p < 0 \<or> 5000 < ep_TreasuryDeployCapBPS p \<or>
             ep_LQDExposureCapBPS p < 500 \<or> 10000 < ep_LQDExposureCapBPS p
          then Some ''invalid issuance, treasury deployment or LQD exposure cap'' else None)"

text \<open>The repairs that \<open>EnsureRuntimeState\<close> makes to the policy.\<close>

definition ensurePolicy :: "econ_state \<Rightarrow> econ_state" where
  "ensurePolicy s = (let p = (if ep_InsuranceBPS (es_Policy s) = 0 then DefaultEconomicPolicy else es_Policy s);
     p1 = (if ep_IssuanceCap p = [] then p\<lparr>ep_IssuanceCap := ep_IssuanceCap DefaultEconomicPolicy\<rparr> else p);
     p2 = (if ep_TreasuryDeployCapBPS p1 = 0
           then p1\<lparr>ep_TreasuryDeployCapBPS := ep_TreasuryDeployCapBPS DefaultEconomicPolicy\<rparr> else p1);
     p3 = (if ep_LQDExposureCapBPS p2 = 0
           then p2\<lparr>ep_LQDExposureCapBPS := ep_LQDExposureCapBPS DefaultEconomicPolicy\<rparr> else p2)
     in s\<lparr>es_Policy := p3\<rparr>)"

section \<open>The waterfall\<close>

definition revenueID :: "crypto \<Rightarrow> string \<Rightarrow> string \<Rightarrow> int \<Rightarrow> string" where
  "revenueID C source reference amount = ''rev_'' @ hex_encode (take 12 (sha256 C
     (to_lower source @ ''|'' @ trim_space reference @ ''|'' @ int_str amount)))"

definition economicBalance :: "econ_state \<Rightarrow> string \<Rightarrow> int" where
  "economicBalance s key = (case map_of (es_Balances s) key of None \<Rightarrow> 0 | Some b \<Rightarrow> b)"

definition addEconomic :: "string \<Rightarrow> int \<Rightarrow> econ_state \<Rightarrow> econ_state" where
  "addEconomic key d s = s\<lparr>es_Balances := mput key (economicBalance s key + d) (es_Balances s)\<rparr>"

text \<open>The four shares: insurance, LP yield, operations and what is left for the buyback.\<close>

definition shares :: "EconomicPolicy \<Rightarrow> string \<Rightarrow> int \<Rightarrow> int \<times> int \<times> int \<times> int" where
  "shares p source amount =
     (let insurance = big_div (amount * ep_InsuranceBPS p) 10000;
          lpYield = big_div (amount * ep_LPYieldBPS p) 10000;
          operations = big_div (amount * ep_OperationsBPS p) 10000;
          (ins, lp, ops) = (if source = ''slashing'' then (amount, 0, 0) else (insurance, lpYield, operations))
      in (ins, lp, ops, amount - (ins + lp + ops)))"

text \<open>Whether the buyback share goes to insurance; \<open>None\<close> is a comparison with a nil integer.\<close>

definition buybackToInsurance :: "econ_state \<Rightarrow> bool option" where
  "buybackToInsurance s =
     (if \<not> ep_BuybackEnabled (es_Policy s) then Some True
      else case parse_int10 (ep_MinInsuranceBalance (es_Policy s)) of
        None \<Rightarrow> None
      | Some m \<Rightarrow> Some (economicBalance s EconomicInsurance < m))"

definition allocate :: "econ_state \<Rightarrow> string \<Rightarrow> int \<Rightarrow> (string, int) gomap option" where
  "allocate s source amount = (case buybackToInsurance s of None \<Rightarrow> None
     | Some divert \<Rightarrow> let (ins, lp, ops, buyback) = shares (es_Policy s) source amount in
         Some [(EconomicInsurance, if divert then ins + buyback else ins), (EconomicLPYield, lp),
               (EconomicOperations, ops), (EconomicBuyback, if divert then 0 else buyback)])"

definition keepLast :: "nat \<Rightarrow> 'a list \<Rightarrow> 'a list" where
  "keepLast n xs = (if n < length xs then drop (length xs - n) xs else xs)"

definition recordProtocolRevenueConsensus ::
  "crypto \<Rightarrow> string \<Rightarrow> int \<Rightarrow> string \<Rightarrow> int \<Rightarrow> econ_state \<Rightarrow> econ_state \<times> ProtocolRevenueEntry econ_outcome" where
  "recordProtocolRevenueConsensus C source amount reference timestamp s =
     (let id = revenueID C source reference amount in
      case find (\<lambda>e. re_ID e = id) (es_Revenue s) of
        Some existing \<Rightarrow> (s, EOk existing)
      | None \<Rightarrow>
          (case allocate s source amount of
             None \<Rightarrow> (s, EPanic)
           | Some alloc \<Rightarrow>
               let entry = \<lparr>re_ID = id, re_Source = source, re_Amount = amount, re_Timestamp = timestamp,
                     re_Reference = reference, re_Allocations = map (\<lambda>(b, v). (b, int_str v)) alloc\<rparr>;
                   s1 = fold (\<lambda>(b, v). addEconomic b v) alloc s in
               (s1\<lparr>es_Revenue := keepLast 100000 (es_Revenue s1 @ [entry])\<rparr>, EOk entry)))"

definition allowedSources :: "string list" where
  "allowedSources = [''trading_fee'', ''protocol_arb'', ''b2b_liquidity'', ''lending_interest'', ''bridge_fee'', ''slashing'']"

definition RecordProtocolRevenue ::
  "crypto \<Rightarrow> int \<Rightarrow> string \<Rightarrow> int \<Rightarrow> string \<Rightarrow> int \<Rightarrow> econ_state \<Rightarrow> econ_state \<times> ProtocolRevenueEntry econ_outcome" where
  "RecordProtocolRevenue C now source amount reference timestamp s =
     (if amount \<le> 0 then (s, EErr ''positive realized revenue is required'') else
      let src = to_lower (trim_space source) in
      if src \<notin> set allowedSources then (s, EErr ''unsupported realized revenue source'') else
      recordProtocolRevenueConsensus C src amount reference (if timestamp \<le> 0 then now else timestamp) (ensurePolicy s))"

section \<open>Custody\<close>


definition RealizedRevenueAPYBPS :: "int \<Rightarrow> int \<Rightarrow> int \<Rightarrow> int \<Rightarrow> econ_state \<Rightarrow> int" where
  "RealizedRevenueAPYBPS clock vaultNAV windowDays now0 s =
     (if vaultNAV \<le> 0 \<or> windowDays \<le> 0 then 0 else
      let now = (if now0 \<le> 0 then clock else now0);
          cutoff = i64 (now - i64 (windowDays * 86400));
          alloc = (\<lambda>e. case map_of (re_Allocations e) EconomicLPYield of None \<Rightarrow> 0
                     | Some t \<Rightarrow> NewAmountFromStringOrZero t);
          revenue = sum_list (map alloc (filter (\<lambda>e. \<not> re_Timestamp e < cutoff) (es_Revenue s)));
          annualized = big_div (big_div (revenue * 36500) windowDays) vaultNAV in
      if is_i64 annualized then annualized else 0)"

definition ExecuteVerifiedBuybackBurn ::
  "int \<Rightarrow> int \<Rightarrow> string \<Rightarrow> econ_state \<Rightarrow> econ_state \<times> unit econ_outcome" where
  "ExecuteVerifiedBuybackBurn now amount reference s0 =
     (if amount \<le> 0 \<or> trim_space reference = [] then (s0, EErr ''positive burn and public reference required'') else
      let s = ensurePolicy s0 in
      if \<not> ep_BuybackEnabled (es_Policy s) \<or> economicBalance s EconomicBuyback < amount
      then (s, EErr ''guarded buyback bucket is not executable'') else
      if economicBalance s EconomicInsurance < NewAmountFromStringOrZero (ep_MinInsuranceBalance (es_Policy s))
      then (s, EErr ''insurance floor is not met'') else
      case subAccountBalance ProtocolRevenueEscrowAddress amount (es_Accounts s) of
        None \<Rightarrow> (s, EErr ''custodied revenue escrow is insufficient'')
      | Some accts \<Rightarrow>
          let s1 = addEconomic EconomicBuyback (- amount) (s\<lparr>es_Accounts := addAccountBalance ProtocolBurnAddress amount accts\<rparr>) in
          (s1\<lparr>es_TotalBurned := es_TotalBurned s1 + amount,
             es_RewardLedger := es_RewardLedger s1 @ [\<lparr>rl_ID = ''burn:'' @ reference, rl_Timestamp = now,
               rl_Address = ProtocolBurnAddress, rl_Bucket = ''buyback_burn'', rl_Source = ''verified_surplus'',
               rl_Amount = int_str amount, rl_Status = ''burned'',
               rl_BalanceAfter = int_str (AccountBalanceAmount (es_Accounts s1) ProtocolBurnAddress)\<rparr>]\<rparr>, EOk ()))"

text \<open>\<open>status\<close> gives the status of a governance proposal, \<open>None\<close> when there is none.\<close>

definition DeployProtocolCapital ::
  "crypto \<Rightarrow> (string \<Rightarrow> string option) \<Rightarrow> int \<Rightarrow> string \<Rightarrow> int \<Rightarrow> string \<Rightarrow> string \<Rightarrow> econ_state \<Rightarrow>
     econ_state \<times> TreasuryDeployment econ_outcome" where
  "DeployProtocolCapital C status now target amount governanceID purposeHash s0 =
     (if \<not> ValidateAddress target \<or> amount \<le> 0 \<or> trim_space purposeHash = [] then (s0, EErr ''invalid deployment'') else
      let s = ensurePolicy s0 in
      if status governanceID \<noteq> Some ''executed'' then (s, EErr ''executed governance approval required'') else
      let operations = economicBalance s EconomicOperations;
          deployCap = big_div (operations * ep_TreasuryDeployCapBPS (es_Policy s)) 10000 in
      if deployCap < amount \<or> operations < amount then (s, EErr ''treasury deployment cap or custody balance exceeded'') else
      case subAccountBalance ProtocolRevenueEscrowAddress amount (es_Accounts s) of
        None \<Rightarrow> (s, EErr ''treasury deployment cap or custody balance exceeded'')
      | Some accts \<Rightarrow>
          let s1 = addEconomic EconomicOperations (- amount) (s\<lparr>es_Accounts := addAccountBalance target amount accts\<rparr>);
              row = \<lparr>td_ID = ''deploy_'' @ hex_encode (take 12 (sha256 C (to_lower target @ ''|'' @ int_str amount @ ''|'' @
                       governanceID @ ''|'' @ purposeHash))), td_Target = to_lower target, td_Amount = amount,
                     td_GovernanceID = governanceID, td_PurposeHash = purposeHash, td_Timestamp = now, td_ProtocolOnly = True\<rparr> in
          (s1\<lparr>es_Deployments := es_Deployments s1 @ [row]\<rparr>, EOk row))"

section \<open>Lemmas\<close>

lemma buckets_distinct [simp]:
  "EconomicInsurance \<noteq> EconomicLPYield" "EconomicLPYield \<noteq> EconomicInsurance"
  "EconomicInsurance \<noteq> EconomicOperations" "EconomicOperations \<noteq> EconomicInsurance"
  "EconomicInsurance \<noteq> EconomicBuyback" "EconomicBuyback \<noteq> EconomicInsurance"
  "EconomicLPYield \<noteq> EconomicOperations" "EconomicOperations \<noteq> EconomicLPYield"
  "EconomicLPYield \<noteq> EconomicBuyback" "EconomicBuyback \<noteq> EconomicLPYield"
  "EconomicOperations \<noteq> EconomicBuyback" "EconomicBuyback \<noteq> EconomicOperations"
  by (simp_all add: EconomicInsurance_def EconomicLPYield_def EconomicOperations_def EconomicBuyback_def)

lemma economicBalance_add [simp]:
  "economicBalance (addEconomic k d s) b = economicBalance s b + (if b = k then d else 0)"
  by (simp add: economicBalance_def addEconomic_def)

lemma economicBalance_cong: "es_Balances s = es_Balances s' \<Longrightarrow> economicBalance s b = economicBalance s' b"
  by (simp add: economicBalance_def)

lemma addEconomic_fields [simp]:
  "es_Accounts (addEconomic k d s) = es_Accounts s" "es_Policy (addEconomic k d s) = es_Policy s"
  "es_Revenue (addEconomic k d s) = es_Revenue s" "es_Deployments (addEconomic k d s) = es_Deployments s"
  "es_TotalBurned (addEconomic k d s) = es_TotalBurned s"
  by (simp_all add: addEconomic_def)

lemma economicBalance_upd [simp]:
  "economicBalance (s\<lparr>es_Revenue := r\<rparr>) b = economicBalance s b"
  "economicBalance (s\<lparr>es_Accounts := a\<rparr>) b = economicBalance s b"
  "economicBalance (s\<lparr>es_Deployments := d\<rparr>) b = economicBalance s b"
  "economicBalance (s\<lparr>es_TotalBurned := n\<rparr>) b = economicBalance s b"
  "economicBalance (s\<lparr>es_RewardLedger := l\<rparr>) b = economicBalance s b"
  by (simp_all add: economicBalance_def)

lemma ensurePolicy_fields [simp]:
  "es_Accounts (ensurePolicy s) = es_Accounts s" "es_Revenue (ensurePolicy s) = es_Revenue s"
  "economicBalance (ensurePolicy s) b = economicBalance s b" "es_TotalBurned (ensurePolicy s) = es_TotalBurned s"
  by (simp_all add: ensurePolicy_def Let_def economicBalance_def)

lemma ensurePolicy_idem [simp]: "ensurePolicy (ensurePolicy s) = ensurePolicy s"
  by (simp add: ensurePolicy_def Let_def DefaultEconomicPolicy_def)



lemma shares_sum: "shares p src a = (i, l, ops, b) \<Longrightarrow> i + l + ops + b = a"
  by (auto simp: shares_def Let_def split: if_splits)

text \<open>A policy whose shares are percentages.\<close>

definition sane_policy :: "EconomicPolicy \<Rightarrow> bool" where
  "sane_policy p \<longleftrightarrow> 0 \<le> ep_InsuranceBPS p \<and> 0 \<le> ep_LPYieldBPS p \<and> 0 \<le> ep_OperationsBPS p \<and> 0 \<le> ep_BuybackBPS p \<and>
     ep_InsuranceBPS p + ep_LPYieldBPS p + ep_OperationsBPS p + ep_BuybackBPS p = 10000"

lemma three_shares_le:
  assumes "sane_policy p" "0 \<le> a"
  shows "a * ep_InsuranceBPS p div 10000 + a * ep_LPYieldBPS p div 10000 + a * ep_OperationsBPS p div 10000 \<le> a"
proof -
  let ?x = "a * ep_InsuranceBPS p" and ?y = "a * ep_LPYieldBPS p" and ?z = "a * ep_OperationsBPS p"
  have "?x + ?y + ?z \<le> a * 10000"
    using assms mult_left_mono [of "ep_InsuranceBPS p + ep_LPYieldBPS p + ep_OperationsBPS p" 10000 a]
    by (simp add: sane_policy_def algebra_simps)
  moreover have "?x div 10000 * 10000 \<le> ?x" "?y div 10000 * 10000 \<le> ?y" "?z div 10000 * 10000 \<le> ?z"
    by (simp_all add: div_mult_le_self)
  ultimately show ?thesis by linarith
qed

lemma shares_nonneg:
  assumes "sane_policy p" "0 \<le> a" "shares p src a = (i, l, ops, b)"
  shows "0 \<le> i" "0 \<le> l" "0 \<le> ops" "0 \<le> b"
  using assms three_shares_le [OF assms(1,2)]
  by (auto simp: shares_def Let_def sane_policy_def bps_nonneg split: if_splits)

text \<open>A fresh entry: the state and the entry it returns.\<close>

lemma record_fresh:
  assumes "recordProtocolRevenueConsensus C src a ref ts s = (s', EOk e)"
    and "find (\<lambda>e. re_ID e = revenueID C src ref a) (es_Revenue s) = None"
  obtains i l ops b divert where "shares (es_Policy s) src a = (i, l, ops, b)" "buybackToInsurance s = Some divert"
    "economicBalance s' EconomicInsurance = economicBalance s EconomicInsurance + (if divert then i + b else i)"
    "economicBalance s' EconomicLPYield = economicBalance s EconomicLPYield + l"
    "economicBalance s' EconomicOperations = economicBalance s EconomicOperations + ops"
    "economicBalance s' EconomicBuyback = economicBalance s EconomicBuyback + (if divert then 0 else b)"
    "es_Accounts s' = es_Accounts s" "es_Policy s' = es_Policy s" "es_Revenue s' = keepLast 100000 (es_Revenue s @ [e])"
    "re_ID e = revenueID C src ref a" "re_Amount e = a"
    "re_Allocations e = [(EconomicInsurance, int_str (if divert then i + b else i)), (EconomicLPYield, int_str l),
       (EconomicOperations, int_str ops), (EconomicBuyback, int_str (if divert then 0 else b))]"
    "\<And>k. k \<notin> {EconomicInsurance, EconomicLPYield, EconomicOperations, EconomicBuyback} \<Longrightarrow>
       economicBalance s' k = economicBalance s k"
proof -
  obtain i l ops b where sh: "shares (es_Policy s) src a = (i, l, ops, b)" by (cases "shares (es_Policy s) src a")
  from assms obtain divert where d: "buybackToInsurance s = Some divert"
    by (cases "buybackToInsurance s") (simp_all add: recordProtocolRevenueConsensus_def allocate_def Let_def)
  show thesis
    by (rule that [OF sh d]; use assms sh d in \<open>cases divert;
      auto simp: recordProtocolRevenueConsensus_def allocate_def Let_def\<close>)
qed




section \<open>Properties\<close>

text \<open>C8: The waterfall loses and invents nothing. Recording fresh revenue raises the four buckets
  by exactly the recorded amount in total, each by what the entry says, touches no other bucket
  and no account; with percentages that sum to 10000 no bucket shrinks, slashing proceeds all
  go to insurance, and a disabled buyback receives nothing.\<close>

theorem waterfall_conserves:
  assumes "recordProtocolRevenueConsensus C src a ref ts s = (s', EOk e)"
    and "find (\<lambda>e. re_ID e = revenueID C src ref a) (es_Revenue s) = None" "0 < a"
  shows "let v = (\<lambda>b. economicBalance s' b - economicBalance s b) in
    v EconomicInsurance + v EconomicLPYield + v EconomicOperations + v EconomicBuyback = a \<and>
    (\<forall>b \<in> {EconomicInsurance, EconomicLPYield, EconomicOperations, EconomicBuyback}.
       map_of (re_Allocations e) b = Some (int_str (v b)) \<and> (sane_policy (es_Policy s) \<longrightarrow> 0 \<le> v b)) \<and>
    (\<forall>b. b \<notin> {EconomicInsurance, EconomicLPYield, EconomicOperations, EconomicBuyback} \<longrightarrow> v b = 0) \<and>
    (src = ''slashing'' \<longrightarrow> v EconomicInsurance = a) \<and>
    (\<not> ep_BuybackEnabled (es_Policy s) \<longrightarrow> v EconomicBuyback = 0) \<and> es_Accounts s' = es_Accounts s"
proof -
  obtain i l ops b divert where sh: "shares (es_Policy s) src a = (i, l, ops, b)"
    and d: "buybackToInsurance s = Some divert" and r: "economicBalance s' EconomicInsurance = economicBalance s EconomicInsurance + (if divert then i + b else i)"
    "economicBalance s' EconomicLPYield = economicBalance s EconomicLPYield + l"
    "economicBalance s' EconomicOperations = economicBalance s EconomicOperations + ops"
    "economicBalance s' EconomicBuyback = economicBalance s EconomicBuyback + (if divert then 0 else b)"
    "es_Accounts s' = es_Accounts s"
    "re_Allocations e = [(EconomicInsurance, int_str (if divert then i + b else i)), (EconomicLPYield, int_str l),
       (EconomicOperations, int_str ops), (EconomicBuyback, int_str (if divert then 0 else b))]"
    "\<And>k. k \<notin> {EconomicInsurance, EconomicLPYield, EconomicOperations, EconomicBuyback} \<Longrightarrow>
       economicBalance s' k = economicBalance s k"
    by (rule record_fresh [OF assms(1,2)]) blast
  have nn: "sane_policy (es_Policy s) \<Longrightarrow> 0 \<le> i \<and> 0 \<le> l \<and> 0 \<le> ops \<and> 0 \<le> b"
    using shares_nonneg [OF _ _ sh] assms(3) by simp
  have sl: "src = ''slashing'' \<Longrightarrow> i = a \<and> b = 0" using sh by (simp add: shares_def Let_def)
  have off: "\<not> ep_BuybackEnabled (es_Policy s) \<Longrightarrow> divert" using d by (simp add: buybackToInsurance_def)
  show ?thesis
    using shares_sum [OF sh] nn sl off r by (cases divert) (auto simp: Let_def)
qed

definition demo_econ :: econ_state where
  "demo_econ = \<lparr>es_Accounts = [(''0x00000000000000000000000000000000000000aa'', 1000)], es_Policy = DefaultEconomicPolicy,
     es_Balances = [], es_Revenue = [], es_Deployments = [], es_TotalBurned = 0, es_RewardLedger = []\<rparr>"

definition id_crypto :: crypto where
  "id_crypto = \<lparr>sha256 = (\<lambda>s. s), recover = (\<lambda>_ _. None)\<rparr>"

lemma waterfall_conserves_witness:
  "\<exists>s' e. recordProtocolRevenueConsensus id_crypto ''trading_fee'' 1001 ''tx'' 5 demo_econ = (s', EOk e) \<and>
     economicBalance s' EconomicInsurance + economicBalance s' EconomicLPYield + economicBalance s' EconomicOperations +
     economicBalance s' EconomicBuyback = 1001"
proof -
  obtain s' e where r: "recordProtocolRevenueConsensus id_crypto ''trading_fee'' 1001 ''tx'' 5 demo_econ = (s', EOk e)"
    by (simp add: recordProtocolRevenueConsensus_def demo_econ_def allocate_def buybackToInsurance_def
      DefaultEconomicPolicy_def Let_def shares_def)
  have f: "find (\<lambda>e. re_ID e = revenueID id_crypto ''trading_fee'' ''tx'' 1001) (es_Revenue demo_econ) = None"
    by (simp add: demo_econ_def)
  have z: "economicBalance demo_econ b = 0" for b by (simp add: economicBalance_def demo_econ_def)
  from waterfall_conserves [OF r f] r show ?thesis by (simp add: Let_def z)
qed








text \<open>Policy validation. A validated policy whose shares are at most 10000 each splits every amount
  into percentages; but the four shares are added in \<open>int64\<close>, so there is a policy of four
  huge shares that validates and assigns a quarter of \<open>2^64\<close> basis points to a bucket.\<close>

theorem validate_waterfall:
  "(\<forall>p. Validate p = None \<and> ep_InsuranceBPS p \<le> 10000 \<and> ep_LPYieldBPS p \<le> 10000 \<and> ep_OperationsBPS p \<le> 10000 \<and>
      ep_BuybackBPS p \<le> 10000 \<longrightarrow> sane_policy p) \<and>
   (\<exists>p. Validate p = None \<and> \<not> sane_policy p \<and> is_i64 (ep_InsuranceBPS p) \<and> is_i64 (ep_LPYieldBPS p) \<and>
      is_i64 (ep_OperationsBPS p) \<and> is_i64 (ep_BuybackBPS p) \<and>
      shares p ''trading_fee'' 10000 = (2 ^ 62, 2 ^ 62, 2 ^ 62, 10000 - 3 * 2 ^ 62))"
proof
  show "\<forall>p. Validate p = None \<and> ep_InsuranceBPS p \<le> 10000 \<and> ep_LPYieldBPS p \<le> 10000 \<and> ep_OperationsBPS p \<le> 10000 \<and>
      ep_BuybackBPS p \<le> 10000 \<longrightarrow> sane_policy p"
  proof (intro allI impI)
    fix p
    assume a: "Validate p = None \<and> ep_InsuranceBPS p \<le> 10000 \<and> ep_LPYieldBPS p \<le> 10000 \<and> ep_OperationsBPS p \<le> 10000 \<and>
      ep_BuybackBPS p \<le> 10000"
    then have nn: "0 \<le> ep_InsuranceBPS p" "0 \<le> ep_LPYieldBPS p" "0 \<le> ep_OperationsBPS p" "0 \<le> ep_BuybackBPS p"
      and w: "i64 (i64 (i64 (ep_InsuranceBPS p + ep_LPYieldBPS p) + ep_OperationsBPS p) + ep_BuybackBPS p) = 10000"
      by (auto simp: Validate_def split: if_splits)
    have "i64 (ep_InsuranceBPS p + ep_LPYieldBPS p) = ep_InsuranceBPS p + ep_LPYieldBPS p"
      "i64 (ep_InsuranceBPS p + ep_LPYieldBPS p + ep_OperationsBPS p) = ep_InsuranceBPS p + ep_LPYieldBPS p + ep_OperationsBPS p"
      "i64 (ep_InsuranceBPS p + ep_LPYieldBPS p + ep_OperationsBPS p + ep_BuybackBPS p) =
       ep_InsuranceBPS p + ep_LPYieldBPS p + ep_OperationsBPS p + ep_BuybackBPS p"
      using a nn by (simp_all add: i64_id is_i64_def)
    with nn w show "sane_policy p" by (simp add: sane_policy_def)
  qed
  show "\<exists>p. Validate p = None \<and> \<not> sane_policy p \<and> is_i64 (ep_InsuranceBPS p) \<and> is_i64 (ep_LPYieldBPS p) \<and>
      is_i64 (ep_OperationsBPS p) \<and> is_i64 (ep_BuybackBPS p) \<and>
      shares p ''trading_fee'' 10000 = (2 ^ 62, 2 ^ 62, 2 ^ 62, 10000 - 3 * 2 ^ 62)"
  proof (intro exI conjI)
    let ?q = "DefaultEconomicPolicy\<lparr>ep_InsuranceBPS := 2 ^ 62, ep_LPYieldBPS := 2 ^ 62, ep_OperationsBPS := 2 ^ 62,
      ep_BuybackBPS := 2 ^ 62 + 10000, ep_MinInsuranceBalance := int_str 0, ep_IssuanceCap := int_str 1\<rparr>"
    show "Validate ?q = None" by (simp add: Validate_def DefaultEconomicPolicy_def i64_def)
    show "\<not> sane_policy ?q" by (simp add: sane_policy_def DefaultEconomicPolicy_def)
    show "is_i64 (ep_InsuranceBPS ?q)" "is_i64 (ep_LPYieldBPS ?q)" "is_i64 (ep_OperationsBPS ?q)" "is_i64 (ep_BuybackBPS ?q)"
      by (simp_all add: is_i64_def)
    show "shares ?q ''trading_fee'' 10000 = (2 ^ 62, 2 ^ 62, 2 ^ 62, 10000 - 3 * 2 ^ 62)"
      by (simp add: shares_def)
  qed
qed

lemma validate_waterfall_witness: "sane_policy (DefaultEconomicPolicy\<lparr>ep_IssuanceCap := ''5''\<rparr>)"
proof -
  have "Validate (DefaultEconomicPolicy\<lparr>ep_IssuanceCap := ''5''\<rparr>) = None"
    by (simp add: Validate_def DefaultEconomicPolicy_def i64_def parse_int10_def trim_space_def is_space_def char_digit_def)
  then show ?thesis
    by (intro validate_waterfall [THEN conjunct1, rule_format]) (simp add: DefaultEconomicPolicy_def)
qed

lemma burn_ok:
  assumes "ExecuteVerifiedBuybackBurn now a r s = (s', EOk ())"
  obtains m where "0 < a" "ep_BuybackEnabled (es_Policy (ensurePolicy s))" "a \<le> economicBalance s EconomicBuyback"
    "NewAmountFromStringOrZero (ep_MinInsuranceBalance (es_Policy (ensurePolicy s))) \<le> economicBalance s EconomicInsurance"
    "subAccountBalance ProtocolRevenueEscrowAddress a (es_Accounts s) = Some m"
    "es_Accounts s' = addAccountBalance ProtocolBurnAddress a m" "es_TotalBurned s' = es_TotalBurned s + a"
    "\<And>b. economicBalance s' b = economicBalance s b - (if b = EconomicBuyback then a else 0)"
  using assms by (auto simp: ExecuteVerifiedBuybackBurn_def Let_def not_less split: if_splits option.splits)

lemma deploy_ok:
  assumes "DeployProtocolCapital C st now tgt a gid ph s = (s', EOk row)"
  obtains m where "0 < a" "st gid = Some ''executed''" "a \<le> economicBalance s EconomicOperations"
    "a \<le> economicBalance s EconomicOperations * ep_TreasuryDeployCapBPS (es_Policy (ensurePolicy s)) div 10000"
    "subAccountBalance ProtocolRevenueEscrowAddress a (es_Accounts s) = Some m"
    "es_Accounts s' = addAccountBalance tgt a m" "td_Amount row = a" "td_Target row = to_lower tgt" "td_GovernanceID row = gid"
    "es_Deployments s' = es_Deployments (ensurePolicy s) @ [row]"
    "\<And>b. economicBalance s' b = economicBalance s b - (if b = EconomicOperations then a else 0)"
  using assms by (auto simp: DeployProtocolCapital_def Let_def not_less split: if_splits option.splits)

text \<open>What a payment does to the accounts: the sender's entry covers the amount, which moves to the receiver and nowhere else.\<close>

definition moved_exactly :: "int \<Rightarrow> string \<Rightarrow> string \<Rightarrow> accounts \<Rightarrow> accounts \<Rightarrow> bool" where
  "moved_exactly a sender receiver m m' \<longleftrightarrow>
     (\<exists>b. map_of m (accountKeyForWrite m sender) = Some b \<and> a \<le> b) \<and> vsum (\<lambda>x. x) m' = vsum (\<lambda>x. x) m \<and>
     (\<forall>c. AccountBalanceAmount m' c = AccountBalanceAmount m c -
        (if same_account sender c then a else 0) + (if same_account receiver c then a else 0))"

lemma moved_exactlyI:
  assumes "wf_map m" "subAccountBalance sender a m = Some m1"
  shows "moved_exactly a sender receiver m (addAccountBalance receiver a m1)"
  unfolding moved_exactly_def
proof (intro conjI allI)
  show "\<exists>b. map_of m (accountKeyForWrite m sender) = Some b \<and> a \<le> b"
    by (rule subAccountBalance_Some [OF assms(2)]) blast
qed (rule acc.transfer_supply [OF assms] acc.transfer_balance [OF assms])+

text \<open>C10: Spending needs the approval, the bucket and the custody. A burn that succeeds was enabled by the policy, met the insurance floor
  and was covered by the buyback bucket; a deployment that succeeds was approved by an executed proposal and within both the
  operations bucket and the policy's share of it. Either was covered by the escrow entry, lowers that one bucket by the amount and no
  other, moves exactly this amount from the escrow to the burn address or the target, changes no
  other account, keeps the total of all balances, and is counted as burned or recorded with target, amount and approval.\<close>

theorem spending_is_covered:
  assumes "wf_map (es_Accounts s)"
  shows "(ExecuteVerifiedBuybackBurn now a r s = (s', EOk ()) \<longrightarrow>
      0 < a \<and> a \<le> economicBalance s EconomicBuyback \<and> ep_BuybackEnabled (es_Policy (ensurePolicy s)) \<and>
      NewAmountFromStringOrZero (ep_MinInsuranceBalance (es_Policy (ensurePolicy s))) \<le> economicBalance s EconomicInsurance \<and>
      moved_exactly a ProtocolRevenueEscrowAddress ProtocolBurnAddress (es_Accounts s) (es_Accounts s') \<and> es_TotalBurned s' = es_TotalBurned s + a \<and>
      (\<forall>b. economicBalance s' b = economicBalance s b - (if b = EconomicBuyback then a else 0))) \<and>
    (DeployProtocolCapital C st now tgt a gid ph s = (s', EOk row) \<longrightarrow>
      0 < a \<and> st gid = Some ''executed'' \<and> a \<le> economicBalance s EconomicOperations \<and>
      a \<le> economicBalance s EconomicOperations * ep_TreasuryDeployCapBPS (es_Policy (ensurePolicy s)) div 10000 \<and>
      moved_exactly a ProtocolRevenueEscrowAddress tgt (es_Accounts s) (es_Accounts s') \<and>
      (\<forall>b. economicBalance s' b = economicBalance s b - (if b = EconomicOperations then a else 0)) \<and>
      es_Deployments s' = es_Deployments s @ [row] \<and> td_Amount row = a \<and> td_Target row = to_lower tgt \<and> td_GovernanceID row = gid)"
proof (intro conjI impI)
  assume "ExecuteVerifiedBuybackBurn now a r s = (s', EOk ())"
  then show "0 < a" "a \<le> economicBalance s EconomicBuyback" "ep_BuybackEnabled (es_Policy (ensurePolicy s))"
    "NewAmountFromStringOrZero (ep_MinInsuranceBalance (es_Policy (ensurePolicy s))) \<le> economicBalance s EconomicInsurance"
    "moved_exactly a ProtocolRevenueEscrowAddress ProtocolBurnAddress (es_Accounts s) (es_Accounts s')" "es_TotalBurned s' = es_TotalBurned s + a"
    "\<forall>b. economicBalance s' b = economicBalance s b - (if b = EconomicBuyback then a else 0)"
    by (auto elim!: burn_ok intro: moved_exactlyI [OF assms])
next
  assume "DeployProtocolCapital C st now tgt a gid ph s = (s', EOk row)"
  moreover have "es_Deployments (ensurePolicy s) = es_Deployments s" by (simp add: ensurePolicy_def Let_def)
  ultimately show "0 < a" "st gid = Some ''executed''" "a \<le> economicBalance s EconomicOperations"
    "a \<le> economicBalance s EconomicOperations * ep_TreasuryDeployCapBPS (es_Policy (ensurePolicy s)) div 10000"
    "moved_exactly a ProtocolRevenueEscrowAddress tgt (es_Accounts s) (es_Accounts s')"
    "\<forall>b. economicBalance s' b = economicBalance s b - (if b = EconomicOperations then a else 0)"
    "es_Deployments s' = es_Deployments s @ [row]" "td_Amount row = a" "td_Target row = to_lower tgt" "td_GovernanceID row = gid"
    by (auto elim!: deploy_ok intro: moved_exactlyI [OF assms])
qed

lemma spending_is_covered_witness:
  "\<exists>s s'. ExecuteVerifiedBuybackBurn 0 10 ''ref'' s = (s', EOk ()) \<and> economicBalance s' EconomicBuyback = 30 \<and>
     AccountBalanceAmount (es_Accounts s') ProtocolRevenueEscrowAddress = 90 \<and> AccountBalanceAmount (es_Accounts s') ProtocolBurnAddress = 10"
proof -
  define s where "s = demo_econ\<lparr>es_Accounts := [(ProtocolRevenueEscrowAddress, 100)], es_Balances := [(EconomicBuyback, 40)],
    es_Policy := DefaultEconomicPolicy\<lparr>ep_BuybackEnabled := True\<rparr>\<rparr>"
  have d: "ensurePolicy s = s" "ep_BuybackEnabled (es_Policy s)" "ep_MinInsuranceBalance (es_Policy s) = ''0''"
    by (simp_all add: s_def ensurePolicy_def DefaultEconomicPolicy_def)
  have n: "NewAmountFromStringOrZero ''0'' = 0" "trim_space ''ref'' \<noteq> []" by code_simp+
  have b: "economicBalance s EconomicBuyback = 40" "economicBalance s EconomicInsurance = 0"
    by (simp_all add: economicBalance_def s_def)
  have acc: "es_Accounts s = [(ProtocolRevenueEscrowAddress, 100)]" by (simp add: s_def)
  have sub: "subAccountBalance ProtocolRevenueEscrowAddress 10 (es_Accounts s) =
      Some [(ProtocolRevenueEscrowAddress, 90)]" by (simp add: acc subAccountBalance_def accountKeyForWrite_def)
  obtain s' where r: "ExecuteVerifiedBuybackBurn 0 10 ''ref'' s = (s', EOk ())"
    by (simp add: ExecuteVerifiedBuybackBurn_def d b n sub Let_def)
  have wf: "wf_map (es_Accounts s)" by (simp add: acc)
  have a: "AccountBalanceAmount (es_Accounts s) ProtocolRevenueEscrowAddress = 100" "AccountBalanceAmount (es_Accounts s) ProtocolBurnAddress = 0"
    unfolding acc by code_simp+
  have e: "same_account ProtocolRevenueEscrowAddress ProtocolRevenueEscrowAddress" "\<not> same_account ProtocolBurnAddress ProtocolRevenueEscrowAddress"
    "same_account ProtocolBurnAddress ProtocolBurnAddress" "\<not> same_account ProtocolRevenueEscrowAddress ProtocolBurnAddress" by code_simp+
  show ?thesis using spending_is_covered [OF wf] r b a e by (intro exI [of _ s] exI [of _ s']) (auto simp: moved_exactly_def)
qed

end
