(* ===== verification/BatchAuction.thy ===== *)
theory BatchAuction
  imports Ledger Crypto
begin

text \<open>
  The uniform-price batch auction (\<open>batch_auction.go\<close>): orders of the two directions of a pair are
  checked, matched at the reserve price and filled pro rata. A nil amount of an order is \<open>None\<close>.
\<close>

record BatchSwapOrder =
  bo_ID :: string
  bo_Owner :: string
  bo_TokenIn :: string
  bo_TokenOut :: string
  bo_AmountIn :: "int option"
  bo_MinOut :: "int option"
  bo_ValidFrom :: u64
  bo_ExpiresAt :: u64
  bo_Nonce :: u64

record BatchSwapFill =
  bf_OrderID :: string
  bf_Owner :: string
  bf_AmountIn :: int
  bf_AmountOut :: int

record BatchAuctionSettlement =
  bs_Pair :: string
  bs_Height :: u64
  bs_ClearingNum :: int
  bs_ClearingDen :: int
  bs_MatchedToken0 :: int
  bs_MatchedToken1 :: int
  bs_Fills :: "BatchSwapFill list"
  bs_Unfilled :: "string list"

definition amt :: "int option \<Rightarrow> int" where
  "amt a = (case a of None \<Rightarrow> 0 | Some i \<Rightarrow> i)"

definition batchOrderID :: "crypto \<Rightarrow> BatchSwapOrder \<Rightarrow> string" where
  "batchOrderID C ord = ''order_'' @ hex_encode (take 12 (sha256 C (''PODL-BATCH-ORDER-V1:'' @ to_lower (bo_Owner ord) @ '':'' @
     to_lower (bo_TokenIn ord) @ '':'' @ to_lower (bo_TokenOut ord) @ '':'' @ int_str (amt (bo_AmountIn ord)) @ '':'' @
     int_str (amt (bo_MinOut ord)) @ '':'' @ u64_str (bo_ValidFrom ord) @ '':'' @ u64_str (bo_ExpiresAt ord) @ '':'' @
     u64_str (bo_Nonce ord))))"

definition normalizeOrder :: "crypto \<Rightarrow> BatchSwapOrder \<Rightarrow> BatchSwapOrder" where
  "normalizeOrder C ord = (let o1 = ord\<lparr>bo_Owner := norm_addr (bo_Owner ord), bo_TokenIn := norm_addr (bo_TokenIn ord),
       bo_TokenOut := norm_addr (bo_TokenOut ord)\<rparr>
     in if bo_ID o1 = [] then o1\<lparr>bo_ID := batchOrderID C o1\<rparr> else o1)"

definition admissible :: "u64 \<Rightarrow> string list \<Rightarrow> BatchSwapOrder \<Rightarrow> bool" where
  "admissible height seen ord \<longleftrightarrow> \<not> (bo_ID ord \<in> set seen \<or> \<not> ValidateAddress (bo_Owner ord) \<or> bo_AmountIn ord = None \<or>
     bo_MinOut ord = None \<or> amt (bo_AmountIn ord) \<le> 0 \<or> amt (bo_MinOut ord) < 0 \<or> height < bo_ValidFrom ord \<or>
     bo_ExpiresAt ord < height)"

text \<open>The first loop: seen ids, the two sides and the unfilled ids.\<close>

fun classify :: "crypto \<Rightarrow> string \<Rightarrow> string \<Rightarrow> int \<Rightarrow> int \<Rightarrow> u64 \<Rightarrow> string list \<Rightarrow> BatchSwapOrder list \<Rightarrow>
    BatchSwapOrder list \<times> BatchSwapOrder list \<times> string list" where
  "classify C t0 t1 r0 r1 h seen [] = ([], [], [])"
| "classify C t0 t1 r0 r1 h seen (o0 # os) =
     (let ord = normalizeOrder C o0 in
      if \<not> admissible h seen ord then
        (let (v0, v1, un) = classify C t0 t1 r0 r1 h seen os in (v0, v1, bo_ID ord # un))
      else let (v0, v1, un) = classify C t0 t1 r0 r1 h (bo_ID ord # seen) os in
        if bo_TokenIn ord = t0 \<and> bo_TokenOut ord = t1 then
          (if amt (bo_MinOut ord) \<le> big_div (amt (bo_AmountIn ord) * r1) r0 then (ord # v0, v1, un) else (v0, v1, bo_ID ord # un))
        else if bo_TokenIn ord = t1 \<and> bo_TokenOut ord = t0 then
          (if amt (bo_MinOut ord) \<le> big_div (amt (bo_AmountIn ord) * r0) r1 then (v0, ord # v1, un) else (v0, v1, bo_ID ord # un))
        else (v0, v1, bo_ID ord # un))"

definition total_in :: "BatchSwapOrder list \<Rightarrow> int" where
  "total_in os = sum_list (map (amt \<circ> bo_AmountIn) os)"

definition minimumForFill :: "BatchSwapOrder \<Rightarrow> int \<Rightarrow> int" where
  "minimumForFill ord fillIn = (let n = amt (bo_MinOut ord) * fillIn; q = big_div n (amt (bo_AmountIn ord)) in
     if 0 < n mod amt (bo_AmountIn ord) then q + 1 else q)"

text \<open>One side of the settlement; the last order takes what remains of the matched amount.\<close>

fun fillSide :: "int \<Rightarrow> int \<Rightarrow> int \<Rightarrow> int \<Rightarrow> int \<Rightarrow> BatchSwapOrder list \<Rightarrow> BatchSwapFill list \<times> string list" where
  "fillSide matched tot outNum outDen remaining [] = ([], [])"
| "fillSide matched tot outNum outDen remaining (ord # os) =
     (let fillIn = (if os = [] then remaining else if 0 < tot then big_div (matched * amt (bo_AmountIn ord)) tot else 0);
          remaining' = (if os = [] then remaining else remaining - fillIn);
          (fs, un) = fillSide matched tot outNum outDen remaining' os;
          fillOut = big_div (fillIn * outNum) outDen in
      if fillIn \<le> 0 \<or> fillOut < minimumForFill ord fillIn then (fs, bo_ID ord # un)
      else (\<lparr>bf_OrderID = bo_ID ord, bf_Owner = bo_Owner ord, bf_AmountIn = fillIn, bf_AmountOut = fillOut\<rparr> # fs,
            if fillIn < amt (bo_AmountIn ord) then bo_ID ord # un else un))"

definition ClearUniformBatch ::
  "crypto \<Rightarrow> string \<Rightarrow> string \<Rightarrow> int option \<Rightarrow> int option \<Rightarrow> u64 \<Rightarrow> BatchSwapOrder list \<Rightarrow> BatchAuctionSettlement option" where
  "ClearUniformBatch C token0 token1 reserve0 reserve1 height orders =
     (let t0 = norm_addr token0; t1 = norm_addr token1; r0 = amt reserve0; r1 = amt reserve1 in
      if t0 = [] \<or> t1 = [] \<or> t0 = t1 \<or> reserve0 = None \<or> reserve1 = None \<or> r0 \<le> 0 \<or> r1 \<le> 0 \<or> height = 0 then None else
      let (v0, v1, un) = classify C t0 t1 r0 r1 height [] orders;
          valid0 = sort_key bo_ID v0; valid1 = sort_key bo_ID v1;
          total0 = total_in valid0; total1 = total_in valid1;
          available0From1 = big_div (total1 * r0) r1;
          matched0 = (if available0From1 < total0 then available0From1 else total0);
          matched1 = big_div (matched0 * r1) r0;
          (fills, unfilled) = (if 0 < matched0 \<and> 0 < matched1
            then let (f0, u0) = fillSide matched0 total0 r1 r0 matched0 valid0;
                     (f1, u1) = fillSide matched1 total1 r0 r1 matched1 valid1 in (f0 @ f1, un @ u0 @ u1)
            else ([], un @ map bo_ID (valid0 @ valid1))) in
      Some \<lparr>bs_Pair = t0 @ '':'' @ t1, bs_Height = height, bs_ClearingNum = r1, bs_ClearingDen = r0,
        bs_MatchedToken0 = matched0, bs_MatchedToken1 = matched1, bs_Fills = sort_key bf_OrderID fills,
        bs_Unfilled = sort unfilled\<rparr>)"

section \<open>Filling one side\<close>

definition sum_in :: "BatchSwapFill list \<Rightarrow> int" where "sum_in fs = sum_list (map bf_AmountIn fs)"
definition sum_out :: "BatchSwapFill list \<Rightarrow> int" where "sum_out fs = sum_list (map bf_AmountOut fs)"

lemma sums_simps [simp]: "sum_in [] = 0" "sum_in (f # fs) = bf_AmountIn f + sum_in fs"
  "sum_in (fs @ gs) = sum_in fs + sum_in gs"
  "sum_out [] = 0" "sum_out (f # fs) = bf_AmountOut f + sum_out fs" "total_in [] = 0"
  "total_in (ord # os) = amt (bo_AmountIn ord) + total_in os"
  by (simp_all add: sum_in_def sum_out_def total_in_def)

text \<open>The share of one order, and the invariant that the remaining amount covers the rest.\<close>

definition share :: "int \<Rightarrow> int \<Rightarrow> int \<Rightarrow> BatchSwapOrder \<Rightarrow> BatchSwapOrder list \<Rightarrow> int" where
  "share m t R ord os = (if os = [] then R else if 0 < t then big_div (m * amt (bo_AmountIn ord)) t else 0)"

lemma share_bounds:
  assumes "m * total_in (ord # os) \<le> R * t" "0 < t" "0 \<le> m" "\<forall>x \<in> set (ord # os). 0 < amt (bo_AmountIn x)"
  shows "0 \<le> share m t R ord os" "share m t R ord os \<le> R"
    "m * total_in os \<le> (if os = [] then R else R - share m t R ord os) * t"
proof -
  have nn: "0 \<le> total_in xs" if "\<forall>x \<in> set xs. 0 < amt (bo_AmountIn x)" for xs
    using that by (induction xs) (auto simp: total_in_def)
  have R: "0 \<le> R"
  proof (rule ccontr)
    assume "\<not> 0 \<le> R"
    then have "R * t < 0" using assms(2) by (simp add: mult_neg_pos)
    moreover have "0 \<le> m * total_in (ord # os)" using assms(3) nn [OF assms(4)] by simp
    ultimately show False using assms(1) by linarith
  qed
  let ?f = "m * amt (bo_AmountIn ord) div t"
  have f0: "0 \<le> ?f" using assms by (simp add: pos_imp_zdiv_nonneg_iff)
  have ft: "?f * t \<le> m * amt (bo_AmountIn ord)" using assms(2) by (rule div_mult_le_self)
  have "0 \<le> m * total_in os" using assms(3,4) nn [of os] by simp
  have "?f * t \<le> R * t" using ft assms(1) \<open>0 \<le> m * total_in os\<close> by (simp add: distrib_left)
  then have fR: "?f \<le> R" using assms(2) by simp
  show "0 \<le> share m t R ord os" "share m t R ord os \<le> R" using f0 fR R assms(2) by (simp_all add: share_def)
  show "m * total_in os \<le> (if os = [] then R else R - share m t R ord os) * t"
    using ft assms(1,2) R by (auto simp: share_def algebra_simps)
qed

lemma minimumForFill_ok:
  assumes "minimumForFill ord x \<le> y" "0 < amt (bo_AmountIn ord)"
  shows "amt (bo_MinOut ord) * x \<le> y * amt (bo_AmountIn ord)"
proof -
  let ?n = "amt (bo_MinOut ord) * x" and ?a = "amt (bo_AmountIn ord)"
  have e: "?n = ?n div ?a * ?a + ?n mod ?a" by simp
  have "?n mod ?a < ?a" "0 \<le> ?n mod ?a" using assms(2) by simp_all
  show ?thesis
  proof (cases "0 < ?n mod ?a")
    case True
    then have "?n div ?a + 1 \<le> y" using assms by (simp add: minimumForFill_def Let_def)
    then have "(?n div ?a + 1) * ?a \<le> y * ?a" using assms(2) by (intro mult_right_mono) simp_all
    moreover have "(?n div ?a + 1) * ?a = ?n div ?a * ?a + ?a" by (simp only: distrib_right mult_1)
    ultimately show ?thesis using e \<open>?n mod ?a < ?a\<close> by linarith
  next
    case False
    then have "?n mod ?a = 0" using \<open>0 \<le> ?n mod ?a\<close> by simp
    moreover have "?n div ?a \<le> y" using assms False by (simp add: minimumForFill_def Let_def)
    then have "?n div ?a * ?a \<le> y * ?a" using assms(2) by (intro mult_right_mono) simp_all
    ultimately show ?thesis using e by simp
  qed
qed

text \<open>What a fill of an order at the rate \<open>n / d\<close> promises.\<close>

definition fill_ok :: "int \<Rightarrow> int \<Rightarrow> BatchSwapOrder list \<Rightarrow> BatchSwapFill \<Rightarrow> bool" where
  "fill_ok n d os f \<longleftrightarrow> (\<exists>ord \<in> set os. bf_OrderID f = bo_ID ord \<and> bf_Owner f = bo_Owner ord \<and> 0 < bf_AmountIn f \<and>
     bf_AmountOut f = bf_AmountIn f * n div d \<and>
     amt (bo_MinOut ord) * bf_AmountIn f \<le> bf_AmountOut f * amt (bo_AmountIn ord))"

lemma fillSide_ok:
  assumes "m * total_in os \<le> R * t" "0 < t" "0 \<le> m" "0 < d" "0 \<le> n" "\<forall>x \<in> set os. 0 < amt (bo_AmountIn x)"
    and "fillSide m t n d R os = (fs, un)"
  shows "0 \<le> sum_in fs \<and> sum_in fs \<le> R \<and> sum_out fs * d \<le> sum_in fs * n \<and> list_all (fill_ok n d os) fs"
  using assms(1,6,7)
proof (induction os arbitrary: R fs un)
  case Nil
  from Nil.prems(1) have "0 \<le> R * t" by simp
  then have "0 \<le> R" using assms(2) by (simp add: zero_le_mult_iff)
  with Nil.prems(3) show ?case by simp
next
  case (Cons ord os)
  let ?x = "share m t R ord os" and ?R = "if os = [] then R else R - share m t R ord os"
  note sb = share_bounds [OF Cons.prems(1) assms(2,3) Cons.prems(2)]
  obtain gs vn where g: "fillSide m t n d ?R os = (gs, vn)" by (cases "fillSide m t n d ?R os")
  have IH: "0 \<le> sum_in gs" "sum_in gs \<le> ?R" "sum_out gs * d \<le> sum_in gs * n" "list_all (fill_ok n d os) gs"
    using Cons.IH [OF sb(3) _ g] Cons.prems(2) by auto
  have gs: "os = [] \<Longrightarrow> gs = []" using g by simp
  have up: "list_all (fill_ok n d (ord # os)) gs" using IH(4) by (auto simp: list_all_iff fill_ok_def)
  show ?case
  proof (cases "?x \<le> 0 \<or> big_div (?x * n) d < minimumForFill ord ?x")
    case True
    then have "fs = gs" using Cons.prems(3) g by (auto simp: share_def Let_def split: prod.splits if_splits)
    with IH up sb show ?thesis by (auto split: if_splits)
  next
    case False
    then have fs: "fs = \<lparr>bf_OrderID = bo_ID ord, bf_Owner = bo_Owner ord, bf_AmountIn = ?x, bf_AmountOut = big_div (?x * n) d\<rparr> # gs"
      using Cons.prems(3) g by (auto simp: share_def Let_def split: prod.splits if_splits)
    have le: "?x * n div d * d \<le> ?x * n" using assms(4) by (rule div_mult_le_self)
    have ok: "minimumForFill ord ?x \<le> ?x * n div d" using False assms(4) by simp
    from minimumForFill_ok [OF this] Cons.prems(2) False assms(4)
    have "fill_ok n d (ord # os) (hd fs)" by (auto simp: fs fill_ok_def)
    then show ?thesis
      using IH up sb(1,2) gs le assms(4) by (auto simp: fs distrib_right split: if_splits)
  qed
qed

lemma sum_out_le:
  assumes "sum_out fs * d \<le> sum_in fs * n" "sum_in fs \<le> R" "0 < d" "0 \<le> (n :: int)"
  shows "sum_out fs \<le> R * n div d"
proof -
  have "sum_out fs * d \<le> R * n" using assms(1) mult_right_mono [OF assms(2,4)] by linarith
  moreover have "R * n < R * n div d * d + d" using assms(3) by (rule less_div_mult_add)
  ultimately have "sum_out fs * d < (R * n div d + 1) * d" by (simp add: distrib_right)
  then show ?thesis using assms(3) by (simp add: mult_less_cancel_right)
qed

section \<open>Properties\<close>

text \<open>The orders a direction may fill: those that trade its pair in its direction, by a valid owner, with a positive amount and a
  limit the reserve price \<open>n / d\<close> meets, at a height inside their window.\<close>

definition eligible :: "u64 \<Rightarrow> string \<Rightarrow> string \<Rightarrow> int \<Rightarrow> int \<Rightarrow> BatchSwapOrder \<Rightarrow> bool" where
  "eligible h tin tout n d ord \<longleftrightarrow> bo_TokenIn ord = tin \<and> bo_TokenOut ord = tout \<and> ValidateAddress (bo_Owner ord) \<and>
     bo_AmountIn ord \<noteq> None \<and> bo_MinOut ord \<noteq> None \<and> 0 < amt (bo_AmountIn ord) \<and> 0 \<le> amt (bo_MinOut ord) \<and>
     amt (bo_MinOut ord) \<le> amt (bo_AmountIn ord) * n div d \<and> bo_ValidFrom ord \<le> h \<and> h \<le> bo_ExpiresAt ord"

lemma classify_ok:
  assumes "0 < r0" "0 < r1"
  shows "classify C t0 t1 r0 r1 h seen os = (v0, v1, un) \<Longrightarrow>
    set v0 \<subseteq> {x \<in> normalizeOrder C ` set os. eligible h t0 t1 r1 r0 x} \<and>
    set v1 \<subseteq> {x \<in> normalizeOrder C ` set os. eligible h t1 t0 r0 r1 x} \<and>
    distinct (map bo_ID (v0 @ v1)) \<and> bo_ID ` set (v0 @ v1) \<inter> set seen = {} \<and>
    bo_ID ` normalizeOrder C ` set os \<subseteq> bo_ID ` set (v0 @ v1) \<union> set un"
proof (induction os arbitrary: seen v0 v1 un)
  case (Cons o0 os)
  let ?o = "normalizeOrder C o0"
  obtain a0 a1 un' where c: "classify C t0 t1 r0 r1 h (if admissible h seen ?o then bo_ID ?o # seen else seen) os = (a0, a1, un')"
    by (cases "classify C t0 t1 r0 r1 h (if admissible h seen ?o then bo_ID ?o # seen else seen) os")
  note IH = Cons.IH [OF c]
  show ?case
  proof (cases "admissible h seen ?o")
    case True
    then have p: "ValidateAddress (bo_Owner ?o)" "bo_AmountIn ?o \<noteq> None" "bo_MinOut ?o \<noteq> None" "0 < amt (bo_AmountIn ?o)"
      "0 \<le> amt (bo_MinOut ?o)" "bo_ValidFrom ?o \<le> h" "h \<le> bo_ExpiresAt ?o" "bo_ID ?o \<notin> set seen"
      by (auto simp: admissible_def not_less not_le)
    have I: "set a0 \<subseteq> {x \<in> normalizeOrder C ` set os. eligible h t0 t1 r1 r0 x}" "set a1 \<subseteq> {x \<in> normalizeOrder C ` set os. eligible h t1 t0 r0 r1 x}"
      "distinct (map bo_ID (a0 @ a1))" "bo_ID ` set (a0 @ a1) \<inter> set seen = {}" "bo_ID ?o \<notin> bo_ID ` set (a0 @ a1)"
      "bo_ID ` normalizeOrder C ` set os \<subseteq> bo_ID ` set (a0 @ a1) \<union> set un'"
      using IH True by auto
    consider (zero) "bo_TokenIn ?o = t0" "bo_TokenOut ?o = t1" "amt (bo_MinOut ?o) \<le> amt (bo_AmountIn ?o) * r1 div r0" "v0 = ?o # a0" "v1 = a1" "un = un'"
      | (one) "bo_TokenIn ?o = t1" "bo_TokenOut ?o = t0" "amt (bo_MinOut ?o) \<le> amt (bo_AmountIn ?o) * r0 div r1" "v0 = a0" "v1 = ?o # a1" "un = un'"
      | (none) "v0 = a0" "v1 = a1" "un = bo_ID ?o # un'"
      using Cons.prems c True assms by (auto simp: Let_def split: if_splits)
    then show ?thesis
    proof cases
      case zero
      have "eligible h t0 t1 r1 r0 ?o" using zero(1-3) p by (simp add: eligible_def)
      with I p(8) show ?thesis unfolding zero(4-6) by (auto simp: image_subset_iff)
    next
      case one
      have "eligible h t1 t0 r0 r1 ?o" using one(1-3) p by (simp add: eligible_def)
      with I p(8) show ?thesis unfolding one(4-6) by (auto simp: image_subset_iff)
    next
      case none
      with I show ?thesis unfolding none by (auto simp: image_subset_iff)
    qed
  next
    case False
    then show ?thesis using Cons.prems c IH by (auto simp: Let_def image_subset_iff)
  qed
qed simp

lemma fillSide_ids:
  assumes "fillSide m t n d R os = (fs, un)" "distinct (map bo_ID os)"
  shows "distinct (map bf_OrderID fs) \<and> bf_OrderID ` set fs \<subseteq> bo_ID ` set os \<and> bo_ID ` set os \<subseteq> bf_OrderID ` set fs \<union> set un"
  using assms
proof (induction os arbitrary: R fs un)
  case (Cons ord os)
  let ?R = "if os = [] then R else R - share m t R ord os"
  obtain gs vn where g: "fillSide m t n d ?R os = (gs, vn)" by (cases "fillSide m t n d ?R os")
  have IH: "distinct (map bf_OrderID gs)" "bf_OrderID ` set gs \<subseteq> bo_ID ` set os" "bo_ID ` set os \<subseteq> bf_OrderID ` set gs \<union> set vn"
    using Cons.IH [OF g] Cons.prems(2) by auto
  consider (skip) "fs = gs" "un = bo_ID ord # vn"
    | (fill) f where "fs = f # gs" "bf_OrderID f = bo_ID ord" "set vn \<subseteq> set un"
  proof -
    have "fs = gs \<and> un = bo_ID ord # vn \<or> (\<exists>f. fs = f # gs \<and> bf_OrderID f = bo_ID ord \<and> (un = vn \<or> un = bo_ID ord # vn))"
      using Cons.prems(1) g by (auto simp: share_def Let_def split: prod.splits if_splits)
    with that show thesis by (metis set_subset_Cons subset_refl)
  qed
  then show ?case
  proof cases
    case skip
    then show ?thesis using IH by auto
  next
    case fill
    then show ?thesis using IH Cons.prems(2) by auto
  qed
qed simp

lemma total_in_nonneg: "\<forall>x \<in> set os. 0 < amt (bo_AmountIn x) \<Longrightarrow> 0 \<le> total_in os"
  by (induction os) auto

text \<open>The two sides together fill no order twice and report every order they were given.\<close>

lemma settled_ids:
  assumes "distinct (map bo_ID (v0 @ v1))" and ids: "ids \<subseteq> bo_ID ` set (v0 @ v1) \<union> set un"
    and f: "fillSide m0 t0 n0 d0 R0 (sort_key bo_ID v0) = (f0, u0)" "fillSide m1 t1 n1 d1 R1 (sort_key bo_ID v1) = (f1, u1)"
  shows "distinct (map bf_OrderID (f0 @ f1))" "ids \<subseteq> bf_OrderID ` set (f0 @ f1) \<union> set (un @ u0 @ u1)"
proof -
  have dv: "distinct (map bo_ID (sort_key bo_ID v0))" "distinct (map bo_ID (sort_key bo_ID v1))" "bo_ID ` set v0 \<inter> bo_ID ` set v1 = {}"
    using assms(1) by (auto simp: distinct_map)
  note i = fillSide_ids [OF f(1) dv(1), unfolded set_sort] fillSide_ids [OF f(2) dv(2), unfolded set_sort]
  have "bf_OrderID ` set f0 \<inter> bf_OrderID ` set f1 = {}" using i dv(3) by blast
  then show "distinct (map bf_OrderID (f0 @ f1))" using i by simp
  have "bo_ID ` set v0 \<subseteq> bf_OrderID ` set f0 \<union> set u0" "bo_ID ` set v1 \<subseteq> bf_OrderID ` set f1 \<union> set u1" using i by simp_all
  then have "bo_ID ` set (v0 @ v1) \<union> set un \<subseteq> bf_OrderID ` set (f0 @ f1) \<union> set (un @ u0 @ u1)"
    unfolding set_append image_Un by blast
  with ids show "ids \<subseteq> bf_OrderID ` set (f0 @ f1) \<union> set (un @ u0 @ u1)" by (rule order_trans)
qed

text \<open>C11: One clearing price for the orders of the pair. Every fill of a direction belongs to a submitted order
  that trades the pair in this direction, has a valid owner and positive amount and is inside its window of heights; it pays
  exactly the reserve price rounded down and respects the order's limit pro rata. No order is filled twice, every order without a fill is
  reported as unfilled, and the fills of each direction take in at most the matched amount of its token and pay out at most the
  matched amount of the other.\<close>

theorem batch_uniform_price:
  assumes "ClearUniformBatch C token0 token1 (Some r0) (Some r1) h orders = Some st"
  shows "\<exists>f0 f1. mset (bs_Fills st) = mset (f0 @ f1) \<and> distinct (map bf_OrderID (bs_Fills st)) \<and>
    list_all (fill_ok r1 r0 (filter (eligible h (norm_addr token0) (norm_addr token1) r1 r0) (map (normalizeOrder C) orders))) f0 \<and>
    list_all (fill_ok r0 r1 (filter (eligible h (norm_addr token1) (norm_addr token0) r0 r1) (map (normalizeOrder C) orders))) f1 \<and>
    sum_in f0 \<le> bs_MatchedToken0 st \<and> sum_out f0 \<le> bs_MatchedToken1 st \<and>
    sum_in f1 \<le> bs_MatchedToken1 st \<and> sum_out f1 \<le> bs_MatchedToken0 st \<and>
    (\<forall>x \<in> set orders. bo_ID (normalizeOrder C x) \<in> bf_OrderID ` set (bs_Fills st) \<union> set (bs_Unfilled st))"
proof -
  let ?t0 = "norm_addr token0" and ?t1 = "norm_addr token1"
  have g: "0 < r0" "0 < r1" "\<not> (?t0 = [] \<or> ?t1 = [] \<or> ?t0 = ?t1 \<or> h = 0)"
    using assms by (auto simp: ClearUniformBatch_def amt_def Let_def split: if_splits)
  obtain v0 v1 un where c: "classify C ?t0 ?t1 r0 r1 h [] orders = (v0, v1, un)"
    by (cases "classify C ?t0 ?t1 r0 r1 h [] orders")
  let ?v0 = "sort_key bo_ID v0" and ?v1 = "sort_key bo_ID v1"
  let ?e0 = "filter (eligible h ?t0 ?t1 r1 r0) (map (normalizeOrder C) orders)"
  let ?e1 = "filter (eligible h ?t1 ?t0 r0 r1) (map (normalizeOrder C) orders)"
  note cl = classify_ok [OF g(1,2) c]
  have sub: "set ?v0 \<subseteq> set ?e0" "set ?v1 \<subseteq> set ?e1" using cl by auto
  have pos: "\<forall>x \<in> set ?v0. 0 < amt (bo_AmountIn x)" "\<forall>x \<in> set ?v1. 0 < amt (bo_AmountIn x)"
    using sub by (auto simp: eligible_def)
  define T0 where "T0 = total_in ?v0"
  define T1 where "T1 = total_in ?v1"
  define M0 where "M0 = (if T1 * r0 div r1 < T0 then T1 * r0 div r1 else T0)"
  define M1 where "M1 = M0 * r1 div r0"
  have T: "0 \<le> T0" "0 \<le> T1" using total_in_nonneg pos by (simp_all add: T0_def T1_def)
  have M: "0 \<le> M0" "0 \<le> M1" "M0 \<le> T0" "M0 \<le> T1 * r0 div r1" "M1 * r0 \<le> M0 * r1"
    using T g div_mult_le_self [of r0 "M0 * r1"] by (auto simp: M0_def M1_def pos_imp_zdiv_nonneg_iff)
  have bk: "M1 * r0 div r1 \<le> M0" using zdiv_mono1 [OF M(5) g(2)] g(2) by simp
  obtain f0 u0 where f0: "fillSide M0 T0 r1 r0 M0 ?v0 = (f0, u0)" by (cases "fillSide M0 T0 r1 r0 M0 ?v0")
  obtain f1 u1 where f1: "fillSide M1 T1 r0 r1 M1 ?v1 = (f1, u1)" by (cases "fillSide M1 T1 r0 r1 M1 ?v1")
  have dv: "distinct (map bo_ID (v0 @ v1))" "bo_ID ` normalizeOrder C ` set orders \<subseteq> bo_ID ` set (v0 @ v1) \<union> set un" using cl by blast+
  note ids = settled_ids [OF dv f0 f1]
  have st: "bs_MatchedToken0 st = M0" "bs_MatchedToken1 st = M1"
    "bs_Fills st = sort_key bf_OrderID (if 0 < M0 \<and> 0 < M1 then f0 @ f1 else [])"
    "bs_Unfilled st = sort (if 0 < M0 \<and> 0 < M1 then un @ u0 @ u1 else un @ map bo_ID (?v0 @ ?v1))"
    using assms g c f0 f1
    by (auto simp: ClearUniformBatch_def amt_def Let_def M0_def M1_def T0_def T1_def split: if_splits)
  have rep: "\<forall>x \<in> set orders. bo_ID (normalizeOrder C x) \<in> bf_OrderID ` set (bs_Fills st) \<union> set (bs_Unfilled st)"
    using ids(2) dv(2) unfolding st by (auto simp: image_subset_iff)
  have "distinct (map bf_OrderID (if 0 < M0 \<and> 0 < M1 then f0 @ f1 else []))" using ids(1) by simp
  then have dis: "distinct (map bf_OrderID (bs_Fills st))" unfolding st by (simp only: distinct_map distinct_sort set_sort)
  show ?thesis
  proof (cases "0 < M0 \<and> 0 < M1")
    case True
    have "0 < T0" using True M(3) by linarith
    have "T1 \<noteq> 0" using True M(4) by auto
    then have "0 < T1" using T(2) by simp
    have A: "0 \<le> sum_in f0 \<and> sum_in f0 \<le> M0 \<and> sum_out f0 * r0 \<le> sum_in f0 * r1 \<and> list_all (fill_ok r1 r0 ?v0) f0"
      using fillSide_ok [OF _ \<open>0 < T0\<close> M(1) g(1) _ pos(1) f0] g(2) by (simp add: T0_def)
    have B: "0 \<le> sum_in f1 \<and> sum_in f1 \<le> M1 \<and> sum_out f1 * r1 \<le> sum_in f1 * r0 \<and> list_all (fill_ok r0 r1 ?v1) f1"
      using fillSide_ok [OF _ \<open>0 < T1\<close> M(2) g(2) _ pos(2) f1] g(1) by (simp add: T1_def)
    have mono: "fill_ok n d os f \<Longrightarrow> set os \<subseteq> set os' \<Longrightarrow> fill_ok n d os' f" for n d os os' f
      unfolding fill_ok_def by blast
    have F: "list_all (fill_ok r1 r0 ?e0) f0" "list_all (fill_ok r0 r1 ?e1) f1"
      using A B mono [OF _ sub(1)] mono [OF _ sub(2)] unfolding list_all_iff by blast+
    have "sum_out f0 \<le> M1" unfolding M1_def using sum_out_le A g by (metis less_imp_le)
    moreover have "sum_out f1 \<le> M1 * r0 div r1" using sum_out_le B g by (metis less_imp_le)
    ultimately show ?thesis
      using A B F True bk st(1-3) rep dis by (intro exI [of _ f0] exI [of _ f1]) auto
  next
    case False
    with st M rep dis show ?thesis by (intro exI [of _ "[]"]) auto
  qed
qed

definition demo_order :: "string \<Rightarrow> bool \<Rightarrow> int \<Rightarrow> int \<Rightarrow> BatchSwapOrder" where
  "demo_order i zero a m = \<lparr>bo_ID = i, bo_Owner = ''0x00000000000000000000000000000000000000aa'',
     bo_TokenIn = (if zero then ''x'' else ''y''), bo_TokenOut = (if zero then ''y'' else ''x''),
     bo_AmountIn = Some a, bo_MinOut = Some m, bo_ValidFrom = 0, bo_ExpiresAt = 9, bo_Nonce = 0\<rparr>"

definition id_hash :: crypto where "id_hash = \<lparr>sha256 = id, recover = (\<lambda>_ _. None)\<rparr>"

lemma demo_batch: "case ClearUniformBatch id_hash ''x'' ''y'' (Some 100) (Some 200) 1
     [demo_order ''a'' True 10 19, demo_order ''b'' False 40 20] of None \<Rightarrow> False
   | Some st \<Rightarrow> bs_MatchedToken0 st = 10 \<and> bs_MatchedToken1 st = 20"
  by code_simp

lemma batch_uniform_price_witness:
  "\<exists>st f0 f1. ClearUniformBatch id_hash ''x'' ''y'' (Some 100) (Some 200) 1
     [demo_order ''a'' True 10 19, demo_order ''b'' False 40 20] = Some st \<and>
   mset (bs_Fills st) = mset (f0 @ f1) \<and> sum_in f0 \<le> 10 \<and> sum_in f1 \<le> 20"
proof -
  obtain st where st: "ClearUniformBatch id_hash ''x'' ''y'' (Some 100) (Some 200) 1
     [demo_order ''a'' True 10 19, demo_order ''b'' False 40 20] = Some st"
    "bs_MatchedToken0 st = 10" "bs_MatchedToken1 st = 20"
    using demo_batch by (auto split: option.splits)
  from batch_uniform_price [OF st(1)] st show ?thesis by auto
qed

text \<open>Where a settlement is not what its comment promises. The last order of a direction takes everything
  the rounding left over, so an order that offered one unit can be filled for two; and an
  order refused by its rounded limit takes its tokens out of the settlement without shrinking
  the other direction, which is then paid with tokens nobody brought in.\<close>

theorem batch_overfill_and_imbalance:
  "(case ClearUniformBatch id_hash ''x'' ''y'' (Some 100) (Some 100) 1
      [demo_order ''a'' True 1 1, demo_order ''b'' True 1 1, demo_order ''c'' True 1 1, demo_order ''d'' False 2 2] of
      None \<Rightarrow> False | Some st \<Rightarrow> list_ex (\<lambda>f. bf_OrderID f = ''c'' \<and> bf_AmountIn f = 2) (bs_Fills st)) \<and>
   (case ClearUniformBatch id_hash ''x'' ''y'' (Some 3) (Some 2) 1 [demo_order ''a'' True 5 3, demo_order ''b'' False 10 15] of
      None \<Rightarrow> False | Some st \<Rightarrow> map bf_OrderID (bs_Fills st) = [''a''] \<and> map bf_AmountOut (bs_Fills st) = [3])"
  by code_simp

end
