(* ===== verification/AdvancedAMM.thy ===== *)
theory AdvancedAMM
  imports GoBase
begin

text \<open>
  The pool mathematics of \<open>advanced_amm.go\<close>: the amplified two-asset invariant with its bounded
  Newton loops, and the tick-crossing concentrated pool with its positions and fee accounting.
  Pointers to big integers that may be nil are \<open>option\<close>s; positions are values, which is sound as
  the map holds the only pointer to each. \<open>EffectiveFeeAndCap\<close> (a float helper) is not modelled.
\<close>

section \<open>Stable swap\<close>

text \<open>The Newton step for \<open>D\<close> and the loop, which gives up after 255 iterations.\<close>

definition invariantStep :: "int \<Rightarrow> int \<Rightarrow> int \<Rightarrow> int \<Rightarrow> int option" where
  "invariantStep x y ann d =
     (let dp = big_div (d * d) (x * 2); dp2 = big_div (dp * d) (y * 2);
          numerator = (ann * (x + y) + dp2 * 2) * d; denominator = (ann - 1) * d + dp2 * 3 in
      if denominator = 0 then None else Some (big_div numerator denominator))"

fun invariantLoop :: "nat \<Rightarrow> int \<Rightarrow> int \<Rightarrow> int \<Rightarrow> int \<Rightarrow> int option" where
  "invariantLoop 0 x y ann d = None"
| "invariantLoop (Suc n) x y ann d = (case invariantStep x y ann d of None \<Rightarrow> None
     | Some d' \<Rightarrow> if \<bar>d' - d\<bar> \<le> 1 then Some d' else invariantLoop n x y ann d')"

definition StableSwapInvariant :: "int option \<Rightarrow> int option \<Rightarrow> int \<Rightarrow> int option" where
  "StableSwapInvariant x y amplification = (case (x, y) of
     (Some x, Some y) \<Rightarrow> if x \<le> 0 \<or> y \<le> 0 \<or> amplification < 1 \<or> 1000000 < amplification then None
       else invariantLoop 255 x y (amplification * 2) (x + y)
   | _ \<Rightarrow> None)"

fun stableYLoop :: "nat \<Rightarrow> int \<Rightarrow> int \<Rightarrow> int \<Rightarrow> int \<Rightarrow> int option" where
  "stableYLoop 0 b c d y = None"
| "stableYLoop (Suc n) b c d y = (let denominator = y * 2 + (b - d) in
     if denominator \<le> 0 then None
     else let y' = big_div (y * y + c) denominator in
       if \<bar>y' - y\<bar> \<le> 1 then Some y' else stableYLoop n b c d y')"

definition stableGetY :: "int \<Rightarrow> int \<Rightarrow> int \<Rightarrow> int option" where
  "stableGetY x d amplification =
     (let ann = amplification * 2; c = big_div (d * d) (x * 2); c2 = big_div (c * d) (ann * 2);
          b = x + big_div d ann in stableYLoop 255 b c2 d d)"

definition StableSwapAmountOut :: "int option \<Rightarrow> int option \<Rightarrow> int option \<Rightarrow> int \<Rightarrow> int \<Rightarrow> int option" where
  "StableSwapAmountOut amountIn reserveIn reserveOut amplification feeBPS = (case amountIn of None \<Rightarrow> None
     | Some a \<Rightarrow> if a \<le> 0 \<or> feeBPS < 0 \<or> 1000 < feeBPS then None else
       (case (StableSwapInvariant reserveIn reserveOut amplification, reserveIn, reserveOut) of
          (Some d, Some rin, Some rout) \<Rightarrow>
            let net = big_div (a * (10000 - feeBPS)) 10000 in
            (case stableGetY (rin + net) d amplification of None \<Rightarrow> None
             | Some y \<Rightarrow> let raw = rout - y; out = (if 0 < raw then raw - 1 else raw) in
                 if out \<le> 0 \<or> rout \<le> out then None else Some out)
        | _ \<Rightarrow> None))"

section \<open>Concentrated liquidity\<close>

definition ammScaleX18 :: int where "ammScaleX18 = 10 ^ 18"

record ConcentratedTick =
  ct_SqrtPriceX18 :: int
  ct_LiquidityNet :: int

record ConcentratedPosition =
  cp_ID :: string
  cp_Owner :: string
  cp_Lower :: int
  cp_Upper :: int
  cp_Liquidity :: int
  cp_Owed0 :: int
  cp_Owed1 :: int

record ConcentratedPool =
  pl_Price :: "int option"
  pl_Liquidity :: "int option"
  pl_FeeBPS :: int
  pl_Ticks :: "ConcentratedTick list"
  pl_Positions :: "(string, ConcentratedPosition) gomap"
  pl_Rem0 :: int
  pl_Rem1 :: int

definition price :: "ConcentratedPool \<Rightarrow> int" where
  "price p = (case pl_Price p of None \<Rightarrow> 0 | Some v \<Rightarrow> v)"

definition liq :: "ConcentratedPool \<Rightarrow> int" where
  "liq p = (case pl_Liquidity p of None \<Rightarrow> 0 | Some v \<Rightarrow> v)"

definition addTick :: "int \<Rightarrow> int \<Rightarrow> ConcentratedTick list \<Rightarrow> ConcentratedTick list" where
  "addTick pr delta ts =
     (if list_ex (\<lambda>t. ct_SqrtPriceX18 t = pr) ts
      then (let (before, rest) = (takeWhile (\<lambda>t. ct_SqrtPriceX18 t \<noteq> pr) ts, dropWhile (\<lambda>t. ct_SqrtPriceX18 t \<noteq> pr) ts) in
        before @ (hd rest)\<lparr>ct_LiquidityNet := ct_LiquidityNet (hd rest) + delta\<rparr> # tl rest)
      else sort_key ct_SqrtPriceX18 (ts @ [\<lparr>ct_SqrtPriceX18 = pr, ct_LiquidityNet = delta\<rparr>]))"

definition AddRange :: "int option \<Rightarrow> int option \<Rightarrow> int option \<Rightarrow> ConcentratedPool \<Rightarrow> ConcentratedPool option" where
  "AddRange lower upper liquidity p = (case (pl_Price p, lower, upper, liquidity) of
     (Some pr, Some lo, Some up, Some l) \<Rightarrow>
       if l \<le> 0 \<or> up \<le> lo then None else
       let p1 = p\<lparr>pl_Ticks := addTick up (- l) (addTick lo l (pl_Ticks p))\<rparr> in
       Some (if lo \<le> pr \<and> pr < up then p1\<lparr>pl_Liquidity := Some (liq p1 + l)\<rparr> else p1)
   | _ \<Rightarrow> None)"

definition AddPosition ::
  "string \<Rightarrow> string \<Rightarrow> int option \<Rightarrow> int option \<Rightarrow> int option \<Rightarrow> ConcentratedPool \<Rightarrow> ConcentratedPool option" where
  "AddPosition pid owner lower upper liquidity p =
     (if pid = [] \<or> owner = [] \<or> map_of (pl_Positions p) pid \<noteq> None then None else
      case (AddRange lower upper liquidity p, lower, upper, liquidity) of
        (Some p1, Some lo, Some up, Some l) \<Rightarrow>
          Some (p1\<lparr>pl_Positions := mput pid \<lparr>cp_ID = pid, cp_Owner = owner, cp_Lower = lo, cp_Upper = up,
            cp_Liquidity = l, cp_Owed0 = 0, cp_Owed1 = 0\<rparr> (pl_Positions p1)\<rparr>)
      | _ \<Rightarrow> None)"

definition inRange :: "int \<Rightarrow> ConcentratedPosition \<Rightarrow> bool" where
  "inRange pr pos \<longleftrightarrow> cp_Lower pos \<le> pr \<and> pr < cp_Upper pos"

text \<open>The updated pool and the copy of the position that is returned.\<close>

definition RemovePosition ::
  "string \<Rightarrow> string \<Rightarrow> int option \<Rightarrow> ConcentratedPool \<Rightarrow> (ConcentratedPool \<times> ConcentratedPosition) option" where
  "RemovePosition pid owner liquidity p = (case (map_of (pl_Positions p) pid, liquidity) of
     (Some pos, Some l) \<Rightarrow>
       if cp_Owner pos \<noteq> owner \<or> l \<le> 0 \<or> cp_Liquidity pos < l then None else
       let active = inRange (price p) pos in
       if active \<and> (pl_Liquidity p = None \<or> liq p < l) then None else
       let p1 = p\<lparr>pl_Ticks := addTick (cp_Upper pos) l (addTick (cp_Lower pos) (- l) (pl_Ticks p))\<rparr>;
           p2 = (if active then p1\<lparr>pl_Liquidity := Some (liq p1 - l)\<rparr> else p1);
           pos' = pos\<lparr>cp_Liquidity := cp_Liquidity pos - l\<rparr> in
       Some (p2\<lparr>pl_Positions := (if cp_Liquidity pos' = 0 \<and> cp_Owed0 pos' = 0 \<and> cp_Owed1 pos' = 0
               then mdel pid (pl_Positions p2) else mput pid pos' (pl_Positions p2))\<rparr>, pos')
   | _ \<Rightarrow> None)"

definition TransferPosition :: "string \<Rightarrow> string \<Rightarrow> string \<Rightarrow> ConcentratedPool \<Rightarrow> ConcentratedPool option" where
  "TransferPosition pid src dst p = (case map_of (pl_Positions p) pid of None \<Rightarrow> None
     | Some pos \<Rightarrow> if cp_Owner pos \<noteq> src \<or> dst = [] then None
         else Some (p\<lparr>pl_Positions := mput pid (pos\<lparr>cp_Owner := dst\<rparr>) (pl_Positions p)\<rparr>))"

definition CollectPositionFees ::
  "string \<Rightarrow> string \<Rightarrow> ConcentratedPool \<Rightarrow> (ConcentratedPool \<times> int \<times> int) option" where
  "CollectPositionFees pid owner p = (case map_of (pl_Positions p) pid of None \<Rightarrow> None
     | Some pos \<Rightarrow> if cp_Owner pos \<noteq> owner then None
         else Some (p\<lparr>pl_Positions := (if cp_Liquidity pos = 0 then mdel pid (pl_Positions p)
               else mput pid (pos\<lparr>cp_Owed0 := 0, cp_Owed1 := 0\<rparr>) (pl_Positions p))\<rparr>, cp_Owed0 pos, cp_Owed1 pos))"

text \<open>Each active position receives its share, in the order of the map; the shares do not depend on it.\<close>

definition feeActive :: "ConcentratedPool \<Rightarrow> ConcentratedPosition \<Rightarrow> bool" where
  "feeActive p pos \<longleftrightarrow> 0 < cp_Liquidity pos \<and> inRange (price p) pos"

definition activeTotal :: "ConcentratedPool \<Rightarrow> int" where
  "activeTotal p = vsum cp_Liquidity (filter (\<lambda>(_, pos). feeActive p pos) (pl_Positions p))"

definition feeShare :: "ConcentratedPool \<Rightarrow> int \<Rightarrow> ConcentratedPosition \<Rightarrow> int" where
  "feeShare p fee pos = (if feeActive p pos then big_div (fee * cp_Liquidity pos) (activeTotal p) else 0)"

definition creditFee :: "bool \<Rightarrow> int \<Rightarrow> ConcentratedPosition \<Rightarrow> ConcentratedPosition" where
  "creditFee token0 d pos = (if token0 then pos\<lparr>cp_Owed0 := cp_Owed0 pos + d\<rparr> else pos\<lparr>cp_Owed1 := cp_Owed1 pos + d\<rparr>)"

definition addRemainder :: "bool \<Rightarrow> int \<Rightarrow> ConcentratedPool \<Rightarrow> ConcentratedPool" where
  "addRemainder token0 d p = (if token0 then p\<lparr>pl_Rem0 := pl_Rem0 p + d\<rparr> else p\<lparr>pl_Rem1 := pl_Rem1 p + d\<rparr>)"

definition accruePositionFee :: "int \<Rightarrow> bool \<Rightarrow> ConcentratedPool \<Rightarrow> ConcentratedPool" where
  "accruePositionFee fee token0 p =
     (if fee \<le> 0 then p
      else if activeTotal p = 0 then addRemainder token0 fee p
      else let distributed = vsum (feeShare p fee) (pl_Positions p) in
        addRemainder token0 (fee - distributed)
          (p\<lparr>pl_Positions := map (\<lambda>(pid, pos). (pid, if feeActive p pos then creditFee token0 (feeShare p fee pos) pos else pos))
             (pl_Positions p)\<rparr>))"

definition mulDiv :: "int \<Rightarrow> int \<Rightarrow> int \<Rightarrow> int" where
  "mulDiv a b denominator = (if denominator = 0 then 0 else big_div (a * b) denominator)"

definition nextTick :: "bool \<Rightarrow> int \<Rightarrow> ConcentratedTick list \<Rightarrow> ConcentratedTick option" where
  "nextTick zeroForOne pr ts =
     (if zeroForOne then find (\<lambda>t. ct_SqrtPriceX18 t < pr) (rev ts) else find (\<lambda>t. pr < ct_SqrtPriceX18 t) ts)"

lemma nextTick_Some:
  "nextTick z pr ts = Some t \<Longrightarrow> t \<in> set ts \<and> (if z then ct_SqrtPriceX18 t < pr else pr < ct_SqrtPriceX18 t)"
  by (auto simp: nextTick_def find_Some_iff split: if_splits) (metis length_rev nth_mem set_rev)

lemma filter_shrinks:
  assumes "t \<in> set ts" "\<not> P t" "Q t" "\<And>u. P u \<Longrightarrow> Q u"
  shows "length (filter P ts) < length (filter Q ts)"
proof -
  have "filter P ts = filter P (filter Q ts)" using assms(4) by (auto simp: filter_filter intro: filter_cong)
  moreover have "length (filter P (filter Q ts)) < length (filter Q ts)"
    using assms(1-3) by (intro length_filter_less [of t]) auto
  ultimately show ?thesis by simp
qed

text \<open>The swap loop on price, active liquidity, remaining input and output so far.\<close>

function swapLoop :: "ConcentratedTick list \<Rightarrow> bool \<Rightarrow> int \<Rightarrow> int \<Rightarrow> int \<Rightarrow> int \<Rightarrow> (int \<times> int \<times> int) option" where
  "swapLoop ts zeroForOne pr l remaining outp =
     (if remaining \<le> 0 then Some (pr, l, outp)
      else if l \<le> 0 then None
      else case nextTick zeroForOne pr ts of None \<Rightarrow> None
      | Some t \<Rightarrow> let target = ct_SqrtPriceX18 t in
          if zeroForOne then
            (let dxTarget = mulDiv (l * (pr - target)) ammScaleX18 (pr * target) in
             if remaining < dxTarget then
               (let newP = mulDiv (l * pr) ammScaleX18 (l * ammScaleX18 + remaining * pr) in
                Some (newP, l, outp + mulDiv l (pr - newP) ammScaleX18))
             else swapLoop ts zeroForOne target (l - ct_LiquidityNet t) (remaining - dxTarget)
               (outp + mulDiv l (pr - target) ammScaleX18))
          else
            (let dyTarget = mulDiv l (target - pr) ammScaleX18 in
             if remaining < dyTarget then
               (let newP = pr + mulDiv remaining ammScaleX18 l in
                Some (newP, l, outp + big_div (l * (newP - pr) * ammScaleX18) (pr * newP)))
             else swapLoop ts zeroForOne target (l + ct_LiquidityNet t) (remaining - dyTarget)
               (outp + big_div (l * (target - pr) * ammScaleX18) (pr * target))))"
  by pat_completeness auto
termination
proof (relation "measure (\<lambda>(ts, z, pr, l, r, out).
    length (filter (\<lambda>t. if z then ct_SqrtPriceX18 t < pr else pr < ct_SqrtPriceX18 t) ts))", goal_cases)
  case (2 ts z pr l remaining outp t target dxTarget)
  then have t: "t \<in> set ts" "ct_SqrtPriceX18 t < pr" using nextTick_Some by fastforce+
  have "length (filter (\<lambda>u. ct_SqrtPriceX18 u < target) ts) < length (filter (\<lambda>u. ct_SqrtPriceX18 u < pr) ts)"
    using t 2 by (intro filter_shrinks) auto
  with 2 show ?case by simp
next
  case (3 ts z pr l remaining outp t target dyTarget)
  then have t: "t \<in> set ts" "pr < ct_SqrtPriceX18 t" using nextTick_Some by fastforce+
  have "length (filter (\<lambda>u. target < ct_SqrtPriceX18 u) ts) < length (filter (\<lambda>u. pr < ct_SqrtPriceX18 u) ts)"
    using t 3 by (intro filter_shrinks) auto
  with 3 show ?case by simp
qed simp

declare swapLoop.simps [simp del]

definition swapInPlace :: "int \<Rightarrow> bool \<Rightarrow> ConcentratedPool \<Rightarrow> (ConcentratedPool \<times> int) option" where
  "swapInPlace amountIn zeroForOne p =
     (let netInput = mulDiv amountIn (10000 - pl_FeeBPS p) 10000; fee = amountIn - netInput in
      case swapLoop (pl_Ticks p) zeroForOne (price p) (liq p) netInput 0 of None \<Rightarrow> None
      | Some (pr, l, outp) \<Rightarrow>
          if outp \<le> 0 then None
          else Some (accruePositionFee fee zeroForOne (p\<lparr>pl_Price := Some pr, pl_Liquidity := Some l\<rparr>), outp))"

definition Swap :: "int option \<Rightarrow> bool \<Rightarrow> ConcentratedPool \<Rightarrow> (ConcentratedPool \<times> int) option" where
  "Swap amountIn zeroForOne p = (case amountIn of None \<Rightarrow> None
     | Some a \<Rightarrow> if a \<le> 0 \<or> pl_Price p = None \<or> price p \<le> 0 \<or> pl_Liquidity p = None \<or> liq p \<le> 0 \<or>
           pl_FeeBPS p < 0 \<or> 1000 < pl_FeeBPS p then None
         else swapInPlace a zeroForOne p)"

section \<open>Stable swap lemmas\<close>

lemma balanced_step:
  assumes "0 < x" "1 \<le> ann"
  shows "invariantStep x x ann (2 * x) = Some (2 * x)"
proof -
  have dp: "2 * x * (2 * x) div (x * 2) = 2 * x" using assms(1) by (simp add: mult.commute)
  have den: "(ann - 1) * (2 * x) + 2 * x * 3 = (ann + 2) * (2 * x)" by (simp add: algebra_simps)
  have num: "(ann * (x + x) + 2 * x * 2) * (2 * x) = 2 * x * ((ann + 2) * (2 * x))" by (simp add: algebra_simps)
  have K: "0 < (ann + 2) * (2 * x)" using assms by simp
  then have nz: "(ann + 2) * (2 * x) \<noteq> 0" by linarith
  have "2 * x * ((ann + 2) * (2 * x)) div ((ann + 2) * (2 * x)) = 2 * x"
    by (rule nonzero_mult_div_cancel_right [OF nz])
  then have q: "big_div (2 * x * ((ann + 2) * (2 * x))) ((ann + 2) * (2 * x)) = 2 * x"
    using K by (simp only: big_div_pos less_imp_le)
  have d: "big_div (2 * x * (2 * x)) (x * 2) = 2 * x" using dp assms(1) by (simp only: big_div_pos less_imp_le mult_pos_pos zero_less_numeral)
  show ?thesis unfolding invariantStep_def Let_def d den num q using nz by (simp only: if_False)
qed

lemma amount_out_bounds:
  "StableSwapAmountOut a rin (Some rout) A f = Some out \<Longrightarrow> 0 < out \<and> out < rout"
  by (auto simp: StableSwapAmountOut_def Let_def split: option.splits if_splits)

section \<open>Fee accounting\<close>

lemma vsum_map: "vsum f (map (\<lambda>(k, v). (k, g v)) m) = vsum (f \<circ> g) m"
  by (induction m) auto

lemma vsum_add: "vsum (\<lambda>v. f v + g v :: int) m = vsum f m + vsum g m"
  by (induction m) auto

lemma activeTotal_nonneg: "0 \<le> activeTotal p"
proof -
  have "0 \<le> vsum cp_Liquidity (filter (\<lambda>(_, pos). feeActive p pos) m)" for m
    by (induction m) (auto simp: feeActive_def)
  then show ?thesis by (simp add: activeTotal_def)
qed

text \<open>The shares are nonnegative and never exceed the fee.\<close>

lemma feeShare_nonneg: "0 \<le> fee \<Longrightarrow> 0 \<le> feeShare p fee pos"
  using activeTotal_nonneg [of p]
  by (auto simp: feeShare_def feeActive_def big_div_def div_int_pos_iff)

lemma distributed_le:
  assumes "0 \<le> fee" "activeTotal p \<noteq> 0"
  shows "vsum (feeShare p fee) (pl_Positions p) \<le> fee"
proof -
  let ?T = "activeTotal p"
  have T: "0 < ?T" using activeTotal_nonneg [of p] assms(2) by simp
  have "vsum (feeShare p fee) m * ?T \<le> fee * vsum cp_Liquidity (filter (\<lambda>(_, pos). feeActive p pos) m)" for m
  proof (induction m)
    case (Cons x m)
    obtain k pos where x: "x = (k, pos)" by (cases x)
    have "feeShare p fee pos * ?T \<le> (if feeActive p pos then fee * cp_Liquidity pos else 0)"
      using T div_mult_le_self [OF T, of "fee * cp_Liquidity pos"] by (simp add: feeShare_def)
    with Cons show ?case by (auto simp: x distrib_left distrib_right split: if_splits)
  qed simp
  from this [of "pl_Positions p"] have "vsum (feeShare p fee) (pl_Positions p) * ?T \<le> fee * ?T"
    by (simp add: activeTotal_def)
  with T show ?thesis by simp
qed

text \<open>Everything a pool owes in one token: to its positions, and what rounding has kept.\<close>

definition owed :: "bool \<Rightarrow> ConcentratedPool \<Rightarrow> int" where
  "owed token0 p = (if token0 then vsum cp_Owed0 (pl_Positions p) + pl_Rem0 p
     else vsum cp_Owed1 (pl_Positions p) + pl_Rem1 p)"

lemma credited:
  "cp_Owed0 \<circ> (\<lambda>pos. if feeActive p pos then creditFee True (feeShare p fee pos) pos else pos) =
    (\<lambda>pos. cp_Owed0 pos + feeShare p fee pos)"
  "cp_Owed1 \<circ> (\<lambda>pos. if feeActive p pos then creditFee True (feeShare p fee pos) pos else pos) = cp_Owed1"
  "cp_Owed0 \<circ> (\<lambda>pos. if feeActive p pos then creditFee False (feeShare p fee pos) pos else pos) = cp_Owed0"
  "cp_Owed1 \<circ> (\<lambda>pos. if feeActive p pos then creditFee False (feeShare p fee pos) pos else pos) =
    (\<lambda>pos. cp_Owed1 pos + feeShare p fee pos)"
  by (auto simp: creditFee_def feeShare_def)

lemma accrue_owed:
  "owed tk (accruePositionFee fee token0 p) = owed tk p + (if tk = token0 then max 0 fee else 0)"
proof -
  consider "fee \<le> 0" | "0 < fee" "activeTotal p = 0" | "0 < fee" "activeTotal p \<noteq> 0" by linarith
  then show ?thesis
  proof cases
    case 3
    show ?thesis
      using 3 by (cases token0; cases tk) (simp_all add: accruePositionFee_def owed_def addRemainder_def Let_def
        vsum_map credited vsum_add)
  qed (auto simp: accruePositionFee_def owed_def addRemainder_def max_def)
qed

lemma accrue_rem: "0 \<le> pl_Rem0 p \<Longrightarrow> 0 \<le> pl_Rem0 (accruePositionFee fee token0 p)"
  "0 \<le> pl_Rem1 p \<Longrightarrow> 0 \<le> pl_Rem1 (accruePositionFee fee token0 p)"
  using distributed_le [of fee p] by (auto simp: accruePositionFee_def addRemainder_def Let_def)

lemma accrue_fields [simp]:
  "pl_Price (accruePositionFee fee t0 p) = pl_Price p" "pl_Liquidity (accruePositionFee fee t0 p) = pl_Liquidity p"
  "pl_Ticks (accruePositionFee fee t0 p) = pl_Ticks p" "pl_FeeBPS (accruePositionFee fee t0 p) = pl_FeeBPS p"
  by (simp_all add: accruePositionFee_def addRemainder_def Let_def)

section \<open>Ticks\<close>

definition tickNet :: "ConcentratedTick list \<Rightarrow> int \<Rightarrow> int" where
  "tickNet ts x = sum_list (map ct_LiquidityNet (filter (\<lambda>t. ct_SqrtPriceX18 t = x) ts))"

lemma tickNet_append: "tickNet (as @ bs) x = tickNet as x + tickNet bs x"
  by (simp add: tickNet_def)

lemma tickNet_Cons: "tickNet (a # bs) x = (if ct_SqrtPriceX18 a = x then ct_LiquidityNet a else 0) + tickNet bs x"
  by (simp add: tickNet_def)

lemma tickNet_perm: "mset as = mset bs \<Longrightarrow> tickNet as x = tickNet bs x"
proof -
  assume "mset as = mset bs"
  then have "mset (map ct_LiquidityNet (filter (\<lambda>t. ct_SqrtPriceX18 t = x) as)) =
    mset (map ct_LiquidityNet (filter (\<lambda>t. ct_SqrtPriceX18 t = x) bs))" by (simp add: mset_filter)
  then show ?thesis unfolding tickNet_def by (simp flip: sum_mset_sum_list)
qed

text \<open>Adding to a tick changes the net liquidity at its price only, whether or not the tick exists.\<close>

lemma tickNet_addTick: "tickNet (addTick pr d ts) x = tickNet ts x + (if x = pr then d else 0)"
proof (cases "list_ex (\<lambda>t. ct_SqrtPriceX18 t = pr) ts")
  case True
  let ?a = "takeWhile (\<lambda>t. ct_SqrtPriceX18 t \<noteq> pr) ts" and ?b = "dropWhile (\<lambda>t. ct_SqrtPriceX18 t \<noteq> pr) ts"
  from True have ne: "?b \<noteq> []" by (auto simp: list_ex_iff)
  then have hd: "ct_SqrtPriceX18 (hd ?b) = pr" using hd_dropWhile [OF ne] by simp
  have "ts = ?a @ hd ?b # tl ?b" using ne by simp
  then have "tickNet ts x = tickNet ?a x + tickNet (hd ?b # tl ?b) x" by (metis tickNet_append)
  with True hd show ?thesis by (auto simp: addTick_def tickNet_append tickNet_Cons)
next
  case False
  then show ?thesis
    using tickNet_perm [of "sort_key ct_SqrtPriceX18 (ts @ [\<lparr>ct_SqrtPriceX18 = pr, ct_LiquidityNet = d\<rparr>])"
      "ts @ [\<lparr>ct_SqrtPriceX18 = pr, ct_LiquidityNet = d\<rparr>]" x]
    by (auto simp: addTick_def tickNet_append tickNet_Cons) (simp_all add: tickNet_def)
qed

text \<open>The ticks of a pool are sorted by price, with one tick per price: adding to a tick keeps this, and replaces the tick at
  its price by one with the sum as net liquidity. A tick whose net liquidity has become zero stays.\<close>

definition ticks_ok :: "ConcentratedTick list \<Rightarrow> bool" where
  "ticks_ok ts \<longleftrightarrow> sorted_wrt (<) (map ct_SqrtPriceX18 ts)"

lemma ticks_okD: "ticks_ok ts \<Longrightarrow> s \<in> set ts \<Longrightarrow> t \<in> set ts \<Longrightarrow> ct_SqrtPriceX18 s = ct_SqrtPriceX18 t \<Longrightarrow> s = t"
  unfolding ticks_ok_def strict_sorted_iff distinct_map by (auto dest: inj_onD)

lemma tickNet_absent: "\<forall>t \<in> set ts. ct_SqrtPriceX18 t \<noteq> x \<Longrightarrow> tickNet ts x = 0"
  by (simp add: tickNet_def filter_False)

lemma tickNet_found: "ticks_ok ts \<Longrightarrow> t \<in> set ts \<Longrightarrow> tickNet ts (ct_SqrtPriceX18 t) = ct_LiquidityNet t"
proof (induction ts)
  case (Cons s ts)
  then have ok: "ticks_ok ts" "\<forall>x \<in> set ts. ct_SqrtPriceX18 s < ct_SqrtPriceX18 x" by (simp_all add: ticks_ok_def)
  show ?case
  proof (cases "t = s")
    case True
    have "tickNet ts (ct_SqrtPriceX18 s) = 0" by (rule tickNet_absent) (use ok(2) in fastforce)
    with True show ?thesis by (simp add: tickNet_Cons)
  next
    case False
    with Cons.prems(2) ok(2) have "t \<in> set ts" "ct_SqrtPriceX18 s \<noteq> ct_SqrtPriceX18 t" by fastforce+
    with Cons.IH ok(1) show ?thesis by (simp add: tickNet_Cons)
  qed
qed simp

lemma tick_mem:
  assumes ok: "ticks_ok ts"
  shows "ct_LiquidityNet t = tickNet ts (ct_SqrtPriceX18 t) \<longleftrightarrow>
    t \<in> set ts \<or> ct_SqrtPriceX18 t \<notin> ct_SqrtPriceX18 ` set ts \<and> ct_LiquidityNet t = 0"
proof (cases "ct_SqrtPriceX18 t \<in> ct_SqrtPriceX18 ` set ts")
  case True
  then obtain s where s: "s \<in> set ts" "ct_SqrtPriceX18 s = ct_SqrtPriceX18 t" by auto
  have n: "tickNet ts (ct_SqrtPriceX18 t) = ct_LiquidityNet s" using tickNet_found [OF ok s(1)] s(2) by simp
  have "t \<in> set ts \<longleftrightarrow> t = s" using ticks_okD [OF ok s(1) _ s(2)] s(1) by blast
  moreover have "t = s \<longleftrightarrow> ct_LiquidityNet t = ct_LiquidityNet s" using s(2) by (cases s; cases t) auto
  ultimately show ?thesis using True n by simp
next
  case False
  then have "\<forall>x \<in> set ts. ct_SqrtPriceX18 x \<noteq> ct_SqrtPriceX18 t" by (metis image_eqI)
  with False show ?thesis using tickNet_absent by auto
qed

lemma addTick_ticks:
  assumes ok: "ticks_ok ts"
  shows "ticks_ok (addTick pr d ts) \<and>
    (t \<in> set (addTick pr d ts) \<longleftrightarrow> (if ct_SqrtPriceX18 t = pr then ct_LiquidityNet t = tickNet ts pr + d else t \<in> set ts))"
proof (cases "list_ex (\<lambda>t. ct_SqrtPriceX18 t = pr) ts")
  case True
  obtain us c vs where ts: "ts = us @ c # vs" "ct_SqrtPriceX18 c = pr"
    and add: "addTick pr d ts = us @ c\<lparr>ct_LiquidityNet := ct_LiquidityNet c + d\<rparr> # vs"
  proof -
    let ?a = "takeWhile (\<lambda>t. ct_SqrtPriceX18 t \<noteq> pr) ts" and ?b = "dropWhile (\<lambda>t. ct_SqrtPriceX18 t \<noteq> pr) ts"
    from True have ne: "?b \<noteq> []" by (auto simp: list_ex_iff)
    show thesis
    proof (rule that [of ?a "hd ?b" "tl ?b"])
      show "ts = ?a @ hd ?b # tl ?b" using ne by simp
      show "ct_SqrtPriceX18 (hd ?b) = pr" using hd_dropWhile [OF ne] by simp
      show "addTick pr d ts = ?a @ (hd ?b)\<lparr>ct_LiquidityNet := ct_LiquidityNet (hd ?b) + d\<rparr> # tl ?b"
        using True by (simp add: addTick_def Let_def)
    qed
  qed
  let ?c = "c\<lparr>ct_LiquidityNet := ct_LiquidityNet c + d\<rparr>"
  have n: "tickNet ts pr = ct_LiquidityNet c" using tickNet_found [OF ok, of c] ts by simp
  have "distinct (map ct_SqrtPriceX18 (us @ c # vs))" using ok ts(1) by (simp add: ticks_ok_def strict_sorted_iff)
  then have "pr \<notin> ct_SqrtPriceX18 ` (set us \<union> set vs)" using ts(2) by auto
  then have o: "ct_SqrtPriceX18 x \<noteq> pr" if "x \<in> set us \<union> set vs" for x using that by blast
  have "t = ?c \<longleftrightarrow> ct_SqrtPriceX18 t = pr \<and> ct_LiquidityNet t = ct_LiquidityNet c + d"
    using ts(2) by (cases c; cases t) auto
  then have "t \<in> set (addTick pr d ts) \<longleftrightarrow> t \<in> set us \<union> set vs \<or> (ct_SqrtPriceX18 t = pr \<and> ct_LiquidityNet t = tickNet ts pr + d)"
    unfolding add n by auto
  moreover have "t \<in> set ts \<longleftrightarrow> t \<in> set us \<union> set vs" if "ct_SqrtPriceX18 t \<noteq> pr" using that ts by auto
  ultimately have "t \<in> set (addTick pr d ts) \<longleftrightarrow> (if ct_SqrtPriceX18 t = pr then ct_LiquidityNet t = tickNet ts pr + d else t \<in> set ts)"
    using o [of t] by auto
  moreover have "ticks_ok (addTick pr d ts)" using ok ts(2) unfolding ticks_ok_def add unfolding ts(1) by simp
  ultimately show ?thesis by blast
next
  case False
  then have abs: "\<forall>t \<in> set ts. ct_SqrtPriceX18 t \<noteq> pr" by (auto simp: list_ex_iff)
  let ?n = "\<lparr>ct_SqrtPriceX18 = pr, ct_LiquidityNet = d\<rparr>"
  have add: "addTick pr d ts = sort_key ct_SqrtPriceX18 (ts @ [?n])" using False by (simp add: addTick_def)
  have "distinct (map ct_SqrtPriceX18 (ts @ [?n]))" using ok abs by (auto simp: ticks_ok_def strict_sorted_iff)
  then have "distinct (map ct_SqrtPriceX18 (sort_key ct_SqrtPriceX18 (ts @ [?n])))"
    by (simp only: distinct_map distinct_sort set_sort)
  then have "ticks_ok (addTick pr d ts)" unfolding add ticks_ok_def strict_sorted_iff by simp
  moreover have "t = ?n \<longleftrightarrow> ct_SqrtPriceX18 t = pr \<and> ct_LiquidityNet t = d" by (cases t) auto
  ultimately show ?thesis using abs tickNet_absent [OF abs] unfolding add by auto
qed

text \<open>Adding to two ticks and taking it back leaves the ticks as they were, but for a tick of net liquidity zero at a new price.\<close>

lemma tick_undo:
  fixes l :: int
  assumes ok: "ticks_ok ts" and ne: "lo \<noteq> up"
  defines "ts2 \<equiv> addTick up l (addTick lo (- l) (addTick up (- l) (addTick lo l ts)))"
  shows "ticks_ok ts2 \<and> set ts2 = set ts \<union> {t. ct_SqrtPriceX18 t \<in> {lo, up} - ct_SqrtPriceX18 ` set ts \<and> ct_LiquidityNet t = 0}"
proof -
  note a1 = addTick_ticks [OF ok, of lo l]
  note a2 = addTick_ticks [OF a1 [THEN conjunct1], of up "- l"]
  note a3 = addTick_ticks [OF a2 [THEN conjunct1], of lo "- l"]
  note a4 = addTick_ticks [OF a3 [THEN conjunct1], of up l]
  have "t \<in> set ts2 \<longleftrightarrow> (if ct_SqrtPriceX18 t \<in> {lo, up} then ct_LiquidityNet t = tickNet ts (ct_SqrtPriceX18 t) else t \<in> set ts)" for t
    unfolding ts2_def a4 [THEN conjunct2] a3 [THEN conjunct2] a2 [THEN conjunct2] a1 [THEN conjunct2] tickNet_addTick using ne by simp
  then have "t \<in> set ts2 \<longleftrightarrow> t \<in> set ts \<or> (ct_SqrtPriceX18 t \<in> {lo, up} - ct_SqrtPriceX18 ` set ts \<and> ct_LiquidityNet t = 0)" for t
    unfolding tick_mem [OF ok] by auto
  then show ?thesis using a4 [THEN conjunct1] unfolding ts2_def [symmetric] by auto
qed

section \<open>The swap loop\<close>

text \<open>With positive ticks the price moves only in the direction of the swap, stays positive or at a
  rounded-down zero, and the output never shrinks.\<close>

lemma step_down:
  assumes "0 < l" "0 < r" "0 < pr"
  shows "0 \<le> mulDiv (l * pr) ammScaleX18 (l * ammScaleX18 + r * pr)" "mulDiv (l * pr) ammScaleX18 (l * ammScaleX18 + r * pr) \<le> pr"
proof -
  have s: "0 < ammScaleX18" by (simp add: ammScaleX18_def)
  define D where "D = l * ammScaleX18 + r * pr"
  have D: "0 < D" "l * ammScaleX18 \<le> D" using assms s by (simp_all add: D_def add_pos_pos)
  have m: "mulDiv (l * pr) ammScaleX18 D = l * pr * ammScaleX18 div D" using D by (simp add: mulDiv_def)
  have "l * pr * ammScaleX18 = pr * (l * ammScaleX18)" by (simp add: ac_simps)
  also have "\<dots> \<le> pr * D" using D assms(3) by (intro mult_left_mono) simp_all
  finally have "l * pr * ammScaleX18 div D \<le> pr * D div D" using D by (intro zdiv_mono1)
  then show "mulDiv (l * pr) ammScaleX18 (l * ammScaleX18 + r * pr) \<le> pr" using D m by (simp flip: D_def)
  show "0 \<le> mulDiv (l * pr) ammScaleX18 (l * ammScaleX18 + r * pr)"
    using m D s assms by (simp flip: D_def add: pos_imp_zdiv_nonneg_iff)
qed

lemma mulDiv_nonneg: "0 \<le> a \<Longrightarrow> 0 \<le> b \<Longrightarrow> 0 \<le> d \<Longrightarrow> 0 \<le> mulDiv a b d"
  by (cases "d = 0") (simp_all add: mulDiv_def pos_imp_zdiv_nonneg_iff)

lemma swapLoop_direction:
  "swapLoop ts z pr l r out = Some (pr', l', out') \<Longrightarrow> \<forall>t \<in> set ts. 0 < ct_SqrtPriceX18 t \<Longrightarrow> 0 < pr \<Longrightarrow>
     out \<le> out' \<and> (if z then pr' \<le> pr \<and> 0 \<le> pr' else pr \<le> pr')"
proof (induction ts z pr l r out rule: swapLoop.induct)
  case (1 ts z pr l r out)
  have s: "0 < ammScaleX18" by (simp add: ammScaleX18_def)
  show ?case
  proof (cases "r \<le> 0 \<or> l \<le> 0 \<or> nextTick z pr ts = None")
    case True
    with "1.prems" show ?thesis by (subst (asm) swapLoop.simps) (auto split: if_splits)
  next
    case False
    then obtain t where t: "nextTick z pr ts = Some t" "0 < r" "0 < l" by auto
    let ?g = "ct_SqrtPriceX18 t"
    have g: "0 < ?g" "if z then ?g < pr else pr < ?g" using nextTick_Some [OF t(1)] "1.prems"(2) by auto
    show ?thesis
    proof (cases z)
      case True
      let ?dx = "mulDiv (l * (pr - ?g)) ammScaleX18 (pr * ?g)"
      have up: "0 \<le> mulDiv l (pr - ?g) ammScaleX18" using t g True s by (intro mulDiv_nonneg) auto
      show ?thesis
      proof (cases "r < ?dx")
        case lt: True
        let ?n = "mulDiv (l * pr) ammScaleX18 (l * ammScaleX18 + r * pr)"
        have "0 \<le> mulDiv l (pr - ?n) ammScaleX18"
          using step_down [OF t(3,2) "1.prems"(3)] t s by (intro mulDiv_nonneg) auto
        moreover have "(pr', l', out') = (?n, l, out + mulDiv l (pr - ?n) ammScaleX18)"
          using "1.prems"(1) t True lt by (subst (asm) swapLoop.simps) (auto simp: Let_def)
        ultimately show ?thesis using True step_down [OF t(3,2) "1.prems"(3)] by simp
      next
        case False
        then have "swapLoop ts True ?g (l - ct_LiquidityNet t) (r - ?dx) (out + mulDiv l (pr - ?g) ammScaleX18) = Some (pr', l', out')"
          using "1.prems"(1) t True by (subst (asm) swapLoop.simps) (simp add: Let_def)
        with "1.IH"(1) [OF _ _ t(1) refl True refl] False t True "1.prems"(2) g up show ?thesis by fastforce
      qed
    next
      case z: False
      let ?dy = "mulDiv l (?g - pr) ammScaleX18"
      have up: "0 \<le> big_div (l * (?g - pr) * ammScaleX18) (pr * ?g)"
        using t g z s "1.prems"(3) by (simp add: pos_imp_zdiv_nonneg_iff)
      show ?thesis
      proof (cases "r < ?dy")
        case lt: True
        let ?n = "pr + mulDiv r ammScaleX18 l"
        have n: "0 \<le> mulDiv r ammScaleX18 l" using t s by (intro mulDiv_nonneg) auto
        then have "0 \<le> big_div (l * (?n - pr) * ammScaleX18) (pr * ?n)"
          using t s "1.prems"(3) by (simp add: pos_imp_zdiv_nonneg_iff)
        moreover have "(pr', l', out') = (?n, l, out + big_div (l * (?n - pr) * ammScaleX18) (pr * ?n))"
          using "1.prems"(1) t z lt by (subst (asm) swapLoop.simps) (auto simp: Let_def)
        ultimately show ?thesis using z n by simp
      next
        case False
        then have "swapLoop ts False ?g (l + ct_LiquidityNet t) (r - ?dy) (out + big_div (l * (?g - pr) * ammScaleX18) (pr * ?g)) = Some (pr', l', out')"
          using "1.prems"(1) t z by (subst (asm) swapLoop.simps) (simp add: Let_def)
        with "1.IH"(2) [OF _ _ t(1) refl z refl] False t z "1.prems"(2) g up show ?thesis by fastforce
      qed
    qed
  qed
qed

section \<open>Properties\<close>

text \<open>The amplified pool. A balanced pool's invariant is found at once and is the sum of the two
  balances, for every amplification in range; and any quote that is returned leaves the
  reserve of the output token positive.\<close>

theorem stable_swap_balanced:
  "(\<forall>x a. 0 < x \<and> 1 \<le> a \<and> a \<le> 1000000 \<longrightarrow> StableSwapInvariant (Some x) (Some x) a = Some (2 * x)) \<and>
   (\<forall>amount rin rout a f out. StableSwapAmountOut amount rin (Some rout) a f = Some out \<longrightarrow> 0 < out \<and> out < rout)"
proof (intro conjI allI impI)
  fix x a :: int
  assume a: "0 < x \<and> 1 \<le> a \<and> a \<le> 1000000"
  then have s: "invariantStep x x (a * 2) (2 * x) = Some (2 * x)" by (intro balanced_step) auto
  have "invariantLoop 255 x x (a * 2) (2 * x) = invariantLoop (Suc 254) x x (a * 2) (2 * x)" by simp
  also have "\<dots> = Some (2 * x)" by (simp only: invariantLoop.simps s option.case) simp
  finally show "StableSwapInvariant (Some x) (Some x) a = Some (2 * x)"
    using a by (simp add: StableSwapInvariant_def)
qed (simp_all add: amount_out_bounds)

lemma stable_swap_balanced_witness: "StableSwapInvariant (Some 1000) (Some 1000) 100 = Some 2000"
  using stable_swap_balanced by fastforce

text \<open>C12: A swap of a pool with positive ticks pays a positive output, moves the price only in its
  direction, leaves ticks and fee rate alone, and books exactly the input fee as owed to positions or
  as rounding remainder of the input token.\<close>

theorem swap_effects:
  assumes "Swap (Some a) z p = Some (p', out)" "\<forall>t \<in> set (pl_Ticks p). 0 < ct_SqrtPriceX18 t"
  shows "0 < out \<and> pl_Ticks p' = pl_Ticks p \<and> pl_FeeBPS p' = pl_FeeBPS p \<and>
    (if z then price p' \<le> price p else price p \<le> price p') \<and>
    owed z p' = owed z p + (a - a * (10000 - pl_FeeBPS p) div 10000) \<and> owed (\<not> z) p' = owed (\<not> z) p"
proof -
  let ?net = "mulDiv a (10000 - pl_FeeBPS p) 10000"
  have g: "0 < a" "0 < price p" "0 \<le> pl_FeeBPS p" "pl_FeeBPS p \<le> 1000"
    using assms(1) by (auto simp: Swap_def split: if_splits)
  obtain pr l where s: "swapLoop (pl_Ticks p) z (price p) (liq p) ?net 0 = Some (pr, l, out)" "0 < out"
    "p' = accruePositionFee (a - ?net) z (p\<lparr>pl_Price := Some pr, pl_Liquidity := Some l\<rparr>)"
    using assms(1) by (auto simp: Swap_def swapInPlace_def Let_def split: if_splits option.splits)
  have net: "?net = a * (10000 - pl_FeeBPS p) div 10000" by (simp add: mulDiv_def)
  have "?net \<le> a" unfolding net using g by (intro bps_le) auto
  then have o: "owed tk p' = owed tk p + (if tk = z then a - ?net else 0)" for tk
    by (simp add: s(3) accrue_owed) (simp add: owed_def)
  have f: "price p' = pr" "pl_Ticks p' = pl_Ticks p" "pl_FeeBPS p' = pl_FeeBPS p" by (simp_all add: s(3) price_def)
  show ?thesis
    unfolding f using swapLoop_direction [OF s(1) assms(2) g(2)] s(2) o [of z] o [of "\<not> z"] net by simp
qed

definition demo_pool :: ConcentratedPool where
  "demo_pool = \<lparr>pl_Price = Some (2 * ammScaleX18), pl_Liquidity = Some 0, pl_FeeBPS = 0, pl_Ticks = [], pl_Positions = [],
     pl_Rem0 = 0, pl_Rem1 = 0\<rparr>"

definition demo_range :: "ConcentratedPool option" where
  "demo_range = AddPosition ''p'' ''lp'' (Some ammScaleX18) (Some (3 * ammScaleX18)) (Some 4000) demo_pool"

lemma swap_effects_witness:
  "\<exists>p p' out. demo_range = Some p \<and> Swap (Some 1000) True p = Some (p', out) \<and> 0 < out \<and> price p' \<le> price p"
proof -
  have d: "case demo_range of None \<Rightarrow> False | Some p \<Rightarrow> list_all (\<lambda>t. 0 < ct_SqrtPriceX18 t) (pl_Ticks p) \<and> Swap (Some 1000) True p \<noteq> None"
    by code_simp
  then obtain p p' out where p: "demo_range = Some p" "\<forall>t \<in> set (pl_Ticks p). 0 < ct_SqrtPriceX18 t" "Swap (Some 1000) True p = Some (p', out)"
    by (auto simp: list_all_iff split: option.splits)
  from swap_effects [OF p(3,2)] p show ?thesis by auto
qed

text \<open>A swap that ends exactly on the lower tick of a range locks the range. The loop takes the range out
  of the active liquidity, but the position test still counts a price equal to the lower end as
  inside, so removing the position fails with an underflow; with no other liquidity no
  swap in either direction can move the price again.\<close>

theorem exact_tick_locks_position:
  "case demo_range of None \<Rightarrow> False | Some p \<Rightarrow>
    (case Swap (Some 2000) True p of None \<Rightarrow> False | Some (p', out) \<Rightarrow>
       out = 4000 \<and> price p' = ammScaleX18 \<and> liq p' = 0 \<and> map_of (pl_Positions p') ''p'' \<noteq> None \<and>
       RemovePosition ''p'' ''lp'' (Some 4000) p' = None \<and>
       Swap (Some 2000) True p' = None \<and> Swap (Some 2000) False p' = None)"
  by code_simp

lemma mdel_mput_new: "map_of m k = None \<Longrightarrow> mdel k (mput k v m) = m"
  by (induction m) auto

text \<open>C13: Opening a position and removing all of it undoes it, except for empty ticks. The price, the active
  liquidity, the positions and the net liquidity at every price are as before. The list of ticks is not: as the code never
  deletes a tick, a range end that was no tick before stays behind as a tick of net liquidity zero. Exactly these are added, and the list stays
  sorted with one tick per price.\<close>

theorem position_roundtrip:
  assumes "AddPosition pid ow (Some lo) (Some up) (Some l) p = Some p1" "map_of (pl_Positions p) pid = None"
    and "0 \<le> liq p" "pl_Liquidity p \<noteq> None"
  shows "\<exists>p2 pos. RemovePosition pid ow (Some l) p1 = Some (p2, pos) \<and> cp_Liquidity pos = 0 \<and>
    pl_Price p2 = pl_Price p \<and> pl_Liquidity p2 = pl_Liquidity p \<and> pl_Positions p2 = pl_Positions p \<and>
    (\<forall>x. tickNet (pl_Ticks p2) x = tickNet (pl_Ticks p) x) \<and>
    (ticks_ok (pl_Ticks p) \<longrightarrow> ticks_ok (pl_Ticks p2) \<and> set (pl_Ticks p2) = set (pl_Ticks p) \<union>
       {t. ct_SqrtPriceX18 t \<in> {lo, up} - ct_SqrtPriceX18 ` set (pl_Ticks p) \<and> ct_LiquidityNet t = 0})"
proof -
  obtain pr where pr: "pl_Price p = Some pr" "0 < l" "lo < up" "ow \<noteq> []"
    using assms(1) by (auto simp: AddPosition_def AddRange_def split: option.splits if_splits)
  let ?in = "lo \<le> pr \<and> pr < up"
  let ?pos = "\<lparr>cp_ID = pid, cp_Owner = ow, cp_Lower = lo, cp_Upper = up, cp_Liquidity = l, cp_Owed0 = 0, cp_Owed1 = 0\<rparr>"
  have p1: "pl_Price p1 = Some pr" "pl_Ticks p1 = addTick up (- l) (addTick lo l (pl_Ticks p))"
    "pl_Liquidity p1 = (if ?in then Some (liq p + l) else pl_Liquidity p)"
    "pl_Positions p1 = mput pid ?pos (pl_Positions p)"
    using assms(1) pr by (auto simp: AddPosition_def AddRange_def liq_def Let_def split: if_splits)
  have m: "map_of (pl_Positions p1) pid = Some ?pos" by (simp add: p1(4))
  obtain L where L: "pl_Liquidity p = Some L" "0 \<le> L" using assms(3,4) by (auto simp: liq_def)
  let ?ts = "pl_Ticks p" and ?ts2 = "addTick up l (addTick lo (- l) (pl_Ticks p1))"
  have *: "\<exists>p2 pos. RemovePosition pid ow (Some l) p1 = Some (p2, pos) \<and> cp_Liquidity pos = 0 \<and>
    pl_Price p2 = pl_Price p \<and> pl_Liquidity p2 = pl_Liquidity p \<and> pl_Positions p2 = pl_Positions p \<and> pl_Ticks p2 = ?ts2"
    using m pr L mdel_mput_new [OF assms(2), of ?pos]
    by (auto simp: RemovePosition_def inRange_def price_def liq_def p1 Let_def)
  have net: "\<forall>x. tickNet ?ts2 x = tickNet ?ts x" by (simp add: p1(2) tickNet_addTick)
  have fin: "ticks_ok ?ts \<longrightarrow> ticks_ok ?ts2 \<and> set ?ts2 = set ?ts \<union>
      {t. ct_SqrtPriceX18 t \<in> {lo, up} - ct_SqrtPriceX18 ` set ?ts \<and> ct_LiquidityNet t = 0}"
    unfolding p1(2) using tick_undo [of ?ts lo up l] pr(3) by blast
  from * obtain p2 pos where r: "RemovePosition pid ow (Some l) p1 = Some (p2, pos)" "cp_Liquidity pos = 0"
    "pl_Price p2 = pl_Price p" "pl_Liquidity p2 = pl_Liquidity p" "pl_Positions p2 = pl_Positions p" "pl_Ticks p2 = ?ts2" by blast
  with net [folded r(6)] fin [folded r(6)] show ?thesis by blast
qed

lemma position_roundtrip_witness:
  "\<exists>p1 p2 pos. AddPosition ''p'' ''lp'' (Some ammScaleX18) (Some (3 * ammScaleX18)) (Some 4000) demo_pool = Some p1 \<and>
     RemovePosition ''p'' ''lp'' (Some 4000) p1 = Some (p2, pos) \<and> pl_Positions p2 = [] \<and> pl_Liquidity p2 = Some 0 \<and>
     set (pl_Ticks p2) = {t. ct_SqrtPriceX18 t \<in> {ammScaleX18, 3 * ammScaleX18} \<and> ct_LiquidityNet t = 0}"
proof -
  obtain p1 where a: "AddPosition ''p'' ''lp'' (Some ammScaleX18) (Some (3 * ammScaleX18)) (Some 4000) demo_pool = Some p1"
    by (simp add: AddPosition_def AddRange_def demo_pool_def ammScaleX18_def Let_def)
  have f: "pl_Liquidity demo_pool = Some 0" "liq demo_pool = 0" "pl_Positions demo_pool = []" "pl_Ticks demo_pool = []"
    "ticks_ok (pl_Ticks demo_pool)" by (simp_all add: demo_pool_def liq_def ticks_ok_def)
  from position_roundtrip [OF a] f obtain p2 pos where "RemovePosition ''p'' ''lp'' (Some 4000) p1 = Some (p2, pos)"
    "pl_Positions p2 = []" "pl_Liquidity p2 = Some 0"
    "set (pl_Ticks p2) = {t. ct_SqrtPriceX18 t \<in> {ammScaleX18, 3 * ammScaleX18} \<and> ct_LiquidityNet t = 0}" by auto
  with a show ?thesis by blast
qed

end
