(* ===== verification/ArbAuction.thy ===== *)
theory ArbAuction
  imports Economics
begin

text \<open>
  Keeper bonds and the commit-reveal auction for arbitrage opportunities (\<open>arb_auction.go\<close>): bonding,
  unbonding, opening, commitments, reveals, finalization and the expiry of a winner. Execution runs
  the path finder on live pools and is not modelled.
\<close>

record ProtocolArbPolicy =
  ap_Enabled :: bool
  ap_RequireAuction :: bool
  ap_AuthorizedKeeper :: string
  ap_MaxCapitalBPS :: int
  ap_MinProfitBPS :: int
  ap_MinKeeperBond :: string
  ap_ExecutionTimeout :: u64
  ap_MissedSlashBPS :: int
  ap_UnbondDelay :: u64

record ArbBid =
  ab_Keeper :: string
  ab_Commitment :: string
  ab_FeeBPS :: int
  ab_Salt :: string
  ab_Revealed :: bool

record ArbAuction =
  aa_ID :: string
  aa_OpportunityHash :: string
  aa_CommitEnd :: u64
  aa_RevealEnd :: u64
  aa_Status :: string
  aa_Winner :: string
  aa_WinningFeeBPS :: int
  aa_Executed :: bool
  aa_Bids :: "(string, ArbBid) gomap"
  aa_Candidates :: "string list"
  aa_FailedWinners :: "string list"
  aa_ExecutionDeadline :: u64

record arb_state =
  as_econ :: econ_state
  as_Policy :: ProtocolArbPolicy
  as_Auctions :: "(string, ArbAuction) gomap"
  as_Bonds :: "(string, int) gomap"
  as_UnbondAt :: "(string, u64) gomap"

definition ProtocolArbKeeperBondEscrow :: string where
  "ProtocolArbKeeperBondEscrow = ''0x0000000000000000000000000000000000000e03''"

definition DefaultProtocolArbPolicy :: ProtocolArbPolicy where
  "DefaultProtocolArbPolicy = \<lparr>ap_Enabled = False, ap_RequireAuction = True, ap_AuthorizedKeeper = [],
     ap_MaxCapitalBPS = 1000, ap_MinProfitBPS = 50, ap_MinKeeperBond = ''100000'', ap_ExecutionTimeout = 20,
     ap_MissedSlashBPS = 1000, ap_UnbondDelay = 1000\<rparr>"

text \<open>The repairs of \<open>EnsureRuntimeState\<close> to the two policies.\<close>

definition ensureArbPolicy :: "ProtocolArbPolicy \<Rightarrow> ProtocolArbPolicy" where
  "ensureArbPolicy p0 = (let d = DefaultProtocolArbPolicy; p = (if ap_MaxCapitalBPS p0 = 0 then d else p0) in
     p\<lparr>ap_MinKeeperBond := (if ap_MinKeeperBond p = [] then ap_MinKeeperBond d else ap_MinKeeperBond p),
       ap_ExecutionTimeout := (if ap_ExecutionTimeout p = 0 then ap_ExecutionTimeout d else ap_ExecutionTimeout p),
       ap_MissedSlashBPS := (if ap_MissedSlashBPS p = 0 then ap_MissedSlashBPS d else ap_MissedSlashBPS p),
       ap_UnbondDelay := (if ap_UnbondDelay p = 0 then ap_UnbondDelay d else ap_UnbondDelay p)\<rparr>)"

definition ensureArb :: "arb_state \<Rightarrow> arb_state" where
  "ensureArb s = s\<lparr>as_econ := ensurePolicy (as_econ s), as_Policy := ensureArbPolicy (as_Policy s)\<rparr>"

definition bond_of :: "arb_state \<Rightarrow> string \<Rightarrow> int" where
  "bond_of s k = (case map_of (as_Bonds s) k of None \<Rightarrow> 0 | Some b \<Rightarrow> b)"

definition accts :: "arb_state \<Rightarrow> accounts" where "accts s = es_Accounts (as_econ s)"

definition set_accts :: "accounts \<Rightarrow> arb_state \<Rightarrow> arb_state" where
  "set_accts m s = s\<lparr>as_econ := (as_econ s)\<lparr>es_Accounts := m\<rparr>\<rparr>"

section \<open>Keeper bonds\<close>

definition BondArbKeeper :: "string \<Rightarrow> int \<Rightarrow> arb_state \<Rightarrow> arb_state \<times> unit econ_outcome" where
  "BondArbKeeper keeper0 amount s0 = (let keeper = norm_addr keeper0 in
     if \<not> ValidateAddress keeper \<or> amount \<le> 0 then (s0, EErr ''valid keeper and positive bond required'') else
     let s = ensureArb s0 in
     case subAccountBalance keeper amount (accts s) of
       None \<Rightarrow> (s, EErr ''insufficient keeper balance'')
     | Some m \<Rightarrow> ((set_accts (addAccountBalance ProtocolArbKeeperBondEscrow amount m) s)
         \<lparr>as_Bonds := mput keeper (bond_of s keeper + amount) (as_Bonds s),
          as_UnbondAt := mdel keeper (as_UnbondAt s)\<rparr>, EOk ()))"

definition RequestArbKeeperUnbond :: "string \<Rightarrow> u64 \<Rightarrow> arb_state \<Rightarrow> arb_state \<times> unit econ_outcome" where
  "RequestArbKeeperUnbond keeper0 height s0 = (let keeper = norm_addr keeper0; s = ensureArb s0 in
     if bond_of s keeper \<le> 0 then (s, EErr ''keeper has no bond'')
     else if list_ex (\<lambda>(_, a). aa_Status a = ''finalized'' \<and> equal_fold (aa_Winner a) keeper) (as_Auctions s)
     then (s, EErr ''keeper has active auction duty'')
     else (s\<lparr>as_UnbondAt := mput keeper (height + ap_UnbondDelay (as_Policy s)) (as_UnbondAt s)\<rparr>, EOk ()))"

definition WithdrawArbKeeperBond :: "string \<Rightarrow> u64 \<Rightarrow> arb_state \<Rightarrow> arb_state \<times> int econ_outcome" where
  "WithdrawArbKeeperBond keeper0 height s0 = (let keeper = norm_addr keeper0; s = ensureArb s0; bond = bond_of s keeper in
     case map_of (as_UnbondAt s) keeper of
       None \<Rightarrow> (s, EErr ''keeper bond remains locked'')
     | Some unlock \<Rightarrow>
         if height < unlock \<or> bond \<le> 0 then (s, EErr ''keeper bond remains locked'') else
         (case subAccountBalance ProtocolArbKeeperBondEscrow bond (accts s) of
            None \<Rightarrow> (s, EErr ''keeper bond escrow insolvent'')
          | Some m \<Rightarrow> ((set_accts (addAccountBalance keeper bond m) s)
              \<lparr>as_Bonds := mput keeper 0 (as_Bonds s), as_UnbondAt := mdel keeper (as_UnbondAt s)\<rparr>, EOk bond)))"

section \<open>The auction\<close>

definition arbBidCommitment :: "crypto \<Rightarrow> string \<Rightarrow> string \<Rightarrow> int \<Rightarrow> string \<Rightarrow> string" where
  "arbBidCommitment C auctionID keeper fee salt = hex0x (sha256 C
     (to_lower auctionID @ ''|'' @ to_lower keeper @ ''|'' @ int_str fee @ ''|'' @ salt))"

definition OpenArbAuction ::
  "crypto \<Rightarrow> string \<Rightarrow> u64 \<Rightarrow> u64 \<Rightarrow> u64 \<Rightarrow> arb_state \<Rightarrow> arb_state \<times> ArbAuction econ_outcome" where
  "OpenArbAuction C opportunityHash currentHeight commitBlocks revealBlocks s0 =
     (if trim_space opportunityHash = [] \<or> commitBlocks = 0 \<or> revealBlocks = 0
      then (s0, EErr ''valid opportunity and auction windows required'') else
      let s = ensureArb s0;
          aid = ''arb_'' @ hex_encode (take 12 (sha256 C (opportunityHash @ ''|'' @ u64_str currentHeight)));
          a = \<lparr>aa_ID = aid, aa_OpportunityHash = opportunityHash, aa_CommitEnd = currentHeight + commitBlocks,
               aa_RevealEnd = currentHeight + commitBlocks + revealBlocks, aa_Status = ''commit'', aa_Winner = [],
               aa_WinningFeeBPS = 0, aa_Executed = False, aa_Bids = [], aa_Candidates = [], aa_FailedWinners = [],
               aa_ExecutionDeadline = 0\<rparr> in
      (s\<lparr>as_Auctions := mput aid a (as_Auctions s)\<rparr>, EOk a))"

definition CommitArbBid ::
  "string \<Rightarrow> string \<Rightarrow> string \<Rightarrow> u64 \<Rightarrow> arb_state \<Rightarrow> arb_state \<times> unit econ_outcome" where
  "CommitArbBid aid keeper0 commitment height s0 = (let s = ensureArb s0; keeper = norm_addr keeper0 in
     case map_of (as_Auctions s) aid of
       None \<Rightarrow> (s, EErr ''auction is not accepting commitments'')
     | Some a \<Rightarrow>
         if aa_Status a \<noteq> ''commit'' \<or> aa_CommitEnd a < height \<or> \<not> ValidateAddress keeper \<or> length (trim_space commitment) \<noteq> 66
         then (s, EErr ''auction is not accepting commitments'')
         else if map_of (as_Bonds s) keeper = None \<or> bond_of s keeper < NewAmountFromStringOrZero (ap_MinKeeperBond (as_Policy s))
         then (s, EErr ''keeper bond below auction minimum'')
         else (s\<lparr>as_Auctions := mput aid (a\<lparr>aa_Bids := mput keeper \<lparr>ab_Keeper = keeper, ab_Commitment = to_lower commitment,
                 ab_FeeBPS = 0, ab_Salt = [], ab_Revealed = False\<rparr> (aa_Bids a)\<rparr>) (as_Auctions s)\<rparr>, EOk ()))"

definition RevealArbBid ::
  "crypto \<Rightarrow> string \<Rightarrow> string \<Rightarrow> int \<Rightarrow> string \<Rightarrow> u64 \<Rightarrow> arb_state \<Rightarrow> arb_state \<times> unit econ_outcome" where
  "RevealArbBid C aid keeper0 feeBPS salt height s0 = (let s = ensureArb s0; keeper = norm_addr keeper0 in
     case map_of (as_Auctions s) aid of
       None \<Rightarrow> (s, EErr ''auction is not in reveal window'')
     | Some a \<Rightarrow>
         if height \<le> aa_CommitEnd a \<or> aa_RevealEnd a < height \<or> feeBPS < 0 \<or> 2000 < feeBPS
         then (s, EErr ''auction is not in reveal window'')
         else (case map_of (aa_Bids a) keeper of
             None \<Rightarrow> (s, EErr ''bid reveal does not match'')
           | Some bid \<Rightarrow>
               if ab_Commitment bid \<noteq> arbBidCommitment C aid keeper feeBPS salt then (s, EErr ''bid reveal does not match'')
               else (s\<lparr>as_Auctions := mput aid (a\<lparr>aa_Status := ''reveal'',
                   aa_Bids := mput keeper (bid\<lparr>ab_FeeBPS := feeBPS, ab_Salt := salt, ab_Revealed := True\<rparr>) (aa_Bids a)\<rparr>)
                 (as_Auctions s)\<rparr>, EOk ())))"

text \<open>The revealed bids, cheapest fee first, ties by address.\<close>

definition rankedBids :: "ArbAuction \<Rightarrow> ArbBid list" where
  "rankedBids a = sort_key (\<lambda>b. (ab_FeeBPS b, ab_Keeper b)) (filter ab_Revealed (map snd (aa_Bids a)))"

definition FinalizeArbAuction :: "string \<Rightarrow> u64 \<Rightarrow> arb_state \<Rightarrow> arb_state \<times> ArbAuction econ_outcome" where
  "FinalizeArbAuction aid height s0 = (let s = ensureArb s0 in
     case map_of (as_Auctions s) aid of
       None \<Rightarrow> (s, EErr ''auction not finalizable'')
     | Some a \<Rightarrow>
         if height \<le> aa_RevealEnd a \<or> (aa_Status a \<noteq> ''commit'' \<and> aa_Status a \<noteq> ''reveal'')
         then (s, EErr ''auction not finalizable'')
         else (case rankedBids a of
             [] \<Rightarrow> let a' = a\<lparr>aa_Status := ''failed''\<rparr> in (s\<lparr>as_Auctions := mput aid a' (as_Auctions s)\<rparr>, EOk a')
           | b # bs \<Rightarrow>
               let a' = a\<lparr>aa_Candidates := aa_Candidates a @ map ab_Keeper (b # bs), aa_Status := ''finalized'',
                     aa_Winner := ab_Keeper b, aa_WinningFeeBPS := ab_FeeBPS b,
                     aa_ExecutionDeadline := height + ap_ExecutionTimeout (as_Policy s)\<rparr> in
               (s\<lparr>as_Auctions := mput aid a' (as_Auctions s),
                  as_Policy := (as_Policy s)\<lparr>ap_AuthorizedKeeper := ab_Keeper b\<rparr>\<rparr>, EOk a')))"

text \<open>The slash of a winner's bond; the bond is lowered before the escrow is checked.\<close>

definition slashOf :: "int \<Rightarrow> int \<Rightarrow> int" where
  "slashOf bps bond = (let raw = big_div (bond * bps) 10000; one = (if raw = 0 then 1 else raw) in
     if bond < one then bond else one)"

definition slashWinner :: "crypto \<Rightarrow> string \<Rightarrow> string \<Rightarrow> u64 \<Rightarrow> arb_state \<Rightarrow> arb_state \<times> unit econ_outcome" where
  "slashWinner C aid failed height s = (let bond = bond_of s failed in
     if bond \<le> 0 then (s, EOk ()) else
     let slash = slashOf (ap_MissedSlashBPS (as_Policy s)) bond;
         s1 = s\<lparr>as_Bonds := mput failed (bond - slash) (as_Bonds s)\<rparr> in
     case subAccountBalance ProtocolArbKeeperBondEscrow slash (accts s1) of
       None \<Rightarrow> (s1, EErr ''keeper bond escrow insolvent'')
     | Some m \<Rightarrow> let s2 = set_accts (addAccountBalance ProtocolRevenueEscrowAddress slash m) s1 in
         (case recordProtocolRevenueConsensus C ''slashing'' slash (''missed-arb:'' @ aid @ '':'' @ failed)
                 (i64 (uint height)) (as_econ s2) of
            (e, EOk _) \<Rightarrow> (s2\<lparr>as_econ := e\<rparr>, EOk ())
          | (e, EErr msg) \<Rightarrow> (s2\<lparr>as_econ := e\<rparr>, EErr msg)
          | (e, EPanic) \<Rightarrow> (s2\<lparr>as_econ := e\<rparr>, EPanic)))"

definition nextWinner :: "arb_state \<Rightarrow> string list \<Rightarrow> string list \<Rightarrow> string" where
  "nextWinner s failed candidates = (case find (\<lambda>c. c \<notin> set failed \<and> map_of (as_Bonds s) c \<noteq> None \<and>
       NewAmountFromStringOrZero (ap_MinKeeperBond (as_Policy s)) \<le> bond_of s c) (map to_lower candidates) of
     None \<Rightarrow> [] | Some c \<Rightarrow> c)"

definition ExpireArbAuction :: "crypto \<Rightarrow> string \<Rightarrow> u64 \<Rightarrow> arb_state \<Rightarrow> arb_state \<times> ArbAuction econ_outcome" where
  "ExpireArbAuction C aid height s0 = (let s = ensureArb s0 in
     case map_of (as_Auctions s) aid of
       None \<Rightarrow> (s, EErr ''auction execution deadline has not expired'')
     | Some a \<Rightarrow>
         if aa_Status a \<noteq> ''finalized'' \<or> aa_Executed a \<or> aa_ExecutionDeadline a = 0 \<or> height \<le> aa_ExecutionDeadline a
         then (s, EErr ''auction execution deadline has not expired'')
         else let failed = to_lower (aa_Winner a) in
           (case slashWinner C aid failed height s of
              (s1, EErr msg) \<Rightarrow> (s1, EErr msg)
            | (s1, EPanic) \<Rightarrow> (s1, EPanic)
            | (s1, EOk _) \<Rightarrow>
                let fw = aa_FailedWinners a @ [failed]; nxt = nextWinner s1 fw (aa_Candidates a);
                    a1 = a\<lparr>aa_FailedWinners := fw\<rparr>;
                    a2 = (if nxt = [] then a1\<lparr>aa_Status := ''failed''\<rparr>
                          else a1\<lparr>aa_Winner := nxt,
                            aa_WinningFeeBPS := (case map_of (aa_Bids a) nxt of None \<Rightarrow> 0 | Some b \<Rightarrow> ab_FeeBPS b),
                            aa_ExecutionDeadline := height + ap_ExecutionTimeout (as_Policy s1)\<rparr>) in
                (s1\<lparr>as_Auctions := mput aid a2 (as_Auctions s1),
                    as_Policy := (as_Policy s1)\<lparr>ap_AuthorizedKeeper := nxt\<rparr>\<rparr>, EOk a2)))"

section \<open>Reachable states\<close>

text \<open>
  Every operation is one step, whatever it returns; \<open>env\<close> stands for all other transactions,
  which cannot debit the bond escrow: nobody signs for that address, which is also why it is not a keeper.
\<close>

inductive arb_step :: "crypto \<Rightarrow> arb_state \<Rightarrow> arb_state \<Rightarrow> bool" for C where
  bond: "norm_addr k \<noteq> ProtocolArbKeeperBondEscrow \<Longrightarrow> arb_step C s (fst (BondArbKeeper k a s))"
| unbond: "arb_step C s (fst (RequestArbKeeperUnbond k h s))"
| withdraw: "arb_step C s (fst (WithdrawArbKeeperBond k h s))"
| open_auction: "arb_step C s (fst (OpenArbAuction C op h cb rb s))"
| commit: "arb_step C s (fst (CommitArbBid aid k cm h s))"
| reveal: "arb_step C s (fst (RevealArbBid C aid k fee salt h s))"
| finalize: "arb_step C s (fst (FinalizeArbAuction aid h s))"
| expire: "arb_step C s (fst (ExpireArbAuction C aid h s))"
| env: "wf_map m \<Longrightarrow> AccountBalanceAmount (accts s) ProtocolArbKeeperBondEscrow \<le>
    AccountBalanceAmount m ProtocolArbKeeperBondEscrow \<Longrightarrow> arb_step C s (set_accts m s)"

text \<open>The ledger of the bonds is covered by the escrow account, and no bond is negative.\<close>

definition arb_ok :: "arb_state \<Rightarrow> bool" where
  "arb_ok s \<longleftrightarrow> wf_map (accts s) \<and> wf_map (as_Bonds s) \<and> (\<forall>k b. map_of (as_Bonds s) k = Some b \<longrightarrow> 0 \<le> b) \<and>
     vsum (\<lambda>b. b) (as_Bonds s) \<le> AccountBalanceAmount (accts s) ProtocolArbKeeperBondEscrow \<and>
     0 \<le> ap_MissedSlashBPS (as_Policy s)"

lemma arb_okI:
  assumes "wf_map (accts s)" "wf_map (as_Bonds s)" "\<And>k b. map_of (as_Bonds s) k = Some b \<Longrightarrow> 0 \<le> b"
    "vsum (\<lambda>b. b) (as_Bonds s) \<le> AccountBalanceAmount (accts s) ProtocolArbKeeperBondEscrow" "0 \<le> ap_MissedSlashBPS (as_Policy s)"
  shows "arb_ok s"
  using assms by (auto simp: arb_ok_def)

lemma arb_ok_cong:
  assumes "arb_ok s" "accts s' = accts s" "as_Bonds s' = as_Bonds s" "ap_MissedSlashBPS (as_Policy s') = ap_MissedSlashBPS (as_Policy s)"
  shows "arb_ok s'"
  using assms by (simp add: arb_ok_def)

lemma set_accts_fields [simp]:
  "accts (set_accts m s) = m" "as_Bonds (set_accts m s) = as_Bonds s" "as_Policy (set_accts m s) = as_Policy s"
  "as_Auctions (set_accts m s) = as_Auctions s" "as_UnbondAt (set_accts m s) = as_UnbondAt s"
  by (simp_all add: accts_def set_accts_def)

lemma accts_upd [simp]:
  "accts (s\<lparr>as_Bonds := b\<rparr>) = accts s" "accts (s\<lparr>as_UnbondAt := u\<rparr>) = accts s"
  "accts (s\<lparr>as_Auctions := a\<rparr>) = accts s" "accts (s\<lparr>as_Policy := p\<rparr>) = accts s"
  by (simp_all add: accts_def)

lemma bond_of_upd [simp]:
  "bond_of (s\<lparr>as_Bonds := mput k b m\<rparr>) j = (if j = k then b else case map_of m j of None \<Rightarrow> 0 | Some x \<Rightarrow> x)"
  "bond_of (s\<lparr>as_UnbondAt := u\<rparr>) j = bond_of s j" "bond_of (set_accts n s) j = bond_of s j"
  by (simp_all add: bond_of_def)

lemma ensureArb_fields [simp]:
  "accts (ensureArb s) = accts s" "as_Bonds (ensureArb s) = as_Bonds s" "as_UnbondAt (ensureArb s) = as_UnbondAt s"
  "as_Auctions (ensureArb s) = as_Auctions s" "bond_of (ensureArb s) k = bond_of s k"
  by (simp_all add: ensureArb_def accts_def bond_of_def)

lemma ensureArb_ok: "arb_ok s \<Longrightarrow> arb_ok (ensureArb s)"
  by (auto simp: arb_ok_def ensureArb_def ensureArbPolicy_def DefaultProtocolArbPolicy_def Let_def accts_def)

lemma bonds_put:
  assumes "wf_map m"
  shows "vsum (\<lambda>b. b) (mput k v m) = vsum (\<lambda>b. b) m + v - (case map_of m k of None \<Rightarrow> 0 | Some w \<Rightarrow> (w :: int))"
  using vsum_mput_old [OF assms, of k _ "\<lambda>b. b" v] vsum_mput_new [of m k "\<lambda>b. b" v] by (cases "map_of m k") simp_all

lemma escrow_same [simp]: "same_account ProtocolArbKeeperBondEscrow ProtocolArbKeeperBondEscrow"
  "\<not> same_account ProtocolRevenueEscrowAddress ProtocolArbKeeperBondEscrow"
  by code_simp+

lemma same_account_norm:
  assumes "norm_addr k \<noteq> ProtocolArbKeeperBondEscrow"
  shows "\<not> same_account (norm_addr k) ProtocolArbKeeperBondEscrow"
proof -
  have "norm_addr ProtocolArbKeeperBondEscrow = ProtocolArbKeeperBondEscrow" by code_simp
  with assms show ?thesis
    by (auto simp: same_account_def equal_fold_def norm_addr_def simp flip: trim_to_lower)
qed

lemma record_accounts [simp]: "es_Accounts (fst (recordProtocolRevenueConsensus C src a ref ts s)) = es_Accounts s"
  by (simp add: recordProtocolRevenueConsensus_def allocate_def Let_def split: option.splits prod.splits)

lemma BondArbKeeper_ok:
  assumes ok: "arb_ok s" and k: "norm_addr k \<noteq> ProtocolArbKeeperBondEscrow"
  shows "arb_ok (fst (BondArbKeeper k a s))"
proof (cases "\<not> ValidateAddress (norm_addr k) \<or> a \<le> 0 \<or> subAccountBalance (norm_addr k) a (accts s) = None")
  case True
  with ok ensureArb_ok [OF ok] show ?thesis by (auto simp: BondArbKeeper_def Let_def)
next
  case False
  then obtain m where m: "subAccountBalance (norm_addr k) a (accts s) = Some m" and a: "0 < a" by auto
  have wf: "wf_map (accts s)" "wf_map (as_Bonds s)" using ok by (simp_all add: arb_ok_def)
  note tr = acc.transfer_supply(2) [OF wf(1) m, of ProtocolArbKeeperBondEscrow]
    acc.transfer_balance [OF wf(1) m, of ProtocolArbKeeperBondEscrow ProtocolArbKeeperBondEscrow]
  from False ok ensureArb_ok [OF ok] tr same_account_norm [OF k] m a show ?thesis
    by (intro arb_okI)
      (auto simp: BondArbKeeper_def Let_def arb_ok_def wf_mput bonds_put bond_of_def split: option.splits if_splits)
qed

lemma WithdrawArbKeeperBond_Some:
  assumes "WithdrawArbKeeperBond k h s = (s', EOk b)"
  obtains u m where "map_of (as_UnbondAt s) (norm_addr k) = Some u" "u \<le> h" "b = bond_of s (norm_addr k)" "0 < b"
    "subAccountBalance ProtocolArbKeeperBondEscrow b (accts s) = Some m"
    "s' = (set_accts (addAccountBalance (norm_addr k) b m) (ensureArb s))
       \<lparr>as_Bonds := mput (norm_addr k) 0 (as_Bonds s), as_UnbondAt := mdel (norm_addr k) (as_UnbondAt s)\<rparr>"
  using assms by (auto simp: WithdrawArbKeeperBond_def Let_def not_le not_less split: option.splits if_splits)

lemma WithdrawArbKeeperBond_error:
  "WithdrawArbKeeperBond k h s = (s', out) \<Longrightarrow> (\<And>b. out \<noteq> EOk b) \<Longrightarrow> s' = ensureArb s"
  by (auto simp: WithdrawArbKeeperBond_def Let_def split: option.splits if_splits)

lemma WithdrawArbKeeperBond_ok:
  assumes ok: "arb_ok s"
  shows "arb_ok (fst (WithdrawArbKeeperBond k h s))"
proof (cases "WithdrawArbKeeperBond k h s")
  case (Pair s' out)
  have wf: "wf_map (accts s)" "wf_map (as_Bonds s)" using ok by (simp_all add: arb_ok_def)
  show ?thesis
  proof (cases "\<exists>b. out = EOk b")
    case True
    then obtain b u m where b: "b = bond_of s (norm_addr k)" "0 < b"
      and m: "subAccountBalance ProtocolArbKeeperBondEscrow b (accts s) = Some m"
      and s': "s' = (set_accts (addAccountBalance (norm_addr k) b m) (ensureArb s))
       \<lparr>as_Bonds := mput (norm_addr k) 0 (as_Bonds s), as_UnbondAt := mdel (norm_addr k) (as_UnbondAt s)\<rparr>"
      using Pair by (auto elim: WithdrawArbKeeperBond_Some)
    note tr = acc.transfer_supply(2) [OF wf(1) m, of "norm_addr k"]
      acc.transfer_balance [OF wf(1) m, of "norm_addr k" ProtocolArbKeeperBondEscrow]
    from ok ensureArb_ok [OF ok] tr b show ?thesis
      by (intro arb_okI)
        (auto simp: Pair s' arb_ok_def wf_mput bonds_put bond_of_def split: option.splits if_splits)
  next
    case False
    with Pair WithdrawArbKeeperBond_error [of k h s s' out] ensureArb_ok [OF ok] show ?thesis by auto
  qed
qed

lemma slashOf_bounds:
  assumes "0 \<le> bps" "0 < bond"
  shows "0 < slashOf bps bond" "slashOf bps bond \<le> bond"
proof -
  have "0 \<le> bond * bps div 10000" using assms bps_nonneg [of bond bps] by simp
  then show "0 < slashOf bps bond" "slashOf bps bond \<le> bond"
    using assms(2) by (auto simp: slashOf_def Let_def)
qed

lemma slashWinner_ok:
  assumes ok: "arb_ok s"
  shows "arb_ok (fst (slashWinner C aid k h s))"
proof (cases "0 < bond_of s k")
  case True
  let ?sl = "slashOf (ap_MissedSlashBPS (as_Policy s)) (bond_of s k)"
  let ?s1 = "s\<lparr>as_Bonds := mput k (bond_of s k - ?sl) (as_Bonds s)\<rparr>"
  have wf: "wf_map (accts s)" "wf_map (as_Bonds s)" and bps: "0 \<le> ap_MissedSlashBPS (as_Policy s)"
    using ok by (simp_all add: arb_ok_def)
  note sb = slashOf_bounds [OF bps True]
  have b: "map_of (as_Bonds s) k = Some (bond_of s k)" using True by (cases "map_of (as_Bonds s) k") (simp_all add: bond_of_def)
  have one: "arb_ok ?s1"
    using ok sb by (intro arb_okI) (auto simp: arb_ok_def wf_mput bonds_put b split: if_splits)
  show ?thesis
  proof (cases "subAccountBalance ProtocolArbKeeperBondEscrow ?sl (accts s)")
    case None
    with True one show ?thesis by (simp add: slashWinner_def Let_def)
  next
    case (Some m)
    let ?m = "addAccountBalance ProtocolRevenueEscrowAddress ?sl m"
    note tr = acc.transfer_supply(2) [OF wf(1) Some, of ProtocolRevenueEscrowAddress]
      acc.transfer_balance [OF wf(1) Some, of ProtocolRevenueEscrowAddress ProtocolArbKeeperBondEscrow]
    have two: "arb_ok (set_accts ?m ?s1)"
      using one tr sb ok by (intro arb_okI) (auto simp: arb_ok_def bonds_put b split: if_splits)
    obtain e out where r: "recordProtocolRevenueConsensus C ''slashing'' ?sl (''missed-arb:'' @ aid @ '':'' @ k)
        (i64 (uint h)) (as_econ (set_accts ?m ?s1)) = (e, out)" by fastforce
    then have "es_Accounts e = accts (set_accts ?m ?s1)"
      using record_accounts [of C "''slashing''" ?sl "''missed-arb:'' @ aid @ '':'' @ k" "i64 (uint h)" "as_econ (set_accts ?m ?s1)"]
      by (simp add: accts_def)
    then have "arb_ok ((set_accts ?m ?s1)\<lparr>as_econ := e\<rparr>)"
      by (intro arb_ok_cong [OF two]) (simp_all add: accts_def)
    with True Some r show ?thesis by (cases out) (simp_all add: slashWinner_def Let_def)
  qed
qed (simp add: slashWinner_def ok)

lemma ExpireArbAuction_ok:
  assumes ok: "arb_ok s"
  shows "arb_ok (fst (ExpireArbAuction C aid h s))"
proof -
  have e: "arb_ok (ensureArb s)" using ok by (rule ensureArb_ok)
  have w: "slashWinner C aid k h (ensureArb s) = (s1, out) \<Longrightarrow> arb_ok s1" for k s1 out
    using slashWinner_ok [OF e, of C aid k h] by simp
  show ?thesis
    using e by (auto simp: ExpireArbAuction_def Let_def split: option.splits econ_outcome.splits prod.splits
      dest!: w intro: arb_ok_cong)
qed

lemma RequestArbKeeperUnbond_ok: "arb_ok s \<Longrightarrow> arb_ok (fst (RequestArbKeeperUnbond k h s))"
  by (auto simp: RequestArbKeeperUnbond_def Let_def intro: arb_ok_cong [OF ensureArb_ok] ensureArb_ok)

lemma OpenArbAuction_ok: "arb_ok s \<Longrightarrow> arb_ok (fst (OpenArbAuction C op h cb rb s))"
  by (auto simp: OpenArbAuction_def Let_def intro: arb_ok_cong [OF ensureArb_ok])

lemma CommitArbBid_ok: "arb_ok s \<Longrightarrow> arb_ok (fst (CommitArbBid aid k cm h s))"
  by (simp add: CommitArbBid_def Let_def ensureArb_ok arb_ok_cong [OF ensureArb_ok] split: option.splits)

lemma RevealArbBid_ok: "arb_ok s \<Longrightarrow> arb_ok (fst (RevealArbBid C aid k fee salt h s))"
  by (simp add: RevealArbBid_def Let_def ensureArb_ok arb_ok_cong [OF ensureArb_ok] split: option.splits)

lemma FinalizeArbAuction_ok: "arb_ok s \<Longrightarrow> arb_ok (fst (FinalizeArbAuction aid h s))"
  by (simp add: FinalizeArbAuction_def Let_def ensureArb_ok arb_ok_cong [OF ensureArb_ok] split: option.splits list.splits)

lemmas arb_ops_ok = BondArbKeeper_ok RequestArbKeeperUnbond_ok WithdrawArbKeeperBond_ok OpenArbAuction_ok
  CommitArbBid_ok RevealArbBid_ok FinalizeArbAuction_ok ExpireArbAuction_ok

lemma arb_step_ok:
  assumes "arb_step C s t" "arb_ok s"
  shows "arb_ok t"
  using assms
proof (induction rule: arb_step.induct)
  case (env m s)
  then show ?case by (auto simp: arb_ok_def)
qed (simp_all add: arb_ops_ok)

inductive arb_reachable :: "crypto \<Rightarrow> arb_state \<Rightarrow> arb_state \<Rightarrow> bool" for C s0 where
  refl: "arb_reachable C s0 s0"
| step: "arb_reachable C s0 s \<Longrightarrow> arb_step C s t \<Longrightarrow> arb_reachable C s0 t"

lemma vals_nonneg:
  assumes "wf_map m" "\<And>k b. map_of m k = Some b \<Longrightarrow> 0 \<le> (b :: int)"
  shows "0 \<le> vsum (\<lambda>b. b) m"
  by (rule vsum_nonneg) (blast intro: assms(2) map_of_is_SomeI [OF assms(1)])

lemma bond_le_total:
  assumes ok: "arb_ok s"
  shows "bond_of s k \<le> vsum (\<lambda>b. b) (as_Bonds s)"
proof -
  have wf: "wf_map (as_Bonds s)" and nn: "\<And>k b. map_of (as_Bonds s) k = Some b \<Longrightarrow> 0 \<le> b"
    using ok by (auto simp: arb_ok_def)
  have "0 \<le> vsum (\<lambda>b. b) (mput k 0 (as_Bonds s))"
    by (rule vals_nonneg [OF wf_mput [OF wf]]) (auto split: if_splits dest: nn)
  with wf show ?thesis by (cases "map_of (as_Bonds s) k") (simp_all add: bonds_put bond_of_def)
qed

text \<open>The escrow under its own spelling only.\<close>

definition escrow_canonical :: "accounts \<Rightarrow> bool" where
  "escrow_canonical m \<longleftrightarrow> (\<forall>k \<in> set (keys_of m). same_account k ProtocolArbKeeperBondEscrow \<longrightarrow> k = ProtocolArbKeeperBondEscrow)"

lemma trim_escrow [simp]: "trim_space ProtocolArbKeeperBondEscrow = ProtocolArbKeeperBondEscrow"
  by code_simp

lemma balance_canonical:
  assumes "wf_map m" "escrow_canonical m"
  shows "AccountBalanceAmount m ProtocolArbKeeperBondEscrow =
    (case map_of m ProtocolArbKeeperBondEscrow of None \<Rightarrow> 0 | Some b \<Rightarrow> b)"
proof -
  let ?e = ProtocolArbKeeperBondEscrow
  have ne: "?e \<noteq> []" by (simp add: ProtocolArbKeeperBondEscrow_def)
  have "filter (\<lambda>(key, _). accountMatch ?e key) m = filter (\<lambda>(key, _). key = ?e) m"
    using assms(2) accountMatch_iff [of ?e] ne
    by (intro filter_cong) (force simp: escrow_canonical_def same_account_def)+
  then show ?thesis using ne assms(1) by (simp add: AccountBalanceAmount_def vsum_filter_key)
qed

section \<open>Properties\<close>

lemma arb_reachable_ok:
  assumes "arb_reachable C s0 s" "arb_ok s0"
  shows "arb_ok s"
  using assms by (induction rule: arb_reachable.induct) (auto intro: arb_step_ok)

lemma withdraw_pays:
  assumes "map_of (as_UnbondAt s) (norm_addr k) = Some u" "u \<le> h" "0 < bond_of s (norm_addr k)"
    and "subAccountBalance ProtocolArbKeeperBondEscrow (bond_of s (norm_addr k)) (accts s) = Some m"
  shows "WithdrawArbKeeperBond k h s =
    ((set_accts (addAccountBalance (norm_addr k) (bond_of s (norm_addr k)) m) (ensureArb s))
       \<lparr>as_Bonds := mput (norm_addr k) 0 (as_Bonds s), as_UnbondAt := mdel (norm_addr k) (as_UnbondAt s)\<rparr>,
     EOk (bond_of s (norm_addr k)))"
  using assms by (simp add: WithdrawArbKeeperBond_def Let_def)

text \<open>C14: The bond ledger stays solvent. Whatever sequence of bonding, unbonding, auction and foreign
  operations runs, the bonds add up to at most what the escrow account holds; bonds are paid in by other accounts than the escrow itself and
  foreign operations are those that do not lower the escrow's balance. As long as
  the escrow appears under its own spelling only, a keeper whose delay is over can always take out its bond: exactly its bond moves from
  the escrow to the keeper, no other account changes, the keeper's bond is then zero, no other bond changes, and the request for it is closed.\<close>

theorem arb_bonds_solvent:
  assumes "arb_reachable C s0 s" "arb_ok s0"
  shows "vsum (\<lambda>b. b) (as_Bonds s) \<le> AccountBalanceAmount (accts s) ProtocolArbKeeperBondEscrow \<and>
    (\<forall>k u h. escrow_canonical (accts s) \<and> map_of (as_UnbondAt s) (norm_addr k) = Some u \<and> u \<le> h \<and> 0 < bond_of s (norm_addr k) \<longrightarrow>
       (\<exists>s'. WithdrawArbKeeperBond k h s = (s', EOk (bond_of s (norm_addr k))) \<and>
          moved_exactly (bond_of s (norm_addr k)) ProtocolArbKeeperBondEscrow (norm_addr k) (accts s) (accts s') \<and>
          (\<forall>j. bond_of s' j = (if j = norm_addr k then 0 else bond_of s j)) \<and> map_of (as_UnbondAt s') (norm_addr k) = None))"
proof (intro conjI allI impI)
  from assms have ok: "arb_ok s" by (rule arb_reachable_ok)
  then show cover: "vsum (\<lambda>b. b) (as_Bonds s) \<le> AccountBalanceAmount (accts s) ProtocolArbKeeperBondEscrow"
    by (simp add: arb_ok_def)
  from ok have wf: "wf_map (accts s)" by (simp add: arb_ok_def)
  fix k u h
  assume a: "escrow_canonical (accts s) \<and> map_of (as_UnbondAt s) (norm_addr k) = Some u \<and> u \<le> h \<and> 0 < bond_of s (norm_addr k)"
  let ?k = "norm_addr k" let ?b = "bond_of s ?k"
  have "?b \<le> (case map_of (accts s) ProtocolArbKeeperBondEscrow of None \<Rightarrow> 0 | Some b \<Rightarrow> b)"
    using bond_le_total [OF ok, of ?k] cover balance_canonical [OF wf] a by simp
  with a obtain b where "map_of (accts s) ProtocolArbKeeperBondEscrow = Some b" "?b \<le> b"
    by (auto split: option.splits)
  then obtain m where m: "subAccountBalance ProtocolArbKeeperBondEscrow ?b (accts s) = Some m"
    by (simp add: subAccountBalance_def accountKeyForWrite_def)
  let ?s' = "(set_accts (addAccountBalance ?k ?b m) (ensureArb s))
       \<lparr>as_Bonds := mput ?k 0 (as_Bonds s), as_UnbondAt := mdel ?k (as_UnbondAt s)\<rparr>"
  show "\<exists>s'. WithdrawArbKeeperBond k h s = (s', EOk ?b) \<and>
      moved_exactly ?b ProtocolArbKeeperBondEscrow ?k (accts s) (accts s') \<and>
      (\<forall>j. bond_of s' j = (if j = ?k then 0 else bond_of s j)) \<and> map_of (as_UnbondAt s') ?k = None"
  proof (intro exI [of _ ?s'] conjI allI)
    show "WithdrawArbKeeperBond k h s = (?s', EOk ?b)" using a withdraw_pays [of s k u h m] m by simp
    show "moved_exactly ?b ProtocolArbKeeperBondEscrow ?k (accts s) (accts ?s')"
      using moved_exactlyI [OF wf m, of ?k] by simp
  qed (simp_all add: bond_of_def)
qed

definition demo_keeper :: string where "demo_keeper = ''0x00000000000000000000000000000000000000aa''"
definition demo_rival :: string where "demo_rival = ''0x00000000000000000000000000000000000000bb''"

definition const_crypto :: crypto where
  "const_crypto = \<lparr>sha256 = (\<lambda>_. replicate 32 CHR ''a''), recover = (\<lambda>_ _. None)\<rparr>"

definition demo_arb :: arb_state where
  "demo_arb = \<lparr>as_econ = demo_econ\<lparr>es_Accounts := [(demo_keeper, 500), (demo_rival, 500)]\<rparr>,
     as_Policy = DefaultProtocolArbPolicy\<lparr>ap_MinKeeperBond := ''100''\<rparr>, as_Auctions = [], as_Bonds = [], as_UnbondAt = []\<rparr>"

lemma demo_arb_ok: "arb_ok demo_arb"
proof -
  have "AccountBalanceAmount (accts demo_arb) ProtocolArbKeeperBondEscrow = 0" by code_simp
  moreover have "accts demo_arb = [(demo_keeper, 500), (demo_rival, 500)]" by (simp add: demo_arb_def accts_def)
  ultimately show ?thesis
    by (intro arb_okI) (simp_all add: demo_arb_def DefaultProtocolArbPolicy_def demo_keeper_def demo_rival_def)
qed

text \<open>Bond, ask for the bond back, commit, reveal and win.\<close>

definition demo_won :: "arb_state" where
  "demo_won = (let aid = ''arb_'' @ hex_encode (replicate 12 CHR ''a'');
     s1 = fst (BondArbKeeper demo_keeper 200 demo_arb);
     s2 = fst (RequestArbKeeperUnbond demo_keeper 1 s1);
     s3 = fst (OpenArbAuction const_crypto ''op'' 990 5 5 s2);
     s4 = fst (CommitArbBid aid demo_keeper (arbBidCommitment const_crypto aid demo_keeper 7 ''s'') 991 s3);
     s5 = fst (RevealArbBid const_crypto aid demo_keeper 7 ''s'' 997 s4)
   in fst (FinalizeArbAuction aid 1001 s5))"

definition demo_aid :: string where "demo_aid = ''arb_'' @ hex_encode (replicate 12 CHR ''a'')"

lemma demo_bonded: "case Some (fst (RequestArbKeeperUnbond demo_keeper 1 (fst (BondArbKeeper demo_keeper 200 demo_arb)))) of
    None \<Rightarrow> False | Some s \<Rightarrow> list_all (\<lambda>k. same_account k ProtocolArbKeeperBondEscrow \<longrightarrow> k = ProtocolArbKeeperBondEscrow) (keys_of (accts s)) \<and>
      map_of (as_UnbondAt s) demo_keeper = Some 1001 \<and> bond_of s demo_keeper = 200 \<and> norm_addr demo_keeper = demo_keeper \<and>
      AccountBalanceAmount (accts s) demo_keeper = 300 \<and> same_account demo_keeper demo_keeper \<and>
      \<not> same_account ProtocolArbKeeperBondEscrow demo_keeper \<and> norm_addr demo_keeper \<noteq> ProtocolArbKeeperBondEscrow"
  by code_simp

lemma arb_bonds_solvent_witness:
  "\<exists>s s'. arb_reachable const_crypto demo_arb s \<and> bond_of s demo_keeper = 200 \<and>
     vsum (\<lambda>b. b) (as_Bonds s) \<le> AccountBalanceAmount (accts s) ProtocolArbKeeperBondEscrow \<and>
     WithdrawArbKeeperBond demo_keeper 1001 s = (s', EOk 200) \<and> AccountBalanceAmount (accts s') demo_keeper = 500"
proof -
  define s where "s = fst (RequestArbKeeperUnbond demo_keeper 1 (fst (BondArbKeeper demo_keeper 200 demo_arb)))"
  note b = demo_bonded [simplified option.case]
  have d: "escrow_canonical (accts s)" "map_of (as_UnbondAt s) demo_keeper = Some 1001" "bond_of s demo_keeper = 200"
    "norm_addr demo_keeper = demo_keeper" "AccountBalanceAmount (accts s) demo_keeper = 300" "same_account demo_keeper demo_keeper"
    "\<not> same_account ProtocolArbKeeperBondEscrow demo_keeper" "demo_keeper \<noteq> ProtocolArbKeeperBondEscrow"
    using b unfolding s_def escrow_canonical_def list_all_iff by auto
  have n: "norm_addr demo_keeper \<noteq> ProtocolArbKeeperBondEscrow" using d(4,8) by simp
  have r: "arb_reachable const_crypto demo_arb s" unfolding s_def
    by (rule arb_reachable.step [OF arb_reachable.step [OF arb_reachable.refl arb_step.bond [OF n]] arb_step.unbond])
  note t = arb_bonds_solvent [OF r demo_arb_ok]
  from t [THEN conjunct2, rule_format, of demo_keeper 1001 1001] d obtain s' where
    w: "WithdrawArbKeeperBond demo_keeper 1001 s = (s', EOk 200)"
      "moved_exactly 200 ProtocolArbKeeperBondEscrow demo_keeper (accts s) (accts s')" by auto
  have "AccountBalanceAmount (accts s') demo_keeper = 500" using w(2) d by (simp add: moved_exactly_def)
  with t r w d show ?thesis by blast
qed

lemma sort_key_perm:
  assumes "mset xs = mset ys" "inj_on f (set xs)"
  shows "sort_key f xs = sort_key f ys"
  using assms by (intro sort_key_inj_key_eq) simp_all

text \<open>C15: The winner does not depend on the order in which Go visits the bid map: two auctions whose bids
  are the same map in another order rank the revealed bids the same way, the ranking has
  exactly the revealed bids, and its head has the least fee, ties going to the smaller address.\<close>

theorem ranking_order_free:
  assumes "mset (aa_Bids a) = mset (aa_Bids a')" "inj_on ab_Keeper (snd ` set (aa_Bids a))"
  shows "rankedBids a = rankedBids a' \<and> set (rankedBids a) = {b \<in> snd ` set (aa_Bids a). ab_Revealed b} \<and>
    (\<forall>b bs. rankedBids a = b # bs \<longrightarrow> (\<forall>c \<in> set (rankedBids a). (ab_FeeBPS b, ab_Keeper b) \<le> (ab_FeeBPS c, ab_Keeper c)))"
proof (intro conjI allI impI)
  let ?f = "\<lambda>b. (ab_FeeBPS b, ab_Keeper b)" and ?xs = "filter ab_Revealed (map snd (aa_Bids a))"
  have "mset ?xs = mset (filter ab_Revealed (map snd (aa_Bids a')))"
    using assms(1) by (simp add: mset_filter)
  moreover have "inj_on ?f (set ?xs)" using assms(2) by (auto simp: inj_on_def)
  ultimately show "rankedBids a = rankedBids a'" unfolding rankedBids_def by (rule sort_key_perm)
  show "set (rankedBids a) = {b \<in> snd ` set (aa_Bids a). ab_Revealed b}" by (auto simp: rankedBids_def)
  fix b bs
  assume r: "rankedBids a = b # bs"
  have "sorted (map ?f (rankedBids a))" by (simp add: rankedBids_def)
  with r show "\<forall>c \<in> set (rankedBids a). ?f b \<le> ?f c" by auto
qed

lemma ranking_order_free_witness:
  "\<exists>a a'. aa_Bids a \<noteq> aa_Bids a' \<and> rankedBids a = rankedBids a' \<and> length (rankedBids a) = 2"
proof -
  define x where "x = \<lparr>ab_Keeper = demo_keeper, ab_Commitment = [], ab_FeeBPS = 7, ab_Salt = [], ab_Revealed = True\<rparr>"
  define y where "y = \<lparr>ab_Keeper = demo_rival, ab_Commitment = [], ab_FeeBPS = 7, ab_Salt = [], ab_Revealed = True\<rparr>"
  define au where "au bids = \<lparr>aa_ID = [], aa_OpportunityHash = [], aa_CommitEnd = 0, aa_RevealEnd = 0, aa_Status = ''reveal'',
    aa_Winner = [], aa_WinningFeeBPS = 0, aa_Executed = False, aa_Bids = bids, aa_Candidates = [], aa_FailedWinners = [],
    aa_ExecutionDeadline = 0\<rparr>" for bids
  have ne: "demo_keeper \<noteq> demo_rival" by (simp add: demo_keeper_def demo_rival_def)
  have b: "aa_Bids (au bids) = bids" for bids by (simp add: au_def)
  let ?a = "au [(demo_keeper, x), (demo_rival, y)]" and ?b = "au [(demo_rival, y), (demo_keeper, x)]"
  have "mset (aa_Bids ?a) = mset (aa_Bids ?b)" "inj_on ab_Keeper (snd ` set (aa_Bids ?a))"
    using ne by (simp_all add: b inj_on_def x_def y_def)
  from ranking_order_free [OF this] have "rankedBids ?a = rankedBids ?b" by blast
  moreover have "length (rankedBids ?a) = 2" "aa_Bids ?a \<noteq> aa_Bids ?b"
    using ne by (simp_all add: rankedBids_def b x_def y_def)
  ultimately show ?thesis by blast
qed

lemma slashWinner_broke: "bond_of s k \<le> 0 \<Longrightarrow> slashWinner C aid k h s = (s, EOk ())"
  by (simp add: slashWinner_def)

text \<open>A keeper can keep its exit open. Winning an auction does not lock the bond: a keeper that asked for
  its bond back before it won withdraws all of it once the delay is over, and when the auction then
  expires the winner is recorded as failed without any slash.\<close>

theorem unbond_escapes_slash:
  assumes "map_of (as_UnbondAt s) k = Some u" "u \<le> h" "0 < bond_of s k" "norm_addr k = k"
    and "subAccountBalance ProtocolArbKeeperBondEscrow (bond_of s k) (accts s) = Some m"
    and "map_of (as_Auctions s) aid = Some a" "aa_Status a = ''finalized''" "aa_Winner a = k" "\<not> aa_Executed a"
    and "aa_ExecutionDeadline a \<noteq> 0" "aa_ExecutionDeadline a < h'"
  shows "\<exists>s1 s2 a2. WithdrawArbKeeperBond k h s = (s1, EOk (bond_of s k)) \<and> ExpireArbAuction C aid h' s1 = (s2, EOk a2) \<and>
    k \<in> set (aa_FailedWinners a2) \<and> accts s2 = accts s1 \<and> as_Bonds s2 = as_Bonds s1"
proof -
  let ?s1 = "(set_accts (addAccountBalance k (bond_of s k) m) (ensureArb s))
       \<lparr>as_Bonds := mput k 0 (as_Bonds s), as_UnbondAt := mdel k (as_UnbondAt s)\<rparr>"
  have w: "WithdrawArbKeeperBond k h s = (?s1, EOk (bond_of s k))"
    using assms(1-5) withdraw_pays [of s k u h m] by simp
  have k: "to_lower k = k" using assms(4) by (metis norm_addr_lower)
  have "\<exists>s2 a2. ExpireArbAuction C aid h' ?s1 = (s2, EOk a2) \<and> k \<in> set (aa_FailedWinners a2) \<and>
      accts s2 = accts ?s1 \<and> as_Bonds s2 = as_Bonds ?s1"
    using assms(6-11) k by (simp add: ExpireArbAuction_def Let_def not_le slashWinner_broke)
  with w show ?thesis by blast
qed

lemma unbond_escapes_slash_witness:
  "\<exists>s2 a2. ExpireArbAuction const_crypto demo_aid 1022 (fst (WithdrawArbKeeperBond demo_keeper 1001 demo_won)) = (s2, EOk a2) \<and>
     demo_keeper \<in> set (aa_FailedWinners a2)"
proof -
  have run: "case Some demo_won of None \<Rightarrow> False | Some s \<Rightarrow>
      (case map_of (as_Auctions s) demo_aid of None \<Rightarrow> False | Some a \<Rightarrow> aa_Status a = ''finalized'' \<and>
         aa_Winner a = demo_keeper \<and> \<not> aa_Executed a \<and> aa_ExecutionDeadline a = 1021) \<and>
      map_of (as_UnbondAt s) demo_keeper = Some 1001 \<and> 0 < bond_of s demo_keeper \<and>
      subAccountBalance ProtocolArbKeeperBondEscrow (bond_of s demo_keeper) (accts s) \<noteq> None" by code_simp
  then obtain a where a: "map_of (as_Auctions demo_won) demo_aid = Some a" "aa_Status a = ''finalized''"
    "aa_Winner a = demo_keeper" "\<not> aa_Executed a" "aa_ExecutionDeadline a \<noteq> 0" "aa_ExecutionDeadline a < 1022"
    by (auto split: option.splits)
  from run obtain m where b: "map_of (as_UnbondAt demo_won) demo_keeper = Some 1001" "0 < bond_of demo_won demo_keeper"
    "subAccountBalance ProtocolArbKeeperBondEscrow (bond_of demo_won demo_keeper) (accts demo_won) = Some m"
    by auto
  have n: "norm_addr demo_keeper = demo_keeper" by code_simp
  from unbond_escapes_slash [OF b(1) order.refl b(2) n b(3) a, of const_crypto] show ?thesis by auto
qed

end
