(* ===== verification/ContractRuntime.thy ===== *)
theory ContractRuntime
  imports Ledger
begin

text \<open>
  The contract runtime of \<open>lqd_contract_engine.go\<close>: the contract database, the transaction buffer
  that makes a call tree atomic, the sandbox \<open>Context\<close>, nested calls and the native flows applied
  after the commit. A contract method is a \<open>prog\<close>: a tree of the requests it makes to its
  \<open>Context\<close>, in the order the Go method makes them; \<open>run\<close> gives each request the meaning of the
  \<open>Context\<close> method of its name. Plugin loading, metadata and event persistence are not
  modelled: \<open>registry\<close> gives the owner and the methods of a deployed contract. The clock stamp
  of an event is left out.
\<close>

section \<open>Programs\<close>

datatype ev_val = VStr string | VInt int | VBool bool

record ContractEvent =
  ce_EventName :: string
  ce_Data :: "(string \<times> ev_val) list"
  ce_Address :: string

text \<open>The result of a call: its output, or the error a nested \<open>executeInner\<close> returns.\<close>

datatype call_result = CallOk string | CallErr string

text \<open>What a method can read of its \<open>Context\<close>; \<open>ci_Value\<close> is \<open>MsgValue\<close>.\<close>

record ctx_info =
  ci_ContractAddr :: string
  ci_CallerAddr :: string
  ci_OriginAddr :: string
  ci_OwnerAddr :: string
  ci_BlockTime :: int
  ci_Value :: int

text \<open>
  \<open>Revert\<close> is \<open>ctx.Revert\<close>, \<open>Crash\<close> a Go runtime panic (an index out of range, a division by zero), and
  \<open>Fail\<close> an error returned by an interpreter.
\<close>

datatype prog =
    Done
  | Revert string
  | Crash string
  | Fail string
  | AskP "ctx_info \<Rightarrow> prog"
  | GetP string "string \<Rightarrow> prog"
  | SetP string string prog
  | EmitP string "(string \<times> ev_val) list" prog
  | CallP string string "string list" "call_result \<Rightarrow> prog"
  | ReceiveP int prog
  | ReceiveFromCallerP int prog
  | SendP string int prog
  | CommitP prog
  | GasP u64 prog

text \<open>\<open>if cond { ctx.Revert(msg) }\<close>.\<close>

abbreviation revertIf :: "bool \<Rightarrow> string \<Rightarrow> prog \<Rightarrow> prog" where
  "revertIf b msg p \<equiv> (if b then Revert msg else p)"

section \<open>The contract database\<close>

text \<open>LevelDB as an association list of full keys, and the copy-on-write view used by block replay.\<close>

type_synonym kvdb = "(string, string) gomap"

definition storageKey :: "string \<Rightarrow> string \<Rightarrow> string" where
  "storageKey addr key = ''contract:'' @ addr @ '':storage:'' @ key"

definition LoadStorage :: "kvdb \<Rightarrow> string \<Rightarrow> string \<Rightarrow> string" where
  "LoadStorage db addr key = (case map_of db (storageKey addr key) of None \<Rightarrow> [] | Some v \<Rightarrow> v)"

definition SaveStorage :: "string \<Rightarrow> string \<Rightarrow> string \<Rightarrow> kvdb \<Rightarrow> kvdb" where
  "SaveStorage addr key val db = mput (storageKey addr key) val db"

record overlay =
  ov_overlay :: kvdb
  ov_deletes :: "string list"

definition NewOverlayContractDB :: overlay where
  "NewOverlayContractDB = \<lparr>ov_overlay = [], ov_deletes = []\<rparr>"

definition ovWrite :: "string \<Rightarrow> string \<Rightarrow> overlay \<Rightarrow> overlay" where
  "ovWrite key val c = c\<lparr>ov_overlay := mput key val (ov_overlay c), ov_deletes := filter (\<lambda>k. k \<noteq> key) (ov_deletes c)\<rparr>"

definition ovDelete :: "string \<Rightarrow> overlay \<Rightarrow> overlay" where
  "ovDelete key c = c\<lparr>ov_overlay := mdel key (ov_overlay c), ov_deletes := List.insert key (ov_deletes c)\<rparr>"

definition ovRead :: "kvdb \<Rightarrow> string \<Rightarrow> overlay \<Rightarrow> string option" where
  "ovRead parent key c = (if key \<in> set (ov_deletes c) then None
     else case map_of (ov_overlay c) key of Some v \<Rightarrow> Some v | None \<Rightarrow> map_of parent key)"

definition FlushOverlay :: "kvdb \<Rightarrow> overlay \<Rightarrow> kvdb" where
  "FlushOverlay parent c = fold (\<lambda>(k, v). mput k v) (ov_overlay c) (fold mdel (ov_deletes c) parent)"

section \<open>The transaction buffer\<close>

record nativeSend =
  ns_from :: string
  ns_to :: string
  ns_amt :: int

record TxBuffer =
  tb_changes :: "(string, (string, string) gomap) gomap"
  tb_events :: "ContractEvent list"
  tb_callStack :: "string list"
  tb_depth :: nat
  tb_nativeValue :: int
  tb_nativeEscrow :: int
  tb_nativeEntry :: string
  tb_nativeCredit :: "(string, int) gomap"
  tb_nativeSends :: "nativeSend list"
  tb_originAddr :: string

definition maxCallDepth :: nat where "maxCallDepth = 16"

definition NewTxBuffer :: "int \<Rightarrow> string \<Rightarrow> string \<Rightarrow> TxBuffer" where
  "NewTxBuffer v origin entry = \<lparr>tb_changes = [], tb_events = [], tb_callStack = [], tb_depth = 0, tb_nativeValue = v,
     tb_nativeEscrow = v, tb_nativeEntry = norm_addr entry, tb_nativeCredit = [], tb_nativeSends = [], tb_originAddr = origin\<rparr>"

definition addTo :: "string \<Rightarrow> int \<Rightarrow> (string, int) gomap \<Rightarrow> (string, int) gomap" where
  "addTo addr d m = mput addr ((case map_of m addr of None \<Rightarrow> 0 | Some b \<Rightarrow> b) + d) m"

definition creditNative :: "string \<Rightarrow> int \<Rightarrow> TxBuffer \<Rightarrow> TxBuffer" where
  "creditNative addr0 a tb = (let addr = norm_addr addr0 in
     if a \<le> 0 \<or> addr = [] then tb else tb\<lparr>tb_nativeCredit := addTo addr a (tb_nativeCredit tb)\<rparr>)"

definition nativeCreditsWithRemainder :: "TxBuffer \<Rightarrow> (string, int) gomap" where
  "nativeCreditsWithRemainder tb = (if 0 < tb_nativeEscrow tb \<and> tb_nativeEntry tb \<noteq> []
     then addTo (tb_nativeEntry tb) (tb_nativeEscrow tb) (tb_nativeCredit tb) else tb_nativeCredit tb)"

text \<open>The dry run of the queued sends over a cache of available balances.\<close>

definition getAvailable :: "accounts \<Rightarrow> (string, int) gomap \<Rightarrow> string \<Rightarrow> (string, int) gomap \<Rightarrow> int" where
  "getAvailable accts credits addr0 available = (let addr = norm_addr addr0 in
     case map_of available addr of Some bal \<Rightarrow> bal
     | None \<Rightarrow> (case getAccountBalance accts addr of None \<Rightarrow> 0 | Some b \<Rightarrow> b) +
         (case map_of credits addr of None \<Rightarrow> 0 | Some c \<Rightarrow> c))"

fun ensureSends :: "accounts \<Rightarrow> (string, int) gomap \<Rightarrow> (string, int) gomap \<Rightarrow> nativeSend list \<Rightarrow> string option" where
  "ensureSends accts credits available [] = None"
| "ensureSends accts credits available (s # ss) =
     (let from = norm_addr (ns_from s); to = norm_addr (ns_to s); bal = getAvailable accts credits from available in
      if bal < ns_amt s then Some (''native send failed: insufficient balance in '' @ from) else
      let a1 = mput from (bal - ns_amt s) available in
      ensureSends accts credits (mput to (getAvailable accts credits to a1 + ns_amt s) a1) ss)"

definition ensureNativeFlows :: "accounts \<Rightarrow> TxBuffer \<Rightarrow> string option" where
  "ensureNativeFlows accts tb = ensureSends accts (nativeCreditsWithRemainder tb) [] (tb_nativeSends tb)"

fun applySends :: "nativeSend list \<Rightarrow> accounts \<Rightarrow> accounts \<times> string option" where
  "applySends [] m = (m, None)"
| "applySends (s # ss) m = (case subAccountBalance (ns_from s) (ns_amt s) m of
     None \<Rightarrow> (m, Some (''native send failed: insufficient balance in '' @ ns_from s))
   | Some m' \<Rightarrow> applySends ss (addAccountBalance (ns_to s) (ns_amt s) m'))"

definition applyNativeFlows :: "accounts \<Rightarrow> TxBuffer \<Rightarrow> accounts \<times> string option" where
  "applyNativeFlows m tb = applySends (tb_nativeSends tb)
     (fold (\<lambda>(addr, a) m. if 0 < a then addAccountBalance addr a m else m) (nativeCreditsWithRemainder tb) m)"

definition GetStorage :: "TxBuffer \<Rightarrow> string \<Rightarrow> string \<Rightarrow> kvdb \<Rightarrow> string" where
  "GetStorage tb addr key db = (case map_of (tb_changes tb) addr of None \<Rightarrow> LoadStorage db addr key
     | Some c \<Rightarrow> (case map_of c key of None \<Rightarrow> LoadStorage db addr key | Some v \<Rightarrow> v))"

definition SetStorage :: "string \<Rightarrow> string \<Rightarrow> string \<Rightarrow> TxBuffer \<Rightarrow> TxBuffer" where
  "SetStorage addr key val tb = tb\<lparr>tb_changes := mput addr (mput key val
     (case map_of (tb_changes tb) addr of None \<Rightarrow> [] | Some c \<Rightarrow> c)) (tb_changes tb)\<rparr>"

definition CommitToDB :: "TxBuffer \<Rightarrow> kvdb \<Rightarrow> kvdb" where
  "CommitToDB tb db = fold (\<lambda>(addr, kv) db. fold (\<lambda>(k, v) db. SaveStorage addr k v db) kv db) (tb_changes tb) db"

definition PushCall :: "string \<Rightarrow> TxBuffer \<Rightarrow> string + TxBuffer" where
  "PushCall addr tb = (if maxCallDepth \<le> tb_depth tb then Inl ''max call depth (16) exceeded''
     else if addr \<in> set (tb_callStack tb) then Inl (''re-entrancy detected for contract '' @ addr)
     else Inr (tb\<lparr>tb_callStack := addr # tb_callStack tb, tb_depth := Suc (tb_depth tb)\<rparr>))"

definition PopCall :: "string \<Rightarrow> TxBuffer \<Rightarrow> TxBuffer" where
  "PopCall addr tb = tb\<lparr>tb_callStack := filter (\<lambda>a. a \<noteq> addr) (tb_callStack tb), tb_depth := tb_depth tb - 1\<rparr>"

section \<open>The context\<close>

text \<open>\<open>fr_Buffer\<close> is \<open>None\<close> on the path without a transaction buffer, where a commit writes to the database.\<close>

record frame =
  fr_ContractAddr :: string
  fr_CallerAddr :: string
  fr_OriginAddr :: string
  fr_OwnerAddr :: string
  fr_BlockTime :: int
  fr_GasUsed :: u64
  fr_GasLimit :: u64
  fr_tempStorage :: "(string, string) gomap"
  fr_events :: "ContractEvent list"
  fr_DB :: kvdb
  fr_Buffer :: "TxBuffer option"

text \<open>Where a method stops: its final context, or the panic or error with the context it left behind.\<close>

datatype outcome = Ok frame | Rev frame string

abbreviation reverted :: "frame \<Rightarrow> string \<Rightarrow> outcome" where
  "reverted f reason \<equiv> Rev f (''REVERT: '' @ reason)"

fun andThen :: "outcome \<Rightarrow> (frame \<Rightarrow> outcome) \<Rightarrow> outcome" where
  "andThen (Ok f) k = k f"
| "andThen (Rev f m) k = Rev f m"

definition NewContext :: "string \<Rightarrow> string \<Rightarrow> string \<Rightarrow> string \<Rightarrow> int \<Rightarrow> u64 \<Rightarrow> kvdb \<Rightarrow> TxBuffer option \<Rightarrow> frame" where
  "NewContext addr caller origin owner time gas db buf = \<lparr>fr_ContractAddr = addr, fr_CallerAddr = caller, fr_OriginAddr = origin,
     fr_OwnerAddr = owner, fr_BlockTime = time, fr_GasUsed = 0, fr_GasLimit = gas, fr_tempStorage = [], fr_events = [],
     fr_DB = db, fr_Buffer = buf\<rparr>"

definition MsgValue :: "frame \<Rightarrow> int" where
  "MsgValue f = (case fr_Buffer f of None \<Rightarrow> 0 | Some tb \<Rightarrow> tb_nativeValue tb)"

definition info :: "frame \<Rightarrow> ctx_info" where
  "info f = \<lparr>ci_ContractAddr = fr_ContractAddr f, ci_CallerAddr = fr_CallerAddr f, ci_OriginAddr = fr_OriginAddr f,
     ci_OwnerAddr = fr_OwnerAddr f, ci_BlockTime = fr_BlockTime f, ci_Value = MsgValue f\<rparr>"

definition stored :: "frame \<Rightarrow> string \<Rightarrow> string" where
  "stored f key = (case fr_Buffer f of Some tb \<Rightarrow> GetStorage tb (fr_ContractAddr f) key (fr_DB f)
     | None \<Rightarrow> LoadStorage (fr_DB f) (fr_ContractAddr f) key)"

definition Get :: "frame \<Rightarrow> string \<Rightarrow> string" where
  "Get f key = (case map_of (fr_tempStorage f) key of Some v \<Rightarrow> v | None \<Rightarrow> stored f key)"

definition consumeGas :: "u64 \<Rightarrow> frame \<Rightarrow> outcome" where
  "consumeGas n f = (let f' = f\<lparr>fr_GasUsed := fr_GasUsed f + n\<rparr> in
     if fr_GasLimit f' < fr_GasUsed f' then reverted f' ''out of gas'' else Ok f')"

definition writeTemp :: "string \<Rightarrow> string \<Rightarrow> frame \<Rightarrow> frame" where
  "writeTemp key val f = f\<lparr>fr_tempStorage := mput key val (fr_tempStorage f)\<rparr>"

definition Emit :: "string \<Rightarrow> (string \<times> ev_val) list \<Rightarrow> frame \<Rightarrow> frame" where
  "Emit ev data f = (let event = \<lparr>ce_EventName = ev, ce_Data = data, ce_Address = fr_ContractAddr f\<rparr> in
     case fr_Buffer f of Some tb \<Rightarrow> f\<lparr>fr_Buffer := Some (tb\<lparr>tb_events := tb_events tb @ [event]\<rparr>)\<rparr>
     | None \<Rightarrow> f\<lparr>fr_events := fr_events f @ [event]\<rparr>)"

definition ReceiveNative :: "int \<Rightarrow> frame \<Rightarrow> outcome" where
  "ReceiveNative a f = (case fr_Buffer f of None \<Rightarrow> reverted f ''ReceiveNative only available in state-changing TX mode''
     | Some tb \<Rightarrow> if a \<le> 0 then reverted f ''ReceiveNative: amount must be > 0''
         else if tb_nativeEscrow tb < a then reverted f ''msg.value less than required native LQD amount''
         else Ok (f\<lparr>fr_Buffer := Some (creditNative (fr_ContractAddr f) a
                (tb\<lparr>tb_nativeEscrow := tb_nativeEscrow tb - a\<rparr>))\<rparr>))"

definition queueSend :: "string \<Rightarrow> string \<Rightarrow> int \<Rightarrow> TxBuffer \<Rightarrow> TxBuffer" where
  "queueSend from to a tb = tb\<lparr>tb_nativeSends := tb_nativeSends tb @ [\<lparr>ns_from = from, ns_to = to, ns_amt = a\<rparr>]\<rparr>"

definition ReceiveNativeFromCaller :: "int \<Rightarrow> frame \<Rightarrow> outcome" where
  "ReceiveNativeFromCaller a f = (case fr_Buffer f of
       None \<Rightarrow> reverted f ''ReceiveNativeFromCaller only available in state-changing TX mode''
     | Some tb \<Rightarrow> if a \<le> 0 then reverted f ''ReceiveNativeFromCaller: amount must be > 0'' else
         let from = norm_addr (fr_CallerAddr f); to = norm_addr (fr_ContractAddr f) in
         if from = [] \<or> to = [] then reverted f ''ReceiveNativeFromCaller: invalid native flow''
         else Ok (f\<lparr>fr_Buffer := Some (queueSend from to a tb)\<rparr>))"

definition SendNative :: "string \<Rightarrow> int \<Rightarrow> frame \<Rightarrow> outcome" where
  "SendNative to0 a f = (case fr_Buffer f of None \<Rightarrow> reverted f ''SendNative only available in state-changing TX mode''
     | Some tb \<Rightarrow> if a \<le> 0 then reverted f ''SendNative: amount must be > 0'' else
         let to = norm_addr to0 in if to = [] then reverted f ''SendNative: invalid recipient''
         else Ok (f\<lparr>fr_Buffer := Some (queueSend (fr_ContractAddr f) to a tb)\<rparr>))"

definition Commit :: "frame \<Rightarrow> frame" where
  "Commit f = (case fr_Buffer f of
     Some tb \<Rightarrow> f\<lparr>fr_Buffer := Some (fold (\<lambda>(k, v). SetStorage (fr_ContractAddr f) k v) (fr_tempStorage f) tb)\<rparr>
   | None \<Rightarrow> f\<lparr>fr_DB := fold (\<lambda>(k, v). SaveStorage (fr_ContractAddr f) k v) (fr_tempStorage f) (fr_DB f)\<rparr>)"

text \<open>The state a nested call shares with its caller, and \<open>ctx.callFunc\<close> over it.\<close>

type_synonym store = "kvdb \<times> TxBuffer option"
type_synonym callfn = "string \<Rightarrow> string \<Rightarrow> string list \<Rightarrow> store \<Rightarrow> call_result \<times> store"

definition withStore :: "store \<Rightarrow> frame \<Rightarrow> frame" where
  "withStore st f = f\<lparr>fr_DB := fst st, fr_Buffer := snd st\<rparr>"

primrec run :: "prog \<Rightarrow> callfn \<Rightarrow> frame \<Rightarrow> outcome" where
  "run Done cf f = Ok f"
| "run (Revert m) cf f = reverted f m"
| "run (Crash m) cf f = Rev f m"
| "run (Fail m) cf f = Rev f m"
| "run (AskP c) cf f = run (c (info f)) cf f"
| "run (GetP key c) cf f = run (c (Get f key)) cf f"
| "run (SetP key val p) cf f = andThen (consumeGas 200 f) (\<lambda>f. run p cf (writeTemp key val f))"
| "run (EmitP ev data p) cf f = andThen (consumeGas 500 f) (\<lambda>f. run p cf (Emit ev data f))"
| "run (CallP target fn args c) cf f = andThen (consumeGas 10000 f) (\<lambda>f.
     case cf target fn args (fr_DB f, fr_Buffer f) of (r, st) \<Rightarrow> run (c r) cf (withStore st f))"
| "run (ReceiveP a p) cf f = andThen (andThen (consumeGas 5000 f) (ReceiveNative a)) (run p cf)"
| "run (ReceiveFromCallerP a p) cf f = andThen (andThen (consumeGas 5000 f) (ReceiveNativeFromCaller a)) (run p cf)"
| "run (SendP to a p) cf f = andThen (andThen (consumeGas 5000 f) (SendNative to a)) (run p cf)"
| "run (CommitP p) cf f = run p cf (Commit f)"
| "run (GasP n p) cf f = andThen (consumeGas n f) (run p cf)"

section \<open>Calls\<close>

text \<open>The methods of a contract by name and arguments, and what is deployed at an address.\<close>

type_synonym contract = "string \<Rightarrow> string list \<Rightarrow> prog option"
type_synonym registry = "string \<Rightarrow> (string \<times> contract) option"

text \<open>The deferred recovery of \<open>CallPlugin\<close> turns every panic into a revert.\<close>

fun recovered :: "outcome \<Rightarrow> outcome" where
  "recovered (Ok f) = Ok f"
| "recovered (Rev f m) = reverted f (''panic: '' @ m)"

definition CallPlugin :: "contract \<Rightarrow> string \<Rightarrow> string list \<Rightarrow> callfn \<Rightarrow> frame \<Rightarrow> outcome" where
  "CallPlugin code fn args cf f = (case code fn args of None \<Rightarrow> Rev f (''method not found: '' @ fn)
     | Some p \<Rightarrow> recovered (andThen (run p cf f) (\<lambda>f'. Ok (Commit f'))))"

definition outputOf :: "frame \<Rightarrow> string" where
  "outputOf f = (case map_of (fr_tempStorage f) ''output'' of None \<Rightarrow> [] | Some v \<Rightarrow> v)"

text \<open>
  \<open>executeInner\<close>: push, load, run, commit into the buffer, pop. The recursion through nested calls is
  bounded by fuel; the depth limit makes \<open>maxCallDepth + 1\<close> enough, see \<open>executeInner_fuel\<close>.
\<close>

definition nestedCall ::
  "(string \<Rightarrow> string \<Rightarrow> string \<Rightarrow> string list \<Rightarrow> u64 \<Rightarrow> kvdb \<Rightarrow> TxBuffer \<Rightarrow> call_result \<times> kvdb \<times> TxBuffer) \<Rightarrow> string \<Rightarrow> u64 \<Rightarrow> callfn"
where
  "nestedCall inner addr gas = (\<lambda>tgt m as (db, b). (case b of
     None \<Rightarrow> (CallErr ''no buffer'', (db, b))
   | Some tb \<Rightarrow> (case inner tgt addr m as (gas div 2) db tb of (r, db', tb') \<Rightarrow> (r, (db', Some tb')))))"

definition innerFrame :: "int \<Rightarrow> string \<Rightarrow> string \<Rightarrow> string \<Rightarrow> u64 \<Rightarrow> kvdb \<Rightarrow> TxBuffer \<Rightarrow> frame" where
  "innerFrame now addr caller owner gas db tb = (let origin = (if tb_originAddr tb \<noteq> [] then tb_originAddr tb else caller)
     in NewContext addr caller origin owner now gas db (Some tb))"

primrec executeInner ::
  "nat \<Rightarrow> registry \<Rightarrow> int \<Rightarrow> string \<Rightarrow> string \<Rightarrow> string \<Rightarrow> string list \<Rightarrow> u64 \<Rightarrow> kvdb \<Rightarrow> TxBuffer \<Rightarrow> call_result \<times> kvdb \<times> TxBuffer"
where
  "executeInner 0 reg now addr caller fn args gas db tb = (CallErr ''fuel'', db, tb)"
| "executeInner (Suc n) reg now addr caller fn args gas db tb =
     (case PushCall addr tb of
        Inl e \<Rightarrow> (CallErr e, db, tb)
      | Inr tb1 \<Rightarrow>
          (case reg addr of
             None \<Rightarrow> (CallErr ''leveldb: not found'', db, PopCall addr tb1)
           | Some (owner, code) \<Rightarrow>
               (case CallPlugin code fn args (nestedCall (executeInner n reg now) addr gas)
                       (innerFrame now addr caller owner gas db tb1) of
                     Ok f' \<Rightarrow> (CallOk (outputOf f'), fr_DB f', PopCall addr (case fr_Buffer f' of None \<Rightarrow> tb1 | Some b \<Rightarrow> b))
                   | Rev f' m \<Rightarrow> (CallErr m, fr_DB f',
                       PopCall addr (case fr_Buffer f' of None \<Rightarrow> tb1 | Some b \<Rightarrow> b)))))"

text \<open>The transaction entry: everything in one buffer, then the database, then the native flows.\<close>

definition ExecuteAtomicAt ::
  "registry \<Rightarrow> string \<Rightarrow> string \<Rightarrow> string \<Rightarrow> string list \<Rightarrow> u64 \<Rightarrow> int \<Rightarrow> int \<Rightarrow> kvdb \<times> accounts \<Rightarrow>
     (string + string \<times> ContractEvent list) \<times> kvdb \<times> accounts" where
  "ExecuteAtomicAt reg addr caller fn args gas v now s =
     (case executeInner (Suc maxCallDepth) reg now addr caller fn args gas (fst s) (NewTxBuffer v caller addr) of
        (CallErr e, _, _) \<Rightarrow> (Inl e, s)
      | (CallOk out, _, tb) \<Rightarrow>
          (case ensureNativeFlows (snd s) tb of
             Some e \<Rightarrow> (Inl e, s)
           | None \<Rightarrow>
               (case applyNativeFlows (snd s) tb of
                  (m, Some e) \<Rightarrow> (Inl e, CommitToDB tb (fst s), m)
                | (m, None) \<Rightarrow> (Inr (out, tb_events tb), CommitToDB tb (fst s), m))))"

text \<open>The call path without a buffer: each frame commits straight to the database. The source bounds
  this recursion by the Go stack only, so the model takes the number of levels as fuel.\<close>

fun Execute ::
  "nat \<Rightarrow> registry \<Rightarrow> int \<Rightarrow> string \<Rightarrow> string \<Rightarrow> string \<Rightarrow> string list \<Rightarrow> u64 \<Rightarrow> kvdb \<Rightarrow> call_result \<times> kvdb"
where
  "Execute 0 reg now addr caller fn args gas db = (CallErr ''stack overflow'', db)"
| "Execute (Suc n) reg now addr caller fn args gas db =
     (case reg addr of
        None \<Rightarrow> (CallErr ''leveldb: not found'', db)
      | Some (owner, code) \<Rightarrow>
          let f = NewContext addr caller caller owner now gas db None;
              cf = (\<lambda>tgt m as (db', b'). (case Execute n reg now tgt addr m as (gas div 2) db' of (r, db'') \<Rightarrow> (r, (db'', b'))))
          in (case CallPlugin code fn args cf f of
                Ok f' \<Rightarrow> (CallOk (outputOf f'), fr_DB f')
              | Rev f' m \<Rightarrow> (CallErr (if has_prefix m ''REVERT:'' then ''contract panic: '' @ m else m), fr_DB f')))"

end
