(* ===== verification/RuntimeLaws.thy ===== *)
theory RuntimeLaws
  imports ContractRuntime
begin

text \<open>
  What the runtime promises whatever the contracts do: nested calls keep the buffers of the contracts on the
  call stack, the depth limit bounds the recursion, the native flows checked before the commit
  are applied after it, and value attached to a transaction is neither lost nor multiplied.
\<close>

section \<open>How a call changes the buffer\<close>

abbreviation nrm :: "string \<Rightarrow> bool" where "nrm a \<equiv> norm_addr a = a"

text \<open>Queued flows are positive and between normalized addresses.\<close>

definition flows_ok :: "TxBuffer \<Rightarrow> bool" where
  "flows_ok tb \<longleftrightarrow> wf_map (tb_nativeCredit tb) \<and> list_all (\<lambda>(k, v). 0 < v \<and> nrm k) (tb_nativeCredit tb) \<and>
     0 \<le> tb_nativeEscrow tb \<and> list_all (\<lambda>s. 0 < ns_amt s \<and> nrm (ns_from s) \<and> nrm (ns_to s)) (tb_nativeSends tb)"

definition attached :: "TxBuffer \<Rightarrow> int" where
  "attached tb = tb_nativeEscrow tb + vsum (\<lambda>v. v) (tb_nativeCredit tb)"

text \<open>The contracts on the call stack outside \<open>X\<close> keep their buffered storage.\<close>

definition frozen :: "string set \<Rightarrow> TxBuffer \<Rightarrow> TxBuffer \<Rightarrow> bool" where
  "frozen X tb tb' \<longleftrightarrow> tb_depth tb' = tb_depth tb \<and> set (tb_callStack tb') = set (tb_callStack tb) \<and>
     tb_nativeValue tb' = tb_nativeValue tb \<and> tb_nativeEntry tb' = tb_nativeEntry tb \<and> tb_originAddr tb' = tb_originAddr tb \<and>
     (\<forall>B \<in> set (tb_callStack tb) - X. map_of (tb_changes tb') B = map_of (tb_changes tb) B) \<and>
     (flows_ok tb \<longrightarrow> flows_ok tb' \<and> attached tb' = attached tb)"

lemma frozen_refl [simp]: "frozen X tb tb"
  by (simp add: frozen_def)

lemma frozen_trans: "frozen X a b \<Longrightarrow> frozen X b c \<Longrightarrow> frozen X a c"
  by (simp add: frozen_def)

lemma frozen_mono: "frozen X a b \<Longrightarrow> X \<subseteq> Y \<Longrightarrow> frozen Y a b"
  by (auto simp: frozen_def)

lemma frozen_changes: "frozen X tb (tb\<lparr>tb_changes := c\<rparr>) \<longleftrightarrow>
    (\<forall>B \<in> set (tb_callStack tb) - X. map_of c B = map_of (tb_changes tb) B)"
  by (simp add: frozen_def flows_ok_def attached_def)

lemma frozen_events [simp]: "frozen X tb (tb\<lparr>tb_events := e\<rparr>)"
  by (simp add: frozen_def flows_ok_def attached_def)

lemma frozen_SetStorage: "addr \<in> X \<Longrightarrow> frozen X tb (SetStorage addr k v tb)"
  by (simp add: SetStorage_def frozen_changes)

lemma frozen_fold_SetStorage: "addr \<in> X \<Longrightarrow> frozen X tb (fold (\<lambda>(k, v). SetStorage addr k v) kv tb)"
proof (induction kv arbitrary: tb)
  case (Cons p kv)
  then show ?case
    by (cases p) (auto intro: frozen_trans [OF frozen_SetStorage])
qed simp

lemma norm_addr_nrm [simp]: "nrm (norm_addr a)"
  by simp

lemma frozen_queueSend:
  "0 < a \<Longrightarrow> nrm from \<Longrightarrow> nrm to \<Longrightarrow> frozen X tb (queueSend from to a tb)"
  by (simp add: queueSend_def frozen_def flows_ok_def attached_def)

lemma vsum_addTo:
  "wf_map m \<Longrightarrow> vsum (\<lambda>v. v) (addTo addr d m) = vsum (\<lambda>v. v) m + d"
  using vsum_mput_old [of m addr _ "\<lambda>v. v"] vsum_mput_new [of m addr "\<lambda>v. v"]
  by (auto simp: addTo_def split: option.splits)

lemma wf_addTo [wf_intros]: "wf_map m \<Longrightarrow> wf_map (addTo addr d m)"
  by (simp add: addTo_def wf_mput)

lemma map_of_addTo [simp]: "map_of (addTo addr d m) =
    (map_of m)(addr \<mapsto> (case map_of m addr of None \<Rightarrow> 0 | Some b \<Rightarrow> b) + d)"
  by (simp add: addTo_def)

lemma list_all_map_of: "list_all P m \<Longrightarrow> map_of m k = Some v \<Longrightarrow> P (k, v)"
  by (auto simp: list_all_iff dest: map_of_SomeD)

lemma list_all_addTo:
  assumes "list_all (\<lambda>(k, v). 0 < v \<and> nrm k) m" "0 < a" "nrm addr"
  shows "list_all (\<lambda>(k, v). 0 < v \<and> nrm k) (addTo addr a m)"
proof -
  have "0 < (case map_of m addr of None \<Rightarrow> 0 | Some b \<Rightarrow> b) + a"
    using list_all_map_of [OF assms(1), of addr] assms(2) by (auto split: option.split)
  then show ?thesis unfolding addTo_def by (intro list_all_mput assms(1)) (simp add: assms(3))
qed

lemma flows_ok_credit:
  assumes "flows_ok tb" "0 < a" "a \<le> tb_nativeEscrow tb" "nrm addr"
  shows "flows_ok (tb\<lparr>tb_nativeEscrow := tb_nativeEscrow tb - a, tb_nativeCredit := addTo addr a (tb_nativeCredit tb)\<rparr>)"
  using assms list_all_addTo [of "tb_nativeCredit tb" a addr] by (simp add: flows_ok_def wf_addTo)

lemma frozen_receive:
  assumes "0 < a" "a \<le> tb_nativeEscrow tb" "nrm addr" "addr \<noteq> []"
  shows "frozen X tb (creditNative addr a (tb\<lparr>tb_nativeEscrow := tb_nativeEscrow tb - a\<rparr>))"
proof -
  let ?tb = "tb\<lparr>tb_nativeEscrow := tb_nativeEscrow tb - a, tb_nativeCredit := addTo addr a (tb_nativeCredit tb)\<rparr>"
  have eq: "creditNative addr a (tb\<lparr>tb_nativeEscrow := tb_nativeEscrow tb - a\<rparr>) = ?tb"
    using assms by (simp add: creditNative_def)
  have "flows_ok tb \<Longrightarrow> flows_ok ?tb \<and> attached ?tb = attached tb"
    using flows_ok_credit [of tb a addr] assms vsum_addTo [of "tb_nativeCredit tb" addr a]
    by (simp add: attached_def flows_ok_def)
  then show ?thesis unfolding eq by (simp add: frozen_def)
qed

section \<open>How a method changes its frame\<close>

fun final :: "outcome \<Rightarrow> frame" where
  "final (Ok f) = f"
| "final (Rev f m) = f"

lemma recovered_final [simp]: "final (recovered a) = final a" "recovered a = Ok f \<longleftrightarrow> a = Ok f"
  by (cases a; simp)+

abbreviation same_ids :: "frame \<Rightarrow> frame \<Rightarrow> bool" where
  "same_ids f f' \<equiv> fr_ContractAddr f' = fr_ContractAddr f \<and> fr_CallerAddr f' = fr_CallerAddr f \<and>
     fr_OriginAddr f' = fr_OriginAddr f \<and> fr_OwnerAddr f' = fr_OwnerAddr f \<and> fr_BlockTime f' = fr_BlockTime f"

definition evolves :: "frame \<Rightarrow> frame \<Rightarrow> bool" where
  "evolves f f' \<longleftrightarrow> same_ids f f' \<and> (\<forall>tb. fr_Buffer f = Some tb \<and> nrm (fr_ContractAddr f) \<and> fr_ContractAddr f \<noteq> [] \<longrightarrow>
     fr_DB f' = fr_DB f \<and> (\<exists>tb'. fr_Buffer f' = Some tb' \<and> frozen {fr_ContractAddr f} tb tb'))"

lemma evolves_refl [simp]: "evolves f f"
  by (auto simp: evolves_def)

lemma evolvesI:
  assumes "same_ids f f'" "\<And>tb. fr_Buffer f = Some tb \<Longrightarrow> nrm (fr_ContractAddr f) \<Longrightarrow> fr_ContractAddr f \<noteq> [] \<Longrightarrow>
     fr_DB f' = fr_DB f \<and> (\<exists>tb'. fr_Buffer f' = Some tb' \<and> frozen {fr_ContractAddr f} tb tb')"
  shows "evolves f f'"
  using assms by (simp add: evolves_def)

lemma evolves_ids: "evolves f f' \<Longrightarrow> same_ids f f'"
  by (simp add: evolves_def)

lemma evolves_buffer:
  assumes "evolves f f'" "fr_Buffer f = Some tb" "nrm (fr_ContractAddr f)" "fr_ContractAddr f \<noteq> []"
  obtains tb' where "fr_DB f' = fr_DB f" "fr_Buffer f' = Some tb'" "frozen {fr_ContractAddr f} tb tb'"
  using assms by (auto simp: evolves_def)

lemma evolves_trans:
  assumes "evolves f g" "evolves g h"
  shows "evolves f h"
proof (rule evolvesI)
  show "same_ids f h" using evolves_ids [OF assms(1)] evolves_ids [OF assms(2)] by simp
  fix tb
  assume a: "fr_Buffer f = Some tb" "nrm (fr_ContractAddr f)" "fr_ContractAddr f \<noteq> []"
  then obtain tb1 where g: "fr_DB g = fr_DB f" "fr_Buffer g = Some tb1" "frozen {fr_ContractAddr f} tb tb1"
    using evolves_buffer [OF assms(1)] by metis
  have ag: "fr_ContractAddr g = fr_ContractAddr f" using evolves_ids [OF assms(1)] by simp
  with a g(2) obtain tb2 where "fr_DB h = fr_DB g" "fr_Buffer h = Some tb2" "frozen {fr_ContractAddr f} tb1 tb2"
    using evolves_buffer [OF assms(2), of tb1] by metis
  with g show "fr_DB h = fr_DB f \<and> (\<exists>tb'. fr_Buffer h = Some tb' \<and> frozen {fr_ContractAddr f} tb tb')"
    by (auto intro: frozen_trans)
qed

lemma evolves_andThen:
  assumes "evolves f (final a)" "\<And>f1. a = Ok f1 \<Longrightarrow> evolves f1 (final (k f1))"
  shows "evolves f (final (andThen a k))"
  using assms by (cases a) (auto intro: evolves_trans)

lemma evolves_consumeGas: "evolves f (final (consumeGas n f))"
  by (auto simp: consumeGas_def Let_def intro!: evolvesI)

lemma evolves_writeTemp: "evolves f (writeTemp k v f)"
  by (auto simp: writeTemp_def intro!: evolvesI)

lemma evolves_Emit: "evolves f (Emit ev d f)"
  by (auto simp: Emit_def Let_def split: option.splits intro!: evolvesI)

lemma evolves_ReceiveNative: "evolves f (final (ReceiveNative a f))"
  by (auto simp: ReceiveNative_def not_le not_less split: option.splits intro!: evolvesI frozen_receive)

lemma evolves_ReceiveNativeFromCaller: "evolves f (final (ReceiveNativeFromCaller a f))"
  by (auto simp: ReceiveNativeFromCaller_def Let_def not_le split: option.splits intro!: evolvesI frozen_queueSend)

lemma evolves_SendNative: "evolves f (final (SendNative to a f))"
  by (auto simp: SendNative_def Let_def not_le split: option.splits intro!: evolvesI frozen_queueSend)

lemma evolves_Commit: "evolves f (Commit f)"
  by (auto simp: Commit_def split: option.splits intro!: evolvesI frozen_fold_SetStorage)

lemmas evolves_steps = evolves_consumeGas evolves_writeTemp evolves_Emit evolves_ReceiveNative
  evolves_ReceiveNativeFromCaller evolves_SendNative evolves_Commit

text \<open>A call function that freezes everything on the stack, as nested execution does.\<close>

definition call_ok :: "callfn \<Rightarrow> bool" where
  "call_ok cf \<longleftrightarrow> (\<forall>t fn as db tb r st'. cf t fn as (db, Some tb) = (r, st') \<longrightarrow> (\<exists>tb'. st' = (db, Some tb') \<and> frozen {} tb tb'))"

lemma evolves_call:
  assumes "call_ok cf" "cf t fn as (fr_DB f, fr_Buffer f) = (r, st)"
  shows "evolves f (withStore st f)"
proof (rule evolvesI)
  fix tb
  assume "fr_Buffer f = Some tb"
  with assms obtain tb' where "st = (fr_DB f, Some tb')" "frozen {} tb tb'"
    unfolding call_ok_def by metis
  then show "fr_DB (withStore st f) = fr_DB f \<and> (\<exists>tb'. fr_Buffer (withStore st f) = Some tb' \<and> frozen {fr_ContractAddr f} tb tb')"
    by (auto simp: withStore_def intro: frozen_mono)
qed (simp add: withStore_def)

lemma run_evolves:
  assumes cf: "call_ok cf"
  shows "evolves f (final (run p cf f))"
proof (induction p arbitrary: f)
  case (CallP t fn as c)
  show ?case unfolding run.simps
  proof (rule evolves_andThen [OF evolves_consumeGas])
    fix f1 :: frame
    obtain r st where r: "cf t fn as (fr_DB f1, fr_Buffer f1) = (r, st)" by (cases "cf t fn as (fr_DB f1, fr_Buffer f1)")
    show "evolves f1 (final (case cf t fn as (fr_DB f1, fr_Buffer f1) of (r, st) \<Rightarrow> run (c r) cf (withStore st f1)))"
      unfolding r prod.case by (rule evolves_trans [OF evolves_call [OF cf r] CallP [OF rangeI]])
  qed
next
  case (SetP k v p)
  show ?case unfolding run.simps
    by (rule evolves_andThen [OF evolves_consumeGas]) (rule evolves_trans [OF evolves_writeTemp SetP])
next
  case (EmitP ev d p)
  show ?case unfolding run.simps
    by (rule evolves_andThen [OF evolves_consumeGas]) (rule evolves_trans [OF evolves_Emit EmitP])
next
  case (CommitP p)
  show ?case unfolding run.simps by (rule evolves_trans [OF evolves_Commit CommitP])
qed (auto intro!: evolves_andThen evolves_steps)

section \<open>Nested execution\<close>

definition registry_ok :: "registry \<Rightarrow> bool" where
  "registry_ok reg \<longleftrightarrow> (\<forall>a. reg a \<noteq> None \<longrightarrow> nrm a \<and> a \<noteq> [])"

lemma PushCall_Inr:
  "PushCall addr tb = Inr tb1 \<longleftrightarrow> tb_depth tb < maxCallDepth \<and> addr \<notin> set (tb_callStack tb) \<and>
     tb1 = tb\<lparr>tb_callStack := addr # tb_callStack tb, tb_depth := Suc (tb_depth tb)\<rparr>"
  by (auto simp: PushCall_def not_le)

lemma frozen_pop:
  assumes "PushCall addr tb = Inr tb1" "frozen {addr} tb1 tb2"
  shows "frozen {} tb (PopCall addr tb2)"
  using assms by (auto simp: PushCall_Inr frozen_def PopCall_def flows_ok_def attached_def)

lemma CallPlugin_evolves:
  assumes "call_ok cf"
  shows "evolves f (final (CallPlugin code fn args cf f))"
  using assms
  by (auto simp: CallPlugin_def split: option.splits intro!: evolves_andThen run_evolves evolves_Commit)

lemma innerFrame_fields [simp]:
  "fr_ContractAddr (innerFrame now addr caller owner gas db tb1) = addr"
  "fr_DB (innerFrame now addr caller owner gas db tb1) = db"
  "fr_Buffer (innerFrame now addr caller owner gas db tb1) = Some tb1"
  by (simp_all add: innerFrame_def NewContext_def Let_def)

lemma executeInner_frozen:
  assumes reg: "registry_ok reg"
  shows "executeInner n reg now addr caller fn args gas db tb = (r, db', tb') \<Longrightarrow> db' = db \<and> frozen {} tb tb'"
proof (induction n arbitrary: addr caller fn args gas db tb r db' tb')
  case (Suc n)
  have cf: "call_ok (nestedCall (executeInner n reg now) addr gas)"
    unfolding call_ok_def by (auto simp: nestedCall_def split: prod.splits dest: Suc.IH)
  show ?case
  proof (cases "PushCall addr tb")
    case (Inr tb1)
    show ?thesis
    proof (cases "reg addr")
      case None
      with Suc.prems Inr frozen_pop [OF Inr frozen_refl] show ?thesis by simp
    next
      case (Some oc)
      then obtain owner code where oc: "reg addr = Some (owner, code)" by (cases oc) simp
      have na: "nrm addr" "addr \<noteq> []" using reg oc by (auto simp: registry_ok_def)
      let ?f = "innerFrame now addr caller owner gas db tb1"
      let ?o = "CallPlugin code fn args (nestedCall (executeInner n reg now) addr gas) ?f"
      obtain tb2 where "fr_DB (final ?o) = db" "fr_Buffer (final ?o) = Some tb2" "frozen {addr} tb1 tb2"
        using CallPlugin_evolves [OF cf, of ?f code fn args] na by (auto elim!: evolves_buffer)
      with Suc.prems Inr oc frozen_pop [OF Inr] show ?thesis
        by (cases ?o) auto
    qed
  qed (use Suc.prems in \<open>simp\<close>)
qed simp

lemma nestedCall_ok: "registry_ok reg \<Longrightarrow> call_ok (nestedCall (executeInner n reg now) addr gas)"
  unfolding call_ok_def by (auto simp: nestedCall_def split: prod.splits dest: executeInner_frozen)

section \<open>The depth limit bounds the recursion\<close>

text \<open>Two call functions that agree at one depth run a method alike.\<close>

lemma run_depth_cong:
  assumes cf: "call_ok cf" and eq: "\<And>t fn as db tb. tb_depth tb = d \<Longrightarrow> cf t fn as (db, Some tb) = cg t fn as (db, Some tb)"
  shows "fr_Buffer f = Some tb \<Longrightarrow> tb_depth tb = d \<Longrightarrow> nrm (fr_ContractAddr f) \<Longrightarrow> fr_ContractAddr f \<noteq> [] \<Longrightarrow> run p cg f = run p cf f"
proof -
  define at where "at f \<longleftrightarrow> (\<exists>tb. fr_Buffer f = Some tb \<and> tb_depth tb = d) \<and> nrm (fr_ContractAddr f) \<and> fr_ContractAddr f \<noteq> []" for f :: frame
  have keep: "at g" if "at f" "evolves f g" for f g
    using that evolves_ids [OF that(2)] by (auto simp: at_def frozen_def elim!: evolves_buffer)
  have step: "andThen a k = andThen a k'" if "at f" "evolves f (final a)" "\<And>f1. at f1 \<Longrightarrow> k f1 = k' f1" for f a k k'
    using that keep by (cases a) auto
  have "at f \<Longrightarrow> run p cg f = run p cf f"
  proof (induction p arbitrary: f)
    case (CallP t fn as c)
    show ?case unfolding run.simps
    proof (rule step [OF CallP.prems evolves_consumeGas])
      fix f1 :: frame
      assume f1: "at f1"
      obtain r st where r: "cf t fn as (fr_DB f1, fr_Buffer f1) = (r, st)" by (cases "cf t fn as (fr_DB f1, fr_Buffer f1)")
      moreover have "cg t fn as (fr_DB f1, fr_Buffer f1) = cf t fn as (fr_DB f1, fr_Buffer f1)"
        using f1 eq by (auto simp: at_def)
      ultimately show "(case cg t fn as (fr_DB f1, fr_Buffer f1) of (r, st) \<Rightarrow> run (c r) cg (withStore st f1)) =
          (case cf t fn as (fr_DB f1, fr_Buffer f1) of (r, st) \<Rightarrow> run (c r) cf (withStore st f1))"
        using CallP.IH [OF rangeI keep [OF f1 evolves_call [OF cf r]]] by simp
    qed
  next
    case (ReceiveP a p)
    show ?case unfolding run.simps
      by (rule step [OF ReceiveP.prems evolves_andThen [OF evolves_consumeGas evolves_ReceiveNative]]) (rule ReceiveP.IH)
  next
    case (ReceiveFromCallerP a p)
    show ?case unfolding run.simps
      by (rule step [OF ReceiveFromCallerP.prems evolves_andThen [OF evolves_consumeGas evolves_ReceiveNativeFromCaller]])
        (rule ReceiveFromCallerP.IH)
  next
    case (SendP to a p)
    show ?case unfolding run.simps
      by (rule step [OF SendP.prems evolves_andThen [OF evolves_consumeGas evolves_SendNative]]) (rule SendP.IH)
  qed (auto intro!: step [OF _ evolves_consumeGas] intro: keep evolves_steps)
  then show "fr_Buffer f = Some tb \<Longrightarrow> tb_depth tb = d \<Longrightarrow> nrm (fr_ContractAddr f) \<Longrightarrow> fr_ContractAddr f \<noteq> [] \<Longrightarrow> run p cg f = run p cf f"
    by (simp add: at_def)
qed

lemma executeInner_fuel:
  assumes reg: "registry_ok reg"
  shows "maxCallDepth < n + tb_depth tb \<Longrightarrow> 0 < n \<Longrightarrow>
    executeInner (n + k) reg now addr caller fn args gas db tb = executeInner n reg now addr caller fn args gas db tb"
proof (induction n arbitrary: addr caller fn args gas db tb)
  case (Suc n)
  show ?case
  proof (cases "PushCall addr tb")
    case (Inr tb1)
    then have d: "tb_depth tb < maxCallDepth" "tb_depth tb1 = Suc (tb_depth tb)" by (auto simp: PushCall_Inr)
    have eq: "nestedCall (executeInner n reg now) addr gas t m as (db', Some tb') =
        nestedCall (executeInner (n + k) reg now) addr gas t m as (db', Some tb')" if "tb_depth tb' = tb_depth tb1" for t m as db' tb'
      using Suc that d by (simp add: nestedCall_def)
    have "CallPlugin code fn args (nestedCall (executeInner (n + k) reg now) addr gas) (innerFrame now addr caller owner gas db tb1) =
        CallPlugin code fn args (nestedCall (executeInner n reg now) addr gas) (innerFrame now addr caller owner gas db tb1)"
      if "reg addr = Some (owner, code)" for owner code
    proof -
      have na: "nrm addr" "addr \<noteq> []" using reg that by (auto simp: registry_ok_def)
      show ?thesis
        using run_depth_cong [OF nestedCall_ok [OF reg] eq, of "tb_depth tb1" "innerFrame now addr caller owner gas db tb1" tb1] na
        by (simp add: CallPlugin_def split: option.split)
    qed
    with Inr show ?thesis by (simp split: option.split)
  qed simp
qed simp

section \<open>Native flows\<close>

definition canon :: "accounts \<Rightarrow> bool" where
  "canon m \<longleftrightarrow> wf_map m \<and> list_all (\<lambda>(k, _). nrm k) m"

definition bal :: "accounts \<Rightarrow> string \<Rightarrow> int" where
  "bal m a = (case map_of m a of None \<Rightarrow> 0 | Some b \<Rightarrow> b)"

lemma nrm_trim: "nrm a \<Longrightarrow> trim_space a = a" "nrm a \<Longrightarrow> to_lower a = a"
  by (metis norm_addr_def trim_space_idem trim_to_lower) (metis norm_addr_lower)

lemma nrm_equal_fold: "nrm a \<Longrightarrow> nrm b \<Longrightarrow> equal_fold a b \<longleftrightarrow> a = b"
  by (auto simp: equal_fold_def nrm_trim)

lemma nrm_normalize: "nrm a \<Longrightarrow> normalizeAccountAddress a = a"
  by (simp add: normalizeAccountAddress_def nrm_trim)

lemma canon_find: "canon m \<Longrightarrow> nrm a \<Longrightarrow> map_of m a = None \<Longrightarrow> find (\<lambda>key. equal_fold key a) (keys_of m) = None"
  by (force simp: find_None_iff canon_def list_all_iff nrm_equal_fold map_of_eq_None_iff)

lemma canon_write [simp]: "canon m \<Longrightarrow> nrm a \<Longrightarrow> accountKeyForWrite m a = a"
  by (simp add: accountKeyForWrite_def canon_find nrm_normalize split: option.split)

lemma canon_read [simp]: "canon m \<Longrightarrow> nrm a \<Longrightarrow> getAccountBalance m a = map_of m a"
  by (simp add: getAccountBalance_def accountKeyForRead_def canon_find nrm_normalize split: option.split)

lemma canon_mput: "canon m \<Longrightarrow> nrm a \<Longrightarrow> canon (mput a b m)"
  by (simp add: canon_def wf_mput list_all_mput)

lemma bal_mput [simp]: "bal (mput a b m) x = (if x = a then b else bal m x)"
  by (simp add: bal_def)

lemma canon_add:
  assumes "canon m" "nrm a"
  shows "addAccountBalance a d m = mput a (bal m a + d) m"
  using assms by (simp add: addAccountBalance_def bal_def)

lemma canon_sub:
  assumes "canon m" "nrm a" "0 < d"
  shows "subAccountBalance a d m = (if bal m a < d then None else Some (mput a (bal m a - d) m))"
  using assms by (auto simp: subAccountBalance_def bal_def Let_def split: option.split)

lemma vsum_canon_put: "canon m \<Longrightarrow> vsum (\<lambda>b. b) (mput a v m) = vsum (\<lambda>b. b) m + v - bal m a"
  using vsum_mput_old [of m a _ "\<lambda>b. b" v] vsum_mput_new [of m a "\<lambda>b. b" v]
  by (cases "map_of m a") (simp_all add: canon_def bal_def)

lemma nonneg_put: "nonneg_accounts m \<Longrightarrow> 0 \<le> v \<Longrightarrow> nonneg_accounts (mput a v m)"
  by (auto simp: nonneg_accounts_def)

lemma nonneg_bal: "nonneg_accounts m \<Longrightarrow> 0 \<le> bal m a"
  by (auto simp: nonneg_accounts_def bal_def split: option.split)

abbreviation applyCredits :: "(string, int) gomap \<Rightarrow> accounts \<Rightarrow> accounts" where
  "applyCredits \<equiv> fold (\<lambda>(addr, a) m. if 0 < a then addAccountBalance addr a m else m)"

lemma apply_credits:
  "canon m \<Longrightarrow> wf_map cs \<Longrightarrow> list_all (\<lambda>(k, v). 0 < v \<and> nrm k) cs \<Longrightarrow>
    canon (applyCredits cs m) \<and> vsum (\<lambda>b. b) (applyCredits cs m) = vsum (\<lambda>b. b) m + vsum (\<lambda>b. b) cs \<and>
    (\<forall>x. bal (applyCredits cs m) x = bal m x + (case map_of cs x of None \<Rightarrow> 0 | Some v \<Rightarrow> v)) \<and>
    (nonneg_accounts m \<longrightarrow> nonneg_accounts (applyCredits cs m))"
proof (induction cs arbitrary: m)
  case (Cons p cs)
  obtain k v where p: "p = (k, v)" by (cases p)
  let ?m = "mput k (bal m k + v) m"
  have kv: "0 < v" "nrm k" "map_of cs k = None" using Cons.prems by (simp_all add: p map_of_eq_None_iff)
  have c: "canon ?m" using Cons.prems(1) kv by (simp add: canon_mput)
  have nn: "nonneg_accounts m \<Longrightarrow> nonneg_accounts ?m" using kv nonneg_bal [of m k] by (simp add: nonneg_put)
  have step: "applyCredits (p # cs) m = applyCredits cs ?m"
    using kv canon_add [OF Cons.prems(1) kv(2)] by (simp add: p)
  have "canon (applyCredits cs ?m) \<and> vsum (\<lambda>b. b) (applyCredits cs ?m) = vsum (\<lambda>b. b) ?m + vsum (\<lambda>b. b) cs \<and>
    (\<forall>x. bal (applyCredits cs ?m) x = bal ?m x + (case map_of cs x of None \<Rightarrow> 0 | Some v \<Rightarrow> v)) \<and>
    (nonneg_accounts ?m \<longrightarrow> nonneg_accounts (applyCredits cs ?m))"
    by (rule Cons.IH [OF c]) (use Cons.prems in simp_all)
  with nn vsum_canon_put [OF Cons.prems(1), of k "bal m k + v"] show ?case
    unfolding step by (auto simp: p kv(3))
qed simp

lemma getAvailable_put:
  "nrm x \<Longrightarrow> nrm a \<Longrightarrow> getAvailable A C x (mput a b av) = (if x = a then b else getAvailable A C x av)"
  by (simp add: getAvailable_def)

text \<open>What the queued native flows add to an account.\<close>

definition sendNet :: "string \<Rightarrow> nativeSend \<Rightarrow> int" where
  "sendNet a s = (if ns_to s = a then ns_amt s else 0) - (if ns_from s = a then ns_amt s else 0)"

definition creditOf :: "string \<Rightarrow> (string, int) gomap \<Rightarrow> int" where
  "creditOf a m = (case map_of m a of None \<Rightarrow> 0 | Some c \<Rightarrow> c)"

definition netIn :: "string \<Rightarrow> TxBuffer \<Rightarrow> int" where
  "netIn a tb = creditOf a (tb_nativeCredit tb) + sum_list (map (sendNet a) (tb_nativeSends tb))"

lemma apply_sends:
  assumes "canon m" "list_all (\<lambda>s. 0 < ns_amt s \<and> nrm (ns_from s) \<and> nrm (ns_to s)) ss"
    and "\<And>x. nrm x \<Longrightarrow> getAvailable A C x av = bal m x" "ensureSends A C av ss = None"
  shows "\<exists>m'. applySends ss m = (m', None) \<and> canon m' \<and> vsum (\<lambda>b. b) m' = vsum (\<lambda>b. b) m \<and>
    (nonneg_accounts m \<longrightarrow> nonneg_accounts m') \<and> (\<forall>x. bal m' x = bal m x + sum_list (map (sendNet x) ss))"
  using assms
proof (induction ss arbitrary: m av)
  case (Cons s ss)
  let ?f = "ns_from s" and ?t = "ns_to s" and ?a = "ns_amt s"
  have s: "0 < ?a" "nrm ?f" "nrm ?t" using Cons.prems by simp_all
  have enough: "\<not> bal m ?f < ?a" using Cons.prems(4) Cons.prems(3) [OF s(2)] s by (auto simp: Let_def split: if_splits)
  define m1 where "m1 = mput ?f (bal m ?f - ?a) m"
  define m2 where "m2 = mput ?t (bal m1 ?t + ?a) m1"
  define a1 where "a1 = mput ?f (bal m ?f - ?a) av"
  define a2 where "a2 = mput ?t (bal m1 ?t + ?a) a1"
  have c: "canon m1" "canon m2" using Cons.prems s by (simp_all add: m1_def m2_def canon_mput)
  have v1: "nrm x \<Longrightarrow> getAvailable A C x a1 = bal m1 x" for x
    using Cons.prems(3) s by (simp add: a1_def m1_def getAvailable_put)
  then have v2: "nrm x \<Longrightarrow> getAvailable A C x a2 = bal m2 x" for x
    using s by (simp add: a2_def m2_def getAvailable_put)
  have e: "ensureSends A C a2 ss = None"
    using Cons.prems(4) Cons.prems(3) [OF s(2)] v1 [OF s(3)] s enough
    by (simp add: a2_def a1_def Let_def)
  have step: "applySends (s # ss) m = applySends ss m2"
    using enough Cons.prems(1) s c by (simp add: canon_sub canon_add m1_def m2_def)
  have tot: "vsum (\<lambda>b. b) m2 = vsum (\<lambda>b. b) m"
    using Cons.prems(1) c(1) by (simp add: m2_def vsum_canon_put) (simp add: m1_def vsum_canon_put)
  have "nonneg_accounts m2" if "nonneg_accounts m"
    using that enough s nonneg_bal [of m1 ?t] by (simp add: m2_def nonneg_put) (simp add: m1_def nonneg_put)
  moreover have "list_all (\<lambda>s. 0 < ns_amt s \<and> nrm (ns_from s) \<and> nrm (ns_to s)) ss" using Cons.prems(2) by simp
  moreover have "bal m2 x = bal m x + sendNet x s" for x by (simp add: m2_def m1_def sendNet_def)
  ultimately show ?case using Cons.IH [OF c(2) _ v2 e] unfolding step tot by auto
qed simp

lemma native_flows_apply:
  assumes c: "canon m" and ok: "flows_ok tb" and ent: "nrm (tb_nativeEntry tb)" "tb_nativeEntry tb \<noteq> []"
    and e: "ensureNativeFlows m tb = None"
  shows "\<exists>m'. applyNativeFlows m tb = (m', None) \<and> canon m' \<and> vsum (\<lambda>b. b) m' = vsum (\<lambda>b. b) m + attached tb \<and>
    (nonneg_accounts m \<longrightarrow> nonneg_accounts m') \<and> (\<forall>x. bal m x + netIn x tb \<le> bal m' x)"
proof -
  let ?cs = "nativeCreditsWithRemainder tb"
  have cs: "wf_map ?cs" "list_all (\<lambda>(k, v). 0 < v \<and> nrm k) ?cs" "vsum (\<lambda>b. b) ?cs = attached tb"
    using ok ent list_all_addTo [of "tb_nativeCredit tb" "tb_nativeEscrow tb" "tb_nativeEntry tb"]
    by (simp_all add: nativeCreditsWithRemainder_def flows_ok_def wf_addTo vsum_addTo attached_def)
  define m0 where "m0 = applyCredits ?cs m"
  note m0 = apply_credits [OF c cs(1,2), folded m0_def]
  have "\<exists>m'. applySends (tb_nativeSends tb) m0 = (m', None) \<and> canon m' \<and> vsum (\<lambda>b. b) m' = vsum (\<lambda>b. b) m0 \<and>
    (nonneg_accounts m0 \<longrightarrow> nonneg_accounts m') \<and>
    (\<forall>x. bal m' x = bal m0 x + sum_list (map (sendNet x) (tb_nativeSends tb)))"
  proof (rule apply_sends)
    show "getAvailable m ?cs x [] = bal m0 x" if "nrm x" for x
      using m0 that c by (simp add: getAvailable_def bal_def)
    show "list_all (\<lambda>s. 0 < ns_amt s \<and> nrm (ns_from s) \<and> nrm (ns_to s)) (tb_nativeSends tb)" using ok by (simp add: flows_ok_def)
  qed (use m0 e in \<open>auto simp: ensureNativeFlows_def\<close>)
  moreover have "bal m x + creditOf x (tb_nativeCredit tb) \<le> bal m0 x" for x
    using m0 by (auto simp: creditOf_def nativeCreditsWithRemainder_def split: option.split)
  ultimately show ?thesis using m0 cs(3)
    unfolding applyNativeFlows_def m0_def [symmetric] netIn_def by (force simp: add.assoc [symmetric])
qed

section \<open>Transactions\<close>

lemma inner_transaction:
  assumes reg: "registry_ok reg" and v: "0 \<le> v"
    and i: "executeInner n reg now addr caller fn args gas db (NewTxBuffer v caller addr) = (CallOk out, d, tb)"
  shows "flows_ok tb \<and> attached tb = v \<and> tb_nativeEntry tb = addr \<and> nrm addr \<and> addr \<noteq> [] \<and> d = db"
proof -
  let ?tb = "NewTxBuffer v caller addr"
  have na: "nrm addr" "addr \<noteq> []"
    using i reg by (cases n; auto simp: registry_ok_def split: sum.splits option.splits)+
  have fr: "frozen {} ?tb tb" "d = db" using executeInner_frozen [OF reg i] by auto
  have "flows_ok ?tb" "attached ?tb = v" using v by (simp_all add: flows_ok_def attached_def NewTxBuffer_def)
  with fr na show ?thesis by (simp add: frozen_def NewTxBuffer_def)
qed

lemma ExecuteAtomicAt_Inr:
  assumes reg: "registry_ok reg" and v: "0 \<le> v"
    and ex: "ExecuteAtomicAt reg addr caller fn args gas v now (db, m) = (Inr res, db', m')"
  obtains tb where "executeInner (Suc maxCallDepth) reg now addr caller fn args gas db (NewTxBuffer v caller addr) = (CallOk (fst res), db, tb)"
    "flows_ok tb" "attached tb = v" "tb_nativeEntry tb = addr" "nrm addr" "addr \<noteq> []"
    "ensureNativeFlows m tb = None" "applyNativeFlows m tb = (m', None)" "db' = CommitToDB tb db" "snd res = tb_events tb"
proof -
  obtain r d tb where i: "executeInner (Suc maxCallDepth) reg now addr caller fn args gas db (NewTxBuffer v caller addr) = (r, d, tb)"
    by (metis prod_cases3)
  with ex obtain out where r: "r = CallOk out"
    by (cases r) (auto simp: ExecuteAtomicAt_def simp del: executeInner.simps)
  note t = inner_transaction [OF reg v i [unfolded r]]
  show ?thesis
    by (rule that [of tb]) (use ex i r t in
      \<open>auto simp: ExecuteAtomicAt_def simp del: executeInner.simps split: option.splits prod.splits\<close>)
qed

lemma ExecuteAtomicAt_Inl:
  assumes reg: "registry_ok reg" and m: "canon m" and v: "0 \<le> v"
    and ex: "ExecuteAtomicAt reg addr caller fn args gas v now (db, m) = (Inl e, db', m')"
  shows "db' = db \<and> m' = m"
proof -
  obtain r d tb where i: "executeInner (Suc maxCallDepth) reg now addr caller fn args gas db (NewTxBuffer v caller addr) = (r, d, tb)"
    by (metis prod_cases3)
  show ?thesis
  proof (cases r)
    case (CallOk out)
    note t = inner_transaction [OF reg v i [unfolded CallOk]]
    show ?thesis
    proof (cases "ensureNativeFlows m tb")
      case None
      with native_flows_apply [OF m _ _ _ None] t obtain m1 where "applyNativeFlows m tb = (m1, None)" by auto
      with ex i CallOk None show ?thesis by (auto simp: ExecuteAtomicAt_def simp del: executeInner.simps)
    qed (use ex i CallOk in \<open>auto simp: ExecuteAtomicAt_def simp del: executeInner.simps\<close>)
  qed (use ex i in \<open>auto simp: ExecuteAtomicAt_def simp del: executeInner.simps\<close>)
qed

end
