(* ===== verification/RuntimeTheorems.thy ===== *)
theory RuntimeTheorems
  imports RuntimeLaws
begin

text \<open>
  What the contract runtime promises: the replay overlay behaves as the database it stands for,
  nested calls return, a contract on the call stack is isolated, and a transaction is all or nothing.
\<close>

section \<open>The overlay\<close>

datatype db_op = WriteOp string string | DeleteOp string

fun directOp :: "db_op \<Rightarrow> kvdb \<Rightarrow> kvdb" where
  "directOp (WriteOp k v) db = mput k v db"
| "directOp (DeleteOp k) db = mdel k db"

fun overlayOp :: "db_op \<Rightarrow> overlay \<Rightarrow> overlay" where
  "overlayOp (WriteOp k v) c = ovWrite k v c"
| "overlayOp (DeleteOp k) c = ovDelete k c"

definition overlay_ok :: "overlay \<Rightarrow> bool" where
  "overlay_ok c \<longleftrightarrow> wf_map (ov_overlay c) \<and> (\<forall>k \<in> set (ov_deletes c). map_of (ov_overlay c) k = None)"

lemma overlay_ok_op: "overlay_ok c \<Longrightarrow> overlay_ok (overlayOp x c)"
  by (cases x) (auto simp: overlay_ok_def ovWrite_def ovDelete_def wf_mput wf_mdel)

lemma ovRead_op:
  assumes "overlay_ok c"
  shows "ovRead parent k (ovWrite j v c) = (if k = j then Some v else ovRead parent k c)"
    "ovRead parent k (ovDelete j c) = (if k = j then None else ovRead parent k c)"
  using assms by (auto simp: ovRead_def ovWrite_def ovDelete_def)

lemma map_of_fold_mput: "wf_map kv \<Longrightarrow> map_of (fold (\<lambda>(k, v). mput k v) kv db) j =
    (case map_of kv j of Some v \<Rightarrow> Some v | None \<Rightarrow> map_of db j)"
proof (induction kv arbitrary: db)
  case (Cons p kv)
  then have "map_of kv (fst p) = None" by (simp add: map_of_eq_None_iff)
  with Cons show ?case by (cases p) (auto split: option.split)
qed simp

lemma map_of_fold_mdel: "map_of (fold mdel ks db) j = (if j \<in> set ks then None else map_of db j)"
  by (induction ks arbitrary: db) auto

lemma FlushOverlay_reads:
  "overlay_ok c \<Longrightarrow> map_of (FlushOverlay parent c) k = ovRead parent k c"
  by (auto simp: FlushOverlay_def ovRead_def overlay_ok_def map_of_fold_mput map_of_fold_mdel split: option.split)

text \<open>C16: Block replay on the overlay. Any sequence of writes and deletes on a fresh overlay is invisible to
  the parent, reads back as if it had been made on the parent directly, and flushing the overlay
  gives the parent exactly those contents.\<close>

theorem overlay_refines_database:
  fixes ops :: "db_op list" and parent :: kvdb
  defines "c \<equiv> fold overlayOp ops NewOverlayContractDB" and "d \<equiv> fold directOp ops parent"
  shows "ovRead parent k c = map_of d k \<and> map_of (FlushOverlay parent c) k = map_of d k"
proof -
  have "overlay_ok c0 \<Longrightarrow> (\<And>k. ovRead parent k c0 = map_of d0 k) \<Longrightarrow>
      overlay_ok (fold overlayOp ops c0) \<and> (\<forall>k. ovRead parent k (fold overlayOp ops c0) = map_of (fold directOp ops d0) k)"
    for c0 and d0 :: kvdb
  proof (induction ops arbitrary: c0 d0)
    case (Cons x ops)
    have "ovRead parent k (overlayOp x c0) = map_of (directOp x d0) k" for k
      using Cons.prems by (cases x) (simp_all add: ovRead_op)
    then show ?case using Cons.IH [OF overlay_ok_op [OF Cons.prems(1)]] by simp
  qed simp
  from this [of NewOverlayContractDB parent]
  have "overlay_ok c" "ovRead parent k c = map_of d k"
    by (simp_all add: c_def d_def overlay_ok_def NewOverlayContractDB_def ovRead_def)
  then show ?thesis by (simp add: FlushOverlay_reads)
qed

lemma overlay_refines_database_witness:
  "ovRead [(''a'', ''1'')] ''a'' (fold overlayOp [WriteOp ''a'' ''2'', DeleteOp ''b''] NewOverlayContractDB) = Some ''2''"
  using overlay_refines_database [of "[(''a'', ''1'')]" "''a''" "[WriteOp ''a'' ''2'', DeleteOp ''b'']"] by simp

section \<open>Properties of execution\<close>

text \<open>C17: Nested execution always returns. Sixteen levels are enough for every call tree: executing with
  more fuel than the depth limit needs changes nothing, whatever the contracts do.\<close>

theorem call_depth_bounds_recursion:
  assumes "registry_ok reg"
  shows "executeInner (Suc maxCallDepth + k) reg now addr caller fn args gas db tb =
    executeInner (Suc maxCallDepth) reg now addr caller fn args gas db tb"
  by (rule executeInner_fuel [OF assms]) simp_all

text \<open>Two contracts: \<open>caller\<close> asks \<open>callee\<close> to pay and goes on when that fails; \<open>loop\<close> calls itself through the other.\<close>

definition demo_reg :: registry where
  "demo_reg a = (if a = ''caller'' then Some (''owner'', \<lambda>fn args.
       if fn = ''go'' then Some (CallP ''callee'' ''pay'' [] (\<lambda>_. SetP ''output'' ''done'' Done))
       else if fn = ''loop'' then Some (SetP ''x'' ''1'' (CallP ''callee'' ''back'' [] (\<lambda>r. case r of CallOk _ \<Rightarrow> Done | CallErr e \<Rightarrow> SetP ''output'' e Done)))
       else None)
     else if a = ''callee'' then Some (''owner'', \<lambda>fn args.
       if fn = ''pay'' then Some (SendP ''thief'' 5 (Revert ''changed my mind''))
       else if fn = ''back'' then Some (CallP ''caller'' ''loop'' [] (\<lambda>r. case r of CallOk _ \<Rightarrow> Done | CallErr e \<Rightarrow> Revert e))
       else None)
     else None)"

lemma demo_reg_ok: "registry_ok demo_reg"
proof -
  have "nrm ''caller''" "nrm ''callee''" by code_simp+
  then show ?thesis by (auto simp: registry_ok_def demo_reg_def)
qed

lemma call_depth_bounds_recursion_witness:
  "executeInner 25 demo_reg 1 ''caller'' ''user'' ''loop'' [] 5000000 [] (NewTxBuffer 0 ''user'' ''caller'') =
   executeInner 17 demo_reg 1 ''caller'' ''user'' ''loop'' [] 5000000 [] (NewTxBuffer 0 ''user'' ''caller'')"
  using call_depth_bounds_recursion [OF demo_reg_ok, of 8] by (simp add: maxCallDepth_def)

text \<open>C18: The re-entrancy guard isolates storage. While a contract is on the call stack no call made below it
  changes its buffered storage or the database, and a call back into it fails; the stack, the depth and the
  transaction's value and origin are restored when the call returns.\<close>

theorem reentrancy_guard_isolates:
  assumes "registry_ok reg" "executeInner n reg now addr caller fn args gas db tb = (r, db', tb')" "B \<in> set (tb_callStack tb)"
  shows "map_of (tb_changes tb') B = map_of (tb_changes tb) B \<and> db' = db \<and> set (tb_callStack tb') = set (tb_callStack tb) \<and>
    tb_depth tb' = tb_depth tb \<and> tb_nativeValue tb' = tb_nativeValue tb \<and> tb_originAddr tb' = tb_originAddr tb \<and>
    (addr = B \<longrightarrow> (\<exists>e. r = CallErr e))"
proof -
  have "db' = db" "frozen {} tb tb'" using executeInner_frozen [OF assms(1,2)] by auto
  moreover have "\<exists>e. r = CallErr e" if "addr = B"
    using assms(2,3) that by (cases n) (auto simp: PushCall_def split: if_splits)
  ultimately show ?thesis using assms(3) by (auto simp: frozen_def)
qed

lemma reentrancy_guard_isolates_witness:
  "\<exists>e db' tb'. executeInner 5 demo_reg 1 ''caller'' ''x'' ''loop'' [] 100000 []
      ((NewTxBuffer 0 ''user'' ''caller'')\<lparr>tb_callStack := [''caller'']\<rparr>) = (CallErr e, db', tb') \<and> tb_changes tb' = []"
proof -
  let ?tb = "(NewTxBuffer 0 ''user'' ''caller'')\<lparr>tb_callStack := [''caller'']\<rparr>"
  obtain r db' tb' where e: "executeInner 5 demo_reg 1 ''caller'' ''x'' ''loop'' [] 100000 [] ?tb = (r, db', tb')"
    by (metis prod_cases3)
  moreover have "tb_changes tb' = []"
    using e by (auto simp: PushCall_def NewTxBuffer_def maxCallDepth_def numeral_eq_Suc)
  ultimately show ?thesis using reentrancy_guard_isolates [OF demo_reg_ok e, of "''caller''"] by auto
qed

text \<open>C19: A transaction is all or nothing. With canonical account keys an execution that fails leaves the
  database and every balance as they were; one that succeeds raises the total of all balances by exactly the
  attached value, keeps the keys canonical and makes no balance negative. The sends checked before the commit never fail after it.\<close>

theorem atomic_execution:
  assumes reg: "registry_ok reg" and m: "canon m" "nonneg_accounts m" and v: "0 \<le> v"
    and ex: "ExecuteAtomicAt reg addr caller fn args gas v now (db, m) = (res, db', m')"
  shows "(\<forall>e. res = Inl e \<longrightarrow> db' = db \<and> m' = m) \<and>
    (\<forall>out. res = Inr out \<longrightarrow> vsum (\<lambda>b. b) m' = vsum (\<lambda>b. b) m + v \<and> canon m' \<and> nonneg_accounts m')"
proof (cases res)
  case (Inl e)
  with ExecuteAtomicAt_Inl [OF reg m(1) v ex [unfolded Inl]] show ?thesis by simp
next
  case (Inr out)
  from ExecuteAtomicAt_Inr [OF reg v ex [unfolded Inr]] obtain tb where tb:
    "flows_ok tb" "attached tb = v" "tb_nativeEntry tb = addr" "nrm addr" "addr \<noteq> []"
    "ensureNativeFlows m tb = None" "applyNativeFlows m tb = (m', None)" by metis
  from native_flows_apply [OF m(1) tb(1) _ _ tb(6)] tb m(2) Inr show ?thesis by auto
qed

lemma atomic_execution_witness:
  "\<exists>res db' m'. ExecuteAtomicAt demo_reg ''caller'' ''user'' ''go'' [] 5000000 7 1 ([], [(''callee'', 9)]) = (Inr res, db', m') \<and>
     vsum (\<lambda>b. b) m' = 16"
proof -
  have ok: "canon [(''callee'', 9)]" "nonneg_accounts [(''callee'', 9)]"
    by (simp add: canon_def, code_simp) (simp add: nonneg_accounts_def)
  have "case ExecuteAtomicAt demo_reg ''caller'' ''user'' ''go'' [] 5000000 7 1 ([], [(''callee'', 9)]) of (res, db', m') \<Rightarrow>
      (case res of Inl _ \<Rightarrow> False | Inr _ \<Rightarrow> True)" by code_simp
  then obtain res db' m' where
    e: "ExecuteAtomicAt demo_reg ''caller'' ''user'' ''go'' [] 5000000 7 1 ([], [(''callee'', 9)]) = (Inr res, db', m')"
    by (auto split: prod.splits sum.splits)
  from atomic_execution [OF demo_reg_ok ok _ e] e show ?thesis by auto
qed

text \<open>What a failed nested call leaves behind. The native sends a callee queued before it reverted stay in the
  transaction buffer: when the calling contract goes on, the transaction succeeds and pays them.\<close>

theorem failed_call_keeps_sends:
  "case ExecuteAtomicAt demo_reg ''caller'' ''user'' ''go'' [] 5000000 0 1 ([], [(''callee'', 9)]) of (res, db, m) \<Rightarrow>
     (case res of Inl _ \<Rightarrow> False | Inr (out, evs) \<Rightarrow> out = ''done'') \<and> bal m ''thief'' = 5 \<and> bal m ''callee'' = 4"
  by code_simp

end
