(* ===== verification/ContractVM.thy ===== *)
theory ContractVM
  imports RuntimeLaws
begin

text \<open>
  The two interpreters of \<open>lqd_contract_engine.go\<close>: the hardened bytecode VM (compiler and
  interpreter) and the statement DSL. Both run on the \<open>Context\<close>, so a program is compiled to the
  \<open>prog\<close> of the requests it makes. A Go error returned by an interpreter is a \<open>Revert\<close>: the
  caller sees an error either way.
\<close>

section \<open>Splitting strings\<close>

fun split_by :: "(char \<Rightarrow> bool) \<Rightarrow> string \<Rightarrow> string list" where
  "split_by P [] = [[]]"
| "split_by P (c # cs) = (if P c then [] # split_by P cs
     else (case split_by P cs of [] \<Rightarrow> [[c]] | w # ws \<Rightarrow> (c # w) # ws))"

text \<open>\<open>strings.FieldsFunc\<close>.\<close>

definition fields_by :: "(char \<Rightarrow> bool) \<Rightarrow> string \<Rightarrow> string list" where
  "fields_by P s = filter (\<lambda>w. w \<noteq> []) (split_by P s)"

definition upper_char :: "char \<Rightarrow> char" where
  "upper_char c = (let n = (of_char c :: nat) in if 97 \<le> n \<and> n \<le> 122 then char_of (n - 32) else c)"

text \<open>Cutting at the first occurrence of a separator, the shape of \<open>strings.SplitN(s, sep, 2)\<close>.\<close>

fun cut :: "string \<Rightarrow> string \<Rightarrow> (string \<times> string) option" where
  "cut sep [] = (if sep = [] then Some ([], []) else None)"
| "cut sep (c # cs) = (if has_prefix (c # cs) sep then Some ([], drop (length sep) (c # cs))
     else map_option (\<lambda>(a, b). (c # a, b)) (cut sep cs))"

section \<open>The bytecode VM\<close>

datatype OpCode = OP_NOOP | OP_SET | OP_GET | OP_ADD | OP_SUB | OP_EQ | OP_NEQ | OP_JMP | OP_JMPIF | OP_CALL | OP_REVERT

record VMInstruction =
  vi_Op :: OpCode
  vi_Args :: "string list"

text \<open>The table of mnemonics with the least and greatest operand count.\<close>

definition vmDefinitions :: "(string \<times> OpCode \<times> nat \<times> nat) list" where
  "vmDefinitions = [(''SET'', OP_SET, 2, 2), (''GET'', OP_GET, 1, 1), (''ADD'', OP_ADD, 2, 2), (''SUB'', OP_SUB, 2, 2),
     (''EQ'', OP_EQ, 2, 2), (''NEQ'', OP_NEQ, 2, 2), (''JMP'', OP_JMP, 1, 1), (''JMPIF'', OP_JMPIF, 1, 1),
     (''CALL'', OP_CALL, 2, 2), (''REVERT'', OP_REVERT, 1, 32)]"

definition join_blank :: "string list \<Rightarrow> string" where
  "join_blank ws = (case ws of [] \<Rightarrow> [] | w # rest \<Rightarrow> w @ concat (map (\<lambda>x. '' '' @ x) rest))"

fun compileLine :: "string list \<Rightarrow> string + VMInstruction" where
  "compileLine [] = Inl ''empty''"
| "compileLine (w # ws) = (case map_of vmDefinitions (map upper_char w) of
     None \<Rightarrow> Inl ''unknown opcode''
   | Some (op, mn, mx) \<Rightarrow> if length ws < mn \<or> mx < length ws then Inl ''invalid operand count'' else
       let args = (if op = OP_REVERT then [join_blank ws] else ws) in
       if list_ex (\<lambda>a. length a = 0 \<or> 512 < length a) args then Inl ''operand length invalid''
       else Inr \<lparr>vi_Op = op, vi_Args = args\<rparr>)"

fun compileLines :: "string list \<Rightarrow> string + VMInstruction list" where
  "compileLines [] = Inr []"
| "compileLines (l # ls) = (let fields = fields_by is_space (trim_space l) in
     if fields = [] then compileLines ls
     else case compileLine fields of Inl e \<Rightarrow> Inl e
       | Inr i \<Rightarrow> (case compileLines ls of Inl e \<Rightarrow> Inl e | Inr rest \<Rightarrow> Inr (i # rest)))"

text \<open>The operand of a jump: a decimal number that is an instruction index.\<close>

definition jumpOk :: "nat \<Rightarrow> VMInstruction \<Rightarrow> bool" where
  "jumpOk len i \<longleftrightarrow> vi_Op i \<noteq> OP_JMP \<and> vi_Op i \<noteq> OP_JMPIF \<or>
     (case vi_Args i of [] \<Rightarrow> False | a # _ \<Rightarrow> (case parse_int10 a of None \<Rightarrow> False | Some t \<Rightarrow> 0 \<le> t \<and> t < int len))"

definition CompileGoSubset :: "string \<Rightarrow> string + VMInstruction list" where
  "CompileGoSubset src = (let ls = fields_by (\<lambda>c. c = CHR 0x0A \<or> c = CHR '';'') src in
     if ls = [] \<or> 1024 < length ls then Inl ''hardened VM requires 1..1024 instructions'' else
     case compileLines ls of Inl e \<Rightarrow> Inl e
     | Inr out \<Rightarrow> if out = [] then Inl ''hardened VM requires at least one non-empty instruction''
         else if list_all (jumpOk (length out)) out then Inr out else Inl ''jump target out of range'')"

text \<open>An operand; a missing one is the Go index panic.\<close>

definition argAt :: "VMInstruction \<Rightarrow> nat \<Rightarrow> (string \<Rightarrow> prog) \<Rightarrow> prog" where
  "argAt i n k = (if n < length (vi_Args i) then k (vi_Args i ! n) else Crash ''index out of range'')"

definition valueOf :: "string \<Rightarrow> (int \<Rightarrow> prog) \<Rightarrow> prog" where
  "valueOf operand k = (case parse_int10 operand of Some v \<Rightarrow> k v | None \<Rightarrow> GetP operand (\<lambda>s. k (big_or_zero s)))"

definition atoi :: "string \<Rightarrow> int" where
  "atoi s = (case parse_int10 s of None \<Rightarrow> 0 | Some t \<Rightarrow> t)"

text \<open>One instruction; \<open>next\<close> continues at a program counter.\<close>

definition vmStep :: "VMInstruction \<Rightarrow> int \<Rightarrow> (int \<Rightarrow> prog) \<Rightarrow> prog" where
  "vmStep i pc next = (case vi_Op i of
     OP_SET \<Rightarrow> argAt i 0 (\<lambda>a. argAt i 1 (\<lambda>b. SetP a b (next (pc + 1))))
   | OP_GET \<Rightarrow> argAt i 0 (\<lambda>a. GetP a (\<lambda>v. SetP ''output'' v (next (pc + 1))))
   | OP_ADD \<Rightarrow> argAt i 0 (\<lambda>a. GetP a (\<lambda>s. argAt i 1 (\<lambda>b. valueOf b (\<lambda>v.
       SetP a (int_str (big_or_zero s + v)) (next (pc + 1))))))
   | OP_SUB \<Rightarrow> argAt i 0 (\<lambda>a. GetP a (\<lambda>s. argAt i 1 (\<lambda>b. valueOf b (\<lambda>v.
       if big_or_zero s < v then Fail ''hardened VM unsigned subtraction underflow''
       else SetP a (int_str (big_or_zero s - v)) (next (pc + 1))))))
   | OP_EQ \<Rightarrow> argAt i 0 (\<lambda>a. GetP a (\<lambda>x. argAt i 1 (\<lambda>b. GetP b (\<lambda>y.
       SetP ''__cmp'' (if x = y then ''1'' else ''0'') (next (pc + 1))))))
   | OP_NEQ \<Rightarrow> argAt i 0 (\<lambda>a. GetP a (\<lambda>x. argAt i 1 (\<lambda>b. GetP b (\<lambda>y.
       SetP ''__cmp'' (if x \<noteq> y then ''1'' else ''0'') (next (pc + 1))))))
   | OP_JMP \<Rightarrow> argAt i 0 (\<lambda>a. next (atoi a))
   | OP_JMPIF \<Rightarrow> GetP ''__cmp'' (\<lambda>c. if c = ''1'' then argAt i 0 (\<lambda>a. next (atoi a)) else next (pc + 1))
   | OP_CALL \<Rightarrow> argAt i 0 (\<lambda>a. argAt i 1 (\<lambda>fn. let target = to_lower a in
       if \<not> ValidateAddress target \<or> trim_space fn = [] then Fail ''hardened VM invalid call target''
       else CallP target fn [] (\<lambda>r. case r of CallErr e \<Rightarrow> Fail e | CallOk _ \<Rightarrow> next (pc + 1))))
   | OP_REVERT \<Rightarrow> argAt i 0 Revert
   | OP_NOOP \<Rightarrow> Fail ''hardened VM invalid opcode'')"

text \<open>The interpreter loop; its first argument counts the steps that are left of the source's limit.\<close>

definition vmStepLimit :: nat where "vmStepLimit = 100000"

primrec vmLoop :: "nat \<Rightarrow> VMInstruction list \<Rightarrow> int \<Rightarrow> prog" where
  "vmLoop 0 code pc = (if pc < int (length code) then Fail ''hardened VM step limit exceeded'' else CommitP Done)"
| "vmLoop (Suc n) code pc = (if \<not> pc < int (length code) then CommitP Done else
     GasP 50 (if pc < 0 then Crash ''index out of range'' else vmStep (code ! nat pc) pc (vmLoop n code)))"

definition ExecuteBytecode :: "VMInstruction list \<Rightarrow> callfn \<Rightarrow> frame \<Rightarrow> outcome \<times> string" where
  "ExecuteBytecode code cf f = (if code = [] \<or> 1024 < length code then (Rev f ''invalid hardened VM bytecode'', []) else
     case run (vmLoop vmStepLimit code 0) cf f of Ok f' \<Rightarrow> (Ok f', Get f' ''output'') | Rev f' m \<Rightarrow> (Rev f' m, []))"

section \<open>The statement DSL\<close>

definition dslValid :: "string \<Rightarrow> bool" where
  "dslValid line \<longleftrightarrow> length line \<le> 1024 \<and>
     (if has_prefix line ''emit '' then length (fields_by is_space line) = 2
      else if has_prefix line ''call '' then
        (let pieces = split_by (\<lambda>c. c = CHR ''.'') (trim_space (drop 5 line)) in
         length pieces = 2 \<and> ValidateAddress (to_lower (pieces ! 0)) \<and> trim_space (pieces ! 1) \<noteq> [])
      else (case cut ''+='' line of
          Some (k, v) \<Rightarrow> trim_space k \<noteq> [] \<and> parse_int10 (trim_space v) \<noteq> None
        | None \<Rightarrow> (case cut ''='' line of None \<Rightarrow> False | Some (k, v) \<Rightarrow> trim_space k \<noteq> [] \<and> trim_space v \<noteq> [])))"

definition CompileDSL :: "string \<Rightarrow> string list option" where
  "CompileDSL src = (let parts = fields_by (\<lambda>c. c = CHR 0x0A \<or> c = CHR '';'') src in
     if parts = [] \<or> 1024 < length parts then None
     else let out = map trim_space parts in if list_all dslValid out then Some out else None)"

definition dslStatement :: "string \<Rightarrow> prog \<Rightarrow> prog" where
  "dslStatement ln k =
     (case (cut ''='' ln, cut ''+='' ln) of
        (Some (key, v), None) \<Rightarrow> SetP (trim_space key) (trim_space v) k
      | (_, Some (key0, v)) \<Rightarrow> let key = trim_space key0 in
          GetP key (\<lambda>cur. SetP key (int_str (big_or_zero cur + big_or_zero (trim_space v))) k)
      | (None, None) \<Rightarrow>
          if has_prefix ln ''emit '' then (let ev = trim_space (drop 5 ln) in EmitP ev [(''msg'', VStr ev)] k)
          else if has_prefix ln ''call '' then
            (case split_by (\<lambda>c. c = CHR ''.'') (trim_space (drop 5 ln)) of
               [a, b] \<Rightarrow> CallP (to_lower (trim_space a)) (trim_space b) []
                 (\<lambda>r. case r of CallErr e \<Rightarrow> Fail e | CallOk _ \<Rightarrow> k)
             | _ \<Rightarrow> Fail ''invalid DSL call'')
          else k)"

primrec ExecuteDSL :: "string list \<Rightarrow> prog" where
  "ExecuteDSL [] = CommitP Done"
| "ExecuteDSL (ln # lines) = GasP 50 (dslStatement ln (ExecuteDSL lines))"

section \<open>Compiled code does not crash\<close>

text \<open>No execution of the program reaches a Go panic.\<close>

primrec crash_free :: "prog \<Rightarrow> bool" where
  "crash_free Done = True"
| "crash_free (Revert m) = True"
| "crash_free (Crash m) = False"
| "crash_free (Fail m) = True"
| "crash_free (AskP c) = (\<forall>x. crash_free (c x))"
| "crash_free (GetP k c) = (\<forall>x. crash_free (c x))"
| "crash_free (SetP k v p) = crash_free p"
| "crash_free (EmitP e d p) = crash_free p"
| "crash_free (CallP t f as c) = (\<forall>x. crash_free (c x))"
| "crash_free (ReceiveP a p) = crash_free p"
| "crash_free (ReceiveFromCallerP a p) = crash_free p"
| "crash_free (SendP t a p) = crash_free p"
| "crash_free (CommitP p) = crash_free p"
| "crash_free (GasP n p) = crash_free p"

definition arity :: "OpCode \<Rightarrow> nat" where
  "arity op = (case op of OP_NOOP \<Rightarrow> 0 | OP_GET \<Rightarrow> 1 | OP_JMP \<Rightarrow> 1 | OP_JMPIF \<Rightarrow> 1 | OP_REVERT \<Rightarrow> 1 | _ \<Rightarrow> 2)"

definition code_ok :: "VMInstruction list \<Rightarrow> bool" where
  "code_ok code \<longleftrightarrow> code \<noteq> [] \<and> length code \<le> 1024 \<and>
     (\<forall>i \<in> set code. vi_Op i \<noteq> OP_NOOP \<and> arity (vi_Op i) \<le> length (vi_Args i) \<and> jumpOk (length code) i)"

lemma compileLine_ok:
  assumes "compileLine ws = Inr i"
  shows "vi_Op i \<noteq> OP_NOOP \<and> arity (vi_Op i) \<le> length (vi_Args i)"
proof (cases ws)
  case (Cons w rest)
  with assms obtain op mn mx where d: "map_of vmDefinitions (map upper_char w) = Some (op, mn, mx)"
    and n: "mn \<le> length rest" and i: "vi_Op i = op" "vi_Args i = (if op = OP_REVERT then [join_blank rest] else rest)"
    by (auto simp: Let_def split: option.splits if_splits)
  from map_of_SomeD [OF d] have "op \<noteq> OP_NOOP \<and> (op \<noteq> OP_REVERT \<longrightarrow> arity op = mn) \<and> arity OP_REVERT = 1"
    by (auto simp: vmDefinitions_def arity_def)
  with n i show ?thesis by auto
qed (use assms in simp)

lemma compileLines_ok:
  "compileLines ls = Inr code \<Longrightarrow> length code \<le> length ls \<and>
    (\<forall>i \<in> set code. vi_Op i \<noteq> OP_NOOP \<and> arity (vi_Op i) \<le> length (vi_Args i))"
proof (induction ls arbitrary: code)
  case (Cons l ls)
  show ?case
  proof (cases "fields_by is_space (trim_space l) = []")
    case True
    with Cons show ?thesis by (auto simp: Let_def)
  next
    case False
    with Cons.prems obtain i rest where "compileLine (fields_by is_space (trim_space l)) = Inr i"
      "compileLines ls = Inr rest" "code = i # rest" by (auto simp: Let_def split: sum.splits)
    with Cons.IH compileLine_ok show ?thesis by auto
  qed
qed simp

lemma CompileGoSubset_ok: "CompileGoSubset src = Inr code \<Longrightarrow> code_ok code"
  by (auto simp: CompileGoSubset_def Let_def code_ok_def list_all_iff split: if_splits sum.splits dest: compileLines_ok)

lemma crash_free_valueOf: "(\<And>v. crash_free (k v)) \<Longrightarrow> crash_free (valueOf a k)"
  by (simp add: valueOf_def split: option.split)

lemma jumpOk_target:
  "jumpOk n i \<Longrightarrow> vi_Op i = OP_JMP \<or> vi_Op i = OP_JMPIF \<Longrightarrow> 0 \<le> atoi (vi_Args i ! 0) \<and> atoi (vi_Args i ! 0) < int n"
  by (auto simp: jumpOk_def atoi_def split: list.splits option.splits)

lemma crash_free_vmStep:
  assumes "arity (vi_Op i) \<le> length (vi_Args i)" "jumpOk n i" "0 \<le> pc" "\<And>pc. 0 \<le> pc \<Longrightarrow> crash_free (next pc)"
  shows "crash_free (vmStep i pc next)"
  using assms jumpOk_target [OF assms(2)]
  by (cases "vi_Op i")
    (auto simp: vmStep_def arity_def argAt_def crash_free_valueOf Let_def split: call_result.split)

lemma crash_free_vmLoop:
  "code_ok code \<Longrightarrow> 0 \<le> pc \<Longrightarrow> crash_free (vmLoop n code pc)"
proof (induction n arbitrary: pc)
  case (Suc n)
  have "crash_free (vmStep (code ! nat pc) pc (vmLoop n code))" if "pc < int (length code)"
  proof -
    have "code ! nat pc \<in> set code" using that Suc.prems(2) by simp
    with Suc show ?thesis by (intro crash_free_vmStep [of _ "length code"]) (auto simp: code_ok_def)
  qed
  with Suc.prems(2) show ?case by simp
qed simp

text \<open>C20: Bytecode that compiles never crashes the node: it is a non-empty program of at most 1024 instructions
  with all operands present and all jumps inside it, and no execution of it reaches a Go panic, whatever the
  storage holds and the called contracts return. Every loop is cut off by the step limit.\<close>

theorem compiled_code_never_crashes:
  assumes "CompileGoSubset src = Inr code"
  shows "code_ok code \<and> crash_free (vmLoop n code 0) \<and> ExecuteBytecode code cf f =
    (case run (vmLoop vmStepLimit code 0) cf f of Ok f' \<Rightarrow> (Ok f', Get f' ''output'') | Rev f' m \<Rightarrow> (Rev f' m, []))"
  using CompileGoSubset_ok [OF assms] crash_free_vmLoop [of code 0 n]
  by (auto simp: ExecuteBytecode_def code_ok_def)

lemma compiled_code_never_crashes_witness:
  "\<exists>code. CompileGoSubset ''set a 1; add a 2; jmpif 0; get a'' = Inr code \<and> length code = 4 \<and> crash_free (vmLoop 7 code 0)"
proof -
  have "(case CompileGoSubset ''set a 1; add a 2; jmpif 0; get a'' of Inl _ \<Rightarrow> False | Inr c \<Rightarrow> length c = 4)" by code_simp
  then obtain code where c: "CompileGoSubset ''set a 1; add a 2; jmpif 0; get a'' = Inr code" "length code = 4"
    by (auto split: sum.splits)
  from compiled_code_never_crashes [OF c(1), of 7] c show ?thesis by blast
qed

text \<open>The DSL interpreter tests for an equals sign before it tests for \<open>emit\<close>, the compiler after: a
  statement compiled as an event is run as an assignment.\<close>

lemma dsl_emit_is_assignment:
  "CompileDSL ''emit a=b'' = Some [''emit a=b''] \<and> dslStatement ''emit a=b'' k = SetP ''emit a'' ''b'' k"
proof
  show "CompileDSL ''emit a=b'' = Some [''emit a=b'']" by code_simp
  have c: "cut ''='' ''emit a=b'' = Some (''emit a'', ''b'')" "cut ''+='' ''emit a=b'' = None"
    "trim_space ''emit a'' = ''emit a''" "trim_space ''b'' = ''b''" by code_simp+
  show "dslStatement ''emit a=b'' k = SetP ''emit a'' ''b'' k" by (simp only: dslStatement_def c option.case prod.case)
qed

end
