(* ===== verification/ContractLaws.thy ===== *)
theory ContractLaws
  imports RuntimeLaws
begin

text \<open>
  Reasoning about contracts. \<open>wp\<close> reads a program as a predicate transformer over the storage the
  method sees and the native coin it has taken in; \<open>run_wp\<close> shows it sound for \<open>run\<close>, whatever
  the contracts it calls do. The locale \<open>contract_law\<close> states what a contract must show of its methods
  for a storage invariant to survive every transaction of every registry, and \<open>native_vault\<close> adds that
  what the contract owes is covered by its native balance.
\<close>

section \<open>Running programs\<close>

definition burn :: "u64 \<Rightarrow> frame \<Rightarrow> frame" where
  "burn n f = f\<lparr>fr_GasUsed := fr_GasUsed f + n\<rparr>"

definition gas_ok :: "u64 \<Rightarrow> frame \<Rightarrow> bool" where
  "gas_ok n f \<longleftrightarrow> fr_GasUsed f + n \<le> fr_GasLimit f"

lemma consumeGas_andThen: "andThen (consumeGas n f) k = (if gas_ok n f then k (burn n f) else reverted (burn n f) ''out of gas'')"
  by (simp add: consumeGas_def gas_ok_def burn_def Let_def not_less [symmetric])

lemma stored_upd [simp]:
  "stored (f\<lparr>fr_GasUsed := g\<rparr>) k = stored f k" "stored (f\<lparr>fr_tempStorage := t\<rparr>) k = stored f k"
  "stored (f\<lparr>fr_events := e\<rparr>) k = stored f k"
  by (simp_all add: stored_def split: option.split)

lemma stored_buffer: "fr_Buffer f = Some tb \<Longrightarrow> GetStorage tb' = GetStorage tb \<Longrightarrow> stored (f\<lparr>fr_Buffer := Some tb'\<rparr>) k = stored f k"
  by (simp add: stored_def)

lemma GetStorage_flows [simp]:
  "GetStorage (queueSend a b c tb) = GetStorage tb" "GetStorage (creditNative a c tb) = GetStorage tb"
  "GetStorage (tb\<lparr>tb_nativeEscrow := e\<rparr>) = GetStorage tb" "GetStorage (tb\<lparr>tb_events := v\<rparr>) = GetStorage tb"
  by (simp_all add: GetStorage_def queueSend_def creditNative_def Let_def fun_eq_iff)

lemma Get_burn [simp]: "Get (burn n f) = Get f"
  by (rule ext) (simp add: burn_def Get_def split: option.split)

lemma info_burn [simp]: "info (burn n f) = info f"
  by (simp add: burn_def info_def MsgValue_def)

lemma Get_writeTemp [simp]: "Get (writeTemp k v f) = (Get f)(k := v)"
  by (rule ext) (simp add: writeTemp_def Get_def split: option.split)

lemma info_writeTemp [simp]: "info (writeTemp k v f) = info f"
  by (simp add: writeTemp_def info_def MsgValue_def)

lemma Get_Emit [simp]: "Get (Emit e d f) = Get f"
  by (rule ext) (auto simp add: Emit_def Get_def stored_buffer Let_def split: option.split)

lemma info_Emit [simp]: "info (Emit e d f) = info f"
  by (simp add: Emit_def info_def MsgValue_def Let_def split: option.split)

lemma run_Set_Ok: "run (SetP k v p) cf f = Ok f' \<longleftrightarrow> gas_ok 200 f \<and> run p cf (writeTemp k v (burn 200 f)) = Ok f'"
  by (simp add: consumeGas_andThen)

lemma run_Emit_Ok: "run (EmitP e d p) cf f = Ok f' \<longleftrightarrow> gas_ok 500 f \<and> run p cf (Emit e d (burn 500 f)) = Ok f'"
  by (simp add: consumeGas_andThen)

lemma run_if: "run (if b then p else q) cf f = (if b then run p cf f else run q cf f)"
  by simp

lemma SendNative_Ok:
  assumes "SendNative to a f = Ok f'"
  obtains tb where "fr_Buffer f = Some tb" "0 < a" "norm_addr to \<noteq> []"
    "f' = f\<lparr>fr_Buffer := Some (queueSend (fr_ContractAddr f) (norm_addr to) a tb)\<rparr>"
  using assms by (auto simp: SendNative_def Let_def not_le split: option.splits if_splits)

lemma ReceiveNative_Ok:
  assumes "ReceiveNative a f = Ok f'"
  obtains tb where "fr_Buffer f = Some tb" "0 < a" "a \<le> tb_nativeEscrow tb"
    "f' = f\<lparr>fr_Buffer := Some (creditNative (fr_ContractAddr f) a (tb\<lparr>tb_nativeEscrow := tb_nativeEscrow tb - a\<rparr>))\<rparr>"
  using assms by (auto simp: ReceiveNative_def Let_def not_le not_less split: option.splits if_splits)

lemma nativeValue_flows [simp]: "tb_nativeValue (queueSend a b c tb) = tb_nativeValue tb" "tb_nativeValue (creditNative a c tb) = tb_nativeValue tb"
  by (simp_all add: queueSend_def creditNative_def Let_def)

section \<open>Dispatch by reflection\<close>

text \<open>Method names match in any case; a wrong number of arguments is a panic.\<close>

definition args0 :: "prog \<Rightarrow> string list \<Rightarrow> prog" where
  "args0 p args = (if args = [] then p else Crash ''reflect: Call with too many input arguments'')"
definition args1 :: "(string \<Rightarrow> prog) \<Rightarrow> string list \<Rightarrow> prog" where
  "args1 p args = (case args of [a] \<Rightarrow> p a | _ \<Rightarrow> Crash ''reflect: Call with wrong number of arguments'')"
definition args2 :: "(string \<Rightarrow> string \<Rightarrow> prog) \<Rightarrow> string list \<Rightarrow> prog" where
  "args2 p args = (case args of [a, b] \<Rightarrow> p a b | _ \<Rightarrow> Crash ''reflect: Call with wrong number of arguments'')"
definition args3 :: "(string \<Rightarrow> string \<Rightarrow> string \<Rightarrow> prog) \<Rightarrow> string list \<Rightarrow> prog" where
  "args3 p args = (case args of [a, b, c] \<Rightarrow> p a b c | _ \<Rightarrow> Crash ''reflect: Call with wrong number of arguments'')"
definition args4 :: "(string \<Rightarrow> string \<Rightarrow> string \<Rightarrow> string \<Rightarrow> prog) \<Rightarrow> string list \<Rightarrow> prog" where
  "args4 p args = (case args of [a, b, c, d] \<Rightarrow> p a b c d | _ \<Rightarrow> Crash ''reflect: Call with wrong number of arguments'')"

definition dispatch :: "(string \<times> (string list \<Rightarrow> prog)) list \<Rightarrow> contract" where
  "dispatch methods fn args = map_option (\<lambda>m. m args) (map_of methods (to_lower fn))"


section \<open>Predicate transformer\<close>

text \<open>
  \<open>wp C Q p i g n\<close>: run from storage \<open>g\<close> with \<open>n\<close> coins taken in so far, \<open>p\<close> commits only storage
  that satisfies \<open>C\<close>, and ends, if it does not panic, with \<open>Q\<close>. A nested call may answer anything
  and move any coins, and leaves the storage alone: the call stack guards it.
\<close>

primrec wp :: "((string \<Rightarrow> string) \<Rightarrow> bool) \<Rightarrow> ((string \<Rightarrow> string) \<Rightarrow> int \<Rightarrow> bool) \<Rightarrow> prog \<Rightarrow> ctx_info \<Rightarrow>
    (string \<Rightarrow> string) \<Rightarrow> int \<Rightarrow> bool" where
  "wp C Q Done i g n = Q g n"
| "wp C Q (Revert m) i g n = True"
| "wp C Q (Crash m) i g n = True"
| "wp C Q (Fail m) i g n = True"
| "wp C Q (AskP c) i g n = wp C Q (c i) i g n"
| "wp C Q (GetP k c) i g n = wp C Q (c (g k)) i g n"
| "wp C Q (SetP k v p) i g n = wp C Q p i (g(k := v)) n"
| "wp C Q (EmitP e d p) i g n = wp C Q p i g n"
| "wp C Q (CallP t fn as c) i g n = (\<forall>r n'. wp C Q (c r) i g n')"
| "wp C Q (ReceiveP a p) i g n = (0 < a \<longrightarrow> wp C Q p i g (n + a))"
| "wp C Q (ReceiveFromCallerP a p) i g n = (0 < a \<longrightarrow> wp C Q p i g n)"
| "wp C Q (SendP to a p) i g n = (0 < a \<longrightarrow> wp C Q p i g (n - a))"
| "wp C Q (CommitP p) i g n = (C g \<and> wp C Q p i g n)"
| "wp C Q (GasP k p) i g n = wp C Q p i g n"

definition gain :: "frame \<Rightarrow> int" where
  "gain f = (case fr_Buffer f of None \<Rightarrow> 0 | Some tb \<Rightarrow> netIn (fr_ContractAddr f) tb)"

text \<open>A frame of \<open>executeInner\<close>: in a buffer, and on its call stack.\<close>

definition live :: "frame \<Rightarrow> bool" where
  "live f \<longleftrightarrow> nrm (fr_ContractAddr f) \<and> fr_ContractAddr f \<noteq> [] \<and>
     (\<exists>tb. fr_Buffer f = Some tb \<and> fr_ContractAddr f \<in> set (tb_callStack tb)) \<and> wf_map (fr_tempStorage f)"

lemma live_evolves: "live f \<Longrightarrow> evolves f g \<Longrightarrow> wf_map (fr_tempStorage g) \<Longrightarrow> live g"
  using evolves_ids [of f g] by (auto simp: live_def frozen_def elim!: evolves_buffer)

lemma gain_upd [simp]:
  "gain (f\<lparr>fr_GasUsed := x\<rparr>) = gain f" "gain (f\<lparr>fr_tempStorage := t\<rparr>) = gain f"
  by (simp_all add: gain_def split: option.split)

lemma netIn_events [simp]: "netIn a (tb\<lparr>tb_events := e\<rparr>) = netIn a tb"
  by (simp add: netIn_def)

lemma netIn_SetStorage [simp]: "netIn a (SetStorage b k v tb) = netIn a tb"
  by (simp add: netIn_def SetStorage_def)

lemma netIn_queueSend: "netIn a (queueSend from to x tb) = netIn a tb + (if to = a then x else 0) - (if from = a then x else 0)"
  by (simp add: netIn_def queueSend_def sendNet_def)

lemma creditOf_addTo: "creditOf a (addTo b d m) = creditOf a m + (if a = b then d else 0)"
  by (auto simp: creditOf_def split: option.split)

lemma netIn_receive:
  "0 < x \<Longrightarrow> nrm a \<Longrightarrow> a \<noteq> [] \<Longrightarrow> netIn a (creditNative a x (tb\<lparr>tb_nativeEscrow := e\<rparr>)) = netIn a tb + x"
  by (simp add: netIn_def creditNative_def creditOf_addTo)

text \<open>Steps that leave the view of the storage and the coins alone.\<close>

definition calm :: "frame \<Rightarrow> frame \<Rightarrow> bool" where
  "calm f g \<longleftrightarrow> info g = info f \<and> Get g = Get f \<and> stored g = stored f \<and> fr_tempStorage g = fr_tempStorage f"

lemma calm_burn: "calm f (burn n f)" "gain (burn n f) = gain f"
  by (simp_all add: calm_def fun_eq_iff) (simp_all add: burn_def)

lemma calm_Emit: "calm f (Emit e d f)" "gain (Emit e d f) = gain f"
  by (simp_all add: calm_def fun_eq_iff) (auto simp: Emit_def gain_def stored_buffer Let_def split: option.split)

lemma calm_SendNative: "SendNative to a f = Ok g \<Longrightarrow> calm f g \<and> 0 < a \<and> gain f - a \<le> gain g"
  by (elim SendNative_Ok)
    (auto simp: calm_def fun_eq_iff Get_def info_def MsgValue_def gain_def netIn_queueSend stored_buffer split: option.split)

lemma calm_ReceiveNative: "live f \<Longrightarrow> ReceiveNative a f = Ok g \<Longrightarrow> calm f g \<and> 0 < a \<and> gain g = gain f + a"
  by (elim ReceiveNative_Ok)
    (auto simp: calm_def live_def fun_eq_iff Get_def info_def MsgValue_def gain_def netIn_receive stored_buffer split: option.split)

lemma ReceiveFromCaller_Ok:
  assumes "ReceiveNativeFromCaller a f = Ok f'"
  obtains tb where "fr_Buffer f = Some tb" "0 < a"
    "f' = f\<lparr>fr_Buffer := Some (queueSend (norm_addr (fr_CallerAddr f)) (norm_addr (fr_ContractAddr f)) a tb)\<rparr>"
  using assms by (auto simp: ReceiveNativeFromCaller_def Let_def not_le split: option.splits if_splits)

lemma calm_ReceiveFromCaller: "live f \<Longrightarrow> ReceiveNativeFromCaller a f = Ok g \<Longrightarrow> calm f g \<and> 0 < a \<and> gain f \<le> gain g"
  by (elim ReceiveFromCaller_Ok)
    (auto simp: calm_def live_def fun_eq_iff Get_def info_def MsgValue_def gain_def netIn_queueSend stored_buffer split: option.split)

lemma calm_call:
  assumes "call_ok cf" "cf t fn as (fr_DB f, fr_Buffer f) = (r, st)" "live f"
  shows "calm f (withStore st f)"
proof -
  from assms(3) obtain tb where tb: "fr_Buffer f = Some tb" "fr_ContractAddr f \<in> set (tb_callStack tb)" by (auto simp: live_def)
  have "cf t fn as (fr_DB f, Some tb) = (r, st)" using assms(2) tb by simp
  with assms(1) obtain tb' where tb': "st = (fr_DB f, Some tb')" "frozen {} tb tb'" unfolding call_ok_def by blast
  have "GetStorage tb' (fr_ContractAddr f) = GetStorage tb (fr_ContractAddr f)"
    using tb tb'(2) by (auto simp: GetStorage_def frozen_def fun_eq_iff)
  then have "stored (withStore st f) k = stored f k" for k
    using tb by (simp add: tb' withStore_def stored_def)
  moreover have "info (withStore st f) = info f"
    using tb tb'(2) by (simp add: tb'(1) withStore_def info_def MsgValue_def frozen_def)
  ultimately show ?thesis by (auto simp: calm_def fun_eq_iff Get_def split: option.split) (simp_all add: withStore_def)
qed

text \<open>
  Soundness: what the method leaves committed satisfies \<open>C\<close>, panic or not; if it returns, its view
  of the storage satisfies \<open>Q\<close>, with at least the coins \<open>Q\<close> speaks of.
\<close>

definition sound :: "((string \<Rightarrow> string) \<Rightarrow> bool) \<Rightarrow> ((string \<Rightarrow> string) \<Rightarrow> int \<Rightarrow> bool) \<Rightarrow> frame \<Rightarrow> int \<Rightarrow> outcome \<Rightarrow> bool" where
  "sound C Q f n out \<longleftrightarrow> (C (stored f) \<longrightarrow> C (stored (final out))) \<and>
     (\<forall>f'. out = Ok f' \<longrightarrow> live f' \<and> (\<exists>n'. Q (Get f') n' \<and> n' - n \<le> gain f' - gain f))"

lemma sound_andThen:
  assumes a: "evolves f (final a)" and live: "live f"
    and kept: "stored (final a) = stored f" "fr_tempStorage (final a) = fr_tempStorage f"
    and step: "\<And>f1. a = Ok f1 \<Longrightarrow> live f1 \<Longrightarrow> \<exists>m. sound C Q f1 m (k f1) \<and> m - n \<le> gain f1 - gain f"
  shows "sound C Q f n (andThen a k)"
proof (cases a)
  case (Ok f1)
  have "live f1" by (rule live_evolves [OF live]) (use a kept live Ok in \<open>simp_all add: live_def\<close>)
  from step [OF Ok this] obtain m where m: "sound C Q f1 m (k f1)" "m - n \<le> gain f1 - gain f" by auto
  have "live f' \<and> (\<exists>n'. Q (Get f') n' \<and> n' - n \<le> gain f' - gain f)" if "k f1 = Ok f'" for f'
    using m that by (force simp: sound_def)
  with m(1) kept(1) show ?thesis by (auto simp: sound_def Ok)
qed (use kept in \<open>simp add: sound_def\<close>)

lemma final_gas: "stored (final (consumeGas n f)) = stored f" "fr_tempStorage (final (consumeGas n f)) = fr_tempStorage f"
  by (auto simp: consumeGas_def Let_def fun_eq_iff)

lemma sound_gas:
  assumes "live f" "\<And>f1. live f1 \<Longrightarrow> calm f f1 \<Longrightarrow> gain f1 = gain f \<Longrightarrow> \<exists>m. sound C Q f1 m (k f1) \<and> m - n \<le> gain f1 - gain f"
  shows "sound C Q f n (andThen (consumeGas x f) k)"
proof (rule sound_andThen [OF evolves_consumeGas assms(1) final_gas])
  fix f1 :: frame
  assume ok: "consumeGas x f = Ok f1" and "live f1"
  have "f1 = burn x f" using ok by (auto simp: consumeGas_def burn_def Let_def split: if_splits)
  with \<open>live f1\<close> calm_burn assms(2) show "\<exists>m. sound C Q f1 m (k f1) \<and> m - n \<le> gain f1 - gain f" by simp
qed

lemma final_flow:
  "stored (final (SendNative to a f)) = stored f \<and> fr_tempStorage (final (SendNative to a f)) = fr_tempStorage f"
  "stored (final (ReceiveNative a f)) = stored f \<and> fr_tempStorage (final (ReceiveNative a f)) = fr_tempStorage f"
  "stored (final (ReceiveNativeFromCaller a f)) = stored f \<and> fr_tempStorage (final (ReceiveNativeFromCaller a f)) = fr_tempStorage f"
  by (auto simp: SendNative_def ReceiveNative_def ReceiveNativeFromCaller_def Let_def fun_eq_iff stored_buffer split: option.split)

lemma gain_writeTemp [simp]: "gain (writeTemp k v f) = gain f"
  by (simp add: writeTemp_def)

lemma stored_writeTemp [simp]: "stored (writeTemp k v f) = stored f"
  by (simp add: writeTemp_def fun_eq_iff)

lemma sound_flow:
  assumes "live f" "\<And>f1. evolves f1 (final (act f1))" "\<And>f1. stored (final (act f1)) = stored f1 \<and> fr_tempStorage (final (act f1)) = fr_tempStorage f1"
    and "\<And>f1 f2. live f1 \<Longrightarrow> live f2 \<Longrightarrow> calm f f1 \<Longrightarrow> gain f1 = gain f \<Longrightarrow> act f1 = Ok f2 \<Longrightarrow>
      \<exists>m. sound C Q f2 m (k f2) \<and> m - n \<le> gain f2 - gain f"
  shows "sound C Q f n (andThen (andThen (consumeGas x f) act) k)"
proof -
  have assoc: "andThen (andThen (consumeGas x f) act) k = andThen (consumeGas x f) (\<lambda>f1. andThen (act f1) k)"
    by (cases "consumeGas x f") simp_all
  show ?thesis unfolding assoc
  proof (rule sound_gas [OF assms(1)])
    fix f1 :: frame
    assume f1: "live f1" "calm f f1" "gain f1 = gain f"
    have "sound C Q f1 n (andThen (act f1) k)"
    proof (rule sound_andThen [OF assms(2) f1(1)])
      show "\<exists>m. sound C Q f2 m (k f2) \<and> m - n \<le> gain f2 - gain f1" if "act f1 = Ok f2" "live f2" for f2
        using assms(4) [OF f1(1) that(2) f1(2,3) that(1)] f1(3) by simp
    qed (use assms(3) in auto)
    with f1(3) show "\<exists>m. sound C Q f1 m (andThen (act f1) k) \<and> m - n \<le> gain f1 - gain f" by auto
  qed
qed

lemma fold_SetStorage_get:
  "GetStorage (fold (\<lambda>(k, v). SetStorage a k v) kv tb) a key db =
     (case map_of (rev kv) key of Some v \<Rightarrow> v | None \<Rightarrow> GetStorage tb a key db)"
proof (induction kv rule: rev_induct)
  case (snoc p kv)
  then show ?case by (cases p) (auto simp: GetStorage_def SetStorage_def split: option.split)
qed simp

lemma fold_SetStorage_net: "netIn a (fold (\<lambda>(k, v). SetStorage b k v) kv tb) = netIn a tb"
  by (induction kv arbitrary: tb) auto

lemma fold_SetStorage_flows: "tb_nativeValue (fold (\<lambda>(k, v). SetStorage b k v) kv tb) = tb_nativeValue tb"
  by (induction kv arbitrary: tb) (auto simp: SetStorage_def)

lemma live_writeTemp: "live f \<Longrightarrow> live (writeTemp k v f)"
  by (rule live_evolves [OF _ evolves_writeTemp]) (auto simp: writeTemp_def live_def intro: wf_mput)

lemma live_Emit: "live f \<Longrightarrow> live (Emit e d f)"
  by (rule live_evolves [OF _ evolves_Emit]) (auto simp: Emit_def live_def Let_def split: option.split)

lemma live_call: "live f \<Longrightarrow> evolves f (withStore st f) \<Longrightarrow> live (withStore st f)"
  by (rule live_evolves) (auto simp: live_def withStore_def)

lemma live_Commit: "live f \<Longrightarrow> live (Commit f)"
  by (rule live_evolves [OF _ evolves_Commit]) (auto simp: Commit_def live_def split: option.split)

lemma Commit_view:
  assumes "live f"
  shows "Get (Commit f) = Get f" "info (Commit f) = info f" "stored (Commit f) = Get f" "gain (Commit f) = gain f"
proof -
  from assms obtain tb where tb: "fr_Buffer f = Some tb" "wf_map (fr_tempStorage f)" by (auto simp: live_def)
  let ?tb = "fold (\<lambda>(k, v). SetStorage (fr_ContractAddr f) k v) (fr_tempStorage f) tb"
  have C: "Commit f = f\<lparr>fr_Buffer := Some ?tb\<rparr>" by (simp add: Commit_def tb)
  have "map_of (rev (fr_tempStorage f)) = map_of (fr_tempStorage f)"
    by (rule map_of_perm) (use tb in \<open>simp_all add: rev_map [symmetric]\<close>)
  then show st: "stored (Commit f) = Get f"
    by (auto simp: fun_eq_iff C stored_def Get_def tb fold_SetStorage_get split: option.split)
  show "Get (Commit f) = Get f"
    by (rule ext) (use st in \<open>auto simp: Get_def fun_eq_iff C split: option.split\<close>)
  show "info (Commit f) = info f" "gain (Commit f) = gain f"
    using fold_SetStorage_flows [of "fr_ContractAddr f" "fr_tempStorage f" tb]
    by (simp_all add: C info_def MsgValue_def gain_def tb fold_SetStorage_net)
qed

lemma run_wp:
  assumes cf: "call_ok cf"
  shows "live f \<Longrightarrow> wp C Q p (info f) (Get f) n \<Longrightarrow> sound C Q f n (run p cf f)"
proof (induction p arbitrary: f n)
  case Done
  then show ?case by (auto simp: sound_def)
next
  case (SetP k v p)
  show ?case unfolding run.simps
  proof (rule sound_gas [OF SetP.prems(1)])
    fix f1 :: frame
    assume f1: "live f1" "calm f f1" "gain f1 = gain f"
    have "wp C Q p (info (writeTemp k v f1)) (Get (writeTemp k v f1)) n"
      using SetP.prems(2) f1(2) unfolding calm_def Get_writeTemp info_writeTemp wp.simps by metis
    with SetP.IH [OF live_writeTemp [OF f1(1)]] have "sound C Q (writeTemp k v f1) n (run p cf (writeTemp k v f1))" .
    then show "\<exists>m. sound C Q f1 m (run p cf (writeTemp k v f1)) \<and> m - n \<le> gain f1 - gain f"
      using f1(3) by (intro exI [of _ n]) (simp add: sound_def gain_writeTemp stored_writeTemp)
  qed
next
  case (EmitP e d p)
  show ?case unfolding run.simps
  proof (rule sound_gas [OF EmitP.prems(1)])
    fix f1 :: frame
    assume f1: "live f1" "calm f f1" "gain f1 = gain f"
    have "sound C Q (Emit e d f1) n (run p cf (Emit e d f1))"
      by (rule EmitP.IH [OF live_Emit [OF f1(1)]]) (use EmitP.prems(2) f1(2) in \<open>simp add: calm_def\<close>)
    then show "\<exists>m. sound C Q f1 m (run p cf (Emit e d f1)) \<and> m - n \<le> gain f1 - gain f"
      using f1(3) calm_Emit [where f = f1 and e = e and d = d] by (intro exI [of _ n]) (simp add: sound_def calm_def)
  qed
next
  case (CallP t fn as c)
  show ?case unfolding run.simps
  proof (rule sound_gas [OF CallP.prems(1)])
    fix f1 :: frame
    assume f1: "live f1" "calm f f1" "gain f1 = gain f"
    obtain r st where r: "cf t fn as (fr_DB f1, fr_Buffer f1) = (r, st)" by (cases "cf t fn as (fr_DB f1, fr_Buffer f1)")
    note call = evolves_call [OF cf r] calm_call [OF cf r f1(1)]
    let ?m = "n + gain (withStore st f1) - gain f1"
    have "sound C Q (withStore st f1) ?m (run (c r) cf (withStore st f1))"
      by (rule CallP.IH [OF rangeI live_call [OF f1(1) call(1)]])
        (use CallP.prems(2) f1(2) call(2) in \<open>simp add: calm_def\<close>)
    then show "\<exists>m. sound C Q f1 m (case cf t fn as (fr_DB f1, fr_Buffer f1) of (r, st) \<Rightarrow> run (c r) cf (withStore st f1)) \<and>
        m - n \<le> gain f1 - gain f"
      using f1(3) call(2) unfolding r by (intro exI [of _ n]) (force simp: sound_def calm_def)
  qed
next
  case (ReceiveP amt p f n)
  show ?case unfolding run.simps
  proof (rule sound_flow [OF ReceiveP.prems(1) evolves_ReceiveNative final_flow(2)])
    fix f1 f2 :: frame
    assume f: "live f1" "live f2" "calm f f1" "gain f1 = gain f" "ReceiveNative amt f1 = Ok f2"
    note c = calm_ReceiveNative [OF f(1,5)]
    have "sound C Q f2 (n + amt) (run p cf f2)"
      by (rule ReceiveP.IH [OF f(2)]) (use ReceiveP.prems(2) c f(3) in \<open>simp add: calm_def\<close>)
    with c f(4) show "\<exists>m. sound C Q f2 m (run p cf f2) \<and> m - n \<le> gain f2 - gain f" by (intro exI [of _ "n + amt"]) simp
  qed
next
  case (ReceiveFromCallerP amt p f n)
  show ?case unfolding run.simps
  proof (rule sound_flow [OF ReceiveFromCallerP.prems(1) evolves_ReceiveNativeFromCaller final_flow(3)])
    fix f1 f2 :: frame
    assume f: "live f1" "live f2" "calm f f1" "gain f1 = gain f" "ReceiveNativeFromCaller amt f1 = Ok f2"
    note c = calm_ReceiveFromCaller [OF f(1,5)]
    have "sound C Q f2 n (run p cf f2)"
      by (rule ReceiveFromCallerP.IH [OF f(2)]) (use ReceiveFromCallerP.prems(2) c f(3) in \<open>simp add: calm_def\<close>)
    with c f(4) show "\<exists>m. sound C Q f2 m (run p cf f2) \<and> m - n \<le> gain f2 - gain f" by (intro exI [of _ n]) simp
  qed
next
  case (SendP rcv amt p f n)
  show ?case unfolding run.simps
  proof (rule sound_flow [OF SendP.prems(1) evolves_SendNative final_flow(1)])
    fix f1 f2 :: frame
    assume f: "live f1" "live f2" "calm f f1" "gain f1 = gain f" "SendNative rcv amt f1 = Ok f2"
    note c = calm_SendNative [OF f(5)]
    have "sound C Q f2 (n - amt) (run p cf f2)"
      by (rule SendP.IH [OF f(2)]) (use SendP.prems(2) c f(3) in \<open>simp add: calm_def\<close>)
    with c f(4) show "\<exists>m. sound C Q f2 m (run p cf f2) \<and> m - n \<le> gain f2 - gain f" by (intro exI [of _ "n - amt"]) simp
  qed
next
  case (CommitP p)
  note c = Commit_view [OF CommitP.prems(1)]
  have "sound C Q (Commit f) n (run p cf (Commit f))"
    by (rule CommitP.IH [OF live_Commit [OF CommitP.prems(1)]]) (use CommitP.prems(2) c in simp)
  with c CommitP.prems(2) show ?case by (auto simp: sound_def)
next
  case (GasP k p)
  show ?case unfolding run.simps
  proof (rule sound_gas [OF GasP.prems(1)])
    fix f1 :: frame
    assume f1: "live f1" "calm f f1" "gain f1 = gain f"
    have "sound C Q f1 n (run p cf f1)"
      by (rule GasP.IH [OF f1(1)]) (use GasP.prems(2) f1(2) in \<open>simp add: calm_def\<close>)
    with f1(3) show "\<exists>m. sound C Q f1 m (run p cf f1) \<and> m - n \<le> gain f1 - gain f" by auto
  qed
next
  case (AskP c)
  show ?case using AskP.IH [OF rangeI AskP.prems(1)] AskP.prems(2) by simp
next
  case (GetP k c)
  show ?case using GetP.IH [OF rangeI GetP.prems(1)] GetP.prems(2) by simp
qed (simp_all add: sound_def)

section \<open>Invariants of the buffered storage\<close>

text \<open>
  A predicate on the buffered changes holds after any nested execution if writes at the addresses in
  \<open>X\<close> keep it and the methods deployed at the others do.
\<close>

definition holdsS :: "(kvdb \<Rightarrow> TxBuffer \<Rightarrow> bool) \<Rightarrow> store \<Rightarrow> bool" where
  "holdsS J s \<longleftrightarrow> (case snd s of None \<Rightarrow> True | Some tb \<Rightarrow> J (fst s) tb)"

abbreviation holds :: "(kvdb \<Rightarrow> TxBuffer \<Rightarrow> bool) \<Rightarrow> frame \<Rightarrow> bool" where
  "holds J f \<equiv> holdsS J (fr_DB f, fr_Buffer f)"

definition kept :: "(kvdb \<Rightarrow> TxBuffer \<Rightarrow> bool) \<Rightarrow> frame \<Rightarrow> frame \<Rightarrow> bool" where
  "kept J f g \<longleftrightarrow> fr_ContractAddr g = fr_ContractAddr f \<and> (holds J f \<longrightarrow> holds J g)"

definition on_changes :: "(kvdb \<Rightarrow> TxBuffer \<Rightarrow> bool) \<Rightarrow> bool" where
  "on_changes J \<longleftrightarrow> (\<forall>db tb tb'. tb_changes tb' = tb_changes tb \<longrightarrow> J db tb \<longrightarrow> J db tb')"

definition writes_keep :: "(kvdb \<Rightarrow> TxBuffer \<Rightarrow> bool) \<Rightarrow> string \<Rightarrow> bool" where
  "writes_keep J a \<longleftrightarrow> (\<forall>db tb k v. J db tb \<longrightarrow> J db (SetStorage a k v tb))"

definition calls_keep :: "(kvdb \<Rightarrow> TxBuffer \<Rightarrow> bool) \<Rightarrow> callfn \<Rightarrow> bool" where
  "calls_keep J cf \<longleftrightarrow> (\<forall>t fn as s. holdsS J s \<longrightarrow> holdsS J (snd (cf t fn as s)))"

lemma kept_refl: "kept J f f"
  by (simp add: kept_def)

lemma kept_trans: "kept J f g \<Longrightarrow> kept J g h \<Longrightarrow> kept J f h"
  by (simp add: kept_def)

lemma kept_andThen:
  "kept J f (final a) \<Longrightarrow> (\<And>f1. a = Ok f1 \<Longrightarrow> fr_ContractAddr f1 = fr_ContractAddr f \<Longrightarrow> kept J f1 (final (k f1))) \<Longrightarrow>
     kept J f (final (andThen a k))"
  by (cases a) (auto simp: kept_def)

lemma kept_buffer:
  assumes "on_changes J" "fr_ContractAddr g = fr_ContractAddr f" "fr_DB g = fr_DB f"
    and "\<And>tb'. fr_Buffer g = Some tb' \<Longrightarrow> \<exists>tb. fr_Buffer f = Some tb \<and> tb_changes tb' = tb_changes tb"
  shows "kept J f g"
proof (cases "fr_Buffer g")
  case (Some tb')
  with assms(4) obtain tb where "fr_Buffer f = Some tb" "tb_changes tb' = tb_changes tb" by auto
  with assms(1-3) Some show ?thesis unfolding on_changes_def kept_def holdsS_def by simp
qed (use assms(2) in \<open>simp add: kept_def holdsS_def\<close>)

lemma fold_writes_keep: "writes_keep J a \<Longrightarrow> J db tb \<Longrightarrow> J db (fold (\<lambda>(k, v). SetStorage a k v) kv tb)"
  by (induction kv arbitrary: tb) (auto simp: writes_keep_def)

lemma kept_steps:
  assumes "on_changes J"
  shows "kept J f (final (consumeGas n f))" "kept J f (writeTemp k v f)" "kept J f (Emit e d f)"
    "kept J f (final (ReceiveNative a f))" "kept J f (final (ReceiveNativeFromCaller a f))" "kept J f (final (SendNative to a f))"
  using assms
  by (auto intro!: kept_buffer simp: consumeGas_def writeTemp_def Emit_def ReceiveNative_def ReceiveNativeFromCaller_def
      SendNative_def queueSend_def creditNative_def Let_def split: option.split)

lemma kept_Commit:
  assumes "writes_keep J (fr_ContractAddr f)"
  shows "kept J f (Commit f)"
  using fold_writes_keep [OF assms] by (auto simp: kept_def holdsS_def Commit_def split: option.split)

lemma kept_call:
  assumes "calls_keep J cf" "cf t fn as (fr_DB f, fr_Buffer f) = (r, st)"
  shows "kept J f (withStore st f)"
proof -
  from assms(1) have "holds J f \<longrightarrow> holdsS J (snd (cf t fn as (fr_DB f, fr_Buffer f)))" unfolding calls_keep_def by blast
  with assms(2) show ?thesis by (simp add: kept_def withStore_def)
qed

lemma run_kept:
  assumes J: "on_changes J" and cf: "calls_keep J cf"
  shows "writes_keep J (fr_ContractAddr f) \<Longrightarrow> kept J f (final (run p cf f))"
proof (induction p arbitrary: f)
  case (CallP t fn as c)
  show ?case unfolding run.simps
  proof (rule kept_andThen [OF kept_steps(1) [OF J]])
    fix f1 :: frame
    assume "fr_ContractAddr f1 = fr_ContractAddr f"
    then have w: "writes_keep J (fr_ContractAddr (withStore st f1))" for st using CallP.prems by (simp add: withStore_def)
    obtain r st where r: "cf t fn as (fr_DB f1, fr_Buffer f1) = (r, st)" by (cases "cf t fn as (fr_DB f1, fr_Buffer f1)")
    show "kept J f1 (final (case cf t fn as (fr_DB f1, fr_Buffer f1) of (r, st) \<Rightarrow> run (c r) cf (withStore st f1)))"
      unfolding r prod.case by (rule kept_trans [OF kept_call [OF cf r] CallP.IH [OF rangeI w]])
  qed
next
  case (SetP k v p)
  show ?case unfolding run.simps
    by (rule kept_andThen [OF kept_steps(1) [OF J]])
      (rule kept_trans [OF kept_steps(2) [OF J] SetP.IH], use SetP.prems in \<open>simp add: writeTemp_def\<close>)
next
  case (EmitP e d p)
  show ?case unfolding run.simps
    by (rule kept_andThen [OF kept_steps(1) [OF J]])
      (rule kept_trans [OF kept_steps(3) [OF J] EmitP.IH], use EmitP.prems in \<open>simp add: Emit_def Let_def split: option.split\<close>)
next
  case (CommitP p)
  show ?case unfolding run.simps
    by (rule kept_trans [OF kept_Commit CommitP.IH]) (use CommitP.prems in \<open>simp_all add: Commit_def split: option.split\<close>)
qed (auto intro!: kept_andThen kept_steps J kept_refl)

lemma CallPlugin_kept:
  assumes "on_changes J" "calls_keep J cf" "writes_keep J (fr_ContractAddr f)"
  shows "kept J f (final (CallPlugin code fn args cf f))"
proof (cases "code fn args")
  case (Some p)
  show ?thesis unfolding CallPlugin_def Some option.case recovered_final
    by (rule kept_andThen [OF run_kept [OF assms]]) (use assms(3) in \<open>auto intro: kept_Commit\<close>)
qed (simp add: CallPlugin_def kept_refl)

text \<open>Nested execution keeps such a predicate.\<close>

lemma executeInner_keeps:
  assumes reg: "registry_ok reg" and J: "on_changes J" and writes: "\<And>a. a \<in> X \<Longrightarrow> writes_keep J a"
    and self: "\<And>n addr owner code fn args caller gas db tb. addr \<notin> X \<Longrightarrow> reg addr = Some (owner, code) \<Longrightarrow>
      addr \<in> set (tb_callStack tb) \<Longrightarrow> J db tb \<Longrightarrow>
      holds J (final (CallPlugin code fn args (nestedCall (executeInner n reg now) addr gas) (innerFrame now addr caller owner gas db tb)))"
  shows "J db tb \<Longrightarrow> executeInner n reg now addr caller fn args gas db tb = (r, db', tb') \<Longrightarrow> J db' tb'"
proof (induction n arbitrary: addr caller fn args gas db tb r db' tb')
  case (Suc n)
  have same: "J db tb \<Longrightarrow> tb_changes tb' = tb_changes tb \<Longrightarrow> J db tb'" for db tb tb'
    using J unfolding on_changes_def by blast
  have cf: "calls_keep J (nestedCall (executeInner n reg now) addr gas)"
    unfolding calls_keep_def by (auto simp: nestedCall_def holdsS_def split: prod.splits option.splits dest: Suc.IH)
  show ?case
  proof (cases "PushCall addr tb")
    case (Inr tb1)
    then have tb1: "J db tb1" "addr \<in> set (tb_callStack tb1)"
      by (auto simp: PushCall_Inr intro: same [OF Suc.prems(1)])
    show ?thesis
    proof (cases "reg addr")
      case None
      have "J db (PopCall addr tb1)" by (rule same [OF tb1(1)]) (simp add: PopCall_def)
      with Suc.prems Inr None show ?thesis by simp
    next
      case (Some oc)
      then obtain owner code where oc: "reg addr = Some (owner, code)" by (cases oc) simp
      let ?f = "innerFrame now addr caller owner gas db tb1"
      let ?o = "CallPlugin code fn args (nestedCall (executeInner n reg now) addr gas) ?f"
      have "holds J (final ?o)"
      proof (cases "addr \<in> X")
        case True
        have "kept J ?f (final ?o)" by (rule CallPlugin_kept [OF J cf]) (simp add: writes [OF True])
        with tb1(1) show ?thesis by (simp add: kept_def holdsS_def)
      qed (use self oc tb1 in blast)
      moreover obtain tb2 where "fr_Buffer (final ?o) = Some tb2"
        using CallPlugin_evolves [OF nestedCall_ok [OF reg], of ?f code fn args n now addr gas] reg oc
        by (auto simp: registry_ok_def elim!: evolves_buffer)
      ultimately have "J (fr_DB (final ?o)) (PopCall addr (case fr_Buffer (final ?o) of None \<Rightarrow> tb1 | Some b \<Rightarrow> b))"
        by (auto simp: holdsS_def PopCall_def intro: same)
      with Suc.prems Inr oc show ?thesis by (cases ?o) auto
    qed
  qed (use Suc.prems in simp)
qed simp

text \<open>The buffered changes stay a well-formed map over deployed contracts.\<close>

definition changes_ok :: "registry \<Rightarrow> TxBuffer \<Rightarrow> bool" where
  "changes_ok reg tb \<longleftrightarrow> wf_map (tb_changes tb) \<and> list_all (\<lambda>(a, kv). reg a \<noteq> None \<and> wf_map kv) (tb_changes tb)"

lemma changes_ok_writes:
  assumes "reg a \<noteq> None"
  shows "writes_keep (\<lambda>_. changes_ok reg) a"
  unfolding writes_keep_def
proof (intro allI impI)
  fix tb k v
  assume ok: "changes_ok reg tb"
  define kv where "kv = (case map_of (tb_changes tb) a of None \<Rightarrow> [] | Some c \<Rightarrow> c)"
  have "wf_map kv" using ok list_all_map_of [of "\<lambda>(a, kv). reg a \<noteq> None \<and> wf_map kv" "tb_changes tb" a]
    by (auto simp: kv_def changes_ok_def split: option.split)
  then show "changes_ok reg (SetStorage a k v tb)"
    using ok assms unfolding changes_ok_def SetStorage_def kv_def [symmetric] by (auto intro!: list_all_mput wf_mput)
qed

lemma on_changes_ok: "on_changes (\<lambda>_. changes_ok reg)"
  by (auto simp: on_changes_def changes_ok_def)

lemma executeInner_changes_ok:
  assumes "registry_ok reg" "executeInner n reg now addr caller fn args gas db tb = (r, db', tb')" "changes_ok reg tb"
  shows "changes_ok reg tb'"
  by (rule executeInner_keeps [OF assms(1) on_changes_ok, where X = "{a. reg a \<noteq> None}", OF changes_ok_writes _ assms(3,2)]) auto

section \<open>The database after a commit\<close>

text \<open>Keys of different contracts differ as long as addresses hold no colon; deployed addresses are hexadecimal.\<close>

definition plain_addresses :: "registry \<Rightarrow> bool" where
  "plain_addresses reg \<longleftrightarrow> (\<forall>a. reg a \<noteq> None \<longrightarrow> CHR '':'' \<notin> set a)"

lemma append_colon_inj: "c \<notin> set a \<Longrightarrow> c \<notin> set b \<Longrightarrow> a @ c # x = b @ c # y \<longleftrightarrow> a = b \<and> x = y"
proof (induction a arbitrary: b)
  case Nil
  then show ?case by (cases b) auto
next
  case (Cons d a)
  then show ?case by (cases b) auto
qed

lemma storageKey_inj:
  "CHR '':'' \<notin> set a \<Longrightarrow> CHR '':'' \<notin> set b \<Longrightarrow> storageKey a k = storageKey b k' \<longleftrightarrow> a = b \<and> k = k'"
  by (simp add: storageKey_def append_colon_inj)

lemma LoadStorage_Save:
  "CHR '':'' \<notin> set a \<Longrightarrow> CHR '':'' \<notin> set b \<Longrightarrow>
    LoadStorage (SaveStorage a k v db) b key = (if a = b \<and> k = key then v else LoadStorage db b key)"
  by (auto simp: LoadStorage_def SaveStorage_def storageKey_inj)

lemma LoadStorage_fold:
  assumes "CHR '':'' \<notin> set a" "CHR '':'' \<notin> set b" "wf_map kv"
  shows "LoadStorage (fold (\<lambda>(k, v) db. SaveStorage a k v db) kv db) b key =
    (if a = b then (case map_of kv key of Some v \<Rightarrow> v | None \<Rightarrow> LoadStorage db b key) else LoadStorage db b key)"
  using assms(3)
proof (induction kv arbitrary: db)
  case (Cons p kv)
  obtain k v where p: "p = (k, v)" by (cases p)
  with Cons.prems have "map_of kv k = None" by (simp add: map_of_eq_None_iff)
  with Cons p assms show ?case by (auto simp: LoadStorage_Save split: option.split)
qed simp

lemma LoadStorage_Commit:
  assumes ok: "changes_ok reg tb" and reg: "plain_addresses reg" and b: "CHR '':'' \<notin> set b"
  shows "LoadStorage (CommitToDB tb db) b key = GetStorage tb b key db"
proof -
  have "wf_map cs \<Longrightarrow> list_all (\<lambda>(a, kv). reg a \<noteq> None \<and> wf_map kv) cs \<Longrightarrow>
    LoadStorage (fold (\<lambda>(addr, kv) db. fold (\<lambda>(k, v) db. SaveStorage addr k v db) kv db) cs db) b key =
      (case map_of cs b of None \<Rightarrow> LoadStorage db b key
       | Some c \<Rightarrow> (case map_of c key of None \<Rightarrow> LoadStorage db b key | Some v \<Rightarrow> v))" for cs
  proof (induction cs arbitrary: db)
    case (Cons p cs)
    obtain a kv where p: "p = (a, kv)" by (cases p)
    with Cons.prems have "map_of cs a = None" by (simp add: map_of_eq_None_iff)
    moreover have "CHR '':'' \<notin> set a" "wf_map kv" using Cons.prems reg by (auto simp: p plain_addresses_def)
    ultimately show ?case using Cons b by (auto simp: p LoadStorage_fold split: option.split)
  qed simp
  with ok show ?thesis by (simp add: changes_ok_def CommitToDB_def GetStorage_def)
qed

lemma commit_view:
  "changes_ok reg tb \<Longrightarrow> plain_addresses reg \<Longrightarrow> CHR '':'' \<notin> set b \<Longrightarrow>
    LoadStorage (CommitToDB tb db) b = (\<lambda>k. GetStorage tb b k db)"
  by (rule ext) (rule LoadStorage_Commit)

section \<open>What a contract must show\<close>

abbreviation bufferView :: "((string \<Rightarrow> string) \<Rightarrow> bool) \<Rightarrow> string \<Rightarrow> kvdb \<Rightarrow> TxBuffer \<Rightarrow> bool" where
  "bufferView I a \<equiv> (\<lambda>db tb. I (\<lambda>k. GetStorage tb a k db))"

lemma bufferView_other: "b \<noteq> a \<Longrightarrow> writes_keep (bufferView I a) b"
  by (simp add: writes_keep_def GetStorage_def SetStorage_def)

lemma bufferView_changes: "on_changes (bufferView I a)"
  by (auto simp: on_changes_def GetStorage_def)

lemma NewTxBuffer_simps [simp]:
  "GetStorage (NewTxBuffer v origin entry) a k db = LoadStorage db a k" "changes_ok reg (NewTxBuffer v origin entry)"
  "tb_nativeCredit (NewTxBuffer v origin entry) = []" "tb_nativeSends (NewTxBuffer v origin entry) = []"
  by (simp_all add: NewTxBuffer_def GetStorage_def changes_ok_def)

lemma live_inner:
  assumes "nrm addr" "addr \<noteq> []" "addr \<in> set (tb_callStack tb)"
  shows "live (innerFrame now addr caller owner gas db tb)" "Get (innerFrame now addr caller owner gas db tb) = (\<lambda>k. GetStorage tb addr k db)"
    "stored (innerFrame now addr caller owner gas db tb) = (\<lambda>k. GetStorage tb addr k db)"
  using assms by (auto simp: live_def innerFrame_def NewContext_def Let_def Get_def stored_def fun_eq_iff)

text \<open>What a successful transaction sent to a contract does to the contract: the \<open>wp\<close> of its method.\<close>

definition txInfo :: "string \<Rightarrow> string \<Rightarrow> string \<Rightarrow> int \<Rightarrow> int \<Rightarrow> ctx_info" where
  "txInfo A caller owner now v = \<lparr>ci_ContractAddr = A, ci_CallerAddr = caller, ci_OriginAddr = caller, ci_OwnerAddr = owner,
     ci_BlockTime = now, ci_Value = v\<rparr>"

lemma transaction_wp:
  assumes reg: "registry_ok reg" "plain_addresses reg" "reg A = Some (owner, code)"
    and m: "canon m" "nonneg_accounts m" "0 \<le> v"
    and ex: "ExecuteAtomicAt reg A caller fn args gas v now (db, m) = (Inr out, db', m')"
    and wp: "\<And>p. code fn args = Some p \<Longrightarrow> wp (\<lambda>_. True) Q p (txInfo A caller owner now v) (LoadStorage db A) 0"
  shows "\<exists>n. Q (LoadStorage db' A) n \<and> bal m A + n \<le> bal m' A"
proof -
  from ExecuteAtomicAt_Inr [OF reg(1) m(3) ex] obtain tb where
    i: "executeInner (Suc maxCallDepth) reg now A caller fn args gas db (NewTxBuffer v caller A) = (CallOk (fst out), db, tb)"
    and tb: "flows_ok tb" "attached tb = v" "tb_nativeEntry tb = A" "nrm A" "A \<noteq> []" "ensureNativeFlows m tb = None"
    "applyNativeFlows m tb = (m', None)" "db' = CommitToDB tb db" by metis
  let ?tb1 = "(NewTxBuffer v caller A)\<lparr>tb_callStack := [A], tb_depth := Suc 0\<rparr>"
  let ?f = "innerFrame now A caller owner gas db ?tb1"
  let ?cf = "nestedCall (executeInner maxCallDepth reg now) A gas"
  have "PushCall A (NewTxBuffer v caller A) = Inr ?tb1" by (simp add: PushCall_def NewTxBuffer_def maxCallDepth_def)
  with i reg(3) obtain f' where f': "CallPlugin code fn args ?cf ?f = Ok f'"
    "tb = PopCall A (case fr_Buffer f' of None \<Rightarrow> ?tb1 | Some b \<Rightarrow> b)"
    by (cases "CallPlugin code fn args ?cf ?f") auto
  then obtain p f1 where p: "code fn args = Some p" "run p ?cf ?f = Ok f1" "f' = Commit f1"
    by (cases "code fn args"; cases "run (the (code fn args)) ?cf ?f") (auto simp: CallPlugin_def)
  have "A \<in> set (tb_callStack ?tb1)" by simp
  note f = live_inner [OF tb(4,5) this, of now caller owner gas db]
  have g: "Get ?f = LoadStorage db A" using f(2) by (simp add: fun_eq_iff) (simp add: GetStorage_def NewTxBuffer_def)
  have "info ?f = txInfo A caller owner now v"
    by (simp add: info_def txInfo_def innerFrame_def NewContext_def NewTxBuffer_def MsgValue_def Let_def)
  then have "wp (\<lambda>_. True) Q p (info ?f) (Get ?f) 0" using wp [OF p(1)] unfolding g by argo
  then have "sound (\<lambda>_. True) Q ?f 0 (run p ?cf ?f)" by (rule run_wp [OF nestedCall_ok [OF reg(1)] f(1)])
  then obtain n' where n': "Q (Get f1) n'" "n' - 0 \<le> gain f1 - gain ?f" and "live f1"
    using p(2) by (auto simp: sound_def)
  note c = Commit_view [OF \<open>live f1\<close>]
  have "live f'" unfolding p(3) by (rule live_Commit [OF \<open>live f1\<close>])
  moreover have ev: "evolves ?f f'"
    using CallPlugin_evolves [OF nestedCall_ok [OF reg(1)], of ?f code fn args maxCallDepth now A gas] by (simp add: f'(1))
  then have "fr_DB f' = db" by (rule evolves_buffer) (use tb(4,5) in auto)
  moreover have "fr_ContractAddr f' = A" using evolves_ids [OF ev] by simp
  ultimately obtain tb2 where tb2: "fr_Buffer f' = Some tb2" "fr_ContractAddr f' = A" "fr_DB f' = db" by (auto simp: live_def)
  have "gain f' = netIn A tb" "stored f' = (\<lambda>k. GetStorage tb A k db)"
    using tb2 f'(2) by (simp_all add: gain_def netIn_def PopCall_def stored_def GetStorage_def fun_eq_iff)
  with c p(3) have net: "netIn A tb = gain f1" "(\<lambda>k. GetStorage tb A k db) = Get f1" by auto
  have "changes_ok reg tb" by (rule executeInner_changes_ok [OF reg(1) i]) simp
  moreover have "CHR '':'' \<notin> set A" using reg by (auto simp: plain_addresses_def)
  ultimately have "LoadStorage db' A = Get f1" using commit_view [OF _ reg(2)] net(2) by (simp add: tb(8))
  moreover have "gain ?f = 0" by (simp add: gain_def netIn_def creditOf_def NewTxBuffer_def)
  moreover have "bal m A + netIn A tb \<le> bal m' A"
    using native_flows_apply [OF m(1) tb(1) _ _ tb(6)] tb by auto
  ultimately show ?thesis using n' net(1) by (intro exI [of _ n']) simp
qed

text \<open>
  A storage invariant: every method, from storage that satisfies it, commits and returns only storage
  that satisfies it. Then so does every transaction, of any contract, with any nesting.
\<close>

locale contract_law =
  fixes code :: contract and Inv :: "(string \<Rightarrow> string) \<Rightarrow> bool"
  assumes keeps_inv: "code fn args = Some p \<Longrightarrow> Inv g \<Longrightarrow> wp Inv (\<lambda>g' _. Inv g') p i g n"
begin

lemma plugin_keeps:
  assumes cf: "call_ok cf" and live: "live f" and inv: "Inv (Get f)" "Inv (stored f)"
  shows "Inv (stored (final (CallPlugin code fn args cf f)))"
proof (cases "code fn args")
  case (Some p)
  have s: "sound Inv (\<lambda>g' _. Inv g') f 0 (run p cf f)" by (rule run_wp [OF cf live keeps_inv [OF Some inv(1)]])
  show ?thesis
  proof (cases "run p cf f")
    case (Ok f')
    with s have "Inv (Get f')" by (simp add: sound_def)
    from s Ok have "live f'" by (simp add: sound_def)
    from Commit_view(3) [OF this] \<open>Inv (Get f')\<close> show ?thesis by (simp add: CallPlugin_def Some Ok)
  qed (use s inv(2) in \<open>simp add: sound_def CallPlugin_def Some\<close>)
qed (simp add: CallPlugin_def inv)

lemma inner_keeps:
  assumes reg: "registry_ok reg" and A: "\<And>owner c. reg A = Some (owner, c) \<Longrightarrow> c = code"
    and inv: "Inv (\<lambda>k. GetStorage tb A k db)" and ex: "executeInner n reg now addr caller fn args gas db tb = (r, db', tb')"
  shows "Inv (\<lambda>k. GetStorage tb' A k db')"
proof -
  note keep = executeInner_keeps [OF reg, where J = "bufferView Inv A" and X = "- {A}", OF bufferView_changes bufferView_other]
  show ?thesis
  proof (rule keep [OF _ _ inv ex])
  fix n addr owner code' fn args caller gas db tb
  assume a: "addr \<notin> - {A}" "reg addr = Some (owner, code')" "addr \<in> set (tb_callStack tb)" "Inv (\<lambda>k. GetStorage tb A k db)"
  then have addr: "addr = A" "code' = code" using A by auto
  have na: "nrm addr" "addr \<noteq> []" using a(2) reg by (auto simp: registry_ok_def)
  let ?f = "innerFrame now addr caller owner gas db tb"
  let ?o = "CallPlugin code' fn args (nestedCall (executeInner n reg now) addr gas) ?f"
  note f = live_inner [OF na a(3)]
  have st: "Inv (stored (final ?o))" unfolding addr(2)
    by (rule plugin_keeps [OF nestedCall_ok [OF reg] f(1)]) (use a(4) f in \<open>simp_all add: addr\<close>)
  have "evolves ?f (final ?o)" by (rule CallPlugin_evolves [OF nestedCall_ok [OF reg]])
  then obtain tb2 where "fr_Buffer (final ?o) = Some tb2" "fr_ContractAddr (final ?o) = A"
    using evolves_ids [of ?f "final ?o"] na addr by (auto elim!: evolves_buffer)
  with st have "holds (bufferView Inv A) (final ?o)" unfolding stored_def holdsS_def by simp
  then show "holds (bufferView Inv A) (final ?o)" .
  qed simp
qed

lemma transaction_keeps:
  assumes reg: "registry_ok reg" "plain_addresses reg" "reg A = Some (owner, code)" and inv: "Inv (LoadStorage db A)"
    and ex: "ExecuteAtomicAt reg addr caller fn args gas v now (db, m) = (res, db', m')"
  shows "Inv (LoadStorage db' A)"
proof -
  obtain r d tb where i: "executeInner (Suc maxCallDepth) reg now addr caller fn args gas db (NewTxBuffer v caller addr) = (r, d, tb)"
    by (metis prod_cases3)
  have "Inv (\<lambda>k. GetStorage tb A k d)"
    by (rule inner_keeps [OF reg(1) _ _ i]) (use reg inv in auto)
  moreover have "d = db" using executeInner_frozen [OF reg(1) i] by simp
  moreover have "changes_ok reg tb" by (rule executeInner_changes_ok [OF reg(1) i]) simp
  moreover have "CHR '':'' \<notin> set A" using reg by (auto simp: plain_addresses_def)
  ultimately have "Inv (LoadStorage (CommitToDB tb db) A)"
    using commit_view [OF _ reg(2)] by simp
  with inv ex i show ?thesis
    by (auto simp: ExecuteAtomicAt_def simp del: executeInner.simps split: call_result.splits option.splits prod.splits)
qed

end

text \<open>
  A vault: what it owes its users, as its storage records it, never grows by more than the coins a method
  takes in. Then every transaction sent to it leaves what it owes covered by its native balance.
\<close>

locale native_vault = contract_law +
  fixes owed :: "(string \<Rightarrow> string) \<Rightarrow> int"
  assumes pays: "code fn args = Some p \<Longrightarrow> Inv g \<Longrightarrow> wp (\<lambda>_. True) (\<lambda>g' n. owed g' - owed g \<le> n) p i g 0"
begin

lemma vault_covered:
  assumes reg: "registry_ok reg" "plain_addresses reg" "reg A = Some (owner, code)" and inv: "Inv (LoadStorage db A)"
    and m: "canon m" "nonneg_accounts m" "0 \<le> v" and cov: "owed (LoadStorage db A) \<le> bal m A"
    and ex: "ExecuteAtomicAt reg A caller fn args gas v now (db, m) = (Inr out, db', m')"
  shows "Inv (LoadStorage db' A) \<and> owed (LoadStorage db' A) \<le> bal m' A"
  using transaction_keeps [OF reg inv ex] transaction_wp [OF reg m ex pays [OF _ inv]] cov by fastforce

lemma vault_solvent:
  assumes reg: "registry_ok reg" "plain_addresses reg" "reg A = Some (owner, code)" and inv: "Inv (LoadStorage db A)"
    and m: "canon m" "nonneg_accounts m" "0 \<le> v"
    and ex: "ExecuteAtomicAt reg addr caller fn args gas v now (db, m) = (res, db', m')"
  shows "Inv (LoadStorage db' A) \<and>
    (addr = A \<and> owed (LoadStorage db A) \<le> bal m A \<longrightarrow> owed (LoadStorage db' A) \<le> bal m' A)"
proof (cases res)
  case (Inl e)
  then show ?thesis
    using transaction_keeps [OF reg inv ex] ExecuteAtomicAt_Inl [OF reg(1) m(1,3) ex [unfolded Inl]] by simp
next
  case (Inr out)
  then show ?thesis
    using transaction_keeps [OF reg inv ex] vault_covered [OF reg inv m] ex by (cases out) auto
qed

end

section \<open>Proving the laws of a method\<close>

lemma wp_mono:
  "wp C Q p i g n \<Longrightarrow> (\<And>g. C g \<Longrightarrow> C' g) \<Longrightarrow> (\<And>g n. Q g n \<Longrightarrow> Q' g n) \<Longrightarrow> wp C' Q' p i g n"
  by (induction p arbitrary: g n) auto

lemma wp_any: "wp C (\<lambda>g _. Q g) p i g n \<Longrightarrow> wp C (\<lambda>g _. Q g) p i g m"
  by (induction p arbitrary: g n m) auto

lemma wp_if [simp]: "wp C Q (if b then p else q) i g n = (if b then wp C Q p i g n else wp C Q q i g n)"
  by simp

lemma wp_dispatch:
  assumes "dispatch ms fn args = Some p" "list_all (\<lambda>(_, m). wp C Q (m args) i g n) ms"
  shows "wp C Q p i g n"
  using assms by (auto simp: dispatch_def list_all_iff dest!: map_of_SomeD)

lemma wp_arguments:
  "wp C Q (args0 p args) i g n \<longleftrightarrow> (args = [] \<longrightarrow> wp C Q p i g n)"
  "wp C Q (args1 q1 args) i g n \<longleftrightarrow> (\<forall>a. args = [a] \<longrightarrow> wp C Q (q1 a) i g n)"
  "wp C Q (args2 q2 args) i g n \<longleftrightarrow> (\<forall>a b. args = [a, b] \<longrightarrow> wp C Q (q2 a b) i g n)"
  "wp C Q (args3 q3 args) i g n \<longleftrightarrow> (\<forall>a b c. args = [a, b, c] \<longrightarrow> wp C Q (q3 a b c) i g n)"
  "wp C Q (args4 q4 args) i g n \<longleftrightarrow> (\<forall>a b c d. args = [a, b, c, d] \<longrightarrow> wp C Q (q4 a b c d) i g n)"
  by (auto simp: args0_def args1_def args2_def args3_def args4_def split: list.split)

text \<open>A table kept in storage under a prefix, and its total.\<close>

definition table :: "string \<Rightarrow> (string \<Rightarrow> string) \<Rightarrow> string \<Rightarrow> int" where
  "table pre g a = big_or_zero (g (pre @ a))"

definition total :: "(string \<Rightarrow> int) \<Rightarrow> int" where
  "total h = sum h {a. h a \<noteq> 0}"

definition small :: "(string \<Rightarrow> int) \<Rightarrow> bool" where
  "small h \<longleftrightarrow> finite {a. h a \<noteq> 0}"

lemma table_upd [simp]: "table pre (g(pre @ a := v)) = (table pre g)(a := big_or_zero v)"
  by (rule ext) (simp add: table_def)

lemma table_other: "(\<And>a. key \<noteq> pre @ a) \<Longrightarrow> table pre (g(key := v)) = table pre g"
  by (rule ext) (metis fun_upd_apply table_def)

lemma small_upd [simp]: "small h \<Longrightarrow> small (h(a := v))"
  unfolding small_def by (rule finite_subset [of _ "insert a {a. h a \<noteq> 0}"]) auto

lemma total_nonneg: "\<forall>a. 0 \<le> h a \<Longrightarrow> 0 \<le> total h"
  by (simp add: total_def sum_nonneg)

lemma big_zero [simp]: "big_or_zero ''0'' = 0"
  by code_simp

lemma small_zero [simp]: "small (\<lambda>_. 0)" "total (\<lambda>_. 0) = 0"
  by (simp_all add: small_def total_def)

lemma total_upd [simp]:
  assumes "small h"
  shows "total (h(a := v)) = total h + v - h a"
proof -
  let ?S = "insert a {a. h a \<noteq> 0}"
  have S: "finite ?S" using assms by (simp add: small_def)
  have "total h = sum h ?S" unfolding total_def by (rule sum.mono_neutral_left [OF S]) auto
  moreover have "total (h(a := v)) = sum (h(a := v)) ?S"
    unfolding total_def by (rule sum.mono_neutral_left [OF S]) auto
  moreover have "sum (h(a := v)) ?S = v + sum (h(a := v)) (?S - {a})" by (subst sum.remove [OF S, of a]) auto
  moreover have "sum h ?S = h a + sum h (?S - {a})" by (subst sum.remove [OF S, of a]) auto
  moreover have "sum (h(a := v)) (?S - {a}) = sum h (?S - {a})" by (rule sum.cong) auto
  ultimately show ?thesis by simp
qed

text \<open>One \<open>wp\<close> per method gives a vault; without coins it gives a storage law.\<close>

lemma vault_lawI:
  assumes "\<And>fn args p g i. Inv g \<Longrightarrow> code fn args = Some p \<Longrightarrow> wp Inv (\<lambda>g' n. Inv g' \<and> owed g' - owed g \<le> n) p i g 0"
  shows "native_vault code Inv owed"
proof unfold_locales
  fix fn args p g i and n :: int
  assume a: "code fn args = Some p" "Inv g"
  note w = assms [OF a(2,1)]
  have "wp Inv (\<lambda>g' _. Inv g') p i g 0" by (rule wp_mono [OF w]) auto
  then show "wp Inv (\<lambda>g' _. Inv g') p i g n" by (rule wp_any)
  show "wp (\<lambda>_. True) (\<lambda>g' n. owed g' - owed g \<le> n) p i g 0" by (rule wp_mono [OF w]) auto
qed

end
