(* ===== verification/ContractToken.thy ===== *)
theory ContractToken
  imports ContractLaws
begin

text \<open>
  The fungible token \<open>lqd20.go\<close>, and an abstract token that the contract implements. Names are
  \<open>Type_Method\<close>.
\<close>

section \<open>The token contract\<close>

definition balKey :: "string \<Rightarrow> string" where "balKey a = ''bal:'' @ norm_addr a"
definition allowKey :: "string \<Rightarrow> string \<Rightarrow> string" where "allowKey own spender = ''allow:'' @ norm_addr own @ '':'' @ norm_addr spender"

definition LQDToken_ensureInit :: "prog \<Rightarrow> prog" where
  "LQDToken_ensureInit k = GetP ''name'' (\<lambda>n. if n \<noteq> [] then k else
     SetP ''name'' ''test token'' (SetP ''symbol'' ''test'' (SetP ''decimals'' ''8'' (SetP ''totalSupply'' ''1000000000000000''
     (AskP (\<lambda>c. SetP (balKey (ci_OwnerAddr c)) ''1000000000000000''
     (EmitP ''Init'' [(''name'', VStr ''test token''), (''symbol'', VStr ''test''), (''decimals'', VStr ''8''),
        (''totalSupply'', VStr ''1000000000000000'')] k)))))))"

definition LQDToken_Init :: "string \<Rightarrow> string \<Rightarrow> string \<Rightarrow> prog" where
  "LQDToken_Init name symbol total_supply =
     (if name = [] \<or> symbol = [] \<or> total_supply = [] then LQDToken_ensureInit Done else
      SetP ''name'' name (SetP ''symbol'' symbol (SetP ''totalSupply'' total_supply (SetP ''decimals'' ''8''
      (AskP (\<lambda>c. SetP (balKey (ci_OwnerAddr c)) total_supply
      (EmitP ''Init'' [(''name'', VStr name), (''symbol'', VStr symbol), (''supply'', VStr total_supply)] Done)))))))"

definition orZero :: "string \<Rightarrow> string" where "orZero v = (if v = [] then ''0'' else v)"

definition LQDToken_BalanceOf :: "string \<Rightarrow> prog" where
  "LQDToken_BalanceOf addr = LQDToken_ensureInit (GetP (balKey addr) (\<lambda>b. SetP ''output'' (orZero b) Done))"

definition LQDToken_Transfer :: "string \<Rightarrow> string \<Rightarrow> prog" where
  "LQDToken_Transfer to0 amount = LQDToken_ensureInit (AskP (\<lambda>c.
     let from = ci_CallerAddr c; a = big_or_zero amount in
     GetP (balKey from) (\<lambda>fb.
     revertIf (big_or_zero fb < a) ''insufficient balance'' (
     SetP (balKey from) (int_str (big_or_zero fb - a)) (
     GetP (balKey to0) (\<lambda>tb. SetP (balKey to0) (int_str (big_or_zero tb + a)) (
     EmitP ''Transfer'' [(''from'', VStr (norm_addr from)), (''to'', VStr (norm_addr to0)), (''amount'', VStr amount)] Done)))))))"

definition LQDToken_Approve :: "string \<Rightarrow> string \<Rightarrow> prog" where
  "LQDToken_Approve spender amount = LQDToken_ensureInit (AskP (\<lambda>c.
     SetP (allowKey (ci_CallerAddr c) spender) amount (
     EmitP ''Approve'' [(''owner'', VStr (norm_addr (ci_CallerAddr c))), (''spender'', VStr (norm_addr spender)),
       (''amount'', VStr amount)] Done)))"

definition LQDToken_Allowance :: "string \<Rightarrow> string \<Rightarrow> prog" where
  "LQDToken_Allowance own spender = LQDToken_ensureInit (GetP (allowKey own spender) (\<lambda>v. SetP ''output'' (orZero v) Done))"

definition LQDToken_TransferFrom :: "string \<Rightarrow> string \<Rightarrow> string \<Rightarrow> prog" where
  "LQDToken_TransferFrom from to0 amount = LQDToken_ensureInit (AskP (\<lambda>c.
     let spender = ci_CallerAddr c; a = big_or_zero amount in
     GetP (allowKey from spender) (\<lambda>al.
     revertIf (big_or_zero al < a) ''allowance too low'' (
     GetP (balKey from) (\<lambda>fb.
     revertIf (big_or_zero fb < a) ''insufficient balance'' (
     SetP (balKey from) (int_str (big_or_zero fb - a)) (
     GetP (balKey to0) (\<lambda>tb. SetP (balKey to0) (int_str (big_or_zero tb + a)) (
     SetP (allowKey from spender) (int_str (big_or_zero al - a)) (
     EmitP ''TransferFrom'' [(''spender'', VStr (norm_addr spender)), (''from'', VStr (norm_addr from)),
       (''to'', VStr (norm_addr to0)), (''amount'', VStr amount)] Done))))))))))"

definition LQDToken_Name :: prog where
  "LQDToken_Name = LQDToken_ensureInit (GetP ''name'' (\<lambda>v. SetP ''output'' v Done))"
definition LQDToken_Symbol :: prog where
  "LQDToken_Symbol = LQDToken_ensureInit (GetP ''symbol'' (\<lambda>v. SetP ''output'' v Done))"
definition LQDToken_Decimals :: prog where
  "LQDToken_Decimals = LQDToken_ensureInit (SetP ''output'' ''8'' Done)"
definition LQDToken_TotalSupply :: prog where
  "LQDToken_TotalSupply = LQDToken_ensureInit (GetP ''totalSupply'' (\<lambda>v. SetP ''output'' v Done))"

definition LQDToken_Burn :: "string \<Rightarrow> prog" where
  "LQDToken_Burn amount = LQDToken_ensureInit (AskP (\<lambda>c. let from = ci_CallerAddr c; a = big_or_zero amount in
     revertIf (a = 0) ''invalid burn amount'' (
     GetP (balKey from) (\<lambda>b.
     revertIf (big_or_zero b < a) ''insufficient balance to burn'' (
     SetP (balKey from) (int_str (big_or_zero b - a)) (
     GetP ''totalSupply'' (\<lambda>s. SetP ''totalSupply'' (int_str (big_or_zero s - a)) (
     EmitP ''Burn'' [(''from'', VStr (norm_addr from)), (''amount'', VStr (int_str a))] Done))))))))"

definition LQDToken_Mint :: "string \<Rightarrow> string \<Rightarrow> prog" where
  "LQDToken_Mint to0 amount = LQDToken_ensureInit (AskP (\<lambda>c.
     revertIf (norm_addr (ci_CallerAddr c) \<noteq> norm_addr (ci_OwnerAddr c)) ''only owner can mint'' (
     let a = big_or_zero amount in
     revertIf (a = 0) ''invalid mint amount'' (
     GetP (balKey to0) (\<lambda>tb. SetP (balKey to0) (int_str (big_or_zero tb + a)) (
     GetP ''totalSupply'' (\<lambda>s. SetP ''totalSupply'' (int_str (big_or_zero s + a)) (
     EmitP ''Mint'' [(''to'', VStr (norm_addr to0)), (''amount'', VStr (int_str a))] Done))))))))"

definition approvalEvent :: "string \<Rightarrow> string \<Rightarrow> int \<Rightarrow> prog" where
  "approvalEvent own spender a = EmitP ''Approval'' [(''owner'', VStr (norm_addr own)), (''spender'', VStr (norm_addr spender)),
     (''amount'', VStr (int_str a))] Done"

definition LQDToken_IncreaseAllowance :: "string \<Rightarrow> string \<Rightarrow> prog" where
  "LQDToken_IncreaseAllowance spender addedValue = LQDToken_ensureInit (AskP (\<lambda>c.
     let own = ci_CallerAddr c; added = big_or_zero addedValue in
     revertIf (added = 0) ''invalid increase amount'' (
     GetP (allowKey own spender) (\<lambda>cur. let newAllowance = big_or_zero cur + added in
     SetP (allowKey own spender) (int_str newAllowance) (approvalEvent own spender newAllowance)))))"

definition LQDToken_DecreaseAllowance :: "string \<Rightarrow> string \<Rightarrow> prog" where
  "LQDToken_DecreaseAllowance spender subtractedValue = LQDToken_ensureInit (AskP (\<lambda>c.
     let own = ci_CallerAddr c; sub = big_or_zero subtractedValue in
     revertIf (sub = 0) ''invalid decrease amount'' (
     GetP (allowKey own spender) (\<lambda>cur.
     revertIf (big_or_zero cur < sub) ''decreased allowance below zero'' (
     let newAllowance = big_or_zero cur - sub in
     SetP (allowKey own spender) (int_str newAllowance) (approvalEvent own spender newAllowance))))))"

definition lqd20 :: contract where
  "lqd20 = dispatch [(''init'', args3 LQDToken_Init), (''balanceof'', args1 LQDToken_BalanceOf), (''transfer'', args2 LQDToken_Transfer),
     (''approve'', args2 LQDToken_Approve), (''allowance'', args2 LQDToken_Allowance), (''transferfrom'', args3 LQDToken_TransferFrom),
     (''name'', args0 LQDToken_Name), (''symbol'', args0 LQDToken_Symbol), (''decimals'', args0 LQDToken_Decimals),
     (''totalsupply'', args0 LQDToken_TotalSupply), (''burn'', args1 LQDToken_Burn), (''mint'', args2 LQDToken_Mint),
     (''increaseallowance'', args2 LQDToken_IncreaseAllowance), (''decreaseallowance'', args2 LQDToken_DecreaseAllowance)]"

section \<open>An abstract token\<close>

record token =
  t_bal :: "string \<Rightarrow> int"
  t_allow :: "string \<Rightarrow> int"
  t_supply :: int

datatype tok_op =
    OpTransfer string string
  | OpApprove string string
  | OpTransferFrom string string string
  | OpBurn string
  | OpMint string string
  | OpIncrease string string
  | OpDecrease string string

text \<open>The method call an operation stands for.\<close>

fun tokCall :: "tok_op \<Rightarrow> string \<times> string list" where
  "tokCall (OpTransfer to a) = (''Transfer'', [to, a])"
| "tokCall (OpApprove sp a) = (''Approve'', [sp, a])"
| "tokCall (OpTransferFrom from to a) = (''TransferFrom'', [from, to, a])"
| "tokCall (OpBurn a) = (''Burn'', [a])"
| "tokCall (OpMint to a) = (''Mint'', [to, a])"
| "tokCall (OpIncrease sp a) = (''IncreaseAllowance'', [sp, a])"
| "tokCall (OpDecrease sp a) = (''DecreaseAllowance'', [sp, a])"

definition move :: "string \<Rightarrow> string \<Rightarrow> int \<Rightarrow> token \<Rightarrow> token option" where
  "move from to n t = (if t_bal t from < n then None else
     (let b = (t_bal t)(from := t_bal t from - n) in Some (t\<lparr>t_bal := b(to := b to + n)\<rparr>)))"

definition grant :: "string \<Rightarrow> string \<Rightarrow> int \<Rightarrow> token \<Rightarrow> token" where
  "grant own sp n t = t\<lparr>t_allow := (t_allow t)(own @ '':'' @ sp := n)\<rparr>"

definition allowed :: "string \<Rightarrow> string \<Rightarrow> token \<Rightarrow> int" where
  "allowed own sp t = t_allow t (own @ '':'' @ sp)"

fun tokStep :: "string \<Rightarrow> string \<Rightarrow> tok_op \<Rightarrow> token \<Rightarrow> token option" where
  "tokStep own who (OpTransfer to a) t = move who (norm_addr to) (big_or_zero a) t"
| "tokStep own who (OpApprove sp a) t = Some (grant who (norm_addr sp) (big_or_zero a) t)"
| "tokStep own who (OpTransferFrom from to a) t = (let n = big_or_zero a; al = allowed (norm_addr from) who t in
     if al < n then None else map_option (grant (norm_addr from) who (al - n)) (move (norm_addr from) (norm_addr to) n t))"
| "tokStep own who (OpBurn a) t = (let n = big_or_zero a in if n = 0 \<or> t_bal t who < n then None
     else Some (t\<lparr>t_bal := (t_bal t)(who := t_bal t who - n), t_supply := t_supply t - n\<rparr>))"
| "tokStep own who (OpMint to a) t = (let n = big_or_zero a in if who \<noteq> own \<or> n = 0 then None
     else Some (t\<lparr>t_bal := (t_bal t)(norm_addr to := t_bal t (norm_addr to) + n), t_supply := t_supply t + n\<rparr>))"
| "tokStep own who (OpIncrease sp a) t = (let n = big_or_zero a in if n = 0 then None
     else Some (grant who (norm_addr sp) (allowed who (norm_addr sp) t + n) t))"
| "tokStep own who (OpDecrease sp a) t = (let n = big_or_zero a in if n = 0 \<or> allowed who (norm_addr sp) t < n then None
     else Some (grant who (norm_addr sp) (allowed who (norm_addr sp) t - n) t))"

definition absTok :: "(string \<Rightarrow> string) \<Rightarrow> token" where
  "absTok g = \<lparr>t_bal = table ''bal:'' g, t_allow = table ''allow:'' g, t_supply = big_or_zero (g ''totalSupply'')\<rparr>"

text \<open>The abstract token conserves money: the balances and the supply change together.\<close>

lemma tokStep_conserves:
  assumes "tokStep own who opn t = Some t'" "small (t_bal t)"
  shows "small (t_bal t') \<and> total (t_bal t') - t_supply t' = total (t_bal t) - t_supply t"
  using assms by (cases opn) (auto simp: move_def grant_def Let_def split: if_splits)

lemma table_simps:
  "table ''bal:'' (g(''bal:'' @ a := v)) = (table ''bal:'' g)(a := big_or_zero v)" "big_or_zero (g (''bal:'' @ a)) = table ''bal:'' g a"
  "table ''allow:'' (g(''allow:'' @ a := v)) = (table ''allow:'' g)(a := big_or_zero v)"
  "big_or_zero (g (''allow:'' @ a)) = table ''allow:'' g a"
  by (simp_all add: table_def fun_eq_iff)

lemma ensureInit_wp: "g ''name'' \<noteq> [] \<Longrightarrow> wp C Q (LQDToken_ensureInit p) i g n = wp C Q p i g n"
  by (simp add: LQDToken_ensureInit_def)

lemmas token_simps = table_simps [simplified append_Cons append_Nil]
  table_other [of _ "''bal:''", simplified append_Cons append_Nil] table_other [of _ "''allow:''", simplified append_Cons append_Nil]

lemma tokCall_dispatch:
  "lqd20 (fst (tokCall opn)) (snd (tokCall opn)) = Some (case opn of
     OpTransfer to a \<Rightarrow> LQDToken_Transfer to a | OpApprove sp a \<Rightarrow> LQDToken_Approve sp a
   | OpTransferFrom from to a \<Rightarrow> LQDToken_TransferFrom from to a | OpBurn a \<Rightarrow> LQDToken_Burn a
   | OpMint to a \<Rightarrow> LQDToken_Mint to a | OpIncrease sp a \<Rightarrow> LQDToken_IncreaseAllowance sp a
   | OpDecrease sp a \<Rightarrow> LQDToken_DecreaseAllowance sp a)"
proof -
  have "to_lower ''Transfer'' = ''transfer''" "to_lower ''Approve'' = ''approve''" "to_lower ''TransferFrom'' = ''transferfrom''"
    "to_lower ''Burn'' = ''burn''" "to_lower ''Mint'' = ''mint''" "to_lower ''IncreaseAllowance'' = ''increaseallowance''"
    "to_lower ''DecreaseAllowance'' = ''decreaseallowance''" by code_simp+
  then show ?thesis
    by (cases opn) (simp_all add: lqd20_def dispatch_def args0_def args1_def args2_def args3_def)
qed

lemma token_method:
  assumes "g ''name'' \<noteq> []" "lqd20 (fst (tokCall opn)) (snd (tokCall opn)) = Some p"
  shows "wp (\<lambda>_. True) (\<lambda>g' _. g' ''name'' \<noteq> [] \<and>
     tokStep (norm_addr (ci_OwnerAddr i)) (norm_addr (ci_CallerAddr i)) opn (absTok g) = Some (absTok g')) p i g n"
  using assms(1) assms(2) [unfolded tokCall_dispatch]
  by (cases opn) (auto simp: ensureInit_wp LQDToken_Transfer_def LQDToken_Approve_def LQDToken_TransferFrom_def
      LQDToken_Burn_def LQDToken_Mint_def LQDToken_IncreaseAllowance_def LQDToken_DecreaseAllowance_def approvalEvent_def
      Let_def balKey_def allowKey_def token_simps absTok_def move_def grant_def allowed_def)

section \<open>Properties\<close>

text \<open>C21: The LQD20 contract implements the abstract token. A transaction that calls one of its seven state-changing methods
  (other than \<open>Init\<close>) on an initialised token either fails and changes nothing, or takes exactly the step of the
  abstract token for the transaction's sender; the token stays initialised, and the difference between the sum of all
  balances and the supply stays what it was.\<close>

theorem token_implements_spec:
  assumes reg: "registry_ok reg" "plain_addresses reg" "reg A = Some (owner, lqd20)"
    and m: "canon m" "nonneg_accounts m" "0 \<le> v"
    and g: "LoadStorage db A ''name'' \<noteq> []" "small (t_bal (absTok (LoadStorage db A)))"
    and ex: "ExecuteAtomicAt reg A caller (fst (tokCall opn)) (snd (tokCall opn)) gas v now (db, m) = (res, db', m')"
  shows "case res of Inl _ \<Rightarrow> db' = db
    | Inr _ \<Rightarrow> tokStep (norm_addr owner) (norm_addr caller) opn (absTok (LoadStorage db A)) = Some (absTok (LoadStorage db' A)) \<and>
        LoadStorage db' A ''name'' \<noteq> [] \<and>
        total (t_bal (absTok (LoadStorage db' A))) - t_supply (absTok (LoadStorage db' A)) =
          total (t_bal (absTok (LoadStorage db A))) - t_supply (absTok (LoadStorage db A))"
proof (cases res)
  case (Inl e)
  with ExecuteAtomicAt_Inl [OF reg(1) m(1,3) ex [unfolded Inl]] show ?thesis by simp
next
  case (Inr out)
  from transaction_wp [OF reg m ex [unfolded Inr] token_method [where i = "txInfo A caller owner now v" and g = "LoadStorage db A", OF g(1)]]
  have "LoadStorage db' A ''name'' \<noteq> []"
    and step: "tokStep (norm_addr owner) (norm_addr caller) opn (absTok (LoadStorage db A)) = Some (absTok (LoadStorage db' A))"
    by (auto simp: txInfo_def)
  with tokStep_conserves [OF step g(2)] Inr show ?thesis by simp
qed

definition token_reg :: registry where
  "token_reg a = (if a = ''tok'' then Some (''issuer'', lqd20) else None)"

definition token_db :: kvdb where
  "token_db = [(storageKey ''tok'' ''name'', ''coin''), (storageKey ''tok'' ''totalSupply'', ''9''),
     (storageKey ''tok'' ''bal:victim'', ''5''), (storageKey ''tok'' ''bal:issuer'', ''4'')]"

lemma token_reg_ok: "registry_ok token_reg" "plain_addresses token_reg"
proof -
  have "nrm ''tok''" by code_simp
  then show "registry_ok token_reg" by (auto simp: registry_ok_def token_reg_def)
  show "plain_addresses token_reg" by (auto simp: plain_addresses_def token_reg_def)
qed

lemma token_db_small: "small (t_bal (absTok (LoadStorage token_db ''tok'')))"
proof -
  have "table ''bal:'' (LoadStorage token_db ''tok'') a = 0" if "a \<noteq> ''victim''" "a \<noteq> ''issuer''" for a
    using that by (simp add: table_def LoadStorage_def token_db_def storageKey_def)
  then have "{a. table ''bal:'' (LoadStorage token_db ''tok'') a \<noteq> 0} \<subseteq> {''victim'', ''issuer''}" by auto
  then show ?thesis by (simp add: absTok_def small_def finite_subset)
qed

lemma token_implements_spec_witness:
  "\<exists>out db' m'. ExecuteAtomicAt token_reg ''tok'' ''victim'' ''Transfer'' [''bob'', ''3''] 100000 0 1 (token_db, []) = (Inr out, db', m') \<and>
     tokStep ''issuer'' ''victim'' (OpTransfer ''bob'' ''3'') (absTok (LoadStorage token_db ''tok'')) = Some (absTok (LoadStorage db' ''tok''))"
proof -
  let ?run = "ExecuteAtomicAt token_reg ''tok'' ''victim'' ''Transfer'' [''bob'', ''3''] 100000 0 1 (token_db, [])"
  have "case ?run of (res, _, _) \<Rightarrow> (case res of Inl _ \<Rightarrow> False | Inr _ \<Rightarrow> True)" by code_simp
  then obtain out db' m' where e: "?run = (Inr out, db', m')" by (auto split: prod.splits sum.splits)
  have r: "token_reg ''tok'' = Some (''issuer'', lqd20)" by (simp add: token_reg_def)
  have n: "LoadStorage token_db ''tok'' ''name'' \<noteq> []" by code_simp
  have nn: "norm_addr ''issuer'' = ''issuer''" "norm_addr ''victim'' = ''victim''" by code_simp+
  have "ExecuteAtomicAt token_reg ''tok'' ''victim'' (fst (tokCall (OpTransfer ''bob'' ''3''))) (snd (tokCall (OpTransfer ''bob'' ''3'')))
      100000 0 1 (token_db, []) = (Inr out, db', m')" using e by simp
  from token_implements_spec [OF token_reg_ok r _ _ _ n token_db_small this] e show ?thesis
    by (simp add: canon_def nonneg_accounts_def nn)
qed

text \<open>Three ways to take tokens. Amounts carry a sign and \<open>Transfer\<close> only compares the balance with the parsed amount:
  a caller with no tokens transfers minus five to a holder of five, and the five are his; \<open>Burn\<close> of a negative amount
  mints for anyone. \<open>Init\<close> can be called again by anyone and resets the owner's balance and the supply. And
  \<open>Execute\<close>, which serves the unsigned call request with the caller named in the request, commits to the database:
  naming the victim as the caller moves the victim's tokens.\<close>

theorem tokens_taken_without_consent:
  "(case ExecuteAtomicAt token_reg ''tok'' ''thief'' ''Transfer'' [''victim'', ''-5''] 100000 0 1 (token_db, []) of (_, db, _) \<Rightarrow>
      LoadStorage db ''tok'' ''bal:thief'' = ''5'' \<and> LoadStorage db ''tok'' ''bal:victim'' = ''0'') \<and>
   (case ExecuteAtomicAt token_reg ''tok'' ''thief'' ''Burn'' [''-7''] 100000 0 1 (token_db, []) of (_, db, _) \<Rightarrow>
      LoadStorage db ''tok'' ''bal:thief'' = ''7'' \<and> LoadStorage db ''tok'' ''totalSupply'' = ''16'') \<and>
   (case ExecuteAtomicAt token_reg ''tok'' ''thief'' ''Init'' [''n'', ''s'', ''1''] 100000 0 1 (token_db, []) of (_, db, _) \<Rightarrow>
      LoadStorage db ''tok'' ''bal:issuer'' = ''1'' \<and> LoadStorage db ''tok'' ''bal:victim'' = ''5'' \<and>
      LoadStorage db ''tok'' ''totalSupply'' = ''1'') \<and>
   (case Execute 2 token_reg 1 ''tok'' ''victim'' ''Transfer'' [''thief'', ''5''] 100000 token_db of (res, db) \<Rightarrow>
      res = CallOk [] \<and> LoadStorage db ''tok'' ''bal:thief'' = ''5'' \<and> LoadStorage db ''tok'' ''bal:victim'' = ''0'')"
  by (intro conjI) code_simp+

end
