(* ===== verification/ContractVaults.thy ===== *)
theory ContractVaults
  imports ContractLaws Crypto
begin

text \<open>
  The two contracts that hold native coins: \<open>validator_bond.go\<close> and \<open>insurance_vault.go\<close>. Both are
  interpretations of \<open>native_vault\<close>: whatever is sent to them, their native balance covers the bonds and
  the recorded reserve.
\<close>

text \<open>\<open>strconv.ParseInt(s, 10, 64)\<close>.\<close>

definition parse_int64 :: "string \<Rightarrow> int option" where
  "parse_int64 s = (case parse_int10 s of None \<Rightarrow> None | Some i \<Rightarrow> if is_i64 i then Some i else None)"

section \<open>The validator bond\<close>

definition validatorBondRevenueEscrow :: string where
  "validatorBondRevenueEscrow = ''0x0000000000000000000000000000000000000e01''"

definition ValidatorBond_Init :: "string \<Rightarrow> string \<Rightarrow> prog" where
  "ValidatorBond_Init unbondDelaySeconds slashChallengeSeconds = GetP ''initialized'' (\<lambda>ini.
     revertIf (ini = ''true'') ''already initialized'' (
     case parse_int64 unbondDelaySeconds of None \<Rightarrow> Revert ''unbond delay must be at least one day'' | Some unbond \<Rightarrow>
     revertIf (unbond < 86400) ''unbond delay must be at least one day'' (
     case parse_int64 slashChallengeSeconds of None \<Rightarrow> Revert ''slash challenge must be at least one hour'' | Some challenge \<Rightarrow>
     revertIf (challenge < 3600) ''slash challenge must be at least one hour'' (
     SetP ''initialized'' ''true'' (SetP ''unbond_delay'' (int_str unbond) (SetP ''slash_challenge'' (int_str challenge)
     (SetP ''total_bonded'' ''0'' (EmitP ''ValidatorBondInitialized''
       [(''unbondDelay'', VInt unbond), (''slashChallenge'', VInt challenge)] Done))))))))"

definition ValidatorBond_Bond :: prog where
  "ValidatorBond_Bond = AskP (\<lambda>c. let amount = ci_Value c; validator = norm_addr (ci_CallerAddr c) in
     revertIf (amount \<le> 0) ''native bond amount required'' (
     ReceiveP amount (
     GetP (''bond:'' @ validator) (\<lambda>b. SetP (''bond:'' @ validator) (int_str (big_or_zero b + amount)) (
     GetP ''total_bonded'' (\<lambda>t. SetP ''total_bonded'' (int_str (big_or_zero t + amount)) (
     EmitP ''ValidatorBonded'' [(''validator'', VStr validator), (''amount'', VStr (int_str amount))] Done)))))))"

definition ValidatorBond_RequestUnbond :: "string \<Rightarrow> prog" where
  "ValidatorBond_RequestUnbond amount = AskP (\<lambda>c. let validator = norm_addr (ci_CallerAddr c); amt = big_or_zero amount in
     GetP (''bond:'' @ validator) (\<lambda>b.
     revertIf (amt \<le> 0 \<or> big_or_zero b < amt) ''invalid unbond amount'' (
     GetP (''pending_slash:'' @ validator) (\<lambda>ps.
     revertIf (ps \<noteq> []) ''pending slash freezes unbonding'' (
     GetP ''unbond_delay'' (\<lambda>d. let unlock = i64 (ci_BlockTime c + i64 (big_or_zero d)) in
     SetP (''unbond_amount:'' @ validator) (int_str amt) (SetP (''unbond_at:'' @ validator) (int_str unlock) (
     EmitP ''ValidatorUnbondRequested'' [(''validator'', VStr validator), (''amount'', VStr (int_str amt)), (''unlockAt'', VInt unlock)]
       Done))))))))"

definition ValidatorBond_CancelUnbond :: prog where
  "ValidatorBond_CancelUnbond = AskP (\<lambda>c. let validator = norm_addr (ci_CallerAddr c) in
     SetP (''unbond_amount:'' @ validator) ''0'' (SetP (''unbond_at:'' @ validator) ''0'' (
     EmitP ''ValidatorUnbondCancelled'' [(''validator'', VStr validator)] Done)))"

definition ValidatorBond_WithdrawUnbonded :: prog where
  "ValidatorBond_WithdrawUnbonded = AskP (\<lambda>c. let validator = norm_addr (ci_CallerAddr c) in
     GetP (''unbond_amount:'' @ validator) (\<lambda>am. let amt = big_or_zero am in
     GetP (''unbond_at:'' @ validator) (\<lambda>at. GetP (''pending_slash:'' @ validator) (\<lambda>ps.
     revertIf (amt \<le> 0 \<or> ci_BlockTime c < i64 (big_or_zero at) \<or> ps \<noteq> []) ''unbond is not withdrawable'' (
     GetP (''bond:'' @ validator) (\<lambda>b.
     revertIf (big_or_zero b < amt) ''bond changed below request'' (
     SetP (''bond:'' @ validator) (int_str (big_or_zero b - amt)) (
     GetP ''total_bonded'' (\<lambda>t. SetP ''total_bonded'' (int_str (big_or_zero t - amt)) (
     SetP (''unbond_amount:'' @ validator) ''0'' (SetP (''unbond_at:'' @ validator) ''0'' (
     SendP validator amt (
     EmitP ''ValidatorUnbonded'' [(''validator'', VStr validator), (''amount'', VStr (int_str amt))] Done)))))))))))))"

definition slashID :: "crypto \<Rightarrow> string \<Rightarrow> string \<Rightarrow> string" where
  "slashID C validator evidenceHash = ''slash_'' @ hex_encode (take 12 (sha256 C (validator @ ''|'' @ evidenceHash)))"

definition ValidatorBond_OpenSlash :: "crypto \<Rightarrow> string \<Rightarrow> string \<Rightarrow> string \<Rightarrow> prog" where
  "ValidatorBond_OpenSlash C validator0 amount evidenceHash0 = AskP (\<lambda>c.
     revertIf (\<not> equal_fold (ci_CallerAddr c) (ci_OwnerAddr c)) ''only governance manager'' (
     let validator = norm_addr validator0; evidenceHash = trim_space evidenceHash0; amt = big_or_zero amount in
     GetP (''bond:'' @ validator) (\<lambda>b.
     revertIf (amt \<le> 0 \<or> evidenceHash = [] \<or> big_or_zero b < amt) ''invalid slash case'' (
     let id = slashID C validator evidenceHash in
     GetP ''slash_challenge'' (\<lambda>sc. let deadline = i64 (ci_BlockTime c + i64 (big_or_zero sc)) in
     SetP (''pending_slash:'' @ validator) id (
     SetP (''slash:'' @ id @ '':validator'') validator (
     SetP (''slash:'' @ id @ '':amount'') (int_str amt) (
     SetP (''slash:'' @ id @ '':evidence'') evidenceHash (
     SetP (''slash:'' @ id @ '':deadline'') (int_str deadline) (
     SetP (''slash:'' @ id @ '':status'') ''challengeable'' (
     EmitP ''ValidatorSlashOpened'' [(''id'', VStr id), (''validator'', VStr validator), (''amount'', VStr (int_str amt)),
       (''challengeUntil'', VInt deadline)] Done)))))))))))"

definition ValidatorBond_AppealSlash :: "string \<Rightarrow> string \<Rightarrow> prog" where
  "ValidatorBond_AppealSlash caseID appealHash = AskP (\<lambda>c. let validator = norm_addr (ci_CallerAddr c) in
     GetP (''slash:'' @ caseID @ '':validator'') (\<lambda>v. GetP (''slash:'' @ caseID @ '':status'') (\<lambda>st.
     GetP (''slash:'' @ caseID @ '':deadline'') (\<lambda>d.
     revertIf (v \<noteq> validator \<or> st \<noteq> ''challengeable'' \<or> i64 (big_or_zero d) < ci_BlockTime c \<or> trim_space appealHash = [])
       ''case is not appealable'' (
     SetP (''slash:'' @ caseID @ '':appeal'') appealHash (SetP (''slash:'' @ caseID @ '':status'') ''appealed'' (
     EmitP ''ValidatorSlashAppealed'' [(''id'', VStr caseID), (''validator'', VStr validator), (''appeal'', VStr appealHash)]
       Done)))))))"

definition ValidatorBond_closeCase :: "string \<Rightarrow> string \<Rightarrow> string \<Rightarrow> string \<Rightarrow> prog" where
  "ValidatorBond_closeCase caseID validator uphold governanceProposal =
     SetP (''slash:'' @ caseID @ '':governance'') governanceProposal (SetP (''pending_slash:'' @ validator) [] (
     EmitP ''ValidatorSlashResolved'' [(''id'', VStr caseID), (''validator'', VStr validator), (''uphold'', VBool (equal_fold uphold ''true'')),
       (''governance'', VStr governanceProposal)] Done))"

definition ValidatorBond_ResolveSlash :: "string \<Rightarrow> string \<Rightarrow> string \<Rightarrow> prog" where
  "ValidatorBond_ResolveSlash caseID uphold governanceProposal = AskP (\<lambda>c.
     revertIf (\<not> equal_fold (ci_CallerAddr c) (ci_OwnerAddr c) \<or> trim_space governanceProposal = []) ''governance authorization required'' (
     GetP (''slash:'' @ caseID @ '':status'') (\<lambda>status.
     revertIf (status \<noteq> ''challengeable'' \<and> status \<noteq> ''appealed'') ''slash case not pending'' (
     GetP (''slash:'' @ caseID @ '':deadline'') (\<lambda>d.
     revertIf (status = ''challengeable'' \<and> ci_BlockTime c \<le> i64 (big_or_zero d)) ''challenge window open'' (
     GetP (''slash:'' @ caseID @ '':validator'') (\<lambda>validator.
     if equal_fold uphold ''true'' then
       GetP (''slash:'' @ caseID @ '':amount'') (\<lambda>am. GetP (''bond:'' @ validator) (\<lambda>b.
       let bond = big_or_zero b; amt = (if bond < big_or_zero am then bond else big_or_zero am) in
       SetP (''bond:'' @ validator) (int_str (bond - amt)) (
       GetP ''total_bonded'' (\<lambda>t. SetP ''total_bonded'' (int_str (big_or_zero t - amt)) (
       GetP ''protocol_slash_total'' (\<lambda>ps. SetP ''protocol_slash_total'' (int_str (big_or_zero ps + amt)) (
       SendP validatorBondRevenueEscrow amt (
       SetP (''slash:'' @ caseID @ '':status'') ''upheld'' (
       ValidatorBond_closeCase caseID validator uphold governanceProposal)))))))))
     else
       SetP (''slash:'' @ caseID @ '':status'') ''dismissed'' (
       ValidatorBond_closeCase caseID validator uphold governanceProposal))))))))"

definition ValidatorBond_BondOf :: "string \<Rightarrow> prog" where
  "ValidatorBond_BondOf validator = GetP (''bond:'' @ norm_addr validator) (\<lambda>b. SetP ''output'' (int_str (big_or_zero b)) Done)"

definition ValidatorBond_TotalBonded :: prog where
  "ValidatorBond_TotalBonded = GetP ''total_bonded'' (\<lambda>t. SetP ''output'' (int_str (big_or_zero t)) Done)"

definition validator_bond :: "crypto \<Rightarrow> contract" where
  "validator_bond C = dispatch [(''init'', args2 ValidatorBond_Init), (''bond'', args0 ValidatorBond_Bond),
     (''requestunbond'', args1 ValidatorBond_RequestUnbond), (''cancelunbond'', args0 ValidatorBond_CancelUnbond),
     (''withdrawunbonded'', args0 ValidatorBond_WithdrawUnbonded), (''openslash'', args3 (ValidatorBond_OpenSlash C)),
     (''appealslash'', args2 ValidatorBond_AppealSlash), (''resolveslash'', args3 ValidatorBond_ResolveSlash),
     (''bondof'', args1 ValidatorBond_BondOf), (''totalbonded'', args0 ValidatorBond_TotalBonded)]"

text \<open>What the bond contract keeps, and what it owes: the sum of all bonds.\<close>

definition bonds :: "(string \<Rightarrow> string) \<Rightarrow> string \<Rightarrow> int" where
  "bonds = table ''bond:''"

definition bondInv :: "(string \<Rightarrow> string) \<Rightarrow> bool" where
  "bondInv g \<longleftrightarrow> small (bonds g) \<and> (\<forall>a. 0 \<le> bonds g a) \<and> big_or_zero (g ''total_bonded'') \<le> total (bonds g)"

definition bonded :: "(string \<Rightarrow> string) \<Rightarrow> int" where
  "bonded g = total (bonds g)"

lemma bonds_simps:
  "bonds (g(''bond:'' @ a := v)) = (bonds g)(a := big_or_zero v)" "big_or_zero (g (''bond:'' @ a)) = bonds g a"
  by (simp_all add: bonds_def table_def fun_eq_iff)

lemma bonds_other: "(\<And>a. key \<noteq> ''bond:'' @ a) \<Longrightarrow> bonds (g(key := v)) = bonds g"
  unfolding bonds_def by (rule table_other)

lemmas bond_law_simps = bonds_simps [simplified append_Cons append_Nil] bonds_other [simplified append_Cons append_Nil]
  bondInv_def bonded_def Let_def ValidatorBond_closeCase_def

lemma bond_method:
  assumes inv: "bondInv g" and code: "validator_bond C fn args = Some p"
  shows "wp bondInv (\<lambda>g' n. bondInv g' \<and> bonded g' - bonded g \<le> n) p i g 0"
proof (rule wp_dispatch [OF code [unfolded validator_bond_def]], unfold list.pred_inject prod.case wp_arguments, intro conjI allI impI)
  show "wp bondInv (\<lambda>g' n. bondInv g' \<and> bonded g' - bonded g \<le> n) ValidatorBond_Bond i g 0"
    using inv by (auto simp: ValidatorBond_Bond_def bond_law_simps)
next
  show "wp bondInv (\<lambda>g' n. bondInv g' \<and> bonded g' - bonded g \<le> n) ValidatorBond_WithdrawUnbonded i g 0"
    using inv by (auto simp: ValidatorBond_WithdrawUnbonded_def bond_law_simps)
next
  fix x y z
  show "wp bondInv (\<lambda>g' n. bondInv g' \<and> bonded g' - bonded g \<le> n) (ValidatorBond_ResolveSlash x y z) i g 0"
    using inv by (auto simp: ValidatorBond_ResolveSlash_def bond_law_simps)
next
  fix x y z
  show "wp bondInv (\<lambda>g' n. bondInv g' \<and> bonded g' - bonded g \<le> n) (ValidatorBond_OpenSlash C x y z) i g 0"
    using inv by (simp add: ValidatorBond_OpenSlash_def bond_law_simps)
qed (use inv in \<open>auto simp: ValidatorBond_Init_def ValidatorBond_RequestUnbond_def ValidatorBond_CancelUnbond_def
      ValidatorBond_AppealSlash_def ValidatorBond_BondOf_def ValidatorBond_TotalBonded_def bond_law_simps total_nonneg split: option.split\<close>)

interpretation bond: native_vault "validator_bond C" bondInv bonded for C
  by (rule vault_lawI) (rule bond_method)

section \<open>The insurance vault\<close>

definition InsuranceVault_Init :: "string \<Rightarrow> string \<Rightarrow> string \<Rightarrow> prog" where
  "InsuranceVault_Init governance0 minimumReserve maxClaimBps = GetP ''initialized'' (\<lambda>ini.
     revertIf (ini = ''true'') ''already initialized'' (
     let governance = norm_addr governance0; minimum = big_or_zero minimumReserve; maxClaim = big_or_zero maxClaimBps in
     revertIf (governance = [] \<or> minimum < 0 \<or> \<not> is_i64 maxClaim \<or> maxClaim < 1 \<or> 2500 < maxClaim) ''invalid insurance policy'' (
     SetP ''initialized'' ''true'' (SetP ''governance'' governance (SetP ''minimum_reserve'' (int_str minimum) (
     SetP ''max_claim_bps'' (int_str maxClaim) (SetP ''reserve'' ''0'' (SetP ''reserved_claims'' ''0'' (
     SetP ''covered_liability'' ''0'' (SetP ''claims_paid'' ''0'' (
     EmitP ''InsuranceInitialized'' [(''governance'', VStr governance), (''minimumReserve'', VStr (int_str minimum)),
       (''maxClaimBps'', VStr (int_str maxClaim))] Done)))))))))))"

definition InsuranceVault_DepositRevenue :: "string \<Rightarrow> string \<Rightarrow> prog" where
  "InsuranceVault_DepositRevenue source reference = AskP (\<lambda>c. let amount = ci_Value c in
     revertIf (amount \<le> 0 \<or> trim_space source = [] \<or> trim_space reference = []) ''custodied revenue and reference required'' (
     ReceiveP amount (
     GetP ''reserve'' (\<lambda>r. SetP ''reserve'' (int_str (big_or_zero r + amount)) (
     EmitP ''InsuranceRevenueDeposited'' [(''source'', VStr source), (''reference'', VStr reference),
       (''amount'', VStr (int_str amount))] Done)))))"

definition claimID :: "crypto \<Rightarrow> string \<Rightarrow> int \<Rightarrow> string \<Rightarrow> string" where
  "claimID C beneficiary amt lossProofHash =
     ''claim_'' @ hex_encode (take 12 (sha256 C (beneficiary @ ''|'' @ int_str amt @ ''|'' @ lossProofHash)))"

definition InsuranceVault_OpenClaim :: "crypto \<Rightarrow> string \<Rightarrow> string \<Rightarrow> string \<Rightarrow> string \<Rightarrow> prog" where
  "InsuranceVault_OpenClaim C beneficiary0 amount lossProofHash challengeUntil = AskP (\<lambda>c. GetP ''governance'' (\<lambda>gov.
     revertIf (\<not> equal_fold (ci_CallerAddr c) gov) ''governance only'' (
     let beneficiary = norm_addr beneficiary0; amt = big_or_zero amount; deadline = big_or_zero challengeUntil in
     GetP ''reserve'' (\<lambda>rs. GetP ''reserved_claims'' (\<lambda>rc. GetP ''max_claim_bps'' (\<lambda>mb.
     let reserve = big_or_zero rs; reserved = big_or_zero rc; available = reserve - reserved;
         cap = reserve * big_or_zero mb div 10000 in
     revertIf (beneficiary = [] \<or> amt \<le> 0 \<or> cap < amt \<or> trim_space lossProofHash = [] \<or> \<not> is_i64 deadline \<or> deadline \<le> ci_BlockTime c)
       ''invalid or over-cap insurance claim'' (
     GetP ''minimum_reserve'' (\<lambda>mr.
     revertIf (available < amt \<or> available - amt < big_or_zero mr) ''claim reservation breaches available reserve floor'' (
     let id = claimID C beneficiary amt lossProofHash in
     SetP (''claim:'' @ id @ '':beneficiary'') beneficiary (
     SetP (''claim:'' @ id @ '':amount'') (int_str amt) (
     SetP (''claim:'' @ id @ '':proof'') lossProofHash (
     SetP (''claim:'' @ id @ '':challenge_until'') (int_str deadline) (
     SetP (''claim:'' @ id @ '':status'') ''challengeable'' (
     SetP ''reserved_claims'' (int_str (reserved + amt)) (
     SetP ''output'' id (
     EmitP ''InsuranceClaimOpened'' [(''id'', VStr id), (''beneficiary'', VStr beneficiary), (''amount'', VStr (int_str amt)),
       (''challengeUntil'', VStr (int_str deadline))] Done))))))))))))))))"

definition InsuranceVault_ChallengeClaim :: "string \<Rightarrow> string \<Rightarrow> prog" where
  "InsuranceVault_ChallengeClaim cid evidenceHash = AskP (\<lambda>c. GetP (''claim:'' @ cid @ '':status'') (\<lambda>st.
     GetP (''claim:'' @ cid @ '':challenge_until'') (\<lambda>cu.
     revertIf (st \<noteq> ''challengeable'' \<or> i64 (big_or_zero cu) < ci_BlockTime c \<or> trim_space evidenceHash = []) ''claim not challengeable'' (
     SetP (''claim:'' @ cid @ '':status'') ''challenged'' (SetP (''claim:'' @ cid @ '':challenge'') evidenceHash (
     EmitP ''InsuranceClaimChallenged'' [(''id'', VStr cid), (''challenger'', VStr (ci_CallerAddr c)), (''evidence'', VStr evidenceHash)]
       Done))))))"

definition InsuranceVault_closeClaim :: "string \<Rightarrow> string \<Rightarrow> string \<Rightarrow> prog" where
  "InsuranceVault_closeClaim cid approve governanceProposal =
     GetP ''reserved_claims'' (\<lambda>rc. GetP (''claim:'' @ cid @ '':amount'') (\<lambda>am.
     SetP ''reserved_claims'' (int_str (big_or_zero rc - big_or_zero am)) (
     SetP (''claim:'' @ cid @ '':governance'') governanceProposal (
     EmitP ''InsuranceClaimResolved'' [(''id'', VStr cid), (''approved'', VBool (equal_fold approve ''true'')),
       (''governance'', VStr governanceProposal)] Done))))"

definition InsuranceVault_ResolveClaim :: "string \<Rightarrow> string \<Rightarrow> string \<Rightarrow> prog" where
  "InsuranceVault_ResolveClaim cid approve governanceProposal = AskP (\<lambda>c. GetP ''governance'' (\<lambda>gov.
     revertIf (\<not> equal_fold (ci_CallerAddr c) gov \<or> trim_space governanceProposal = []) ''governance proposal required'' (
     GetP (''claim:'' @ cid @ '':status'') (\<lambda>status.
     revertIf (status \<noteq> ''challengeable'' \<and> status \<noteq> ''challenged'') ''claim not pending'' (
     GetP (''claim:'' @ cid @ '':challenge_until'') (\<lambda>cu.
     revertIf (status = ''challengeable'' \<and> ci_BlockTime c \<le> i64 (big_or_zero cu)) ''challenge window open'' (
     if equal_fold approve ''true'' then
       GetP (''claim:'' @ cid @ '':amount'') (\<lambda>am. GetP ''reserve'' (\<lambda>rs. GetP ''minimum_reserve'' (\<lambda>mr.
       let amt = big_or_zero am; reserve = big_or_zero rs in
       revertIf (reserve - amt < big_or_zero mr) ''insurance floor breach'' (
       SetP ''reserve'' (int_str (reserve - amt)) (
       GetP ''claims_paid'' (\<lambda>cp. SetP ''claims_paid'' (int_str (big_or_zero cp + amt)) (
       GetP (''claim:'' @ cid @ '':beneficiary'') (\<lambda>ben. SendP ben amt (
       SetP (''claim:'' @ cid @ '':status'') ''paid'' (
       InsuranceVault_closeClaim cid approve governanceProposal))))))))))
     else SetP (''claim:'' @ cid @ '':status'') ''rejected'' (
       InsuranceVault_closeClaim cid approve governanceProposal))))))))"

definition InsuranceVault_Reserve :: prog where
  "InsuranceVault_Reserve = GetP ''reserve'' (\<lambda>r. SetP ''output'' (int_str (big_or_zero r)) Done)"

definition InsuranceVault_SetCoveredLiability :: "string \<Rightarrow> string \<Rightarrow> prog" where
  "InsuranceVault_SetCoveredLiability amount governanceProposal = AskP (\<lambda>c. GetP ''governance'' (\<lambda>gov.
     revertIf (\<not> equal_fold (ci_CallerAddr c) gov \<or> trim_space governanceProposal = []) ''governance proposal required'' (
     let liability = big_or_zero amount in
     revertIf (liability < 0) ''invalid covered liability'' (
     SetP ''covered_liability'' (int_str liability) (
     EmitP ''InsuranceLiabilityUpdated'' [(''liability'', VStr (int_str liability)), (''governance'', VStr governanceProposal)] Done)))))"

definition InsuranceVault_CoverageRatioBPS :: prog where
  "InsuranceVault_CoverageRatioBPS = GetP ''covered_liability'' (\<lambda>cl. let liability = big_or_zero cl in
     if liability = 0 then SetP ''output'' ''0'' Done
     else GetP ''reserve'' (\<lambda>r. SetP ''output'' (int_str (big_div (big_or_zero r * 10000) liability)) Done))"

definition InsuranceVault_AvailableReserve :: prog where
  "InsuranceVault_AvailableReserve = GetP ''reserve'' (\<lambda>r. GetP ''reserved_claims'' (\<lambda>rc.
     SetP ''output'' (int_str (big_or_zero r - big_or_zero rc)) Done))"

definition insurance_vault :: "crypto \<Rightarrow> contract" where
  "insurance_vault C = dispatch [(''init'', args3 InsuranceVault_Init), (''depositrevenue'', args2 InsuranceVault_DepositRevenue),
     (''openclaim'', args4 (InsuranceVault_OpenClaim C)), (''challengeclaim'', args2 InsuranceVault_ChallengeClaim),
     (''resolveclaim'', args3 InsuranceVault_ResolveClaim), (''reserve'', args0 InsuranceVault_Reserve),
     (''setcoveredliability'', args2 InsuranceVault_SetCoveredLiability), (''coverageratiobps'', args0 InsuranceVault_CoverageRatioBPS),
     (''availablereserve'', args0 InsuranceVault_AvailableReserve)]"

text \<open>What the vault keeps: a reserve and a floor that are not negative. It owes its recorded reserve.\<close>

definition reserveOf :: "(string \<Rightarrow> string) \<Rightarrow> int" where
  "reserveOf g = big_or_zero (g ''reserve'')"

definition insuranceInv :: "(string \<Rightarrow> string) \<Rightarrow> bool" where
  "insuranceInv g \<longleftrightarrow> 0 \<le> reserveOf g \<and> 0 \<le> big_or_zero (g ''minimum_reserve'')"

lemmas insurance_law_simps = reserveOf_def insuranceInv_def Let_def InsuranceVault_closeClaim_def

lemma insurance_method:
  assumes inv: "insuranceInv g" and code: "insurance_vault C fn args = Some p"
  shows "wp insuranceInv (\<lambda>g' n. insuranceInv g' \<and> reserveOf g' - reserveOf g \<le> n) p i g 0"
proof (rule wp_dispatch [OF code [unfolded insurance_vault_def]], unfold list.pred_inject prod.case wp_arguments, intro conjI allI impI)
  fix x y z
  show "wp insuranceInv (\<lambda>g' n. insuranceInv g' \<and> reserveOf g' - reserveOf g \<le> n) (InsuranceVault_ResolveClaim x y z) i g 0"
    using inv by (auto simp: InsuranceVault_ResolveClaim_def insurance_law_simps)
next
  fix x y z w
  show "wp insuranceInv (\<lambda>g' n. insuranceInv g' \<and> reserveOf g' - reserveOf g \<le> n) (InsuranceVault_OpenClaim C x y z w) i g 0"
    using inv by (simp add: InsuranceVault_OpenClaim_def insurance_law_simps)
qed (use inv in \<open>auto simp: InsuranceVault_Init_def InsuranceVault_DepositRevenue_def InsuranceVault_ChallengeClaim_def
      InsuranceVault_Reserve_def InsuranceVault_SetCoveredLiability_def InsuranceVault_CoverageRatioBPS_def
      InsuranceVault_AvailableReserve_def insurance_law_simps\<close>)

interpretation insurance: native_vault "insurance_vault C" insuranceInv reserveOf for C
  by (rule vault_lawI) (rule insurance_method)

section \<open>Properties\<close>

text \<open>C22: The validator bond is solvent. From storage that satisfies its invariant (no negative bond, the recorded total
  at most the sum of the bonds) every transaction, sent to any contract and nesting calls in any way, leaves such storage;
  and a successful transaction sent to the bond contract itself leaves the sum of all bonds covered by the
  contract's native balance if it was covered before.\<close>

theorem bonds_covered:
  assumes "registry_ok reg" "plain_addresses reg" "reg A = Some (owner, validator_bond C)" "bondInv (LoadStorage db A)"
    and "canon m" "nonneg_accounts m" "0 \<le> v"
    and "ExecuteAtomicAt reg addr caller fn args gas v now (db, m) = (res, db', m')"
  shows "bondInv (LoadStorage db' A) \<and>
    (addr = A \<and> bonded (LoadStorage db A) \<le> bal m A \<longrightarrow> bonded (LoadStorage db' A) \<le> bal m' A)"
  using bond.vault_solvent [OF assms] .

definition demo_crypto :: crypto where
  "demo_crypto = \<lparr>sha256 = (\<lambda>s. s), recover = (\<lambda>_ _. None)\<rparr>"

definition bond_reg :: registry where
  "bond_reg a = (if a = ''vault'' then Some (''gov'', validator_bond demo_crypto) else None)"

lemma bond_reg_ok: "registry_ok bond_reg" "plain_addresses bond_reg"
proof -
  have "nrm ''vault''" by code_simp
  then show "registry_ok bond_reg" by (auto simp: registry_ok_def bond_reg_def)
  show "plain_addresses bond_reg" by (auto simp: plain_addresses_def bond_reg_def)
qed

lemma bonds_covered_witness:
  "\<exists>out db' m'. ExecuteAtomicAt bond_reg ''vault'' ''alice'' ''Bond'' [] 100000 7 1 ([], []) = (Inr out, db', m') \<and>
     bonded (LoadStorage db' ''vault'') \<le> bal m' ''vault'' \<and> bal m' ''vault'' = 7"
proof -
  let ?run = "ExecuteAtomicAt bond_reg ''vault'' ''alice'' ''Bond'' [] 100000 7 1 ([], [])"
  have "case ?run of (res, db', m') \<Rightarrow> (case res of Inl _ \<Rightarrow> False | Inr _ \<Rightarrow> True) \<and> bal m' ''vault'' = 7" by code_simp
  then obtain out db' m' where e: "?run = (Inr out, db', m')" "bal m' ''vault'' = 7"
    by (auto split: prod.splits sum.splits)
  have v: "bond_reg ''vault'' = Some (''gov'', validator_bond demo_crypto)" by (simp add: bond_reg_def)
  have z: "bonds (LoadStorage [] ''vault'') = (\<lambda>_. 0)" by (simp add: bonds_def table_def LoadStorage_def fun_eq_iff)
  have "bondInv (LoadStorage [] ''vault'')" by (simp add: bondInv_def z) (simp add: LoadStorage_def)
  from bonds_covered [OF bond_reg_ok v this _ _ _ e(1)] e show ?thesis
    by (auto simp: bonded_def z canon_def nonneg_accounts_def bal_def)
qed

text \<open>C23: The insurance vault is solvent. Every transaction keeps its reserve and its floor from going negative, and a
  successful transaction sent to the vault leaves the recorded reserve covered by its native balance if it was before.\<close>

theorem insurance_covered:
  assumes "registry_ok reg" "plain_addresses reg" "reg A = Some (owner, insurance_vault C)" "insuranceInv (LoadStorage db A)"
    and "canon m" "nonneg_accounts m" "0 \<le> v"
    and "ExecuteAtomicAt reg addr caller fn args gas v now (db, m) = (res, db', m')"
  shows "insuranceInv (LoadStorage db' A) \<and>
    (addr = A \<and> reserveOf (LoadStorage db A) \<le> bal m A \<longrightarrow> reserveOf (LoadStorage db' A) \<le> bal m' A)"
  using insurance.vault_solvent [OF assms] .

definition insurance_reg :: registry where
  "insurance_reg a = (if a = ''ins'' then Some (''gov'', insurance_vault demo_crypto) else None)"

lemma insurance_reg_ok: "registry_ok insurance_reg" "plain_addresses insurance_reg"
proof -
  have "nrm ''ins''" by code_simp
  then show "registry_ok insurance_reg" by (auto simp: registry_ok_def insurance_reg_def)
  show "plain_addresses insurance_reg" by (auto simp: plain_addresses_def insurance_reg_def)
qed

lemma insurance_covered_witness:
  "\<exists>out db' m'. ExecuteAtomicAt insurance_reg ''ins'' ''alice'' ''DepositRevenue'' [''fees'', ''block 1''] 100000 7 1 ([], []) =
     (Inr out, db', m') \<and> reserveOf (LoadStorage db' ''ins'') \<le> bal m' ''ins'' \<and> bal m' ''ins'' = 7"
proof -
  let ?run = "ExecuteAtomicAt insurance_reg ''ins'' ''alice'' ''DepositRevenue'' [''fees'', ''block 1''] 100000 7 1 ([], [])"
  have "case ?run of (res, db', m') \<Rightarrow> (case res of Inl _ \<Rightarrow> False | Inr _ \<Rightarrow> True) \<and> bal m' ''ins'' = 7" by code_simp
  then obtain out db' m' where e: "?run = (Inr out, db', m')" "bal m' ''ins'' = 7"
    by (auto split: prod.splits sum.splits)
  have v: "insurance_reg ''ins'' = Some (''gov'', insurance_vault demo_crypto)" by (simp add: insurance_reg_def)
  have "insuranceInv (LoadStorage [] ''ins'')" by (simp add: insuranceInv_def reserveOf_def LoadStorage_def)
  from insurance_covered [OF insurance_reg_ok v this _ _ _ e(1)] e show ?thesis
    by (auto simp: reserveOf_def LoadStorage_def canon_def nonneg_accounts_def bal_def)
qed

text \<open>Opening the same claim again replaces the claim but reserves its amount a second time; resolving it releases one.\<close>

definition open_claim :: "kvdb \<Rightarrow> kvdb" where
  "open_claim db = fst (snd (ExecuteAtomicAt insurance_reg ''ins'' ''gov'' ''OpenClaim'' [''bob'', ''9'', ''loss'', ''50''] 100000 0 1 (db, [])))"

definition funded_db :: kvdb where
  "funded_db = [(storageKey ''ins'' ''governance'', ''gov''), (storageKey ''ins'' ''reserve'', ''100''),
     (storageKey ''ins'' ''max_claim_bps'', ''2500'')]"

lemma reopened_claim_reserves_twice:
  "case ExecuteAtomicAt insurance_reg ''ins'' ''gov'' ''ResolveClaim'' [claimID demo_crypto ''bob'' 9 ''loss'', ''false'', ''p1''] 100000 0 60
       (open_claim (open_claim funded_db), []) of (_, db, _) \<Rightarrow>
     LoadStorage db ''ins'' ''reserved_claims'' = ''9'' \<and>
     LoadStorage db ''ins'' (''claim:'' @ claimID demo_crypto ''bob'' 9 ''loss'' @ '':status'') = ''rejected''"
  by code_simp

end
