(* ===== verification/ContractLending.thy ===== *)
theory ContractLending
  imports ContractToken "HOL-Library.Code_Target_Nat"
begin

text \<open>
  The lending market \<open>lending_pool.go\<close>. Helper methods that return a value take the rest of the program
  as their last argument. Names are those of the source.
\<close>

abbreviation GetN :: "string \<Rightarrow> (int \<Rightarrow> prog) \<Rightarrow> prog" where
  "GetN key k \<equiv> GetP key (\<lambda>s. k (big_or_zero s))"

text \<open>\<open>big.Int.Div\<close> panics on a zero divisor.\<close>

definition divP :: "int \<Rightarrow> int \<Rightarrow> (int \<Rightarrow> prog) \<Rightarrow> prog" where
  "divP n d k = (if d = 0 then Crash ''division by zero'' else k (big_div n d))"

text \<open>Division of \<open>int64\<close> truncates.\<close>

definition quot64 :: "int \<Rightarrow> int \<Rightarrow> int" where
  "quot64 a b = i64 (sgn a * sgn b * (\<bar>a\<bar> div \<bar>b\<bar>))"

section \<open>Helpers\<close>

definition lendingScale :: int where "lendingScale = 10 ^ 18"

definition lpCeilDiv :: "int \<Rightarrow> int \<Rightarrow> int" where
  "lpCeilDiv n d = (if d \<le> 0 then 0 else (n + (d - 1)) div d)"

definition lpActor :: "ctx_info \<Rightarrow> string" where
  "lpActor c = (if norm_addr (ci_OriginAddr c) \<noteq> [] then norm_addr (ci_OriginAddr c) else norm_addr (ci_CallerAddr c))"

definition manager :: "(string \<Rightarrow> prog) \<Rightarrow> prog" where
  "manager k = GetP ''manager'' (\<lambda>m. AskP (\<lambda>c. k (if norm_addr m \<noteq> [] then norm_addr m else norm_addr (ci_OwnerAddr c))))"

definition requireManager :: "prog \<Rightarrow> prog" where
  "requireManager k = AskP (\<lambda>c. manager (\<lambda>m.
     revertIf (lpActor c \<noteq> m \<and> norm_addr (ci_CallerAddr c) \<noteq> m) ''market manager only'' k))"

definition pull :: "string \<Rightarrow> string \<Rightarrow> int \<Rightarrow> prog \<Rightarrow> prog" where
  "pull token from amount k = revertIf (amount \<le> 0) ''positive token amount required'' (AskP (\<lambda>c.
     CallP (norm_addr token) ''TransferFrom'' [norm_addr from, ci_ContractAddr c, int_str amount] (\<lambda>r. case r of
       CallErr _ \<Rightarrow> Revert ''token transfer into lending market failed'' | CallOk _ \<Rightarrow> k)))"

definition push :: "string \<Rightarrow> string \<Rightarrow> int \<Rightarrow> prog \<Rightarrow> prog" where
  "push token to amount k = (if amount \<le> 0 then k else
     CallP (norm_addr token) ''Transfer'' [norm_addr to, int_str amount] (\<lambda>r. case r of
       CallErr _ \<Rightarrow> Revert ''token transfer from lending market failed'' | CallOk _ \<Rightarrow> k))"

definition price :: "string \<Rightarrow> (int \<Rightarrow> prog) \<Rightarrow> prog" where
  "price token k = GetN (''oracle_updated_at:'' @ norm_addr token) (\<lambda>ts. GetN ''oracle_max_age'' (\<lambda>age. AskP (\<lambda>c.
     if \<not> is_i64 ts \<or> i64 (ci_BlockTime c + 30) < ts \<or> i64 age < i64 (ci_BlockTime c - ts) then k 0
     else GetN (''oracle_price18:'' @ norm_addr token) k)))"

definition totalSupply :: "(int \<Rightarrow> prog) \<Rightarrow> prog" where
  "totalSupply k = GetN ''total_scaled_supply'' (\<lambda>s. GetN ''supply_index_x18'' (\<lambda>x. k (s * x div lendingScale)))"

definition totalDebt :: "(int \<Rightarrow> prog) \<Rightarrow> prog" where
  "totalDebt k = GetN ''total_scaled_debt'' (\<lambda>s. GetN ''borrow_index_x18'' (\<lambda>x. k (s * x div lendingScale)))"

definition supplyOf :: "string \<Rightarrow> (int \<Rightarrow> prog) \<Rightarrow> prog" where
  "supplyOf user k = GetN (''scaled_supply:'' @ norm_addr user) (\<lambda>s. GetN ''supply_index_x18'' (\<lambda>x. k (s * x div lendingScale)))"

definition debtOf :: "string \<Rightarrow> (int \<Rightarrow> prog) \<Rightarrow> prog" where
  "debtOf user k = GetN (''scaled_debt:'' @ norm_addr user) (\<lambda>s. GetN ''borrow_index_x18'' (\<lambda>x. k (lpCeilDiv (s * x) lendingScale)))"

definition utilizationBPS :: "(int \<Rightarrow> prog) \<Rightarrow> prog" where
  "utilizationBPS k = totalSupply (\<lambda>supp. totalDebt (\<lambda>debt. if supp \<le> 0 then k 0 else
     let u = debt * 10000 div supp in if 10000 < u then k 10000 else k (i64 u)))"

definition borrowRateBPS :: "(int \<Rightarrow> prog) \<Rightarrow> prog" where
  "borrowRateBPS k = utilizationBPS (\<lambda>u. GetN ''base_rate_bps'' (\<lambda>b. GetN ''slope1_bps'' (\<lambda>s1'. GetN ''slope2_bps'' (\<lambda>s2'.
     GetN ''kink_bps'' (\<lambda>kk. let base = i64 b; s1 = i64 s1'; s2 = i64 s2'; kink = (if i64 kk \<le> 0 then 8000 else i64 kk) in
     if u \<le> kink then k (i64 (base + quot64 (i64 (s1 * u)) kink))
     else if i64 (10000 - kink) = 0 then Crash ''integer divide by zero''
     else k (i64 (i64 (base + s1) + quot64 (i64 (s2 * i64 (u - kink))) (i64 (10000 - kink)))))))))"

definition annualDenom :: int where "annualDenom = 10000 * 365 * 24 * 3600"

definition accrue :: "prog \<Rightarrow> prog" where
  "accrue k = GetN ''last_accrual'' (\<lambda>last. AskP (\<lambda>c.
     if \<not> is_i64 last \<or> ci_BlockTime c \<le> last then k else
     GetN ''total_scaled_debt'' (\<lambda>scaledDebt.
     if scaledDebt = 0 then SetP ''last_accrual'' (int_str (ci_BlockTime c)) k else
     GetN ''borrow_index_x18'' (\<lambda>borrowIndex. GetN ''supply_index_x18'' (\<lambda>supplyIndex.
     let elapsed = i64 (ci_BlockTime c - last); oldDebt = scaledDebt * borrowIndex div lendingScale in
     borrowRateBPS (\<lambda>rate. let interest = oldDebt * rate * elapsed div annualDenom;
       finish = (\<lambda>bi si. SetP ''borrow_index_x18'' (int_str bi) (SetP ''supply_index_x18'' (int_str si) (
         SetP ''last_accrual'' (int_str (ci_BlockTime c)) k))) in
     if interest \<le> 0 then finish borrowIndex supplyIndex else
     divP (interest * lendingScale) oldDebt (\<lambda>db. GetN ''reserve_factor_bps'' (\<lambda>rf.
     let reserve = interest * rf div 10000; supplierInterest = interest - reserve in
     GetN ''total_scaled_supply'' (\<lambda>scaledSupply.
     let si = (if 0 < scaledSupply then supplyIndex + supplierInterest * lendingScale div scaledSupply else supplyIndex) in
     GetN ''protocol_reserves'' (\<lambda>pr. SetP ''protocol_reserves'' (int_str (pr + reserve)) (
     finish (borrowIndex + db) si)))))))))))"

section \<open>Operations\<close>

definition LendingPool_Init :: "string \<Rightarrow> prog" where
  "LendingPool_Init token0 = GetP ''initialized'' (\<lambda>ini. revertIf (ini = ''true'') ''already initialized'' (
     let token = norm_addr token0 in
     revertIf (token = []) ''market token required'' (AskP (\<lambda>c.
     SetP ''initialized'' ''true'' (SetP ''manager'' (norm_addr (ci_OwnerAddr c)) (SetP ''debt_token'' token (SetP ''collateral_token'' token (
     SetP ''ltv_bps'' ''5000'' (SetP ''liquidation_threshold_bps'' ''7500'' (SetP ''liquidation_bonus_bps'' ''500'' (
     SetP ''close_factor_bps'' ''5000'' (SetP ''reserve_factor_bps'' ''1000'' (SetP ''base_rate_bps'' ''200'' (SetP ''slope1_bps'' ''1000'' (
     SetP ''slope2_bps'' ''10000'' (SetP ''kink_bps'' ''8000'' (SetP ''oracle_max_age'' ''900'' (
     SetP ''borrow_index_x18'' (int_str lendingScale) (SetP ''supply_index_x18'' (int_str lendingScale) (
     SetP ''last_accrual'' (int_str (ci_BlockTime c)) (SetP ''total_scaled_supply'' ''0'' (SetP ''total_scaled_debt'' ''0'' (
     SetP ''total_collateral'' ''0'' (SetP ''protocol_reserves'' ''0'' (SetP ''bad_debt'' ''0'' (
     EmitP ''LendingMarketInitialized'' [(''debtToken'', VStr token), (''collateralToken'', VStr token)] Done))))))))))))))))))))))))))"

definition LendingPool_ConfigureMarket :: "string \<Rightarrow> string \<Rightarrow> string \<Rightarrow> string \<Rightarrow> string \<Rightarrow> string \<Rightarrow> prog" where
  "LendingPool_ConfigureMarket collateralToken0 debtToken0 ltvBPS liquidationThresholdBPS liquidationBonusBPS reserveFactorBPS =
     requireManager (GetN ''total_scaled_supply'' (\<lambda>a. GetN ''total_scaled_debt'' (\<lambda>b. GetN ''total_collateral'' (\<lambda>d.
     revertIf (0 < a \<or> 0 < b \<or> 0 < d) ''active market cannot be reconfigured'' (
     let collateralToken = norm_addr collateralToken0; debtToken = norm_addr debtToken0; ltv = big_or_zero ltvBPS;
         threshold = big_or_zero liquidationThresholdBPS; bonus = big_or_zero liquidationBonusBPS; reserve = big_or_zero reserveFactorBPS in
     revertIf (collateralToken = [] \<or> debtToken = [] \<or> \<not> is_i64 ltv \<or> \<not> is_i64 threshold \<or> \<not> is_i64 bonus \<or> \<not> is_i64 reserve \<or>
         ltv < 1000 \<or> 8500 < ltv \<or> threshold \<le> ltv \<or> 9500 < threshold \<or> bonus < 0 \<or> 1500 < bonus \<or> reserve < 0 \<or> 5000 < reserve)
       ''invalid isolated market risk policy'' (
     SetP ''collateral_token'' collateralToken (SetP ''debt_token'' debtToken (SetP ''ltv_bps'' (int_str ltv) (
     SetP ''liquidation_threshold_bps'' (int_str threshold) (SetP ''liquidation_bonus_bps'' (int_str bonus) (
     SetP ''reserve_factor_bps'' (int_str reserve) (
     EmitP ''LendingMarketConfigured'' [(''collateralToken'', VStr collateralToken), (''debtToken'', VStr debtToken),
       (''ltvBPS'', VStr (int_str ltv)), (''liquidationThresholdBPS'', VStr (int_str threshold))] Done))))))))))))"

definition LendingPool_SetInterestModel :: "string \<Rightarrow> string \<Rightarrow> string \<Rightarrow> string \<Rightarrow> prog" where
  "LendingPool_SetInterestModel baseBPS slope1BPS slope2BPS kinkBPS = requireManager (accrue (
     let base = big_or_zero baseBPS; s1 = big_or_zero slope1BPS; s2 = big_or_zero slope2BPS; kink = big_or_zero kinkBPS in
     revertIf (\<not> is_i64 base \<or> \<not> is_i64 s1 \<or> \<not> is_i64 s2 \<or> \<not> is_i64 kink \<or> base < 0 \<or> 2000 < base \<or> s1 < 0 \<or> 5000 < s1 \<or>
         s2 < 0 \<or> 30000 < s2 \<or> kink < 5000 \<or> 9500 < kink) ''invalid interest model'' (
     SetP ''base_rate_bps'' (int_str base) (SetP ''slope1_bps'' (int_str s1) (SetP ''slope2_bps'' (int_str s2) (SetP ''kink_bps'' (int_str kink) (
     EmitP ''InterestModelUpdated'' [(''baseBPS'', VStr (int_str base)), (''slope1BPS'', VStr (int_str s1)), (''slope2BPS'', VStr (int_str s2)),
       (''kinkBPS'', VStr (int_str kink))] Done)))))))"

definition LendingPool_SetOraclePrice :: "string \<Rightarrow> string \<Rightarrow> string \<Rightarrow> prog" where
  "LendingPool_SetOraclePrice token0 priceUSD18 timestamp = requireManager (AskP (\<lambda>c. GetN ''oracle_max_age'' (\<lambda>age.
     let token = norm_addr token0; pr = big_or_zero priceUSD18; ts = big_or_zero timestamp in
     revertIf (token = [] \<or> pr \<le> 0 \<or> \<not> is_i64 ts \<or> i64 (ci_BlockTime c + 30) < ts \<or> i64 age < i64 (ci_BlockTime c - ts))
       ''invalid or stale oracle update'' (
     SetP (''oracle_price18:'' @ token) (int_str pr) (SetP (''oracle_updated_at:'' @ token) (int_str ts) (
     EmitP ''LendingOracleUpdated'' [(''token'', VStr token), (''priceUSD18'', VStr (int_str pr)), (''timestamp'', VStr (int_str ts))] Done))))))"

definition LendingPool_Supply :: "string \<Rightarrow> string \<Rightarrow> prog" where
  "LendingPool_Supply amount receiver0 = accrue (AskP (\<lambda>c.
     let actor = lpActor c; receiver = norm_addr receiver0; amt = big_or_zero amount in
     revertIf (receiver = [] \<or> amt \<le> 0) ''invalid supply'' (
     GetN ''supply_index_x18'' (\<lambda>index. divP (amt * lendingScale) index (\<lambda>scaled.
     revertIf (scaled \<le> 0) ''supply rounds to zero'' (
     GetP ''debt_token'' (\<lambda>tok. pull tok actor amt (
     GetN (''scaled_supply:'' @ receiver) (\<lambda>s. SetP (''scaled_supply:'' @ receiver) (int_str (s + scaled)) (
     GetN ''total_scaled_supply'' (\<lambda>t. SetP ''total_scaled_supply'' (int_str (t + scaled)) (
     EmitP ''Supply'' [(''sender'', VStr actor), (''receiver'', VStr receiver), (''assets'', VStr (int_str amt)),
       (''scaledShares'', VStr (int_str scaled))] Done))))))))))))"

definition LendingPool_Deposit :: "string \<Rightarrow> prog" where
  "LendingPool_Deposit amount = AskP (\<lambda>c. LendingPool_Supply amount (lpActor c))"

definition available :: "(int \<Rightarrow> prog) \<Rightarrow> prog" where
  "available k = totalSupply (\<lambda>ts. totalDebt (\<lambda>td. GetN ''protocol_reserves'' (\<lambda>pr. k (ts - td - pr))))"

definition LendingPool_WithdrawSupply :: "string \<Rightarrow> string \<Rightarrow> prog" where
  "LendingPool_WithdrawSupply amount receiver0 = accrue (AskP (\<lambda>c.
     let actor = lpActor c; receiver = norm_addr receiver0; amt = big_or_zero amount in
     supplyOf actor (\<lambda>so. revertIf (receiver = [] \<or> amt \<le> 0 \<or> so < amt) ''insufficient supply'' (
     available (\<lambda>av. revertIf (av < amt) ''insufficient market liquidity'' (
     GetN ''supply_index_x18'' (\<lambda>index. GetN (''scaled_supply:'' @ actor) (\<lambda>owned.
     let sc = lpCeilDiv (amt * lendingScale) index; scaled = (if owned < sc then owned else sc) in
     SetP (''scaled_supply:'' @ actor) (int_str (owned - scaled)) (
     GetN ''total_scaled_supply'' (\<lambda>t. SetP ''total_scaled_supply'' (int_str (t - scaled)) (
     GetP ''debt_token'' (\<lambda>tok. push tok receiver amt (
     EmitP ''WithdrawSupply'' [(''owner'', VStr actor), (''receiver'', VStr receiver), (''assets'', VStr (int_str amt)),
       (''scaledShares'', VStr (int_str scaled))] Done)))))))))))))"

definition LendingPool_Withdraw :: "string \<Rightarrow> prog" where
  "LendingPool_Withdraw amount = AskP (\<lambda>c. LendingPool_WithdrawSupply amount (lpActor c))"

definition LendingPool_DepositCollateral :: "string \<Rightarrow> string \<Rightarrow> prog" where
  "LendingPool_DepositCollateral amount receiver0 = AskP (\<lambda>c.
     let actor = lpActor c; receiver = norm_addr receiver0; amt = big_or_zero amount in
     revertIf (receiver = [] \<or> amt \<le> 0) ''invalid collateral deposit'' (
     GetP ''collateral_token'' (\<lambda>tok. pull tok actor amt (
     GetN (''collateral:'' @ receiver) (\<lambda>s. SetP (''collateral:'' @ receiver) (int_str (s + amt)) (
     GetN ''total_collateral'' (\<lambda>t. SetP ''total_collateral'' (int_str (t + amt)) (
     EmitP ''CollateralDeposited'' [(''sender'', VStr actor), (''owner'', VStr receiver), (''amount'', VStr (int_str amt))] Done))))))))"

definition collateralValue :: "int \<Rightarrow> (int \<Rightarrow> prog) \<Rightarrow> prog" where
  "collateralValue amount k = GetP ''collateral_token'' (\<lambda>tok. price tok (\<lambda>p. k (amount * p div lendingScale)))"

definition debtValue :: "int \<Rightarrow> (int \<Rightarrow> prog) \<Rightarrow> prog" where
  "debtValue amount k = GetP ''debt_token'' (\<lambda>tok. price tok (\<lambda>p. k (amount * p div lendingScale)))"

definition healthFactorBPS :: "string \<Rightarrow> (int \<Rightarrow> prog) \<Rightarrow> prog" where
  "healthFactorBPS user k = debtOf user (\<lambda>debt. if debt = 0 then k 1000000000 else
     GetP ''collateral_token'' (\<lambda>ct. price ct (\<lambda>cp. GetP ''debt_token'' (\<lambda>dt. price dt (\<lambda>dp.
     if cp \<le> 0 \<or> dp \<le> 0 then k 0 else
     GetN (''collateral:'' @ norm_addr user) (\<lambda>col. collateralValue col (\<lambda>cv. GetN ''liquidation_threshold_bps'' (\<lambda>th.
     debtValue debt (\<lambda>dv. divP (cv * th div 10000 * 10000) dv k)))))))))"

definition LendingPool_WithdrawCollateral :: "string \<Rightarrow> string \<Rightarrow> prog" where
  "LendingPool_WithdrawCollateral amount receiver0 = accrue (AskP (\<lambda>c.
     let actor = lpActor c; receiver = norm_addr receiver0; amt = big_or_zero amount in
     GetN (''collateral:'' @ actor) (\<lambda>collateral.
     revertIf (receiver = [] \<or> amt \<le> 0 \<or> collateral < amt) ''insufficient collateral'' (
     SetP (''collateral:'' @ actor) (int_str (collateral - amt)) (
     healthFactorBPS actor (\<lambda>hf. revertIf (hf < 10000) ''withdrawal would make position liquidatable'' (
     GetN ''total_collateral'' (\<lambda>t. SetP ''total_collateral'' (int_str (t - amt)) (
     GetP ''collateral_token'' (\<lambda>tok. push tok receiver amt (
     EmitP ''CollateralWithdrawn'' [(''owner'', VStr actor), (''receiver'', VStr receiver), (''amount'', VStr (int_str amt))] Done)))))))))))"

definition LendingPool_Borrow :: "string \<Rightarrow> prog" where
  "LendingPool_Borrow amount = accrue (AskP (\<lambda>c. let borrower = lpActor c; amt = big_or_zero amount in
     revertIf (amt \<le> 0) ''invalid borrow'' (
     GetP ''collateral_token'' (\<lambda>ct. price ct (\<lambda>cp. GetP ''debt_token'' (\<lambda>dt. price dt (\<lambda>dp.
     revertIf (cp \<le> 0 \<or> dp \<le> 0) ''fresh collateral and debt oracle prices required'' (
     debtOf borrower (\<lambda>debt. GetN (''collateral:'' @ borrower) (\<lambda>col. collateralValue col (\<lambda>cv. GetN ''ltv_bps'' (\<lambda>ltv.
     debtValue (debt + amt) (\<lambda>dv.
     revertIf (cv * ltv div 10000 < dv) ''borrow limit exceeded'' (
     available (\<lambda>av. revertIf (av < amt) ''insufficient market liquidity'' (
     GetN ''borrow_index_x18'' (\<lambda>bi. let shares = lpCeilDiv (amt * lendingScale) bi in
     GetN (''scaled_debt:'' @ borrower) (\<lambda>sd. SetP (''scaled_debt:'' @ borrower) (int_str (sd + shares)) (
     GetN ''total_scaled_debt'' (\<lambda>t. SetP ''total_scaled_debt'' (int_str (t + shares)) (
     push dt borrower amt (
     EmitP ''Borrow'' [(''borrower'', VStr borrower), (''amount'', VStr (int_str amt)), (''debtShares'', VStr (int_str shares))]
       Done))))))))))))))))))))))"

definition repayFor :: "string \<Rightarrow> string \<Rightarrow> int \<Rightarrow> (int \<Rightarrow> prog) \<Rightarrow> prog" where
  "repayFor payer borrower amount0 k = accrue (debtOf borrower (\<lambda>debt. GetN (''scaled_debt:'' @ borrower) (\<lambda>shares.
     revertIf (debt \<le> 0) ''no debt'' (
     let amount = (if debt < amount0 then debt else amount0) in
     GetP ''debt_token'' (\<lambda>tok. pull tok payer amount (
     GetN ''borrow_index_x18'' (\<lambda>bi. divP (amount * lendingScale) bi (\<lambda>rem0.
     let remove = (if amount = debt \<or> shares < rem0 then shares else rem0) in
     revertIf (remove \<le> 0) ''repayment rounds to zero'' (
     SetP (''scaled_debt:'' @ borrower) (int_str (shares - remove)) (
     GetN ''total_scaled_debt'' (\<lambda>t. SetP ''total_scaled_debt'' (int_str (t - remove)) (k amount))))))))))))"

definition LendingPool_Repay :: "string \<Rightarrow> prog" where
  "LendingPool_Repay amount = AskP (\<lambda>c. let borrower = lpActor c in repayFor borrower borrower (big_or_zero amount) (\<lambda>paid.
     EmitP ''Repay'' [(''payer'', VStr borrower), (''borrower'', VStr borrower), (''amount'', VStr (int_str paid))] Done))"

definition LendingPool_RepayFor :: "string \<Rightarrow> string \<Rightarrow> prog" where
  "LendingPool_RepayFor borrower amount = AskP (\<lambda>c. let payer = lpActor c in repayFor payer (norm_addr borrower) (big_or_zero amount) (\<lambda>paid.
     EmitP ''Repay'' [(''payer'', VStr payer), (''borrower'', VStr (norm_addr borrower)), (''amount'', VStr (int_str paid))] Done))"

text \<open>The collateral that a repayment seizes, and the repayment the collateral is worth when it is short.\<close>

definition seizure :: "int \<Rightarrow> int \<Rightarrow> int \<Rightarrow> int \<Rightarrow> int \<Rightarrow> (int \<Rightarrow> int \<Rightarrow> prog) \<Rightarrow> prog" where
  "seizure requested debtPrice collateralPrice bonus collateral k =
     (let seize = lpCeilDiv (requested * debtPrice * (10000 + bonus)) (collateralPrice * 10000) in
      if collateral < seize
      then divP (collateral * collateralPrice * 10000) (debtPrice * (10000 + bonus)) (\<lambda>r. k r collateral)
      else k requested seize)"

definition writeOff :: "string \<Rightarrow> int \<Rightarrow> prog \<Rightarrow> prog" where
  "writeOff borrower left k = debtOf borrower (\<lambda>remainingDebt. if left = 0 \<and> 0 < remainingDebt then
     GetN (''scaled_debt:'' @ borrower) (\<lambda>badShares. SetP (''scaled_debt:'' @ borrower) ''0'' (
     GetN ''total_scaled_debt'' (\<lambda>t. SetP ''total_scaled_debt'' (int_str (t - badShares)) (
     GetN ''bad_debt'' (\<lambda>b. SetP ''bad_debt'' (int_str (b + remainingDebt)) k)))))
     else k)"

definition LendingPool_LiquidatePartial :: "string \<Rightarrow> string \<Rightarrow> string \<Rightarrow> prog" where
  "LendingPool_LiquidatePartial borrower0 repayAmount minCollateralOut = accrue (AskP (\<lambda>c.
     let liquidator = lpActor c; borrower = norm_addr borrower0; minimum = big_or_zero minCollateralOut in
     healthFactorBPS borrower (\<lambda>hf.
     revertIf (borrower = [] \<or> borrower = liquidator \<or> big_or_zero repayAmount \<le> 0 \<or> 10000 \<le> hf) ''position is not liquidatable'' (
     debtOf borrower (\<lambda>debt. GetN ''close_factor_bps'' (\<lambda>cf.
     let maxClose = debt * cf div 10000; requested0 = (if maxClose < big_or_zero repayAmount then maxClose else big_or_zero repayAmount) in
     GetP ''debt_token'' (\<lambda>dt. price dt (\<lambda>debtPrice. GetP ''collateral_token'' (\<lambda>ct. price ct (\<lambda>collateralPrice.
     revertIf (debtPrice \<le> 0 \<or> collateralPrice \<le> 0) ''fresh oracle required'' (
     GetN ''liquidation_bonus_bps'' (\<lambda>bonus. GetN (''collateral:'' @ borrower) (\<lambda>collateral.
     seizure requested0 debtPrice collateralPrice bonus collateral (\<lambda>requested seize.
     revertIf (seize \<le> 0 \<or> seize < minimum) ''liquidation collateral output below minimum'' (
     repayFor liquidator borrower requested (\<lambda>paid.
     SetP (''collateral:'' @ borrower) (int_str (collateral - seize)) (
     GetN ''total_collateral'' (\<lambda>t. SetP ''total_collateral'' (int_str (t - seize)) (
     push ct liquidator seize (
     writeOff borrower (collateral - seize) (
     GetP ''bad_debt'' (\<lambda>bad.
     EmitP ''Liquidation'' [(''liquidator'', VStr liquidator), (''borrower'', VStr borrower), (''repaid'', VStr (int_str paid)),
       (''collateralSeized'', VStr (int_str seize)), (''badDebt'', VStr bad)] Done))))))))))))))))))))))"

definition LendingPool_Liquidate :: "string \<Rightarrow> prog" where
  "LendingPool_Liquidate borrower = debtOf borrower (\<lambda>debt. GetN ''close_factor_bps'' (\<lambda>cf.
     LendingPool_LiquidatePartial borrower (int_str (debt * cf div 10000)) ''0''))"

definition LendingPool_CoverBadDebt :: "string \<Rightarrow> prog" where
  "LendingPool_CoverBadDebt amount = requireManager (AskP (\<lambda>c. GetN ''bad_debt'' (\<lambda>bad. let amt = big_or_zero amount in
     revertIf (amt \<le> 0 \<or> bad < amt) ''invalid bad-debt coverage'' (
     GetP ''debt_token'' (\<lambda>tok. pull tok (lpActor c) amt (
     SetP ''bad_debt'' (int_str (bad - amt)) (
     EmitP ''BadDebtCovered'' [(''amount'', VStr (int_str amt)), (''remaining'', VStr (int_str (bad - amt)))] Done)))))))"

definition LendingPool_WithdrawProtocolReserves :: "string \<Rightarrow> string \<Rightarrow> prog" where
  "LendingPool_WithdrawProtocolReserves amount recipient = requireManager (accrue (GetN ''protocol_reserves'' (\<lambda>reserves.
     let amt = big_or_zero amount in
     revertIf (norm_addr recipient = [] \<or> amt \<le> 0 \<or> reserves < amt) ''invalid reserve withdrawal'' (
     totalSupply (\<lambda>ts. totalDebt (\<lambda>td. revertIf (ts - td < amt) ''reserve withdrawal exceeds cash'' (
     SetP ''protocol_reserves'' (int_str (reserves - amt)) (
     GetP ''debt_token'' (\<lambda>tok. push tok recipient amt (
     EmitP ''ProtocolReservesWithdrawn'' [(''recipient'', VStr (norm_addr recipient)), (''amount'', VStr (int_str amt))] Done))))))))))"

definition outputN :: "int \<Rightarrow> prog" where
  "outputN v = SetP ''output'' (int_str v) Done"

definition LendingPool_AccrueInterest :: "string \<Rightarrow> prog" where
  "LendingPool_AccrueInterest addr = debtOf addr (\<lambda>before. accrue (debtOf addr (\<lambda>after. outputN (after - before))))"
definition LendingPool_BalanceOf :: "string \<Rightarrow> prog" where
  "LendingPool_BalanceOf addr = accrue (supplyOf addr outputN)"
definition LendingPool_DebtOf :: "string \<Rightarrow> prog" where
  "LendingPool_DebtOf addr = accrue (debtOf addr outputN)"
definition LendingPool_CollateralOf :: "string \<Rightarrow> prog" where
  "LendingPool_CollateralOf addr = GetN (''collateral:'' @ norm_addr addr) outputN"
definition LendingPool_HealthFactor :: "string \<Rightarrow> prog" where
  "LendingPool_HealthFactor addr = accrue (healthFactorBPS (norm_addr addr) outputN)"
definition LendingPool_TotalDeposits :: prog where
  "LendingPool_TotalDeposits = accrue (totalSupply outputN)"
definition LendingPool_TotalBorrows :: prog where
  "LendingPool_TotalBorrows = accrue (totalDebt outputN)"
definition LendingPool_Utilization :: prog where
  "LendingPool_Utilization = accrue (utilizationBPS outputN)"
definition LendingPool_BorrowRate :: prog where
  "LendingPool_BorrowRate = accrue (borrowRateBPS outputN)"

definition args6 :: "(string \<Rightarrow> string \<Rightarrow> string \<Rightarrow> string \<Rightarrow> string \<Rightarrow> string \<Rightarrow> prog) \<Rightarrow> string list \<Rightarrow> prog" where
  "args6 p args = (case args of [a, b, c, d, e, f] \<Rightarrow> p a b c d e f | _ \<Rightarrow> Crash ''reflect: Call with wrong number of arguments'')"

definition lending_pool :: contract where
  "lending_pool = dispatch [(''init'', args1 LendingPool_Init), (''configuremarket'', args6 LendingPool_ConfigureMarket),
     (''setinterestmodel'', args4 LendingPool_SetInterestModel), (''setoracleprice'', args3 LendingPool_SetOraclePrice),
     (''deposit'', args1 LendingPool_Deposit), (''supply'', args2 LendingPool_Supply), (''withdraw'', args1 LendingPool_Withdraw),
     (''withdrawsupply'', args2 LendingPool_WithdrawSupply), (''depositcollateral'', args2 LendingPool_DepositCollateral),
     (''withdrawcollateral'', args2 LendingPool_WithdrawCollateral), (''borrow'', args1 LendingPool_Borrow),
     (''repay'', args1 LendingPool_Repay), (''repayfor'', args2 LendingPool_RepayFor),
     (''liquidatepartial'', args3 LendingPool_LiquidatePartial), (''liquidate'', args1 LendingPool_Liquidate),
     (''coverbaddebt'', args1 LendingPool_CoverBadDebt), (''withdrawprotocolreserves'', args2 LendingPool_WithdrawProtocolReserves),
     (''accrueinterest'', args1 LendingPool_AccrueInterest), (''balanceof'', args1 LendingPool_BalanceOf),
     (''debtof'', args1 LendingPool_DebtOf), (''getdebt'', args1 LendingPool_DebtOf), (''collateralof'', args1 LendingPool_CollateralOf),
     (''healthfactor'', args1 LendingPool_HealthFactor), (''totaldeposits'', args0 LendingPool_TotalDeposits),
     (''totalborrows'', args0 LendingPool_TotalBorrows), (''utilization'', args0 LendingPool_Utilization),
     (''borrowrate'', args0 LendingPool_BorrowRate)]"

section \<open>The books\<close>

abbreviation num :: "(string \<Rightarrow> string) \<Rightarrow> string \<Rightarrow> int" where
  "num g key \<equiv> big_or_zero (g key)"

definition suppliers :: "(string \<Rightarrow> string) \<Rightarrow> string \<Rightarrow> int" where "suppliers = table ''scaled_supply:''"
definition debtors :: "(string \<Rightarrow> string) \<Rightarrow> string \<Rightarrow> int" where "debtors = table ''scaled_debt:''"
definition collaterals :: "(string \<Rightarrow> string) \<Rightarrow> string \<Rightarrow> int" where "collaterals = table ''collateral:''"

text \<open>
  The scaled shares add up to the recorded totals, no position is negative, both indices are at least one, and
  before \<open>Init\<close> there are no shares. The recorded collateral may fall short of the positions: \<open>Init\<close> resets it.
\<close>

definition lendInv :: "(string \<Rightarrow> string) \<Rightarrow> bool" where
  "lendInv g \<longleftrightarrow>
     small (suppliers g) \<and> (\<forall>a. 0 \<le> suppliers g a) \<and> num g ''total_scaled_supply'' = total (suppliers g) \<and>
     small (debtors g) \<and> (\<forall>a. 0 \<le> debtors g a) \<and> num g ''total_scaled_debt'' = total (debtors g) \<and>
     small (collaterals g) \<and> (\<forall>a. 0 \<le> collaterals g a) \<and> num g ''total_collateral'' \<le> total (collaterals g) \<and>
     0 \<le> num g ''protocol_reserves'' \<and> 0 \<le> num g ''bad_debt'' \<and> 0 \<le> num g ''reserve_factor_bps'' \<and> num g ''reserve_factor_bps'' \<le> 10000 \<and>
     (if g ''initialized'' = ''true'' then lendingScale \<le> num g ''borrow_index_x18'' \<and> lendingScale \<le> num g ''supply_index_x18''
      else num g ''borrow_index_x18'' = 0 \<and> num g ''supply_index_x18'' = 0 \<and> total (suppliers g) = 0 \<and> total (debtors g) = 0)"

lemma books_simps:
  "suppliers (g(''scaled_supply:'' @ a := v)) = (suppliers g)(a := big_or_zero v)" "num g (''scaled_supply:'' @ a) = suppliers g a"
  "debtors (g(''scaled_debt:'' @ a := v)) = (debtors g)(a := big_or_zero v)" "num g (''scaled_debt:'' @ a) = debtors g a"
  "collaterals (g(''collateral:'' @ a := v)) = (collaterals g)(a := big_or_zero v)" "num g (''collateral:'' @ a) = collaterals g a"
  by (simp_all add: suppliers_def debtors_def collaterals_def table_def fun_eq_iff)

lemma books_other:
  "(\<And>a. key \<noteq> ''scaled_supply:'' @ a) \<Longrightarrow> suppliers (g(key := v)) = suppliers g"
  "(\<And>a. key \<noteq> ''scaled_debt:'' @ a) \<Longrightarrow> debtors (g(key := v)) = debtors g"
  "(\<And>a. key \<noteq> ''collateral:'' @ a) \<Longrightarrow> collaterals (g(key := v)) = collaterals g"
  unfolding suppliers_def debtors_def collaterals_def by (rule table_other, simp)+

lemma total_member: "small h \<Longrightarrow> \<forall>a. 0 \<le> h a \<Longrightarrow> h a \<le> total h"
  by (cases "h a = 0") (auto simp: total_def small_def sum_nonneg intro: member_le_sum)

lemma no_positions:
  "total (suppliers g) = 0 \<Longrightarrow> small (suppliers g) \<Longrightarrow> \<forall>a. 0 \<le> suppliers g a \<Longrightarrow> suppliers g a = 0"
  "total (debtors g) = 0 \<Longrightarrow> small (debtors g) \<Longrightarrow> \<forall>a. 0 \<le> debtors g a \<Longrightarrow> debtors g a = 0"
  using total_member [of "suppliers g" a] total_member [of "debtors g" a] by (simp_all add: order_antisym)

lemma lpCeilDiv_simps [simp]: "lpCeilDiv n 0 = 0" "0 \<le> n \<Longrightarrow> 0 \<le> lpCeilDiv n d"
  by (simp_all add: lpCeilDiv_def pos_imp_zdiv_nonneg_iff)

lemma scale_nonneg [simp]: "0 \<le> a \<Longrightarrow> 0 \<le> a * lendingScale"
  by (simp add: lendingScale_def)

lemmas books = no_positions books_simps [simplified append_Cons append_Nil] books_other [simplified append_Cons append_Nil]

lemma lendingScale_pos [simp]: "0 < lendingScale"
  by (simp add: lendingScale_def)

lemma wp_divP: "wp C Q (divP a d k) i g n \<longleftrightarrow> (d \<noteq> 0 \<longrightarrow> wp C Q (k (big_div a d)) i g n)"
  by (simp add: divP_def)

lemma wp_push: "(\<And>m. wp C Q k i g m) \<Longrightarrow> wp C Q (push t to a k) i g n"
  by (auto simp: push_def split: call_result.split)

lemma wp_pull: "(\<And>m. 0 < a \<Longrightarrow> wp C Q k i g m) \<Longrightarrow> wp C Q (pull t from a k) i g n"
  by (auto simp: pull_def split: call_result.split)

lemma wp_requireManager: "wp C Q k i g n \<Longrightarrow> wp C Q (requireManager k) i g n"
  by (simp add: requireManager_def manager_def)

text \<open>Programs that only read before they go on.\<close>

lemma wp_readers:
  "(\<And>v. wp C Q (k v) i g n) \<Longrightarrow> wp C Q (totalSupply k) i g n"
  "(\<And>v. wp C Q (k v) i g n) \<Longrightarrow> wp C Q (totalDebt k) i g n"
  "(\<And>v. wp C Q (k v) i g n) \<Longrightarrow> wp C Q (supplyOf a k) i g n"
  "(\<And>v. wp C Q (k v) i g n) \<Longrightarrow> wp C Q (debtOf a k) i g n"
  "(\<And>v. wp C Q (k v) i g n) \<Longrightarrow> wp C Q (available k) i g n"
  "(\<And>v. wp C Q (k v) i g n) \<Longrightarrow> wp C Q (price a k) i g n"
  "(\<And>v. wp C Q (k v) i g n) \<Longrightarrow> wp C Q (collateralValue b k) i g n"
  "(\<And>v. wp C Q (k v) i g n) \<Longrightarrow> wp C Q (debtValue b k) i g n"
  "(\<And>v. wp C Q (k v) i g n) \<Longrightarrow> wp C Q (healthFactorBPS a k) i g n"
  "(\<And>v. wp C Q (k v) i g n) \<Longrightarrow> wp C Q (utilizationBPS k) i g n"
  "(\<And>v. wp C Q (k v) i g n) \<Longrightarrow> wp C Q (borrowRateBPS k) i g n"
  by (simp_all add: totalSupply_def totalDebt_def supplyOf_def debtOf_def available_def price_def collateralValue_def debtValue_def
      healthFactorBPS_def utilizationBPS_def borrowRateBPS_def wp_divP Let_def)

lemma wp_seizure:
  "(\<And>r s. s \<le> collateral \<Longrightarrow> wp C Q (k r s) i g n) \<Longrightarrow> wp C Q (seizure req dp cp bonus collateral k) i g n"
  by (auto simp: seizure_def wp_divP Let_def)

text \<open>Accrual keeps the books and only raises the indices.\<close>

definition accrued :: "(string \<Rightarrow> string) \<Rightarrow> (string \<Rightarrow> string) \<Rightarrow> bool" where
  "accrued g g' \<longleftrightarrow> suppliers g' = suppliers g \<and> debtors g' = debtors g \<and> collaterals g' = collaterals g \<and>
     num g ''borrow_index_x18'' \<le> num g' ''borrow_index_x18'' \<and> num g ''supply_index_x18'' \<le> num g' ''supply_index_x18''"

lemma accrue_wp:
  assumes inv: "lendInv g" and k: "\<And>g'. lendInv g' \<Longrightarrow> accrued g g' \<Longrightarrow> wp C Q k i g' n"
  shows "wp C Q (accrue k) i g n"
proof -
  have init: "g ''initialized'' = ''true''" if "num g ''total_scaled_debt'' \<noteq> 0" using inv that by (auto simp: lendInv_def split: if_splits)
  have still: "wp C Q k i g n" by (rule k) (use inv in \<open>simp_all add: accrued_def\<close>)
  have stamp: "wp C Q k i (g(''last_accrual'' := v)) n" for v
    by (rule k) (use inv in \<open>simp_all add: accrued_def lendInv_def books\<close>)
  have idx: "wp C Q k i (g(''borrow_index_x18'' := int_str bi, ''supply_index_x18'' := int_str si, ''last_accrual'' := v)) n"
    if "num g ''borrow_index_x18'' \<le> bi" "num g ''supply_index_x18'' \<le> si" "num g ''total_scaled_debt'' \<noteq> 0" for bi si v
    by (rule k) (use inv that init in \<open>auto simp: accrued_def lendInv_def books\<close>)
  have idr: "wp C Q k i (g(''protocol_reserves'' := int_str pr, ''borrow_index_x18'' := int_str bi, ''supply_index_x18'' := int_str si, ''last_accrual'' := v)) n"
    if "num g ''borrow_index_x18'' \<le> bi" "num g ''supply_index_x18'' \<le> si" "num g ''total_scaled_debt'' \<noteq> 0" "0 \<le> pr" for bi si v pr
    by (rule k) (use inv that init in \<open>auto simp: accrued_def lendInv_def books\<close>)
  have debt: "0 \<le> num g ''total_scaled_debt'' * num g ''borrow_index_x18'' div lendingScale"
    using inv by (auto simp: lendInv_def total_nonneg pos_imp_zdiv_nonneg_iff lendingScale_def split: if_splits intro!: mult_nonneg_nonneg)
  have res: "0 \<le> x * num g ''reserve_factor_bps'' div 10000 \<and> x * num g ''reserve_factor_bps'' div 10000 \<le> x" if "0 < x" for x
    using inv that bps_nonneg [of x] bps_le [of x] by (simp add: lendInv_def)
  have grow: "0 \<le> big_div (x * lendingScale) d" if "0 < x" "0 \<le> d" for x d
    using that by (simp add: div_int_pos_iff lendingScale_def)
  have share: "0 \<le> (x - r) * lendingScale div d" if "r \<le> x" "0 < d" for x r d
    using that by (simp add: pos_imp_zdiv_nonneg_iff lendingScale_def)
  have pr: "0 \<le> num g ''protocol_reserves''" using inv by (simp add: lendInv_def)
  show ?thesis
    by (auto simp: accrue_def Let_def wp_divP simp del: fun_upd_apply
        intro!: still stamp wp_readers idx idr grow share debt pr res [THEN conjunct1] res [THEN conjunct2] add_nonneg_nonneg)
qed

lemmas lend_rules = accrue_wp wp_readers wp_push wp_pull wp_requireManager wp_seizure

lemma wp_args6: "wp C Q (args6 p args) i g n \<longleftrightarrow>
    (\<forall>a b c d e f. args = [a, b, c, d, e, f] \<longrightarrow> wp C Q (p a b c d e f) i g n)"
  by (auto simp: args6_def split: list.split)

abbreviation keepsBooks :: "prog \<Rightarrow> bool" where
  "keepsBooks p \<equiv> (\<forall>i g n. lendInv g \<longrightarrow> wp lendInv (\<lambda>g' _. lendInv g') p i g n)"

lemma books_Supply: "keepsBooks (LendingPool_Supply a r)"
  by (auto simp: LendingPool_Supply_def Let_def wp_divP simp del: fun_upd_apply intro!: lend_rules)
    (auto simp: lendInv_def books)

lemma books_WithdrawSupply: "keepsBooks (LendingPool_WithdrawSupply a r)"
  by (auto simp: LendingPool_WithdrawSupply_def Let_def simp del: fun_upd_apply intro!: lend_rules)
    (auto simp: lendInv_def books)

lemma books_DepositCollateral: "keepsBooks (LendingPool_DepositCollateral a r)"
  by (auto simp: LendingPool_DepositCollateral_def Let_def simp del: fun_upd_apply intro!: lend_rules)
    (auto simp: lendInv_def books)

lemma books_WithdrawCollateral: "keepsBooks (LendingPool_WithdrawCollateral a r)"
  by (auto simp: LendingPool_WithdrawCollateral_def Let_def simp del: fun_upd_apply intro!: lend_rules)
    (auto simp: lendInv_def books)

lemma books_Borrow: "keepsBooks (LendingPool_Borrow a)"
  by (auto simp: LendingPool_Borrow_def Let_def simp del: fun_upd_apply intro!: lend_rules)
    (auto simp: lendInv_def books intro!: add_nonneg_nonneg)

lemma repayFor_wp:
  assumes inv: "lendInv g" and k: "\<And>g' a n. lendInv g' \<Longrightarrow> collaterals g' = collaterals g \<Longrightarrow> wp C Q (k a) i g' n"
  shows "wp C Q (repayFor payer borrower a k) i g n"
  unfolding repayFor_def
proof (rule accrue_wp [OF inv])
  fix g'
  assume g': "lendInv g'" "accrued g g'"
  then have col: "collaterals g' = collaterals g" by (simp add: accrued_def)
  have step: "wp C Q (k a) i (g'(''scaled_debt:'' @ borrower := int_str (debtors g' borrower - x),
      ''total_scaled_debt'' := int_str (num g' ''total_scaled_debt'' - x))) n" if "x \<le> debtors g' borrower" "0 \<le> x" for x a n
  proof (rule k)
    show "lendInv (g'(''scaled_debt:'' @ borrower := int_str (debtors g' borrower - x),
        ''total_scaled_debt'' := int_str (num g' ''total_scaled_debt'' - x)))"
    proof (cases "g' ''initialized'' = ''true''")
      case False
      then have "debtors g' borrower = 0" using g'(1) no_positions(2) [of g' borrower] by (simp add: lendInv_def)
      then have "x = 0" using that by simp
      with False g'(1) \<open>debtors g' borrower = 0\<close> show ?thesis by (simp add: lendInv_def books)
    qed (use g'(1) that in \<open>simp add: lendInv_def books\<close>)
  qed (simp add: books col)
  show "wp C Q (debtOf borrower (\<lambda>debt. GetP (''scaled_debt:'' @ borrower) (\<lambda>s.
      if debt \<le> 0 then Revert ''no debt'' else
      let amount = if debt < a then debt else a in
      GetP ''debt_token'' (\<lambda>tok. pull tok payer amount (GetP ''borrow_index_x18'' (\<lambda>sa.
      divP (amount * lendingScale) (big_or_zero sa) (\<lambda>rem0.
      let remove = if amount = debt \<or> big_or_zero s < rem0 then big_or_zero s else rem0 in
      if remove \<le> 0 then Revert ''repayment rounds to zero'' else
      SetP (''scaled_debt:'' @ borrower) (int_str (big_or_zero s - remove)) (
      GetP ''total_scaled_debt'' (\<lambda>sb. SetP ''total_scaled_debt'' (int_str (big_or_zero sb - remove)) (k amount))))))))))
      i g' n"
    using step [simplified append_Cons append_Nil] step [of "debtors g' borrower", simplified]
    by (auto simp: Let_def wp_divP books intro!: wp_readers wp_pull)
qed

lemma writeOff_wp:
  assumes inv: "lendInv g" and k: "\<And>g'. lendInv g' \<Longrightarrow> wp C Q k i g' n"
  shows "wp C Q (writeOff borrower left k) i g n"
  using inv by (auto simp: writeOff_def simp del: fun_upd_apply intro!: wp_readers k) (auto simp: lendInv_def books)

lemma books_Repay: "keepsBooks (LendingPool_Repay a)" "keepsBooks (LendingPool_RepayFor b a)"
  by (auto simp: LendingPool_Repay_def LendingPool_RepayFor_def Let_def intro!: repayFor_wp)

lemma books_LiquidatePartial: "keepsBooks (LendingPool_LiquidatePartial b a m)"
  by (auto simp: LendingPool_LiquidatePartial_def Let_def simp del: fun_upd_apply intro!: lend_rules repayFor_wp writeOff_wp)
    (auto simp: lendInv_def books)

lemma books_Liquidate: "keepsBooks (LendingPool_Liquidate b)"
  using books_LiquidatePartial by (auto simp: LendingPool_Liquidate_def intro!: lend_rules)

lemma books_manager:
  "keepsBooks (LendingPool_CoverBadDebt a)" "keepsBooks (LendingPool_WithdrawProtocolReserves a r)"
  "keepsBooks (LendingPool_SetInterestModel a b c d)" "keepsBooks (LendingPool_SetOraclePrice a b c)"
  "keepsBooks (LendingPool_ConfigureMarket a b c d e f)"
  by (auto simp: LendingPool_CoverBadDebt_def LendingPool_WithdrawProtocolReserves_def LendingPool_SetInterestModel_def
      LendingPool_SetOraclePrice_def LendingPool_ConfigureMarket_def Let_def simp del: fun_upd_apply intro!: lend_rules)
    (auto simp: lendInv_def books)

lemma big_1000: "big_or_zero ''1000'' = 1000"
  by code_simp

lemma books_Init: "keepsBooks (LendingPool_Init t)"
  by (auto simp: LendingPool_Init_def Let_def simp del: fun_upd_apply) (auto simp: lendInv_def books total_nonneg big_1000)

lemma books_queries:
  "keepsBooks (LendingPool_AccrueInterest a)" "keepsBooks (LendingPool_BalanceOf a)" "keepsBooks (LendingPool_DebtOf a)"
  "keepsBooks (LendingPool_CollateralOf a)" "keepsBooks (LendingPool_HealthFactor a)" "keepsBooks LendingPool_TotalDeposits"
  "keepsBooks LendingPool_TotalBorrows" "keepsBooks LendingPool_Utilization" "keepsBooks LendingPool_BorrowRate"
  by (auto simp: LendingPool_AccrueInterest_def LendingPool_BalanceOf_def LendingPool_DebtOf_def LendingPool_CollateralOf_def
      LendingPool_HealthFactor_def LendingPool_TotalDeposits_def LendingPool_TotalBorrows_def LendingPool_Utilization_def
      LendingPool_BorrowRate_def outputN_def simp del: fun_upd_apply intro!: lend_rules)
    (auto simp: lendInv_def books)

lemma lending_method:
  assumes "lending_pool fn args = Some p" "lendInv g"
  shows "wp lendInv (\<lambda>g' _. lendInv g') p i g n"
proof (rule wp_dispatch [OF assms(1) [unfolded lending_pool_def]],
    unfold list.pred_inject prod.case wp_arguments wp_args6, intro conjI allI impI)
qed (use assms(2) books_Init books_manager books_Supply books_WithdrawSupply books_DepositCollateral books_WithdrawCollateral
    books_Borrow books_Repay books_LiquidatePartial books_Liquidate books_queries
    in \<open>auto simp: LendingPool_Deposit_def LendingPool_Withdraw_def\<close>)

interpretation lending: contract_law lending_pool lendInv
  by unfold_locales (rule lending_method)

section \<open>Rounding\<close>

definition claimOf :: "(string \<Rightarrow> string) \<Rightarrow> string \<Rightarrow> int" where
  "claimOf g u = suppliers g u * num g ''supply_index_x18'' div lendingScale"

definition debtIn :: "(string \<Rightarrow> string) \<Rightarrow> string \<Rightarrow> int" where
  "debtIn g u = lpCeilDiv (debtors g u * num g ''borrow_index_x18'') lendingScale"

lemma div_mono_add: "0 < (d::int) \<Longrightarrow> x \<le> y + a * d \<Longrightarrow> x div d \<le> y div d + a"
  using zdiv_mono1 [of x "y + a * d" d] by simp

lemma ceil_mono_add: "0 < d \<Longrightarrow> x + a * d \<le> y \<Longrightarrow> lpCeilDiv x d + a \<le> lpCeilDiv y d"
  using zdiv_mono1 [of "x + (d - 1) + a * d" "y + (d - 1)" d] by (simp add: lpCeilDiv_def)

lemma ceil_covers: "0 < d \<Longrightarrow> x \<le> lpCeilDiv x d * d"
  using less_div_mult_add [of d "x + (d - 1)"] by (simp add: lpCeilDiv_def)

lemma floor_within: "0 < d \<Longrightarrow> big_div x d * d \<le> x"
  using div_mult_le_self [of d x] by simp

abbreviation idle :: "ctx_info \<Rightarrow> (string \<Rightarrow> string) \<Rightarrow> bool" where
  "idle i g \<equiv> lendInv g \<and> g ''initialized'' = ''true'' \<and> ci_BlockTime i \<le> num g ''last_accrual''"

lemma idle_accrue: "idle i g \<Longrightarrow> wp C Q (accrue k) i g n = wp C Q k i g n"
  by (simp add: accrue_def)

lemma idle_index: "idle i g \<Longrightarrow> 0 < num g ''supply_index_x18'' \<and> 0 < num g ''borrow_index_x18''"
  by (auto simp: lendInv_def intro: less_le_trans [OF lendingScale_pos])

lemma wp_readers_exact:
  "wp C Q (supplyOf u k) i g n = wp C Q (k (claimOf g (norm_addr u))) i g n"
  "wp C Q (debtOf u k) i g n = wp C Q (k (debtIn g (norm_addr u))) i g n"
  by (simp_all add: supplyOf_def debtOf_def claimOf_def debtIn_def suppliers_def debtors_def table_def)

lemma norm_actor [simp]: "norm_addr (lpActor c) = lpActor c"
  by (simp add: lpActor_def)

lemma rounding_Supply:
  assumes "idle i g"
  shows "wp (\<lambda>_. True) (\<lambda>g' _. claimOf g' (norm_addr r) \<le> claimOf g (norm_addr r) + big_or_zero a) (LendingPool_Supply a r) i g n"
proof -
  let ?u = "norm_addr r" and ?x = "num g ''supply_index_x18''" and ?a = "big_or_zero a"
  let ?s = "big_div (?a * lendingScale) ?x"
  note x = idle_index [OF assms, THEN conjunct1]
  have "(suppliers g ?u + ?s) * ?x \<le> suppliers g ?u * ?x + ?a * lendingScale"
    using floor_within [OF x] by (simp add: distrib_right)
  from div_mono_add [OF lendingScale_pos this]
  have "(suppliers g ?u + ?s) * ?x div lendingScale \<le> claimOf g ?u + ?a" by (simp add: claimOf_def)
  then show ?thesis unfolding LendingPool_Supply_def idle_accrue [OF assms]
    by (auto simp: Let_def wp_divP books claimOf_def intro!: wp_pull)
qed

lemma rounding_WithdrawSupply:
  assumes "idle i g"
  shows "wp (\<lambda>_. True) (\<lambda>g' _. claimOf g' (lpActor i) + big_or_zero a \<le> claimOf g (lpActor i)) (LendingPool_WithdrawSupply a r) i g n"
proof -
  let ?u = "lpActor i" and ?x = "num g ''supply_index_x18''" and ?a = "big_or_zero a"
  let ?s = "lpCeilDiv (?a * lendingScale) ?x"
  note x = idle_index [OF assms, THEN conjunct1]
  have "(suppliers g ?u - ?s) * ?x + ?a * lendingScale \<le> suppliers g ?u * ?x"
    using ceil_covers [OF x] by (simp add: left_diff_distrib)
  then have "(suppliers g ?u - ?s) * ?x \<le> suppliers g ?u * ?x + (- ?a) * lendingScale" by simp
  from div_mono_add [OF lendingScale_pos this]
  have "(suppliers g ?u - ?s) * ?x div lendingScale + ?a \<le> claimOf g ?u" by (simp add: claimOf_def)
  then show ?thesis unfolding LendingPool_WithdrawSupply_def idle_accrue [OF assms]
    by (auto simp: Let_def books wp_readers_exact claimOf_def not_less intro!: wp_push wp_readers(5))
qed

lemma rounding_Borrow:
  assumes "idle i g"
  shows "wp (\<lambda>_. True) (\<lambda>g' _. debtIn g (lpActor i) + big_or_zero a \<le> debtIn g' (lpActor i)) (LendingPool_Borrow a) i g n"
proof -
  let ?u = "lpActor i" and ?x = "num g ''borrow_index_x18''" and ?a = "big_or_zero a"
  let ?s = "lpCeilDiv (?a * lendingScale) ?x"
  note x = idle_index [OF assms, THEN conjunct2]
  have "debtors g ?u * ?x + ?a * lendingScale \<le> (debtors g ?u + ?s) * ?x"
    using ceil_covers [OF x] by (simp add: distrib_right)
  from ceil_mono_add [OF lendingScale_pos this]
  have "debtIn g ?u + ?a \<le> lpCeilDiv ((debtors g ?u + ?s) * ?x) lendingScale" by (simp add: debtIn_def)
  then show ?thesis unfolding LendingPool_Borrow_def idle_accrue [OF assms]
    by (auto simp: Let_def books debtIn_def intro!: wp_push wp_readers)
qed

lemma rounding_Repay:
  assumes "idle i g"
  shows "wp (\<lambda>_. True) (\<lambda>g' _. debtIn g (lpActor i) \<le> debtIn g' (lpActor i) + big_or_zero a) (LendingPool_Repay a) i g n"
proof -
  let ?u = "lpActor i" and ?x = "num g ''borrow_index_x18''" and ?a = "big_or_zero a"
  note x = idle_index [OF assms, THEN conjunct2]
  have le: "debtIn g ?u \<le> lpCeilDiv ((debtors g ?u - d) * ?x) lendingScale + p" if "d * ?x \<le> p * lendingScale" for d p
  proof -
    have "debtors g ?u * ?x + (- p) * lendingScale \<le> (debtors g ?u - d) * ?x" using that by (simp add: left_diff_distrib)
    from ceil_mono_add [OF lendingScale_pos this] show ?thesis by (simp add: debtIn_def)
  qed
  have part: "debtIn g ?u \<le> lpCeilDiv ((debtors g ?u - big_div (?a * lendingScale) ?x) * ?x) lendingScale + ?a"
    by (rule le [OF floor_within [OF x]])
  have none: "lpCeilDiv 0 lendingScale = 0" by (simp add: lpCeilDiv_def lendingScale_def)
  have whole: "debtIn g ?u \<le> ?a" if "debtors g ?u < big_div (?a * lendingScale) ?x"
  proof -
    have "debtors g ?u * ?x \<le> big_div (?a * lendingScale) ?x * ?x" using that x by (simp add: mult_right_mono)
    with le [of "debtors g ?u" ?a] floor_within [OF x] none show ?thesis by (simp add: order_trans)
  qed
  show ?thesis unfolding LendingPool_Repay_def repayFor_def
    using part whole none
    by (auto simp: idle_accrue [OF assms] Let_def wp_readers_exact wp_divP books debtIn_def intro!: wp_pull)
qed

section \<open>Properties\<close>

text \<open>C24: The books of the lending market balance. Every transaction, sent to any contract and nesting calls in any way,
  keeps the scaled shares of suppliers and debtors equal to the recorded totals, every position and reserve from going
  negative, both interest indices at least one, and no position before \<open>Init\<close>.\<close>

theorem lending_books_balance:
  assumes "registry_ok reg" "plain_addresses reg" "reg A = Some (owner, lending_pool)" "lendInv (LoadStorage db A)"
    and "ExecuteAtomicAt reg addr caller fn args gas v now (db, m) = (res, db', m')"
  shows "lendInv (LoadStorage db' A)"
  by (rule lending.transaction_keeps [OF assms])

text \<open>A market over the token \<open>tok\<close>, and a contract that uses the origin of a call it receives.\<close>

definition lend_reg :: registry where
  "lend_reg a = (if a = ''pool'' then Some (''boss'', lending_pool) else if a = ''tok'' then Some (''issuer'', lqd20)
     else if a = ''evil'' then Some (''thief'', \<lambda>fn args. Some (CallP ''pool'' ''WithdrawSupply'' [''40'', ''thief''] (\<lambda>_. Done)))
     else None)"

definition lend_db :: kvdb where
  "lend_db = [(storageKey ''pool'' ''initialized'', ''true''), (storageKey ''pool'' ''debt_token'', ''tok''),
     (storageKey ''pool'' ''borrow_index_x18'', ''1000000000000000000''), (storageKey ''pool'' ''supply_index_x18'', ''1000000000000000000''),
     (storageKey ''pool'' ''last_accrual'', ''7''),
     (storageKey ''tok'' ''name'', ''coin''), (storageKey ''tok'' ''bal:victim'', ''50''), (storageKey ''tok'' ''allow:victim:pool'', ''50'')]"

lemma lend_reg_ok: "registry_ok lend_reg" "plain_addresses lend_reg"
proof -
  have "nrm ''pool''" "nrm ''tok''" "nrm ''evil''" by code_simp+
  then show "registry_ok lend_reg" by (auto simp: registry_ok_def lend_reg_def)
  show "plain_addresses lend_reg" by (auto simp: plain_addresses_def lend_reg_def)
qed

lemma lend_db_ok: "lendInv (LoadStorage lend_db ''pool'')" "LoadStorage lend_db ''pool'' ''initialized'' = ''true''"
  "7 \<le> num (LoadStorage lend_db ''pool'') ''last_accrual''"
proof -
  let ?g = "LoadStorage lend_db ''pool''"
  have none: "?g key = []" if "key \<notin> {''initialized'', ''debt_token'', ''borrow_index_x18'', ''supply_index_x18'', ''last_accrual''}" for key
    using that by (auto simp: LoadStorage_def lend_db_def storageKey_def split: option.split if_splits)
  have z: "suppliers ?g = (\<lambda>_. 0)" "debtors ?g = (\<lambda>_. 0)" "collaterals ?g = (\<lambda>_. 0)"
    by (auto simp: suppliers_def debtors_def collaterals_def table_def none fun_eq_iff)
  have i: "?g ''initialized'' = ''true''" "num ?g ''borrow_index_x18'' = lendingScale" "num ?g ''supply_index_x18'' = lendingScale"
    "num ?g ''last_accrual'' = 7" by code_simp+
  then show "lendInv ?g" by (simp add: lendInv_def z none)
  show "?g ''initialized'' = ''true''" "7 \<le> num ?g ''last_accrual''" using i by simp_all
qed

lemma lending_books_balance_witness:
  "\<exists>out db' m'. ExecuteAtomicAt lend_reg ''pool'' ''boss'' ''WithdrawProtocolReserves'' [''1'', ''boss''] 5000000 0 9 (lend_db, []) = (out, db', m') \<and>
     lendInv (LoadStorage db' ''pool'')"
proof -
  obtain out db' m' where
    e: "ExecuteAtomicAt lend_reg ''pool'' ''boss'' ''WithdrawProtocolReserves'' [''1'', ''boss''] 5000000 0 9 (lend_db, []) = (out, db', m')"
    by (metis prod_cases3)
  have "lend_reg ''pool'' = Some (''boss'', lending_pool)" by (simp add: lend_reg_def)
  from lending_books_balance [OF lend_reg_ok this lend_db_ok(1) e] e show ?thesis by blast
qed

lemma actor_txInfo [simp]: "lpActor (txInfo A caller owner now v) = norm_addr caller" "ci_BlockTime (txInfo A caller owner now v) = now"
  by (simp_all add: lpActor_def txInfo_def)

lemma lending_calls:
  "lending_pool ''Supply'' [a, r] = Some (LendingPool_Supply a r)"
  "lending_pool ''WithdrawSupply'' [a, r] = Some (LendingPool_WithdrawSupply a r)"
  "lending_pool ''Borrow'' [a] = Some (LendingPool_Borrow a)" "lending_pool ''Repay'' [a] = Some (LendingPool_Repay a)"
proof -
  have "to_lower ''Supply'' = ''supply''" "to_lower ''WithdrawSupply'' = ''withdrawsupply''" "to_lower ''Borrow'' = ''borrow''"
    "to_lower ''Repay'' = ''repay''" by code_simp+
  then show "lending_pool ''Supply'' [a, r] = Some (LendingPool_Supply a r)"
    "lending_pool ''WithdrawSupply'' [a, r] = Some (LendingPool_WithdrawSupply a r)"
    "lending_pool ''Borrow'' [a] = Some (LendingPool_Borrow a)" "lending_pool ''Repay'' [a] = Some (LendingPool_Repay a)"
    by (simp_all add: lending_pool_def dispatch_def args1_def args2_def)
qed

text \<open>C25: Rounding favours the market. In a transaction with no interest to accrue, supplying an amount raises the
  receiver's claim by at most the amount, withdrawing lowers the sender's claim by at least the amount, borrowing raises
  the sender's debt by at least the amount and repaying lowers it by at most the amount.\<close>

theorem lending_rounding:
  assumes reg: "registry_ok reg" "plain_addresses reg" "reg A = Some (owner, lending_pool)"
    and m: "canon m" "nonneg_accounts m" "0 \<le> v"
    and g: "lendInv (LoadStorage db A)" "LoadStorage db A ''initialized'' = ''true''" "now \<le> num (LoadStorage db A) ''last_accrual''"
    and ex: "ExecuteAtomicAt reg A caller fn args gas v now (db, m) = (Inr out, db', m')"
  shows "(fn = ''Supply'' \<and> args = [a, r] \<longrightarrow>
      claimOf (LoadStorage db' A) (norm_addr r) \<le> claimOf (LoadStorage db A) (norm_addr r) + big_or_zero a) \<and>
    (fn = ''WithdrawSupply'' \<and> args = [a, r] \<longrightarrow>
      claimOf (LoadStorage db' A) (norm_addr caller) + big_or_zero a \<le> claimOf (LoadStorage db A) (norm_addr caller)) \<and>
    (fn = ''Borrow'' \<and> args = [a] \<longrightarrow>
      debtIn (LoadStorage db A) (norm_addr caller) + big_or_zero a \<le> debtIn (LoadStorage db' A) (norm_addr caller)) \<and>
    (fn = ''Repay'' \<and> args = [a] \<longrightarrow>
      debtIn (LoadStorage db A) (norm_addr caller) \<le> debtIn (LoadStorage db' A) (norm_addr caller) + big_or_zero a)"
proof -
  let ?i = "txInfo A caller owner now v" and ?g = "LoadStorage db A"
  have idle: "idle ?i ?g" using g by simp
  note tx = transaction_wp [OF reg m ex]
  note r = rounding_Supply [OF idle, where n = 0 and a = a and r = r] rounding_WithdrawSupply [OF idle, where n = 0 and a = a and r = r]
    rounding_Borrow [OF idle, where n = 0 and a = a] rounding_Repay [OF idle, where n = 0 and a = a]
  show ?thesis
  proof (intro conjI impI; elim conjE)
    assume "fn = ''Supply''" "args = [a, r]"
    then show "claimOf (LoadStorage db' A) (norm_addr r) \<le> claimOf ?g (norm_addr r) + big_or_zero a"
      using tx [of "\<lambda>g' _. claimOf g' (norm_addr r) \<le> claimOf ?g (norm_addr r) + big_or_zero a"] r(1) by (simp add: lending_calls)
  next
    assume "fn = ''WithdrawSupply''" "args = [a, r]"
    then show "claimOf (LoadStorage db' A) (norm_addr caller) + big_or_zero a \<le> claimOf ?g (norm_addr caller)"
      using tx [of "\<lambda>g' _. claimOf g' (norm_addr caller) + big_or_zero a \<le> claimOf ?g (norm_addr caller)"] r(2) by (simp add: lending_calls)
  next
    assume "fn = ''Borrow''" "args = [a]"
    then show "debtIn ?g (norm_addr caller) + big_or_zero a \<le> debtIn (LoadStorage db' A) (norm_addr caller)"
      using tx [of "\<lambda>g' _. debtIn ?g (norm_addr caller) + big_or_zero a \<le> debtIn g' (norm_addr caller)"] r(3) by (simp add: lending_calls)
  next
    assume "fn = ''Repay''" "args = [a]"
    then show "debtIn ?g (norm_addr caller) \<le> debtIn (LoadStorage db' A) (norm_addr caller) + big_or_zero a"
      using tx [of "\<lambda>g' _. debtIn ?g (norm_addr caller) \<le> debtIn g' (norm_addr caller) + big_or_zero a"] r(4) by (simp add: lending_calls)
  qed
qed

lemma lending_rounding_witness:
  "\<exists>out db' m'. ExecuteAtomicAt lend_reg ''pool'' ''victim'' ''Supply'' [''50'', ''victim''] 5000000 0 7 (lend_db, []) = (Inr out, db', m') \<and>
     claimOf (LoadStorage db' ''pool'') ''victim'' \<le> claimOf (LoadStorage lend_db ''pool'') ''victim'' + 50"
proof -
  let ?run = "ExecuteAtomicAt lend_reg ''pool'' ''victim'' ''Supply'' [''50'', ''victim''] 5000000 0 7 (lend_db, [])"
  have "case ?run of (res, _, _) \<Rightarrow> (case res of Inl _ \<Rightarrow> False | Inr _ \<Rightarrow> True)" by code_simp
  then obtain out db' m' where e: "?run = (Inr out, db', m')" by (auto split: prod.splits sum.splits)
  have p: "lend_reg ''pool'' = Some (''boss'', lending_pool)" by (simp add: lend_reg_def)
  have n: "norm_addr ''victim'' = ''victim''" "big_or_zero ''50'' = 50" by code_simp+
  from lending_rounding [OF lend_reg_ok p _ _ _ lend_db_ok e, of "''50''" "''victim''"] e show ?thesis
    by (simp add: canon_def nonneg_accounts_def n)
qed

text \<open>The market acts for the origin of a transaction, not for its caller. A supplier of 50 who calls any contract
  lets that contract withdraw from the market in his name, to a receiver it chooses.\<close>

definition supplied_db :: kvdb where
  "supplied_db = [(storageKey ''pool'' ''initialized'', ''true''), (storageKey ''pool'' ''debt_token'', ''tok''),
     (storageKey ''pool'' ''borrow_index_x18'', ''1000000000000000000''), (storageKey ''pool'' ''supply_index_x18'', ''1000000000000000000''),
     (storageKey ''pool'' ''last_accrual'', ''7''), (storageKey ''pool'' ''scaled_supply:victim'', ''50''),
     (storageKey ''pool'' ''total_scaled_supply'', ''50''),
     (storageKey ''tok'' ''name'', ''coin''), (storageKey ''tok'' ''bal:pool'', ''50'')]"

theorem origin_authority_steals:
  "case ExecuteAtomicAt lend_reg ''evil'' ''victim'' ''airdrop'' [] 5000000 0 7 (supplied_db, []) of (_, db, _) \<Rightarrow>
     (LoadStorage db ''pool'' ''scaled_supply:victim'', LoadStorage db ''tok'' ''bal:thief'') = (''10'', ''40'')"
  by code_simp

end
