(* ===== verification/ContractWrapped.thy ===== *)
theory ContractWrapped
  imports ContractToken
begin

text \<open>
  The wrapped native coin \<open>wlqd.go\<close>. Wrapped coins are backed by the native balance of their contract: \<open>wlqd\<close> is an
  interpretation of \<open>native_vault\<close>.
\<close>

section \<open>The wrapped coin\<close>

abbreviation zeroAddr :: string where
  "zeroAddr \<equiv> ''0x0000000000000000000000000000000000000000''"

definition WLQD_Deposit :: "string \<Rightarrow> prog" where
  "WLQD_Deposit amount = (let amt = big_or_zero amount in
     revertIf (amt = 0) ''deposit amount must be > 0'' (AskP (\<lambda>c.
     revertIf (ci_Value c < amt) ''msg.value less than deposit amount'' (
     ReceiveP amt (let caller = norm_addr (ci_CallerAddr c) in
     GetP (''bal:'' @ caller) (\<lambda>b. SetP (''bal:'' @ caller) (int_str (big_or_zero b + amt)) (
     GetP ''totalSupply'' (\<lambda>s. SetP ''totalSupply'' (int_str (big_or_zero s + amt)) (
     EmitP ''Deposit'' [(''from'', VStr caller), (''amount'', VStr (int_str amt))] (
     EmitP ''Transfer'' [(''from'', VStr zeroAddr), (''to'', VStr caller), (''amount'', VStr (int_str amt))] Done))))))))))"

definition WLQD_Withdraw :: "string \<Rightarrow> prog" where
  "WLQD_Withdraw amount = (let amt = big_or_zero amount in
     revertIf (amt = 0) ''withdraw amount must be > 0'' (AskP (\<lambda>c. let caller = norm_addr (ci_CallerAddr c) in
     GetP (''bal:'' @ caller) (\<lambda>b. let bal = big_or_zero b in
     revertIf (bal < amt) ''insufficient WLQD balance'' (
     SetP (''bal:'' @ caller) (int_str (bal - amt)) (
     GetP ''totalSupply'' (\<lambda>s. SetP ''totalSupply'' (int_str (big_or_zero s - amt)) (
     SendP caller amt (
     EmitP ''Withdrawal'' [(''to'', VStr caller), (''amount'', VStr (int_str amt))] (
     EmitP ''Transfer'' [(''from'', VStr (ci_ContractAddr c)), (''to'', VStr zeroAddr), (''amount'', VStr (int_str amt))]
       Done))))))))))"

definition WLQD_Name :: prog where "WLQD_Name = SetP ''output'' ''Wrapped LQD'' Done"
definition WLQD_Symbol :: prog where "WLQD_Symbol = SetP ''output'' ''WLQD'' Done"
definition WLQD_Decimals :: prog where "WLQD_Decimals = SetP ''output'' ''8'' Done"

definition WLQD_TotalSupply :: prog where
  "WLQD_TotalSupply = GetP ''totalSupply'' (\<lambda>s. SetP ''output'' (orZero s) Done)"

definition WLQD_BalanceOf :: "string \<Rightarrow> prog" where
  "WLQD_BalanceOf addr = GetP (''bal:'' @ norm_addr addr) (\<lambda>b. SetP ''output'' (orZero b) Done)"

definition WLQD_Transfer :: "string \<Rightarrow> string \<Rightarrow> prog" where
  "WLQD_Transfer to0 amount = AskP (\<lambda>c.
     let from = norm_addr (ci_CallerAddr c); to = norm_addr to0; amt = big_or_zero amount in
     GetP (''bal:'' @ from) (\<lambda>fb.
     revertIf (big_or_zero fb < amt) ''insufficient balance'' (
     SetP (''bal:'' @ from) (int_str (big_or_zero fb - amt)) (
     GetP (''bal:'' @ to) (\<lambda>tb. SetP (''bal:'' @ to) (int_str (big_or_zero tb + amt)) (
     EmitP ''Transfer'' [(''from'', VStr from), (''to'', VStr to), (''amount'', VStr (int_str amt))] Done))))))"

definition WLQD_Approve :: "string \<Rightarrow> string \<Rightarrow> prog" where
  "WLQD_Approve spender0 amount = AskP (\<lambda>c. let own = norm_addr (ci_CallerAddr c); spender = norm_addr spender0 in
     SetP (''allow:'' @ own @ '':'' @ spender) amount (
     EmitP ''Approval'' [(''owner'', VStr own), (''spender'', VStr spender), (''amount'', VStr amount)] Done))"

definition WLQD_Allowance :: "string \<Rightarrow> string \<Rightarrow> prog" where
  "WLQD_Allowance own spender = GetP (''allow:'' @ norm_addr own @ '':'' @ norm_addr spender) (\<lambda>v.
     SetP ''output'' (orZero v) Done)"

definition WLQD_TransferFrom :: "string \<Rightarrow> string \<Rightarrow> string \<Rightarrow> prog" where
  "WLQD_TransferFrom from0 to0 amount = AskP (\<lambda>c.
     let spender = norm_addr (ci_CallerAddr c); from = norm_addr from0; to = norm_addr to0; amt = big_or_zero amount in
     GetP (''allow:'' @ from @ '':'' @ spender) (\<lambda>al.
     revertIf (big_or_zero al < amt) ''allowance too low'' (
     GetP (''bal:'' @ from) (\<lambda>fb.
     revertIf (big_or_zero fb < amt) ''insufficient balance'' (
     SetP (''bal:'' @ from) (int_str (big_or_zero fb - amt)) (
     GetP (''bal:'' @ to) (\<lambda>tb. SetP (''bal:'' @ to) (int_str (big_or_zero tb + amt)) (
     SetP (''allow:'' @ from @ '':'' @ spender) (int_str (big_or_zero al - amt)) (
     EmitP ''Transfer'' [(''spender'', VStr spender), (''from'', VStr from), (''to'', VStr to), (''amount'', VStr (int_str amt))]
       Done)))))))))"

definition WLQD_TotalReserve :: prog where
  "WLQD_TotalReserve = GetP ''totalSupply'' (\<lambda>s. SetP ''output'' (orZero s) (
     EmitP ''TotalReserve'' [(''reserve'', VStr (orZero s))] Done))"

definition wlqd :: contract where
  "wlqd = dispatch [(''deposit'', args1 WLQD_Deposit), (''withdraw'', args1 WLQD_Withdraw), (''name'', args0 WLQD_Name),
     (''symbol'', args0 WLQD_Symbol), (''decimals'', args0 WLQD_Decimals), (''totalsupply'', args0 WLQD_TotalSupply),
     (''balanceof'', args1 WLQD_BalanceOf), (''transfer'', args2 WLQD_Transfer), (''approve'', args2 WLQD_Approve),
     (''allowance'', args2 WLQD_Allowance), (''transferfrom'', args3 WLQD_TransferFrom), (''totalreserve'', args0 WLQD_TotalReserve)]"

text \<open>The books of the wrapped coin: the supply is the sum of the balances. It owes its supply.\<close>

definition wrapInv :: "(string \<Rightarrow> string) \<Rightarrow> bool" where
  "wrapInv g \<longleftrightarrow> small (table ''bal:'' g) \<and> total (table ''bal:'' g) = big_or_zero (g ''totalSupply'')"

definition wrapped :: "(string \<Rightarrow> string) \<Rightarrow> int" where
  "wrapped g = big_or_zero (g ''totalSupply'')"

lemmas wrap_simps = wrapInv_def wrapped_def Let_def token_simps

lemma wlqd_method:
  assumes inv: "wrapInv g" and code: "wlqd fn args = Some p"
  shows "wp wrapInv (\<lambda>g' n. wrapInv g' \<and> wrapped g' - wrapped g \<le> n) p i g 0"
proof (rule wp_dispatch [OF code [unfolded wlqd_def]], unfold list.pred_inject prod.case wp_arguments, intro conjI allI impI)
  fix x y z
  show "wp wrapInv (\<lambda>g' n. wrapInv g' \<and> wrapped g' - wrapped g \<le> n) (WLQD_TransferFrom x y z) i g 0"
    using inv by (auto simp: WLQD_TransferFrom_def wrap_simps)
qed (use inv in \<open>auto simp: WLQD_Deposit_def WLQD_Withdraw_def WLQD_Name_def WLQD_Symbol_def WLQD_Decimals_def WLQD_TotalSupply_def
      WLQD_BalanceOf_def WLQD_Transfer_def WLQD_Approve_def WLQD_Allowance_def WLQD_TotalReserve_def wrap_simps\<close>)

interpretation wrap: native_vault wlqd wrapInv wrapped
  by (rule vault_lawI) (rule wlqd_method)

section \<open>Properties of the wrapped coin\<close>

text \<open>C29: Wrapped coins are backed. The supply is the sum of the balances and stays so through every transaction, sent to any
  contract and nesting calls in any way; and a successful transaction sent to the wrapping contract leaves the supply covered
  by the contract's native coins if it was covered before.\<close>

theorem wlqd_backed:
  assumes "registry_ok reg" "plain_addresses reg" "reg A = Some (owner, wlqd)" "wrapInv (LoadStorage db A)"
    and "canon m" "nonneg_accounts m" "0 \<le> v"
    and "ExecuteAtomicAt reg addr caller fn args gas v now (db, m) = (res, db', m')"
  shows "wrapInv (LoadStorage db' A) \<and>
    (addr = A \<and> wrapped (LoadStorage db A) \<le> bal m A \<longrightarrow> wrapped (LoadStorage db' A) \<le> bal m' A)"
  using wrap.vault_solvent [OF assms] .

definition wrap_reg :: registry where
  "wrap_reg a = (if a = ''wlqd'' then Some (''gov'', wlqd) else None)"

lemma wrap_reg_ok: "registry_ok wrap_reg" "plain_addresses wrap_reg"
proof -
  have "nrm ''wlqd''" by code_simp
  then show "registry_ok wrap_reg" by (auto simp: registry_ok_def wrap_reg_def)
  show "plain_addresses wrap_reg" by (auto simp: plain_addresses_def wrap_reg_def)
qed

lemma wlqd_backed_witness:
  "\<exists>out db' m'. ExecuteAtomicAt wrap_reg ''wlqd'' ''alice'' ''Deposit'' [''7''] 100000 7 1 ([], []) = (Inr out, db', m') \<and>
     wrapped (LoadStorage db' ''wlqd'') \<le> bal m' ''wlqd'' \<and> bal m' ''wlqd'' = 7"
proof -
  let ?run = "ExecuteAtomicAt wrap_reg ''wlqd'' ''alice'' ''Deposit'' [''7''] 100000 7 1 ([], [])"
  have "case ?run of (res, db', m') \<Rightarrow> (case res of Inl _ \<Rightarrow> False | Inr _ \<Rightarrow> True) \<and> bal m' ''wlqd'' = 7" by code_simp
  then obtain out db' m' where e: "?run = (Inr out, db', m')" "bal m' ''wlqd'' = 7"
    by (auto split: prod.splits sum.splits)
  have v: "wrap_reg ''wlqd'' = Some (''gov'', wlqd)" by (simp add: wrap_reg_def)
  have z: "table ''bal:'' (LoadStorage [] ''wlqd'') = (\<lambda>_. 0)" by (simp add: table_def LoadStorage_def fun_eq_iff)
  have "wrapInv (LoadStorage [] ''wlqd'')" by (simp add: wrapInv_def z) (simp add: LoadStorage_def)
  from wlqd_backed [OF wrap_reg_ok v this _ _ _ e(1)] e show ?thesis
    by (auto simp: wrapped_def LoadStorage_def canon_def nonneg_accounts_def bal_def)
qed

text \<open>The reserve of the wrapped coin can be taken. A caller who holds no wrapped coins transfers minus five of them to a
  stranger, withdraws the five this gives him, and receives the five native coins a depositor had wrapped; the
  depositor's own withdrawal then fails, although supply and balances still agree.\<close>

definition wrapped_db :: kvdb where
  "wrapped_db = [(storageKey ''wlqd'' ''bal:victim'', ''5''), (storageKey ''wlqd'' ''totalSupply'', ''5'')]"

definition stolen :: "kvdb \<times> accounts" where
  "stolen = snd (ExecuteAtomicAt wrap_reg ''wlqd'' ''thief'' ''Withdraw'' [''5''] 100000 0 2
     (snd (ExecuteAtomicAt wrap_reg ''wlqd'' ''thief'' ''Transfer'' [''nobody'', ''-5''] 100000 0 1 (wrapped_db, [(''wlqd'', 5)]))))"

theorem wlqd_reserve_drained:
  "bal (snd stolen) ''thief'' = 5 \<and> bal (snd stolen) ''wlqd'' = 0 \<and>
   LoadStorage (fst stolen) ''wlqd'' ''bal:victim'' = ''5'' \<and> LoadStorage (fst stolen) ''wlqd'' ''totalSupply'' = ''0'' \<and>
   (case ExecuteAtomicAt wrap_reg ''wlqd'' ''victim'' ''Withdraw'' [''5''] 100000 0 3 stolen of (res, _, m) \<Rightarrow>
      (case res of Inl _ \<Rightarrow> True | Inr _ \<Rightarrow> False) \<and> bal m ''victim'' = 0)"
  by code_simp

end
