(* ===== verification/ChainData.thy ===== *)
theory ChainData
  imports Crypto Ledger ConsensusProposer "HOL-Library.Code_Target_Nat"
begin

text \<open>
  The data of the chain: transactions (\<open>transaction.go\<close>), blocks with their reward breakdown (\<open>blocks.go\<close>,
  \<open>blockchain_struct.go\<close>) and the constants of \<open>ConstantSet/constants.go\<close>. A \<open>*big.Int\<close> amount is read through
  \<open>CopyAmount\<close>, which turns nil into zero, so \<open>tx_Value\<close> is an integer. Byte slices are strings.
\<close>

section \<open>Constants\<close>

definition StatusPending :: string where "StatusPending = ''pending''"
definition StatusSuccess :: string where "StatusSuccess = ''succsess''"
definition StatusFailed :: string where "StatusFailed = ''failed''"
definition MinGas :: u64 where "MinGas = 21000"
definition GasPerByte :: u64 where "GasPerByte = 68"
definition ChainIDConst :: u64 where "ChainIDConst = 139"
definition MaxBlockGas :: u64 where "MaxBlockGas = 500000000"
definition BridgeEscrowAddress :: string where "BridgeEscrowAddress = ''0x00000000000000000000000000000000000000b1''"
definition LiquidityPoolAddress :: string where "LiquidityPoolAddress = ''0x1111111111111111111111111111111111111111''"
definition zeroAddress :: string where "zeroAddress = ''0x0000000000000000000000000000000000000000''"

section \<open>JSON strings and dates\<close>

text \<open>\<open>encoding/json\<close> escapes a string for HTML as well; bytes above ASCII are passed on as they are.\<close>

definition jsonChar :: "char \<Rightarrow> string" where
  "jsonChar c = (let n = (of_char c :: nat) in
     if n = 34 \<or> n = 92 then [char_of (92 :: nat), c]
     else if n = 8 then char_of (92 :: nat) # ''b'' else if n = 12 then char_of (92 :: nat) # ''f''
     else if n = 10 then char_of (92 :: nat) # ''n'' else if n = 13 then char_of (92 :: nat) # ''r''
     else if n = 9 then char_of (92 :: nat) # ''t''
     else if n < 32 \<or> n = 60 \<or> n = 62 \<or> n = 38
       then char_of (92 :: nat) # ''u00'' @ [hex_digit (n div 16), hex_digit (n mod 16)]
     else [c])"

definition jsonString :: "string \<Rightarrow> string" where
  "jsonString s = CHR 0x22 # concat (map jsonChar s) @ [CHR 0x22]"

text \<open>An object with its fields in the order of the struct, the values already encoded.\<close>

fun jsonFields :: "(string \<times> string) list \<Rightarrow> string" where
  "jsonFields [] = []"
| "jsonFields [(k, v)] = jsonString k @ '':'' @ v"
| "jsonFields ((k, v) # rest) = jsonString k @ '':'' @ v @ '','' @ jsonFields rest"

definition jsonObject :: "(string \<times> string) list \<Rightarrow> string" where
  "jsonObject fs = ''{'' @ jsonFields fs @ ''}''"

definition jsonArray :: "string list \<Rightarrow> string" where
  "jsonArray xs = ''['' @ (case xs of [] \<Rightarrow> [] | y # ys \<Rightarrow> y @ concat (map (\<lambda>z. CHR '','' # z) ys)) @ '']''"

text \<open>The proleptic Gregorian date of a Unix time in UTC, printed as \<open>2006-01-02\<close> and \<open>2006-01-02T15\<close>.\<close>

definition civil :: "int \<Rightarrow> int \<times> int \<times> int" where
  "civil days = (let z = days + 719468; era = z div 146097; doe = z mod 146097;
     yoe = (doe - doe div 1460 + doe div 36524 - doe div 146096) div 365;
     doy = doe - (365 * yoe + yoe div 4 - yoe div 100); mp = (5 * doy + 2) div 153;
     d = doy - (153 * mp + 2) div 5 + 1; m = (if mp < 10 then mp + 3 else mp - 9)
     in (yoe + era * 400 + (if m \<le> 2 then 1 else 0), m, d))"

definition pad :: "nat \<Rightarrow> int \<Rightarrow> string" where
  "pad k n = (let s = int_str n in replicate (k - length s) (CHR ''0'') @ s)"

definition dayString :: "int \<Rightarrow> string" where
  "dayString t = (let (y, m, d) = civil (t div 86400) in pad 4 y @ ''-'' @ pad 2 m @ ''-'' @ pad 2 d)"

definition hourString :: "int \<Rightarrow> string" where
  "hourString t = dayString t @ ''T'' @ pad 2 (t mod 86400 div 3600)"

section \<open>Transactions\<close>

record Transaction =
  tx_From :: string
  tx_To :: string
  tx_Value :: int
  tx_Data :: string
  tx_TxHash :: string
  tx_Status :: string
  tx_FailureReason :: string
  tx_Gas :: u64
  tx_GasPrice :: u64
  tx_Sig :: string
  tx_Nonce :: u64
  tx_ChainID :: u64
  tx_Timestamp :: u64
  tx_PriorityFee :: u64
  tx_IsContract :: bool
  tx_Function :: string
  tx_Args :: "string list"
  tx_Type :: string
  tx_ExtraData :: string
  tx_IsSystem :: bool

text \<open>The product is taken in \<open>int\<close> before the conversion; a data slice is far shorter than \<open>2 ^ 57\<close> bytes.\<close>

definition CalculateGasCost :: "Transaction \<Rightarrow> u64" where
  "CalculateGasCost tx = MinGas + of_nat (length (tx_Data tx)) * GasPerByte"

text \<open>
  The transactions the miner, the pool and the verifier treat as internal bookkeeping. The verifier's list has
  the type \<open>reward\<close> on top of the four of the miner.
\<close>

definition systemTx :: "Transaction \<Rightarrow> bool" where
  "systemTx tx \<longleftrightarrow> tx_IsSystem tx \<or> tx_Type tx = ''stake'' \<or> tx_Type tx = ''unstake'' \<or> tx_Type tx = ''lp_reward''"

definition uncheckedTx :: "Transaction \<Rightarrow> bool" where
  "uncheckedTx tx \<longleftrightarrow> systemTx tx \<or> tx_Type tx = ''reward''"

section \<open>Blocks\<close>

record BlockRewardBreakdown =
  rb_Validator :: string
  rb_ValidatorReward :: string
  rb_ValidatorRewards :: "(string, string) gomap"
  rb_ValidatorPartRewards :: "(string, string) gomap"
  rb_LiquidityRewards :: "(string, string) gomap"
  rb_ParticipantRewards :: "(string, string) gomap"
  rb_ParticipantRewardAddresses :: "(string, string) gomap"
  rb_TreasuryReward :: string

record Block =
  b_BlockNumber :: u64
  b_PreviousHash :: string
  b_CurrentHash :: string
  b_TimeStamp :: u64
  b_Transactions :: "Transaction list"
  b_BaseFee :: u64
  b_GasUsed :: u64
  b_GasLimit :: u64
  b_RewardBreakdown :: BlockRewardBreakdown
  b_ProtocolVersion :: u32
  b_StateRoot :: string
  b_ParentStateRoot :: string
  b_ConsensusRound :: u32
  b_ProposerProof :: "ProposerCertificate option"
  b_NextVRFProof :: "ConsensusVRFProof option"

end
