(* ===== verification/Bridge.thy ===== *)
theory Bridge
  imports ChainData
begin

text \<open>
  The bridge: requests (\<open>bridge.go\<close>), attestations and limits of the signer set (\<open>bridge_security.go\<close>), the
  header chain and the event proofs of the light client (\<open>bridge_light_client.go\<close>). The chain registry is a
  file, so its content is an argument; \<open>time.Now\<close> is the argument \<open>now\<close> and the day and hour of a
  Unix time, which \<open>time.Format\<close> prints, are functions of it. The zero-knowledge library that builds the
  shielded material of a request is the argument \<open>zk\<close>.
\<close>

section \<open>Requests\<close>

record BridgeChainConfig =
  cc_Name :: string
  cc_ChainID :: string
  cc_Family :: string
  cc_Adapter :: string
  cc_Confirmations :: int

type_synonym chain_registry = "(string, BridgeChainConfig) gomap option"

record BridgeRequest =
  br_ID :: string
  br_Mode :: string
  br_Family :: string
  br_Adapter :: string
  br_From :: string
  br_To :: string
  br_Amount :: string
  br_Token :: string
  br_SourceChain :: string
  br_TargetChain :: string
  br_SourceChainID :: string
  br_TargetChainID :: string
  br_Status :: string
  br_LqdTxHash :: string
  br_BscTxHash :: string
  br_ShieldedKind :: string
  br_ShieldedNote :: string
  br_ShieldedProof :: string
  br_ShieldedNullifier :: string
  br_ShieldedRoot :: string
  br_SourceTxHash :: string
  br_SourceAddress :: string
  br_SourceMemo :: string
  br_SourceSequence :: string
  br_SourceOutput :: string
  br_BatchID :: string
  br_QueuedAt :: int
  br_ProcessedAt :: int
  br_CreatedAt :: int
  br_UpdatedAt :: int

type_synonym requests = "(string, BridgeRequest) gomap"

definition BridgeStatusLocked :: string where "BridgeStatusLocked = ''locked''"
definition BridgeStatusQueued :: string where "BridgeStatusQueued = ''queued''"
definition BridgeStatusProcessing :: string where "BridgeStatusProcessing = ''processing''"
definition BridgeStatusMinted :: string where "BridgeStatusMinted = ''minted''"
definition BridgeStatusUnlock :: string where "BridgeStatusUnlock = ''unlocked''"
definition BridgeStatusFailed :: string where "BridgeStatusFailed = ''failed''"

definition ChainByID :: "(string, BridgeChainConfig) gomap \<Rightarrow> string \<Rightarrow> BridgeChainConfig option" where
  "ChainByID r chainID = (case map_of r (norm_addr chainID) of Some c \<Rightarrow> Some c
     | None \<Rightarrow> find (\<lambda>c. norm_addr (cc_ChainID c) = norm_addr chainID) (map snd r))"

definition ChainByName :: "(string, BridgeChainConfig) gomap \<Rightarrow> string \<Rightarrow> BridgeChainConfig option" where
  "ChainByName r name = (let needle = norm_addr name in if needle = [] then None
     else find (\<lambda>c. norm_addr (cc_Name c) = needle) (map snd r))"

definition familyOf :: "BridgeChainConfig \<Rightarrow> string \<times> string" where
  "familyOf c = (let family = (if norm_addr (cc_Family c) = [] then ''evm'' else norm_addr (cc_Family c)) in
     (family, if norm_addr (cc_Adapter c) = [] then family else norm_addr (cc_Adapter c)))"

fun bridgeFamilyAndAdapterForChainIDs :: "chain_registry \<Rightarrow> string list \<Rightarrow> string \<times> string" where
  "bridgeFamilyAndAdapterForChainIDs reg [] = (''evm'', ''evm'')"
| "bridgeFamilyAndAdapterForChainIDs reg (chainID0 # rest) = (let chainID = trim_space chainID0 in
     if chainID = [] then bridgeFamilyAndAdapterForChainIDs reg rest else
     case reg of None \<Rightarrow> bridgeFamilyAndAdapterForChainIDs reg rest
     | Some r \<Rightarrow> (case ChainByID r chainID of Some c \<Rightarrow> familyOf c
        | None \<Rightarrow> (case ChainByName r chainID of Some c \<Rightarrow> familyOf c
           | None \<Rightarrow> bridgeFamilyAndAdapterForChainIDs reg rest)))"

text \<open>The result of \<open>buildShieldedBridgeMaterial\<close>: note, proof, nullifier and root, or an error.\<close>

type_synonym zk_lib = "string \<Rightarrow> string \<Rightarrow> string \<Rightarrow> string \<Rightarrow> string \<Rightarrow> string \<Rightarrow> string \<Rightarrow> (string \<times> string \<times> string \<times> string) option"

text \<open>A lock of native coins.\<close>

definition addBridgeRequestMode where
  "addBridgeRequestMode (reg :: chain_registry) (now :: int) (tx :: Transaction) toBSC status mode shieldKind note proof nullifier rt sourceChainID targetChainID
     sourceChain targetChain (m :: requests) =
     (if tx_TxHash tx = [] then m else let i = to_lower (tx_TxHash tx) in
      if map_of m i \<noteq> None then m else
      let (family, adapter) = bridgeFamilyAndAdapterForChainIDs reg [sourceChainID, targetChainID] in
      mput i \<lparr>br_ID = i, br_Mode = mode, br_Family = family, br_Adapter = adapter, br_From = tx_From tx, br_To = toBSC,
        br_Amount = int_str (tx_Value tx), br_Token = ''LQD'', br_SourceChain = sourceChain, br_TargetChain = targetChain,
        br_SourceChainID = sourceChainID, br_TargetChainID = targetChainID, br_Status = status, br_LqdTxHash = tx_TxHash tx,
        br_BscTxHash = [], br_ShieldedKind = shieldKind, br_ShieldedNote = note, br_ShieldedProof = proof,
        br_ShieldedNullifier = nullifier, br_ShieldedRoot = rt, br_SourceTxHash = [], br_SourceAddress = [],
        br_SourceMemo = [], br_SourceSequence = [], br_SourceOutput = [], br_BatchID = [], br_QueuedAt = now,
        br_ProcessedAt = 0, br_CreatedAt = now, br_UpdatedAt = now\<rparr> m)"

definition AddBridgeRequest :: "chain_registry \<Rightarrow> int \<Rightarrow> Transaction \<Rightarrow> string \<Rightarrow> requests \<Rightarrow> requests" where
  "AddBridgeRequest reg now tx toBSC m = addBridgeRequestMode reg now tx toBSC BridgeStatusLocked ''public'' [] [] [] [] []
     ''LQD'' ''BSC'' [] [] m"

definition AddPrivateBridgeRequest :: "zk_lib \<Rightarrow> chain_registry \<Rightarrow> int \<Rightarrow> Transaction \<Rightarrow> string \<Rightarrow> requests \<Rightarrow> requests" where
  "AddPrivateBridgeRequest zk reg now tx toBSC m =
     (case zk ''lqd-lock'' (tx_From tx) toBSC (int_str (tx_Value tx)) ''LQD'' ''BSC'' (tx_TxHash tx) of
        None \<Rightarrow> m
      | Some (note, proof, nullifier, rt) \<Rightarrow> addBridgeRequestMode reg now tx toBSC BridgeStatusQueued ''private''
          ''lqd-lock'' note proof nullifier rt ''LQD'' ''BSC'' [] [] m)"

text \<open>
  A lock on the other chain (\<open>addBridgeRequestBSCMode\<close>) and a burn here (\<open>addBridgeRequestBurnMode\<close>) differ in the
  shielded kind, in the chain of the material and in which transaction hash they fill; a nil amount is \<open>None\<close>.
\<close>

definition tokenRequest where
  "tokenRequest burn (zk :: zk_lib) (reg :: chain_registry) (now :: int) txHash token from to amount mode sourceChainID targetChainID sourceAddress sourceMemo
     sourceSequence sourceOutput m =
     (let kind = (if burn then ''lqd-burn'' else ''bsc-lock''); chain = (if burn then ''LQD'' else ''BSC'') in
      case amount of None \<Rightarrow> m | Some a \<Rightarrow>
      if txHash = [] \<or> token = [] \<or> to = [] \<or> a \<le> 0 then m else let i = to_lower txHash in
      if map_of m i \<noteq> None then m else
      case zk kind from to (int_str a) token chain txHash of None \<Rightarrow> m | Some (note, proof, nullifier, rt) \<Rightarrow>
      let (family, adapter) = bridgeFamilyAndAdapterForChainIDs reg [sourceChainID, targetChainID] in
      mput i \<lparr>br_ID = i, br_Mode = mode, br_Family = family, br_Adapter = adapter, br_From = from, br_To = to,
        br_Amount = int_str a, br_Token = to_lower token, br_SourceChain = sourceChainID, br_TargetChain = targetChainID,
        br_SourceChainID = sourceChainID, br_TargetChainID = targetChainID, br_Status = BridgeStatusQueued,
        br_LqdTxHash = (if burn then txHash else []), br_BscTxHash = (if burn then [] else txHash),
        br_ShieldedKind = kind, br_ShieldedNote = note, br_ShieldedProof = proof,
        br_ShieldedNullifier = nullifier, br_ShieldedRoot = rt, br_SourceTxHash = txHash, br_SourceAddress = sourceAddress,
        br_SourceMemo = sourceMemo, br_SourceSequence = sourceSequence, br_SourceOutput = sourceOutput, br_BatchID = [],
        br_QueuedAt = now, br_ProcessedAt = 0, br_CreatedAt = now, br_UpdatedAt = now\<rparr> m)"

definition addBridgeRequestBSCMode where "addBridgeRequestBSCMode = tokenRequest False"
definition addBridgeRequestBurnMode where "addBridgeRequestBurnMode = tokenRequest True"

definition AddBridgeRequestChain ::
  "zk_lib \<Rightarrow> chain_registry \<Rightarrow> int \<Rightarrow> string \<Rightarrow> string \<Rightarrow> string \<Rightarrow> string \<Rightarrow> string \<Rightarrow> int option \<Rightarrow> requests \<Rightarrow> requests" where
  "AddBridgeRequestChain zk reg now chainID txHash token from toLqd amount m =
     addBridgeRequestBSCMode zk reg now txHash token from toLqd amount ''public'' chainID ''LQD'' [] [] [] [] m"

definition AddBridgeRequestBurn ::
  "zk_lib \<Rightarrow> chain_registry \<Rightarrow> int \<Rightarrow> string \<Rightarrow> string \<Rightarrow> string \<Rightarrow> string \<Rightarrow> int option \<Rightarrow> requests \<Rightarrow> requests" where
  "AddBridgeRequestBurn zk reg now lqdTx token from toBsc amount m =
     addBridgeRequestBurnMode zk reg now lqdTx token from toBsc amount ''public'' ''LQD'' ''BSC'' [] [] [] [] m"

definition updateBridgeRequest :: "int \<Rightarrow> string \<Rightarrow> (BridgeRequest \<Rightarrow> BridgeRequest) \<Rightarrow> requests \<Rightarrow> requests" where
  "updateBridgeRequest now cid fn m = (case map_of m (to_lower cid) of None \<Rightarrow> m
     | Some r \<Rightarrow> mput (to_lower cid) ((fn r)\<lparr>br_UpdatedAt := now\<rparr>) m)"

definition keepOr :: "string \<Rightarrow> string \<Rightarrow> string" where "keepOr new old = (if new = [] then old else new)"

definition MarkBridgeMinted :: "int \<Rightarrow> string \<Rightarrow> string \<Rightarrow> string \<Rightarrow> requests \<Rightarrow> requests" where
  "MarkBridgeMinted now cid bscTx lqdTx = updateBridgeRequest now cid (\<lambda>r. r\<lparr>br_Status := BridgeStatusMinted,
     br_BscTxHash := keepOr bscTx (br_BscTxHash r), br_LqdTxHash := keepOr lqdTx (br_LqdTxHash r), br_ProcessedAt := now\<rparr>)"

definition MarkBridgeUnlocked :: "int \<Rightarrow> string \<Rightarrow> requests \<Rightarrow> requests" where
  "MarkBridgeUnlocked now cid = updateBridgeRequest now cid (\<lambda>r. r\<lparr>br_Status := BridgeStatusUnlock, br_ProcessedAt := now\<rparr>)"

definition MarkBridgeProcessing :: "int \<Rightarrow> string \<Rightarrow> string \<Rightarrow> string \<Rightarrow> requests \<Rightarrow> requests" where
  "MarkBridgeProcessing now cid bscTx lqdTx = updateBridgeRequest now cid (\<lambda>r. r\<lparr>br_Status := BridgeStatusProcessing,
     br_BscTxHash := keepOr bscTx (br_BscTxHash r), br_LqdTxHash := keepOr lqdTx (br_LqdTxHash r)\<rparr>)"

definition MarkBridgeBatchProcessing :: "int \<Rightarrow> string \<Rightarrow> string \<Rightarrow> string \<Rightarrow> string \<Rightarrow> requests \<Rightarrow> requests" where
  "MarkBridgeBatchProcessing now cid batchID bscTx lqdTx = updateBridgeRequest now cid (\<lambda>r. r\<lparr>br_Status := BridgeStatusProcessing,
     br_BatchID := keepOr batchID (br_BatchID r), br_BscTxHash := keepOr bscTx (br_BscTxHash r),
     br_LqdTxHash := keepOr lqdTx (br_LqdTxHash r)\<rparr>)"

definition MarkBridgeFailed :: "int \<Rightarrow> string \<Rightarrow> requests \<Rightarrow> requests" where
  "MarkBridgeFailed now cid = updateBridgeRequest now cid (\<lambda>r. r\<lparr>br_Status := BridgeStatusFailed\<rparr>)"

definition MarkBridgeQueued :: "int \<Rightarrow> string \<Rightarrow> string \<Rightarrow> requests \<Rightarrow> requests" where
  "MarkBridgeQueued now cid batchID = updateBridgeRequest now cid (\<lambda>r. r\<lparr>br_Status := BridgeStatusQueued, br_BatchID := batchID\<rparr>)"

definition ListBridgeRequests :: "string \<Rightarrow> requests \<Rightarrow> BridgeRequest list" where
  "ListBridgeRequests address m = filter (\<lambda>r. address = [] \<or> equal_fold (br_From r) address \<or> equal_fold (br_To r) address) (map snd m)"

definition redactBridgeRequest :: "BridgeRequest \<Rightarrow> BridgeRequest" where
  "redactBridgeRequest r = (if equal_fold (br_Mode r) ''private'' then r\<lparr>br_ID := ''private'', br_From := ''private'',
     br_To := ''private'', br_Amount := ''private'', br_Token := ''private'', br_LqdTxHash := ''private'', br_BscTxHash := ''private'',
     br_SourceTxHash := ''private'', br_SourceAddress := ''private'', br_SourceMemo := ''private'', br_SourceSequence := ''private'',
     br_SourceOutput := ''private'', br_ShieldedKind := ''private'', br_ShieldedNote := ''private'', br_ShieldedProof := ''private'',
     br_ShieldedNullifier := ''private'', br_ShieldedRoot := ''private'', br_BatchID := ''private'', br_CreatedAt := 0,
     br_UpdatedAt := 0, br_QueuedAt := 0, br_ProcessedAt := 0\<rparr> else r)"

section \<open>The light client's data\<close>

record BridgeLightValidator =
  lv_Address :: string
  lv_Power :: u64

record BridgeLightHeader =
  lh_ChainID :: string
  lh_Height :: u64
  lh_ParentHash :: string
  lh_Hash :: string
  lh_EventRoot :: string
  lh_ValidatorSetHash :: string
  lh_NextValidatorSetHash :: string
  lh_NextValidators :: "BridgeLightValidator list"
  lh_Signatures :: "(string \<times> string) list"

record BridgeLightClient =
  lc_ChainID :: string
  lc_Height :: u64
  lc_HeaderHash :: string
  lc_Validators :: "BridgeLightValidator list"
  lc_Headers :: "(u64, BridgeLightHeader) gomap"

record BridgeLightClientConfig =
  lcc_ChainID :: string
  lcc_TrustedHeight :: u64
  lcc_TrustedHash :: string
  lcc_Validators :: "BridgeLightValidator list"

record BridgeEventMerkleProof =
  mp_RequestID :: string
  mp_ChainID :: string
  mp_HeaderHeight :: u64
  mp_SourceTxHash :: string
  mp_EventIndex :: string
  mp_Siblings :: "string list"
  mp_SiblingOnLeft :: "bool list"

section \<open>The security state\<close>

record BridgeRiskPolicy =
  rp_EnforceAttestations :: bool
  rp_RequireLightClientProof :: bool
  rp_RequiredSigners :: int
  rp_AllowedSigners :: "(string, bool) gomap"
  rp_PerTransactionCaps :: "(string, string) gomap"
  rp_DailyCaps :: "(string, string) gomap"
  rp_HourlyCaps :: "(string, string) gomap"
  rp_AssetTransactionCaps :: "(string, string) gomap"
  rp_AssetDailyCaps :: "(string, string) gomap"
  rp_AttestationTTL :: int

record BridgeAttestation =
  at_RequestID :: string
  at_SourceChainID :: string
  at_SourceTxHash :: string
  at_SourceBlockHash :: string
  at_EventIndex :: string
  at_Confirmations :: int
  at_ObservedAt :: int
  at_Signer :: string
  at_Signature :: string

record BridgeSecurityState =
  bs_Policy :: BridgeRiskPolicy
  bs_Attestations :: "(string, (string, BridgeAttestation) gomap) gomap"
  bs_Authorized :: "(string, bool) gomap"
  bs_Consumed :: "(string, bool) gomap"
  bs_DailyVolume :: "(string, int) gomap"
  bs_HourlyVolume :: "(string, int) gomap"
  bs_LightClients :: "(string, BridgeLightClient) gomap"
  bs_ProofAuthorized :: "(string, bool) gomap"

text \<open>Reading a map at a missing key gives the zero value.\<close>

abbreviation flag :: "(string, bool) gomap \<Rightarrow> string \<Rightarrow> bool" where
  "flag m k \<equiv> map_of m k = Some True"

definition at_key :: "(string, string) gomap \<Rightarrow> string \<Rightarrow> string" where
  "at_key m k = (case map_of m k of None \<Rightarrow> [] | Some v \<Rightarrow> v)"

definition volume_at :: "(string, int) gomap \<Rightarrow> string \<Rightarrow> int" where
  "volume_at m k = (case map_of m k of None \<Rightarrow> 0 | Some v \<Rightarrow> v)"

definition NewBridgeSecurityState :: BridgeSecurityState where
  "NewBridgeSecurityState = \<lparr>bs_Policy = \<lparr>rp_EnforceAttestations = False, rp_RequireLightClientProof = False,
     rp_RequiredSigners = 3, rp_AllowedSigners = [], rp_PerTransactionCaps = [], rp_DailyCaps = [], rp_HourlyCaps = [],
     rp_AssetTransactionCaps = [], rp_AssetDailyCaps = [], rp_AttestationTTL = 900\<rparr>, bs_Attestations = [],
     bs_Authorized = [], bs_Consumed = [], bs_DailyVolume = [], bs_HourlyVolume = [], bs_LightClients = [],
     bs_ProofAuthorized = []\<rparr>"

definition positiveCap :: "string \<Rightarrow> bool" where
  "positiveCap raw = (case parse_int10 (trim_space raw) of None \<Rightarrow> False | Some a \<Rightarrow> 0 < a)"

definition BridgeRiskPolicy_Validate :: "BridgeRiskPolicy \<Rightarrow> string option" where
  "BridgeRiskPolicy_Validate p =
     (if rp_RequiredSigners p < 1 \<or> 100 < rp_RequiredSigners p \<or> rp_AttestationTTL p < 60 \<or> 86400 < rp_AttestationTTL p
      then Some ''invalid bridge threshold or attestation ttl''
      else if rp_EnforceAttestations p \<and> (rp_RequiredSigners p < 3 \<or> int (length (rp_AllowedSigners p)) < rp_RequiredSigners p)
      then Some ''enforced bridge policy requires at least three independent signer addresses''
      else if \<not> list_all (\<lambda>m. list_all (\<lambda>(_, raw). positiveCap raw) m)
         [rp_PerTransactionCaps p, rp_DailyCaps p, rp_HourlyCaps p, rp_AssetTransactionCaps p, rp_AssetDailyCaps p]
      then Some ''bridge caps must be positive integers'' else None)"

definition ensurePolicyBridge :: "BridgeRiskPolicy \<Rightarrow> BridgeRiskPolicy" where
  "ensurePolicyBridge p = p\<lparr>
     rp_RequiredSigners := (if rp_RequiredSigners p \<le> 0 then 3 else rp_RequiredSigners p),
     rp_AttestationTTL := (if rp_AttestationTTL p \<le> 0 then 900 else rp_AttestationTTL p)\<rparr>"

definition ensureBridge :: "BridgeSecurityState \<Rightarrow> BridgeSecurityState" where
  "ensureBridge s = s\<lparr>bs_Policy := ensurePolicyBridge (bs_Policy s)\<rparr>"

text \<open>\<open>EnsureRuntimeState\<close> also enforces attestations when the chain does not allow legacy finality.\<close>

definition ensureRuntimeBridge :: "bool \<Rightarrow> BridgeSecurityState \<Rightarrow> BridgeSecurityState" where
  "ensureRuntimeBridge legacy s0 = (let s = ensureBridge s0 in
     if legacy then s else s\<lparr>bs_Policy := (bs_Policy s)\<lparr>rp_EnforceAttestations := True\<rparr>\<rparr>)"

section \<open>Attestations\<close>

definition bridgeAttestationMessage :: "BridgeAttestation \<Rightarrow> string" where
  "bridgeAttestationMessage a = ''PODL-BRIDGE:'' @ to_lower (at_RequestID a) @ '':'' @ to_lower (at_SourceChainID a) @ '':'' @
     to_lower (at_SourceTxHash a) @ '':'' @ to_lower (at_SourceBlockHash a) @ '':'' @ at_EventIndex a @ '':'' @
     int_str (at_Confirmations a) @ '':'' @ int_str (at_ObservedAt a)"

text \<open>A signature that recovers to the named signer.\<close>

definition signedBy :: "crypto \<Rightarrow> string \<Rightarrow> string \<Rightarrow> string \<Rightarrow> bool" where
  "signedBy C msg signature signer = (case hex_decode (trim_prefix signature ''0x'') of None \<Rightarrow> False
     | Some raw \<Rightarrow> length raw = 65 \<and>
         (case recover C msg raw of None \<Rightarrow> False | Some addr \<Rightarrow> equal_fold addr signer))"

definition VerifyBridgeAttestation :: "crypto \<Rightarrow> BridgeAttestation \<Rightarrow> bool" where
  "VerifyBridgeAttestation C a = signedBy C (bridgeAttestationMessage a) (at_Signature a) (at_Signer a)"

definition bridgeEventKey :: "crypto \<Rightarrow> BridgeAttestation \<Rightarrow> string" where
  "bridgeEventKey C a = hex_encode (sha256 C (to_lower (at_SourceChainID a) @ ''|'' @ to_lower (at_SourceTxHash a) @ ''|'' @ at_EventIndex a))"

definition sameEvent :: "BridgeAttestation \<Rightarrow> BridgeAttestation \<Rightarrow> bool" where
  "sameEvent a b \<longleftrightarrow> at_SourceBlockHash a = at_SourceBlockHash b \<and> at_EventIndex a = at_EventIndex b \<and> at_SourceTxHash a = at_SourceTxHash b"

definition attestations_of :: "BridgeSecurityState \<Rightarrow> string \<Rightarrow> (string, BridgeAttestation) gomap" where
  "attestations_of s i = (case map_of (bs_Attestations s) i of None \<Rightarrow> [] | Some m \<Rightarrow> m)"

definition SubmitBridgeAttestation ::
  "crypto \<Rightarrow> bool \<Rightarrow> int \<Rightarrow> requests \<Rightarrow> BridgeAttestation \<Rightarrow> BridgeSecurityState \<Rightarrow> string + BridgeSecurityState" where
  "SubmitBridgeAttestation C legacy now reqs a0 s0 =
     (if \<not> VerifyBridgeAttestation C a0 then Inl ''invalid bridge attestation signature'' else
      let s = ensureRuntimeBridge legacy s0; a = a0\<lparr>at_Signer := to_lower (at_Signer a0)\<rparr> in
      if \<not> flag (rp_AllowedSigners (bs_Policy s)) (at_Signer a) then Inl ''bridge signer is not allowlisted'' else
      case map_of reqs (to_lower (at_RequestID a)) of None \<Rightarrow> Inl ''bridge request not found'' | Some req \<Rightarrow>
      if at_ObservedAt a > i64 (now + 30) \<or> rp_AttestationTTL (bs_Policy s) < i64 (now - at_ObservedAt a)
      then Inl ''bridge attestation is stale or future-dated''
      else if \<not> equal_fold (at_SourceChainID a) (br_SourceChainID req) \<or>
        \<not> equal_fold (at_SourceTxHash a) (br_SourceTxHash req) \<and> \<not> equal_fold (at_SourceTxHash a) (br_LqdTxHash req) \<and>
        \<not> equal_fold (at_SourceTxHash a) (br_BscTxHash req)
      then Inl ''attestation does not match request source''
      else if trim_space (at_SourceBlockHash a) = [] \<or> trim_space (at_EventIndex a) = []
      then Inl ''source block hash and event index are required''
      else if flag (bs_Consumed s) (bridgeEventKey C a) then Inl ''source event already consumed''
      else let atts = attestations_of s (br_ID req) in
      if \<not> list_all (\<lambda>(_, b). sameEvent b a) atts then Inl ''signer observations disagree''
      else Inr (s\<lparr>bs_Attestations := mput (br_ID req) (mput (at_Signer a) a atts) (bs_Attestations s)\<rparr>))"

definition bridgeChainRiskKey :: "BridgeRequest \<Rightarrow> string" where
  "bridgeChainRiskKey r = (if norm_addr (br_SourceChainID r) = [] then norm_addr (br_SourceChain r) else norm_addr (br_SourceChainID r))"

section \<open>Authorisation of an execution\<close>

text \<open>\<open>used + amount\<close> is over the cap written in the map, which has to parse without trimming.\<close>

definition overCap :: "(string, string) gomap \<Rightarrow> string \<Rightarrow> int \<Rightarrow> bool" where
  "overCap caps k used = (case parse_int10 (at_key caps k) of None \<Rightarrow> False | Some c \<Rightarrow> 0 < c \<and> c < used)"

definition minConfirmations :: "chain_registry \<Rightarrow> string \<Rightarrow> int" where
  "minConfirmations reg chain = (case reg of None \<Rightarrow> 1 | Some r \<Rightarrow>
     (case ChainByID r chain of None \<Rightarrow> 1 | Some c \<Rightarrow> max 1 (cc_Confirmations c)))"

definition authorizeBridgeExecutionLocked ::
  "crypto \<Rightarrow> chain_registry \<Rightarrow> int \<Rightarrow> bool \<Rightarrow> BridgeRequest \<Rightarrow> BridgeSecurityState \<Rightarrow> string + BridgeSecurityState" where
  "authorizeBridgeExecutionLocked C reg now paused req s0 =
     (let s = ensureBridge s0; p = bs_Policy s in
      if \<not> rp_EnforceAttestations p \<and> \<not> rp_RequireLightClientProof p then Inr s
      else if paused then Inl ''bridge is paused''
      else if rp_RequireLightClientProof p \<and> \<not> flag (bs_ProofAuthorized s) (br_ID req)
      then Inl ''bridge light-client event proof required''
      else if flag (bs_Authorized s) (br_ID req) then Inr s
      else if \<not> rp_EnforceAttestations p then Inr (s\<lparr>bs_Authorized := mput (br_ID req) True (bs_Authorized s)\<rparr>)
      else let atts = attestations_of s (br_ID req) in
      if int (length atts) < rp_RequiredSigners p then Inl ''bridge threshold not reached'' else
      let chain = bridgeChainRiskKey req; assetKey = chain @ '':'' @ norm_addr (br_Token req) in
      case NewAmountFromString (br_Amount req) of None \<Rightarrow> Inl ''invalid bridge amount'' | Some amount \<Rightarrow>
      if amount \<le> 0 then Inl ''invalid bridge amount''
      else if overCap (rp_PerTransactionCaps p) chain amount then Inl ''bridge per-transaction cap exceeded''
      else if overCap (rp_AssetTransactionCaps p) assetKey amount then Inl ''bridge asset per-transaction cap exceeded''
      else let dayKey = chain @ '':'' @ dayString now; used = volume_at (bs_DailyVolume s) dayKey in
      if overCap (rp_DailyCaps p) chain (used + amount) then Inl ''bridge daily cap exceeded''
      else let assetDayKey = assetKey @ '':'' @ dayString now; assetUsed = volume_at (bs_DailyVolume s) assetDayKey in
      if overCap (rp_AssetDailyCaps p) assetKey (assetUsed + amount) then Inl ''bridge asset daily cap exceeded''
      else let hourKey = chain @ '':'' @ hourString now; hourUsed = volume_at (bs_HourlyVolume s) hourKey in
      if overCap (rp_HourlyCaps p) chain (hourUsed + amount) then Inl ''bridge hourly cap exceeded''
      else case atts of [] \<Rightarrow> Inl ''source finality confirmations insufficient'' | (_, first) # _ \<Rightarrow>
      if at_Confirmations first < minConfirmations reg chain then Inl ''source finality confirmations insufficient''
      else Inr (s\<lparr>bs_DailyVolume := mput assetDayKey (assetUsed + amount) (mput dayKey (used + amount) (bs_DailyVolume s)),
        bs_HourlyVolume := mput hourKey (hourUsed + amount) (bs_HourlyVolume s),
        bs_Authorized := mput (br_ID req) True (bs_Authorized s),
        bs_Consumed := mput (bridgeEventKey C first) True (bs_Consumed s)\<rparr>))"

definition BridgeExecutionAuthorized ::
  "crypto \<Rightarrow> chain_registry \<Rightarrow> bool \<Rightarrow> int \<Rightarrow> bool \<Rightarrow> requests \<Rightarrow> string \<Rightarrow> BridgeSecurityState \<Rightarrow> string + BridgeSecurityState" where
  "BridgeExecutionAuthorized C reg legacy now paused reqs requestID s =
     (case map_of reqs (to_lower requestID) of None \<Rightarrow> Inl ''bridge request not found''
      | Some req \<Rightarrow> authorizeBridgeExecutionLocked C reg now paused req (ensureRuntimeBridge legacy s))"

end
