(* ===== verification/BridgeLight.thy ===== *)
theory BridgeLight
  imports Bridge
begin

text \<open>
  The bridge light client of \<open>bridge_light_client.go\<close>: validator sets, the sequential header chain with its signed
  power, and Merkle proofs of events; and the invariants of the security state of \<open>Bridge\<close>.
\<close>

section \<open>Validator sets\<close>

text \<open>The loop over the sorted rows: normalized address, total power and the addresses seen so far.\<close>

fun lightRows :: "u64 \<Rightarrow> string list \<Rightarrow> BridgeLightValidator list \<Rightarrow> BridgeLightValidator list option" where
  "lightRows tot seen [] = Some []"
| "lightRows tot seen (v # vs) = (let a = norm_addr (lv_Address v); p = lv_Power v in
     if \<not> ValidateAddress a \<or> p = 0 \<or> a \<in> set seen \<or> - 1 - tot < p then None
     else map_option (Cons (v\<lparr>lv_Address := a\<rparr>)) (lightRows (tot + p) (a # seen) vs))"

definition bridgeLightValidators :: "BridgeLightValidator list \<Rightarrow> BridgeLightValidator list option" where
  "bridgeLightValidators vs = (case lightRows 0 [] (sort_key (\<lambda>v. to_lower (lv_Address v)) vs) of None \<Rightarrow> None
     | Some rows \<Rightarrow> if length rows < 4 then None else Some rows)"

definition validatorJSON :: "BridgeLightValidator \<Rightarrow> string" where
  "validatorJSON v = jsonObject [(''address'', jsonString (lv_Address v)), (''power'', u64_str (lv_Power v))]"

definition BridgeLightValidatorSetHash :: "crypto \<Rightarrow> BridgeLightValidator list \<Rightarrow> string" where
  "BridgeLightValidatorSetHash C vs = (case bridgeLightValidators vs of None \<Rightarrow> []
     | Some rows \<Rightarrow> hex0x (sha256 C (''PODL-BRIDGE-VALIDATORS-V1:'' @ jsonArray (map validatorJSON rows))))"

section \<open>Headers\<close>

definition bridgeLightHeaderDigest :: "crypto \<Rightarrow> BridgeLightHeader \<Rightarrow> string" where
  "bridgeLightHeaderDigest C h = sha256 C (''PODL-BRIDGE-HEADER-V1:'' @ norm_addr (lh_ChainID h) @ ''|'' @ u64_str (lh_Height h) @ ''|'' @
     to_lower (lh_ParentHash h) @ ''|'' @ to_lower (lh_EventRoot h) @ ''|'' @ to_lower (lh_ValidatorSetHash h) @ ''|'' @
     to_lower (lh_NextValidatorSetHash h))"

definition BridgeLightHeaderHash :: "crypto \<Rightarrow> BridgeLightHeader \<Rightarrow> string" where
  "BridgeLightHeaderHash C h = hex0x (bridgeLightHeaderDigest C h)"

definition configureBridgeLightClient :: "BridgeLightClientConfig \<Rightarrow> BridgeSecurityState \<Rightarrow> string + BridgeSecurityState" where
  "configureBridgeLightClient c s = (let chain = norm_addr (lcc_ChainID c); h = norm_addr (lcc_TrustedHash c) in
     case bridgeLightValidators (lcc_Validators c) of None \<Rightarrow> Inl ''invalid trusted light-client checkpoint''
     | Some rows \<Rightarrow> if chain = [] \<or> lcc_TrustedHeight c = 0 \<or> length h \<noteq> 66 then Inl ''invalid trusted light-client checkpoint''
         else Inr ((ensureBridge s)\<lparr>bs_LightClients := mput chain \<lparr>lc_ChainID = chain, lc_Height = lcc_TrustedHeight c,
                 lc_HeaderHash = h, lc_Validators = rows, lc_Headers = []\<rparr> (bs_LightClients s)\<rparr>))"

text \<open>\<open>byAddress\<close>: the power of an address, the last row of an address counting, zero when there is none.\<close>

definition lightPower :: "BridgeLightValidator list \<Rightarrow> string \<Rightarrow> u64" where
  "lightPower vs a = (case map_of (rev (map (\<lambda>v. (lv_Address v, lv_Power v)) vs)) a of None \<Rightarrow> 0 | Some p \<Rightarrow> p)"

definition lightTotal :: "BridgeLightValidator list \<Rightarrow> u64" where
  "lightTotal vs = sum_list (map lv_Power vs)"

text \<open>The signers that count: known, not counted before, with a signature that recovers to them.\<close>

fun lightSigners :: "crypto \<Rightarrow> string \<Rightarrow> BridgeLightValidator list \<Rightarrow> string list \<Rightarrow> (string \<times> string) list \<Rightarrow> string list" where
  "lightSigners C digest vs seen [] = seen"
| "lightSigners C digest vs seen ((signer0, signature) # rows) = (let signer = norm_addr signer0 in
     if signer \<in> set seen \<or> lightPower vs signer = 0 \<or> \<not> signedBy C digest signature signer
     then lightSigners C digest vs seen rows else lightSigners C digest vs (signer # seen) rows)"

definition signedPower :: "BridgeLightValidator list \<Rightarrow> string list \<Rightarrow> u64" where
  "signedPower vs signers = sum_list (map (lightPower vs) signers)"

definition SubmitBridgeLightHeader :: "crypto \<Rightarrow> BridgeLightHeader \<Rightarrow> BridgeSecurityState \<Rightarrow> string + BridgeSecurityState" where
  "SubmitBridgeLightHeader C h s = (let chain = norm_addr (lh_ChainID h) in
     case map_of (bs_LightClients s) chain of None \<Rightarrow> Inl ''light-client header does not extend trusted state'' | Some client \<Rightarrow>
     if lh_Height h \<noteq> lc_Height client + 1 \<or> \<not> equal_fold (lh_ParentHash h) (lc_HeaderHash client) \<or>
        \<not> equal_fold (lh_Hash h) (BridgeLightHeaderHash C h) \<or>
        \<not> equal_fold (lh_ValidatorSetHash h) (BridgeLightValidatorSetHash C (lc_Validators client)) \<or>
        length (trim_prefix (lh_EventRoot h) ''0x'') \<noteq> 64
     then Inl ''light-client header does not extend trusted state'' else
     let signers = lightSigners C (bridgeLightHeaderDigest C h) (lc_Validators client) [] (lh_Signatures h);
         signed = signedPower (lc_Validators client) signers in
     if signed \<le> lightTotal (lc_Validators client) * 2 div 3
     then Inl ''light-client header lacks strict two-thirds signed power'' else
     case (if lh_NextValidators h \<noteq> [] then
             (case bridgeLightValidators (lh_NextValidators h) of None \<Rightarrow> None
              | Some rows \<Rightarrow> if equal_fold (lh_NextValidatorSetHash h) (BridgeLightValidatorSetHash C rows) then Some rows else None)
           else if equal_fold (lh_NextValidatorSetHash h) (lh_ValidatorSetHash h) then Some (lc_Validators client) else None) of
       None \<Rightarrow> Inl ''invalid committed next validator set''
     | Some nxt \<Rightarrow>
         let h' = h\<lparr>lh_ChainID := chain, lh_Hash := to_lower (lh_Hash h), lh_Signatures := []\<rparr>;
             hs = mput (lh_Height h) h' (lc_Headers client);
             hs' = (if 2048 < length hs then mdel (lh_Height h - 2048) hs else hs) in
         Inr (s\<lparr>bs_LightClients := mput chain (client\<lparr>lc_Headers := hs', lc_Height := lh_Height h,
            lc_HeaderHash := lh_Hash h', lc_Validators := nxt\<rparr>) (bs_LightClients s)\<rparr>))"

section \<open>Event proofs\<close>

definition BridgeEventLeafHash :: "crypto \<Rightarrow> BridgeRequest \<Rightarrow> string \<Rightarrow> string \<Rightarrow> string" where
  "BridgeEventLeafHash C r sourceTxHash eventIndex = sha256 C (''PODL-BRIDGE-EVENT-V1:'' @ to_lower (br_ID r) @ ''|'' @
     bridgeChainRiskKey r @ ''|'' @ norm_addr sourceTxHash @ ''|'' @ trim_space eventIndex @ ''|'' @ norm_addr (br_Token r) @ ''|'' @
     br_Amount r @ ''|'' @ norm_addr (br_To r))"

text \<open>The loop over the siblings: \<open>None\<close> where a sibling is not the hexadecimal form of 32 bytes.\<close>

fun merkleFold :: "crypto \<Rightarrow> string \<Rightarrow> (string \<times> bool) list \<Rightarrow> string option" where
  "merkleFold C current [] = Some current"
| "merkleFold C current ((sib, left) # rest) = (case hex_decode (trim_prefix sib ''0x'') of None \<Rightarrow> None
     | Some sibling \<Rightarrow> if length sibling \<noteq> 32 then None
         else merkleFold C (sha256 C (if left then sibling @ current else current @ sibling)) rest)"

definition verifyBridgeMerkleProof :: "crypto \<Rightarrow> string \<Rightarrow> string list \<Rightarrow> bool list \<Rightarrow> string \<Rightarrow> bool" where
  "verifyBridgeMerkleProof C leaf siblings left rt \<longleftrightarrow>
     length leaf = 32 \<and> length siblings = length left \<and> length siblings \<le> 64 \<and>
     (case merkleFold C leaf (zip siblings left) of None \<Rightarrow> False | Some current \<Rightarrow> equal_fold (hex0x current) rt)"

definition lightEventKey :: "crypto \<Rightarrow> string \<Rightarrow> string \<Rightarrow> string \<Rightarrow> string" where
  "lightEventKey C chain sourceTx eventIndex = ''light:'' @ hex_encode (sha256 C (to_lower (chain @ ''|'' @ sourceTx @ ''|'' @ eventIndex)))"

definition expectedSourceTx :: "BridgeRequest \<Rightarrow> string" where
  "expectedSourceTx r = (if br_SourceTxHash r \<noteq> [] then br_SourceTxHash r else if br_LqdTxHash r \<noteq> [] then br_LqdTxHash r else br_BscTxHash r)"

definition requestOf :: "requests \<Rightarrow> string \<Rightarrow> BridgeRequest option" where
  "requestOf reqs i = (case map_of reqs (norm_addr i) of Some r \<Rightarrow> Some r | None \<Rightarrow> map_of reqs i)"

definition SubmitBridgeEventProof :: "crypto \<Rightarrow> requests \<Rightarrow> BridgeEventMerkleProof \<Rightarrow> BridgeSecurityState \<Rightarrow> string + BridgeSecurityState" where
  "SubmitBridgeEventProof C reqs pr s =
     (case requestOf reqs (mp_RequestID pr) of None \<Rightarrow> Inl ''bridge request not found'' | Some request \<Rightarrow>
      let chain = norm_addr (mp_ChainID pr) in
      if chain \<noteq> bridgeChainRiskKey request then Inl ''event proof source chain mismatch'' else
      case map_of (bs_LightClients s) chain of None \<Rightarrow> Inl ''source light client not configured'' | Some client \<Rightarrow>
      case map_of (lc_Headers client) (mp_HeaderHeight pr) of None \<Rightarrow> Inl ''event header is not retained and finalized'' | Some header \<Rightarrow>
      if \<not> equal_fold (expectedSourceTx request) (mp_SourceTxHash pr) \<or> trim_space (mp_EventIndex pr) = []
      then Inl ''event proof does not match request''
      else if \<not> verifyBridgeMerkleProof C (BridgeEventLeafHash C request (mp_SourceTxHash pr) (mp_EventIndex pr))
         (mp_Siblings pr) (mp_SiblingOnLeft pr) (lh_EventRoot header)
      then Inl ''invalid bridge event inclusion proof'' else
      let consumed = lightEventKey C chain (mp_SourceTxHash pr) (mp_EventIndex pr) in
      if flag (bs_Consumed s) consumed then Inl ''light-client event proof replay''
      else Inr (s\<lparr>bs_Consumed := mput consumed True (bs_Consumed s),
                  bs_ProofAuthorized := mput (br_ID request) True (bs_ProofAuthorized s)\<rparr>))"

section \<open>Validator sets are sound\<close>

definition natPower :: "BridgeLightValidator list \<Rightarrow> nat" where
  "natPower vs = sum_list (map (\<lambda>v. unat (lv_Power v)) vs)"

text \<open>What an accepted validator set satisfies: distinct addresses, powers that are not zero, no overflow.\<close>

definition lightSetOk :: "BridgeLightValidator list \<Rightarrow> bool" where
  "lightSetOk vs \<longleftrightarrow> distinct (map lv_Address vs) \<and> (\<forall>v \<in> set vs. lv_Power v \<noteq> 0) \<and> natPower vs < 2 ^ 64 \<and> 4 \<le> length vs"

lemma lightRows_sound:
  "lightRows tot seen vs = Some rows \<Longrightarrow> distinct (map lv_Address rows) \<and> set (map lv_Address rows) \<inter> set seen = {} \<and>
     (\<forall>v \<in> set rows. lv_Power v \<noteq> 0) \<and> unat tot + natPower rows < 2 ^ 64"
proof (induction tot seen vs arbitrary: rows rule: lightRows.induct)
  case (1 tot seen)
  then show ?case using unsigned_less [of tot] by (simp add: natPower_def)
next
  case (2 tot seen v vs)
  let ?a = "norm_addr (lv_Address v)" and ?p = "lv_Power v"
  from "2.prems" have ok: "\<not> (\<not> ValidateAddress ?a \<or> ?p = 0 \<or> ?a \<in> set seen \<or> - 1 - tot < ?p)"
    and rest: "\<exists>rows'. lightRows (tot + ?p) (?a # seen) vs = Some rows' \<and> rows = v\<lparr>lv_Address := ?a\<rparr> # rows'"
    by (auto simp: Let_def split: if_splits)
  from rest obtain rows' where r: "lightRows (tot + ?p) (?a # seen) vs = Some rows'" "rows = v\<lparr>lv_Address := ?a\<rparr> # rows'" by blast
  from ok have "\<not> - 1 - tot < ?p" by simp
  then have "?p \<le> - 1 - tot" by (simp only: not_less)
  then have "unat ?p \<le> unat (- 1 - tot)" by (simp add: word_le_nat_alt)
  also have "unat (- 1 - tot) = 2 ^ 64 - 1 - unat tot" 
  proof -
    have "unat (- 1 - tot) = unat (- 1 :: u64) - unat tot" by (rule unat_sub) simp
    also have "unat (- 1 :: u64) = 2 ^ 64 - 1" by (simp add: unsigned_minus_1_eq_mask mask_eq_exp_minus_1)
    finally show ?thesis .
  qed
  moreover have "unat tot < 2 ^ 64" using unsigned_less [of tot] by simp
  ultimately have "unat tot + unat ?p < 2 ^ 64" by simp
  then have "unat (tot + ?p) = unat tot + unat ?p" by (simp add: unat_word_ariths)
  with "2.IH" [OF refl refl ok r(1)] ok r(2) show ?case by (auto simp: natPower_def)
qed

lemma bridgeLightValidators_sound: "bridgeLightValidators vs = Some rows \<Longrightarrow> lightSetOk rows"
proof -
  assume "bridgeLightValidators vs = Some rows"
  then have r: "lightRows 0 [] (sort_key (\<lambda>v. to_lower (lv_Address v)) vs) = Some rows" and "4 \<le> length rows"
    by (auto simp: bridgeLightValidators_def split: option.splits if_splits)
  have l: "distinct (map lv_Address rows)" "\<forall>v \<in> set rows. lv_Power v \<noteq> 0" "unat (0 :: u64) + natPower rows < 2 ^ 64"
    using lightRows_sound [OF r] by blast+
  from l(3) have "natPower rows < 2 ^ 64" by (simp only: unsigned_0 add_0)
  with l(1,2) \<open>4 \<le> length rows\<close> show ?thesis unfolding lightSetOk_def by blast
qed

section \<open>Counted signatures\<close>

definition countedRow :: "crypto \<Rightarrow> string \<Rightarrow> (string \<times> string) list \<Rightarrow> string \<Rightarrow> bool" where
  "countedRow C d rows a \<longleftrightarrow> (\<exists>row \<in> set rows. norm_addr (fst row) = a \<and> signedBy C d (snd row) a)"

lemma lightSigners_counted:
  "distinct seen \<Longrightarrow> \<forall>a \<in> set seen. lightPower vs a \<noteq> 0 \<Longrightarrow> distinct (lightSigners C d vs seen rows) \<and>
    (\<forall>a \<in> set (lightSigners C d vs seen rows). lightPower vs a \<noteq> 0 \<and> (a \<in> set seen \<or> countedRow C d rows a))"
proof (induction C d vs seen rows rule: lightSigners.induct)
  case (2 C d vs seen s g rows)
  let ?a = "norm_addr s"
  have mono: "countedRow C d rows x \<Longrightarrow> countedRow C d ((s, g) # rows) x" for x by (auto simp: countedRow_def)
  show ?case
  proof (cases "?a \<in> set seen \<or> lightPower vs ?a = 0 \<or> \<not> signedBy C d g ?a")
    case True
    from "2.IH"(1) [OF refl True "2.prems"] True mono show ?thesis by (auto simp: Let_def)
  next
    case False
    then have p: "distinct (?a # seen)" "\<forall>x \<in> set (?a # seen). lightPower vs x \<noteq> 0" using "2.prems" by auto
    from False have r: "countedRow C d ((s, g) # rows) ?a" by (auto simp: countedRow_def)
    have e: "lightSigners C d vs seen ((s, g) # rows) = lightSigners C d vs (?a # seen) rows" using False by (simp add: Let_def)
    from "2.IH"(2) [OF refl False p] r mono show ?thesis unfolding e by auto
  qed
qed simp

lemmas lightSigners_sound = lightSigners_counted [of "[]", simplified]

lemma lightPower_member: "lightPower vs a \<noteq> 0 \<Longrightarrow> \<exists>v \<in> set vs. lv_Address v = a \<and> lv_Power v = lightPower vs a"
  by (auto simp: lightPower_def split: option.splits dest!: map_of_SomeD)

lemma lightPower_eq: "distinct (map lv_Address vs) \<Longrightarrow> v \<in> set vs \<Longrightarrow> lightPower vs (lv_Address v) = lv_Power v"
proof -
  assume d: "distinct (map lv_Address vs)" and v: "v \<in> set vs"
  have "map fst (rev (map (\<lambda>v. (lv_Address v, lv_Power v)) vs)) = rev (map lv_Address vs)" by (simp add: rev_map)
  with d have "distinct (map fst (rev (map (\<lambda>v. (lv_Address v, lv_Power v)) vs)))" by (simp only: distinct_rev)
  moreover have "(lv_Address v, lv_Power v) \<in> set (rev (map (\<lambda>v. (lv_Address v, lv_Power v)) vs))" using v by simp
  ultimately have "map_of (rev (map (\<lambda>v. (lv_Address v, lv_Power v)) vs)) (lv_Address v) = Some (lv_Power v)" by (rule map_of_is_SomeI)
  then show ?thesis by (simp add: lightPower_def)
qed

definition signedNat :: "BridgeLightValidator list \<Rightarrow> string list \<Rightarrow> nat" where
  "signedNat vs signers = sum_list (map (\<lambda>a. unat (lightPower vs a)) signers)"

text \<open>Distinct counted signers carry at most the power of the set.\<close>

lemma signedNat_le:
  assumes vs: "lightSetOk vs" and d: "distinct signers" and p: "\<forall>a \<in> set signers. lightPower vs a \<noteq> 0"
  shows "signedNat vs signers \<le> natPower vs"
proof -
  have sub: "set signers \<subseteq> set (map lv_Address vs)" using p lightPower_member by fastforce
  have dv: "distinct (map lv_Address vs)" using vs by (simp add: lightSetOk_def)
  have "signedNat vs signers = (\<Sum>a \<in> set signers. unat (lightPower vs a))"
    using d by (simp add: signedNat_def sum_list_distinct_conv_sum_set)
  also have "\<dots> \<le> (\<Sum>a \<in> set (map lv_Address vs). unat (lightPower vs a))" by (rule sum_mono2) (use sub in auto)
  also have "\<dots> = sum_list (map (\<lambda>a. unat (lightPower vs a)) (map lv_Address vs))" using dv by (simp only: sum_list_distinct_conv_sum_set)
  also have "map (\<lambda>a. unat (lightPower vs a)) (map lv_Address vs) = map (\<lambda>v. unat (lv_Power v)) vs"
    using lightPower_eq [OF dv] by simp
  finally show ?thesis by (simp add: natPower_def)
qed

lemma unat_sum_list: "sum_list (map (\<lambda>x. unat (f x)) xs) < 2 ^ 64 \<Longrightarrow> unat (sum_list (map f xs) :: u64) = sum_list (map (\<lambda>x. unat (f x)) xs)"
proof (induction xs)
  case (Cons x xs)
  then have "unat (sum_list (map f xs)) = sum_list (map (\<lambda>x. unat (f x)) xs)" by simp
  with Cons.prems show ?case by (simp add: unat_word_ariths)
qed simp

text \<open>The threshold, as long as twice the total power does not wrap.\<close>

lemma quorum_nat:
  assumes vs: "lightSetOk vs" and small: "2 * natPower vs < 2 ^ 64" and d: "distinct signers"
    and p: "\<forall>a \<in> set signers. lightPower vs a \<noteq> 0" and q: "\<not> signedPower vs signers \<le> lightTotal vs * 2 div 3"
  shows "2 * natPower vs < 3 * signedNat vs signers"
proof -
  have "unat (lightTotal vs) = natPower vs" using vs by (simp add: lightTotal_def natPower_def lightSetOk_def unat_sum_list)
  then have "unat (lightTotal vs * 2) = natPower vs * 2" using small by (simp add: unat_word_ariths)
  then have t: "unat (lightTotal vs * 2 div 3) = natPower vs * 2 div 3" by (simp add: unat_div)
  have "signedNat vs signers < 2 ^ 64" using signedNat_le [OF vs d p] vs by (simp add: lightSetOk_def)
  then have "unat (signedPower vs signers) = signedNat vs signers" by (simp add: signedPower_def signedNat_def unat_sum_list)
  with q t have "natPower vs * 2 div 3 < signedNat vs signers" by (simp add: word_le_nat_alt)
  then show ?thesis by linarith
qed

section \<open>The invariant of the light clients\<close>

definition lightOk :: "BridgeSecurityState \<Rightarrow> bool" where
  "lightOk s \<longleftrightarrow> (\<forall>chain c. map_of (bs_LightClients s) chain = Some c \<longrightarrow> lightSetOk (lc_Validators c))"

lemma ensureBridge_fields [simp]:
  "bs_LightClients (ensureBridge s) = bs_LightClients s" "bs_Attestations (ensureBridge s) = bs_Attestations s"
  "bs_Consumed (ensureBridge s) = bs_Consumed s" "bs_Authorized (ensureBridge s) = bs_Authorized s"
  "bs_DailyVolume (ensureBridge s) = bs_DailyVolume s" "bs_HourlyVolume (ensureBridge s) = bs_HourlyVolume s"
  "bs_ProofAuthorized (ensureBridge s) = bs_ProofAuthorized s"
  by (simp_all add: ensureBridge_def)

lemma ensureRuntimeBridge_fields [simp]:
  "bs_LightClients (ensureRuntimeBridge l s) = bs_LightClients s" "bs_Attestations (ensureRuntimeBridge l s) = bs_Attestations s"
  "bs_Consumed (ensureRuntimeBridge l s) = bs_Consumed s" "bs_Authorized (ensureRuntimeBridge l s) = bs_Authorized s"
  "bs_DailyVolume (ensureRuntimeBridge l s) = bs_DailyVolume s" "bs_HourlyVolume (ensureRuntimeBridge l s) = bs_HourlyVolume s"
  "bs_ProofAuthorized (ensureRuntimeBridge l s) = bs_ProofAuthorized s"
  by (simp_all add: ensureRuntimeBridge_def Let_def)

lemma configure_light: "configureBridgeLightClient c s = Inr s' \<Longrightarrow> lightOk s \<Longrightarrow> lightOk s'"
  using bridgeLightValidators_sound
  by (auto simp: configureBridgeLightClient_def lightOk_def Let_def split: option.splits if_splits)

text \<open>What an accepted header says of the client it extends.\<close>

lemma header_accepted:
  assumes "SubmitBridgeLightHeader C h s = Inr s'" "lightOk s"
  obtains client nxt where
    "map_of (bs_LightClients s) (norm_addr (lh_ChainID h)) = Some client" "lightSetOk (lc_Validators client)"
    "lh_Height h = lc_Height client + 1" "equal_fold (lh_ParentHash h) (lc_HeaderHash client)"
    "\<not> signedPower (lc_Validators client) (lightSigners C (bridgeLightHeaderDigest C h) (lc_Validators client) [] (lh_Signatures h))
       \<le> lightTotal (lc_Validators client) * 2 div 3"
    "lightSetOk nxt" "lh_NextValidators h = [] \<Longrightarrow> nxt = lc_Validators client"
    "lh_NextValidators h \<noteq> [] \<Longrightarrow> bridgeLightValidators (lh_NextValidators h) = Some nxt \<and>
       equal_fold (lh_NextValidatorSetHash h) (BridgeLightValidatorSetHash C nxt)"
    "\<exists>hs. bs_LightClients s' = mput (norm_addr (lh_ChainID h)) (client\<lparr>lc_Headers := hs, lc_Height := lh_Height h,
       lc_HeaderHash := to_lower (lh_Hash h), lc_Validators := nxt\<rparr>) (bs_LightClients s)"
    "s' = s\<lparr>bs_LightClients := bs_LightClients s'\<rparr>"
proof -
  let ?chain = "norm_addr (lh_ChainID h)"
  from assms(1) obtain client where c: "map_of (bs_LightClients s) ?chain = Some client"
    by (auto simp: SubmitBridgeLightHeader_def Let_def split: option.splits)
  let ?nxt = "if lh_NextValidators h \<noteq> [] then
      (case bridgeLightValidators (lh_NextValidators h) of None \<Rightarrow> None
       | Some rows \<Rightarrow> if equal_fold (lh_NextValidatorSetHash h) (BridgeLightValidatorSetHash C rows) then Some rows else None)
    else if equal_fold (lh_NextValidatorSetHash h) (lh_ValidatorSetHash h) then Some (lc_Validators client) else None"
  have ok: "lightSetOk (lc_Validators client)" using assms(2) c by (auto simp: lightOk_def)
  from assms(1) c obtain nxt hs where n: "?nxt = Some nxt"
    and s': "s' = s\<lparr>bs_LightClients := mput ?chain (client\<lparr>lc_Headers := hs, lc_Height := lh_Height h,
       lc_HeaderHash := to_lower (lh_Hash h), lc_Validators := nxt\<rparr>) (bs_LightClients s)\<rparr>"
    by (auto simp: SubmitBridgeLightHeader_def Let_def split: if_split_asm option.split_asm)
  from n ok have nok: "lightSetOk nxt" using bridgeLightValidators_sound by (auto split: if_split_asm option.split_asm)
  from assms(1) c have head: "lh_Height h = lc_Height client + 1" "equal_fold (lh_ParentHash h) (lc_HeaderHash client)"
    and q: "\<not> signedPower (lc_Validators client) (lightSigners C (bridgeLightHeaderDigest C h) (lc_Validators client) [] (lh_Signatures h))
       \<le> lightTotal (lc_Validators client) * 2 div 3"
    by (auto simp: SubmitBridgeLightHeader_def Let_def split: if_split_asm)
  show thesis
  proof (rule that [OF c ok head q nok])
    show "lh_NextValidators h = [] \<Longrightarrow> nxt = lc_Validators client" using n by (simp split: if_split_asm)
    show "lh_NextValidators h \<noteq> [] \<Longrightarrow> bridgeLightValidators (lh_NextValidators h) = Some nxt \<and>
       equal_fold (lh_NextValidatorSetHash h) (BridgeLightValidatorSetHash C nxt)"
      using n by (simp split: if_split_asm option.split_asm)
  qed (use s' in auto)
qed

lemma header_light: "SubmitBridgeLightHeader C h s = Inr s' \<Longrightarrow> lightOk s \<Longrightarrow> lightOk s'"
  by (erule (1) header_accepted) (auto simp: lightOk_def split: if_split_asm)

section \<open>Merkle proofs\<close>

text \<open>The strings a Merkle check hashes on its way up, and the decoded siblings.\<close>

fun merkleInputs :: "crypto \<Rightarrow> string \<Rightarrow> (string \<times> bool) list \<Rightarrow> string list" where
  "merkleInputs C current [] = []"
| "merkleInputs C current ((sib, left) # rest) = (case hex_decode (trim_prefix sib ''0x'') of None \<Rightarrow> []
     | Some sibling \<Rightarrow> (let u = (if left then sibling @ current else current @ sibling) in u # merkleInputs C (sha256 C u) rest))"

definition siblingBytes :: "string \<Rightarrow> string option" where
  "siblingBytes sib = hex_decode (trim_prefix sib ''0x'')"

text \<open>Two checks over the same directions that meet took the same path, or hash two different strings at one level to one digest.\<close>

definition collide :: "crypto \<Rightarrow> string list \<Rightarrow> string list \<Rightarrow> bool" where
  "collide C us vs \<longleftrightarrow> (\<exists>i < length us. i < length vs \<and> us ! i \<noteq> vs ! i \<and> sha256 C (us ! i) = sha256 C (vs ! i))"

lemma collide_Cons: "(u \<noteq> v \<and> sha256 C u = sha256 C v) \<or> collide C us vs \<Longrightarrow> collide C (u # us) (v # vs)"
  unfolding collide_def by (metis Suc_less_eq length_Cons nth_Cons_0 nth_Cons_Suc zero_less_Suc)

lemma merkleFold_binds:
  assumes len: "\<forall>x. length (sha256 C x) = 32"
  shows "merkleFold C a ps = Some r \<Longrightarrow> merkleFold C b qs = Some r \<Longrightarrow> map snd ps = map snd qs \<Longrightarrow>
    length a = 32 \<Longrightarrow> length b = 32 \<Longrightarrow>
    (a = b \<and> map (siblingBytes \<circ> fst) ps = map (siblingBytes \<circ> fst) qs) \<or> collide C (merkleInputs C a ps) (merkleInputs C b qs)"
proof (induction ps arbitrary: a b qs)
  case (Cons p ps)
  obtain sa left where p: "p = (sa, left)" by (cases p)
  from Cons.prems(3) p obtain sb qs' where q: "qs = (sb, left) # qs'" "map snd ps = map snd qs'" by (cases qs) auto
  from Cons.prems(1) p obtain x where x: "hex_decode (trim_prefix sa ''0x'') = Some x" "length x = 32"
    "merkleFold C (sha256 C (if left then x @ a else a @ x)) ps = Some r" by (auto split: option.splits if_split_asm)
  from Cons.prems(2) q obtain y where y: "hex_decode (trim_prefix sb ''0x'') = Some y" "length y = 32"
    "merkleFold C (sha256 C (if left then y @ b else b @ y)) qs' = Some r" by (auto split: option.splits if_split_asm)
  define u where "u = (if left then x @ a else a @ x)"
  define v where "v = (if left then y @ b else b @ y)"
  have i: "merkleInputs C a (p # ps) = u # merkleInputs C (sha256 C u) ps" "merkleInputs C b qs = v # merkleInputs C (sha256 C v) qs'"
    by (simp_all add: p q x(1) y(1) u_def v_def Let_def)
  have uv: "a = b \<and> x = y" if "u = v"
    using that x(2) y(2) Cons.prems(4,5) by (auto simp: u_def v_def split: if_splits)
  have "length (sha256 C u) = 32" "length (sha256 C v) = 32" using len by simp_all
  from Cons.IH [OF x(3) [folded u_def] y(3) [folded v_def] q(2) this]
  consider "u \<noteq> v" "sha256 C u = sha256 C v" | "u = v" "map (siblingBytes \<circ> fst) ps = map (siblingBytes \<circ> fst) qs'"
    | "collide C (merkleInputs C (sha256 C u) ps) (merkleInputs C (sha256 C v) qs')" by blast
  then show ?case
  proof cases
    case 2
    with uv have "a = b" "map (siblingBytes \<circ> fst) (p # ps) = map (siblingBytes \<circ> fst) qs"
      by (simp_all add: p q siblingBytes_def x(1) y(1))
    then show ?thesis by blast
  qed (unfold i, (blast intro: collide_Cons)+)
qed auto

lemma hex_digit_lower: "d < 16 \<Longrightarrow> lower_char (hex_digit d) = hex_digit d"
  by (auto simp: lower_char_def hex_digit_def Let_def of_char_of)

lemma to_lower_hex [simp]: "to_lower (hex_encode s) = hex_encode s"
proof (induction s)
  case (Cons c s)
  have "(of_char c :: nat) div 16 < 16" using of_char_bound [of c] by (simp add: less_mult_imp_div_less)
  with Cons show ?case by (simp add: to_lower_def hex_digit_lower)
qed (simp add: to_lower_def)

lemma to_lower_hex0x [simp]: "to_lower (hex0x s) = hex0x s"
proof -
  have "to_lower ''0x'' = ''0x''" by code_simp
  then show ?thesis by (simp only: hex0x_def to_lower_append to_lower_hex)
qed

lemma equal_fold_hex0x: "equal_fold (hex0x a) x \<Longrightarrow> equal_fold (hex0x b) x \<Longrightarrow> a = b"
  unfolding equal_fold_def to_lower_hex0x by (metis hex0x_def append_same_eq same_append_eq hex_encode_inject)

section \<open>The invariant of the attestations\<close>

text \<open>
  Every stored attestation is filed under its signer, recovers to that signer, and agrees with the other
  attestations of its request on transaction, block and event.
\<close>

definition attestationsOk :: "crypto \<Rightarrow> (string, BridgeAttestation) gomap \<Rightarrow> bool" where
  "attestationsOk C m \<longleftrightarrow> wf_map m \<and> (\<forall>(k, a) \<in> set m. at_Signer a = k \<and> VerifyBridgeAttestation C a) \<and>
     (\<forall>(_, a) \<in> set m. \<forall>(_, b) \<in> set m. sameEvent a b)"

definition attestOk :: "crypto \<Rightarrow> BridgeSecurityState \<Rightarrow> bool" where
  "attestOk C s \<longleftrightarrow> (\<forall>i m. map_of (bs_Attestations s) i = Some m \<longrightarrow> attestationsOk C m)"

lemma attestOk_of: "attestOk C s \<Longrightarrow> attestationsOk C (attestations_of s i)"
proof (cases "map_of (bs_Attestations s) i")
  case None
  then show ?thesis by (simp add: attestations_of_def attestationsOk_def)
next
  case (Some m)
  assume "attestOk C s"
  with Some show ?thesis by (simp add: attestations_of_def attestOk_def)
qed

lemma verify_lower: "VerifyBridgeAttestation C a \<Longrightarrow> VerifyBridgeAttestation C (a\<lparr>at_Signer := to_lower (at_Signer a)\<rparr>)"
  by (auto simp: VerifyBridgeAttestation_def signedBy_def bridgeAttestationMessage_def split: option.splits)

lemma set_mput: "wf_map m \<Longrightarrow> set (mput k v m) = {(k', v') \<in> set m. k' \<noteq> k} \<union> {(k, v)}"
  by (induction m) (auto split: if_splits simp: rev_image_eqI)

lemma sameEvent_trans: "sameEvent a b \<Longrightarrow> sameEvent c b \<Longrightarrow> sameEvent a c"
  by (simp add: sameEvent_def)

lemma attestationsOk_put:
  assumes "attestationsOk C m" "VerifyBridgeAttestation C a" "list_all (\<lambda>(_, b). sameEvent b a) m"
  shows "attestationsOk C (mput (at_Signer a) a m)"
proof -
  have s: "sameEvent a a" by (simp add: sameEvent_def)
  have "\<forall>(_, b) \<in> set m. sameEvent b a \<and> sameEvent a b" using assms(3) s
    by (fastforce simp: list_all_iff intro: sameEvent_trans)
  with assms s show ?thesis
    unfolding attestationsOk_def by (auto simp: set_mput wf_mput)
qed

lemma attest_step: "SubmitBridgeAttestation C legacy now reqs a s = Inr s' \<Longrightarrow> attestOk C s \<Longrightarrow> attestOk C s'"
proof -
  assume sub: "SubmitBridgeAttestation C legacy now reqs a s = Inr s'" and ok: "attestOk C s"
  let ?a = "a\<lparr>at_Signer := to_lower (at_Signer a)\<rparr>" and ?s = "ensureRuntimeBridge legacy s"
  from sub have v: "VerifyBridgeAttestation C ?a"
    by (auto simp: SubmitBridgeAttestation_def Let_def split: if_split_asm intro: verify_lower)
  from sub obtain i where agree: "list_all (\<lambda>(_, b). sameEvent b ?a) (attestations_of ?s i)"
    and s': "bs_Attestations s' = mput i (mput (at_Signer ?a) ?a (attestations_of ?s i)) (bs_Attestations s)"
    by (auto simp: SubmitBridgeAttestation_def Let_def split: if_split_asm option.split_asm)
  have "attestationsOk C (attestations_of ?s i)" using attestOk_of [OF ok, of i] by (simp add: attestations_of_def)
  from attestationsOk_put [OF this v agree] ok show ?thesis by (auto simp: attestOk_def s' split: if_split_asm)
qed

lemma authorize_attestations:
  "authorizeBridgeExecutionLocked C reg now paused req s = Inr s' \<Longrightarrow> bs_Attestations s' = bs_Attestations s"
  by (auto simp: authorizeBridgeExecutionLocked_def Let_def split: if_split_asm option.split_asm list.split_asm prod.split_asm)

lemma authorize_light:
  "authorizeBridgeExecutionLocked C reg now paused req s = Inr s' \<Longrightarrow> bs_LightClients s' = bs_LightClients s"
  by (auto simp: authorizeBridgeExecutionLocked_def Let_def split: if_split_asm option.split_asm list.split_asm prod.split_asm)

section \<open>Reachable security states\<close>

inductive bridge_reach :: "crypto \<Rightarrow> chain_registry \<Rightarrow> BridgeSecurityState \<Rightarrow> bool" for C reg where
  fresh: "bridge_reach C reg NewBridgeSecurityState"
| ensured: "bridge_reach C reg s \<Longrightarrow> bridge_reach C reg (ensureRuntimeBridge legacy s)"
| policy: "bridge_reach C reg s \<Longrightarrow> bridge_reach C reg (ensureBridge (s\<lparr>bs_Policy := p\<rparr>))"
| attest: "bridge_reach C reg s \<Longrightarrow> SubmitBridgeAttestation C legacy now reqs a s = Inr s' \<Longrightarrow> bridge_reach C reg s'"
| authorize: "bridge_reach C reg s \<Longrightarrow> authorizeBridgeExecutionLocked C reg now paused req s = Inr s' \<Longrightarrow> bridge_reach C reg s'"
| configure: "bridge_reach C reg s \<Longrightarrow> configureBridgeLightClient c s = Inr s' \<Longrightarrow> bridge_reach C reg s'"
| header: "bridge_reach C reg s \<Longrightarrow> SubmitBridgeLightHeader C h s = Inr s' \<Longrightarrow> bridge_reach C reg s'"
| event: "bridge_reach C reg s \<Longrightarrow> SubmitBridgeEventProof C reqs pr s = Inr s' \<Longrightarrow> bridge_reach C reg s'"

lemma configure_attestations: "configureBridgeLightClient c s = Inr s' \<Longrightarrow> bs_Attestations s' = bs_Attestations s"
  by (auto simp: configureBridgeLightClient_def Let_def split: option.split_asm if_split_asm)

lemma proof_frame:
  "SubmitBridgeEventProof C reqs pr s = Inr s' \<Longrightarrow> bs_Attestations s' = bs_Attestations s \<and> bs_LightClients s' = bs_LightClients s"
  by (auto simp: SubmitBridgeEventProof_def Let_def split: option.split_asm if_split_asm)

lemma attest_light: "SubmitBridgeAttestation C legacy now reqs a s = Inr s' \<Longrightarrow> bs_LightClients s' = bs_LightClients s"
  by (auto simp: SubmitBridgeAttestation_def Let_def split: option.split_asm if_split_asm)

lemma bridge_reach_ok: "bridge_reach C reg s \<Longrightarrow> attestOk C s \<and> lightOk s"
proof (induction rule: bridge_reach.induct)
  case fresh
  show ?case by (simp add: NewBridgeSecurityState_def attestOk_def lightOk_def)
next
  case (attest s legacy now reqs a s')
  then show ?case using attest_step attest_light by (simp add: lightOk_def)
next
  case (authorize s now paused req s')
  then show ?case using authorize_attestations authorize_light by (simp add: attestOk_def lightOk_def)
next
  case (configure s c s')
  then show ?case using configure_light configure_attestations by (simp add: attestOk_def)
next
  case (header s h s')
  then have o: "lightOk s" and "SubmitBridgeLightHeader C h s = Inr s'" by simp_all
  from header_accepted [OF this(2,1)] have "bs_Attestations s' = bs_Attestations s" by (metis BridgeSecurityState.select_convs(2) BridgeSecurityState.surjective BridgeSecurityState.update_convs(7))
  with header header_light show ?case by (simp add: attestOk_def)
next
  case (event s reqs pr s')
  then show ?case using proof_frame by (simp add: attestOk_def lightOk_def)
qed (auto simp: attestOk_def lightOk_def ensureBridge_def ensureRuntimeBridge_def Let_def)

section \<open>Properties\<close>

text \<open>C27: Headers of the light client carry a quorum. In every reachable state a header is accepted only for a configured client,
  at the next height and on the client's current hash, and only with valid signatures of pairwise different members of
  its validator set; when twice the total power is below \<open>2 ^ 64\<close>, their power is strictly more than two thirds of it. The
  client moves to that header, and its next set is the old one or the one the header commits to.\<close>

theorem light_header_quorum:
  assumes "bridge_reach C reg s" "SubmitBridgeLightHeader C h s = Inr s'"
  shows "\<exists>client client' signers. map_of (bs_LightClients s) (norm_addr (lh_ChainID h)) = Some client \<and>
    map_of (bs_LightClients s') (norm_addr (lh_ChainID h)) = Some client' \<and>
    lh_Height h = lc_Height client + 1 \<and> equal_fold (lh_ParentHash h) (lc_HeaderHash client) \<and>
    distinct signers \<and> set signers \<subseteq> lv_Address ` set (lc_Validators client) \<and>
    (\<forall>a \<in> set signers. countedRow C (bridgeLightHeaderDigest C h) (lh_Signatures h) a) \<and>
    (2 * natPower (lc_Validators client) < 2 ^ 64 \<longrightarrow>
       2 * natPower (lc_Validators client) < 3 * signedNat (lc_Validators client) signers) \<and>
    lc_Height client' = lh_Height h \<and> lc_HeaderHash client' = to_lower (lh_Hash h) \<and>
    (lc_Validators client' = lc_Validators client \<or>
       equal_fold (lh_NextValidatorSetHash h) (BridgeLightValidatorSetHash C (lc_Validators client')))"
proof -
  from bridge_reach_ok [OF assms(1)] have ok: "lightOk s" by simp
  from assms(2) ok show ?thesis
  proof (rule header_accepted)
    fix client :: BridgeLightClient and nxt
    let ?vs = "lc_Validators client"
    let ?signers = "lightSigners C (bridgeLightHeaderDigest C h) ?vs [] (lh_Signatures h)"
    assume c: "map_of (bs_LightClients s) (norm_addr (lh_ChainID h)) = Some client" and vs: "lightSetOk ?vs"
      and hd: "lh_Height h = lc_Height client + 1" "equal_fold (lh_ParentHash h) (lc_HeaderHash client)"
      and q: "\<not> signedPower ?vs ?signers \<le> lightTotal ?vs * 2 div 3"
      and n1: "lh_NextValidators h = [] \<Longrightarrow> nxt = ?vs"
      and n2: "lh_NextValidators h \<noteq> [] \<Longrightarrow> bridgeLightValidators (lh_NextValidators h) = Some nxt \<and>
        equal_fold (lh_NextValidatorSetHash h) (BridgeLightValidatorSetHash C nxt)"
      and s': "\<exists>hs. bs_LightClients s' = mput (norm_addr (lh_ChainID h)) (client\<lparr>lc_Headers := hs, lc_Height := lh_Height h,
        lc_HeaderHash := to_lower (lh_Hash h), lc_Validators := nxt\<rparr>) (bs_LightClients s)"
    have sg: "distinct ?signers" "\<forall>a \<in> set ?signers. lightPower ?vs a \<noteq> 0 \<and> countedRow C (bridgeLightHeaderDigest C h) (lh_Signatures h) a"
      using lightSigners_sound by auto
    then have mem: "set ?signers \<subseteq> lv_Address ` set ?vs" using lightPower_member by fastforce
    have strict: "2 * natPower ?vs < 2 ^ 64 \<Longrightarrow> 2 * natPower ?vs < 3 * signedNat ?vs ?signers"
      using quorum_nat [OF vs _ sg(1) _ q] sg(2) by blast
    from s' obtain client' where c': "map_of (bs_LightClients s') (norm_addr (lh_ChainID h)) = Some client'"
      "lc_Height client' = lh_Height h" "lc_HeaderHash client' = to_lower (lh_Hash h)" "lc_Validators client' = nxt" by fastforce
    have "nxt = ?vs \<or> equal_fold (lh_NextValidatorSetHash h) (BridgeLightValidatorSetHash C nxt)"
      using n1 n2 by blast
    with c c' hd sg mem strict show ?thesis by blast
  qed
qed

text \<open>Four validators of equal power, a primitive that recovers the address written in the signature.\<close>

definition light_crypto :: crypto where
  "light_crypto = \<lparr>sha256 = (\<lambda>_. replicate 32 CHR ''a''), recover = (\<lambda>_ raw. Some (take 42 raw))\<rparr>"

definition lightAddr :: "char \<Rightarrow> string" where "lightAddr c = ''0x'' @ replicate 40 c"

definition lightSet :: "u64 \<Rightarrow> BridgeLightValidator list" where
  "lightSet p = map (\<lambda>c. \<lparr>lv_Address = lightAddr c, lv_Power = p\<rparr>) ''abcd''"

definition lightSig :: "char \<Rightarrow> string \<times> string" where
  "lightSig c = (lightAddr c, hex0x (lightAddr c @ replicate 23 CHR ''.''))"

definition lightTrusted :: "u64 \<Rightarrow> BridgeLightClientConfig" where
  "lightTrusted p = \<lparr>lcc_ChainID = ''bsc'', lcc_TrustedHeight = 7, lcc_TrustedHash = hex0x (replicate 32 CHR ''t''), lcc_Validators = lightSet p\<rparr>"

definition lightNext :: "string \<Rightarrow> BridgeLightHeader" where
  "lightNext signers = \<lparr>lh_ChainID = ''bsc'', lh_Height = 8, lh_ParentHash = hex0x (replicate 32 CHR ''t''),
     lh_Hash = hex0x (replicate 32 CHR ''a''), lh_EventRoot = hex0x (replicate 32 CHR ''r''),
     lh_ValidatorSetHash = hex0x (replicate 32 CHR ''a''), lh_NextValidatorSetHash = hex0x (replicate 32 CHR ''a''),
     lh_NextValidators = [],
     lh_Signatures = map lightSig signers\<rparr>"

definition lightRun :: "u64 \<Rightarrow> string \<Rightarrow> string + BridgeSecurityState" where
  "lightRun p signers = (case configureBridgeLightClient (lightTrusted p) NewBridgeSecurityState of Inl e \<Rightarrow> Inl e
     | Inr s \<Rightarrow> SubmitBridgeLightHeader light_crypto (lightNext signers) s)"

definition lightHeightOf :: "string + BridgeSecurityState \<Rightarrow> u64 option" where
  "lightHeightOf r = (case r of Inl _ \<Rightarrow> None | Inr s \<Rightarrow> map_option lc_Height (map_of (bs_LightClients s) ''bsc''))"

text \<open>A run succeeds exactly when the set is accepted and the signers' power passes the test.\<close>

definition lightQuorum :: "u64 \<Rightarrow> string \<Rightarrow> bool" where
  "lightQuorum p signers \<longleftrightarrow> \<not> signedPower (lightSet p) (lightSigners light_crypto (replicate 32 CHR ''a'') (lightSet p) [] (map lightSig signers))
     \<le> lightTotal (lightSet p) * 2 div 3"

lemma light_run:
  assumes "bridgeLightValidators (lightSet p) = Some (lightSet p)"
  shows "lightHeightOf (lightRun p signers) = (if lightQuorum p signers then Some 8 else None)"
proof -
  have n: "norm_addr ''bsc'' = ''bsc''" "norm_addr (hex0x (replicate 32 CHR ''t'')) = hex0x (replicate 32 CHR ''t'')"
    "length (hex0x (replicate 32 CHR ''t'')) = 66" "length (trim_prefix (hex0x (replicate 32 CHR ''r'')) ''0x'') = 64"
    by code_simp+
  have h: "BridgeLightHeaderHash light_crypto h = hex0x (replicate 32 CHR ''a'')" "bridgeLightHeaderDigest light_crypto h = replicate 32 CHR ''a''" for h
    by (simp_all add: BridgeLightHeaderHash_def bridgeLightHeaderDigest_def light_crypto_def)
  have v: "BridgeLightValidatorSetHash light_crypto (lightSet p) = hex0x (replicate 32 CHR ''a'')"
    by (simp add: BridgeLightValidatorSetHash_def assms light_crypto_def)
  show ?thesis
    using n h v assms by (simp add: lightRun_def lightHeightOf_def configureBridgeLightClient_def lightTrusted_def SubmitBridgeLightHeader_def
        lightNext_def lightQuorum_def NewBridgeSecurityState_def ensureBridge_def Let_def)
qed

lemma light_sets:
  "bridgeLightValidators (lightSet 10) = Some (lightSet 10)"
  "bridgeLightValidators (lightSet 0x2000000000000000) = Some (lightSet 0x2000000000000000)"
  by code_simp+

lemma light_quorums: "lightQuorum 10 ''abc''" "\<not> lightQuorum 10 ''ab''" "lightQuorum 0x2000000000000000 ''a''"
  by code_simp+

lemma light_header_quorum_witness:
  "\<exists>s s' client signers. bridge_reach light_crypto None s \<and> SubmitBridgeLightHeader light_crypto (lightNext ''abc'') s = Inr s' \<and>
     map_of (bs_LightClients s) ''bsc'' = Some client \<and> distinct signers \<and> 2 * natPower (lc_Validators client) < 3 * signedNat (lc_Validators client) signers"
proof -
  have "lightHeightOf (lightRun 10 ''abc'') = Some 8" by (simp add: light_run light_sets light_quorums)
  then obtain s s' where s: "configureBridgeLightClient (lightTrusted 10) NewBridgeSecurityState = Inr s"
    and h: "SubmitBridgeLightHeader light_crypto (lightNext ''abc'') s = Inr s'"
    by (auto simp: lightRun_def lightHeightOf_def split: sum.split_asm)
  have r: "bridge_reach light_crypto None s" by (rule bridge_reach.configure [OF bridge_reach.fresh s])
  have n: "norm_addr (lh_ChainID (lightNext ''abc'')) = ''bsc''" by code_simp
  have "\<exists>c :: BridgeLightClient. map_of (bs_LightClients s) ''bsc'' = Some c \<and> map lv_Power (lc_Validators c) = [10, 10, 10, 10]"
  proof -
    have "map lv_Power (lightSet 10) = [10, 10, 10, 10]" by (simp add: lightSet_def)
    then show ?thesis using s n
      by (auto simp: configureBridgeLightClient_def Let_def lightTrusted_def lightNext_def light_sets split: if_split_asm)
  qed
  then obtain c :: BridgeLightClient where c: "map_of (bs_LightClients s) ''bsc'' = Some c" "map lv_Power (lc_Validators c) = [10, 10, 10, 10]"
    by (elim exE conjE) (rule that)
  have "natPower (lc_Validators c) = sum_list (map unat (map lv_Power (lc_Validators c)))" by (simp add: natPower_def comp_def)
  then have "natPower (lc_Validators c) = 40" unfolding c(2) by simp
  then have small: "2 * natPower (lc_Validators c) < 2 ^ 64" by simp
  from light_header_quorum [OF r h, unfolded n c(1) option.inject] small show ?thesis using r h c(1) by blast
qed

text \<open>The threshold of the light client wraps. A validator set whose total power reaches \<open>2 ^ 63\<close> is accepted, and twice that total
  is zero in \<open>uint64\<close>: with four equal validators the signature of a single one finalizes a header, where with small powers
  two of four do not.\<close>

theorem light_quorum_wraps:
  "lightHeightOf (lightRun 0x2000000000000000 ''a'') = Some 8 \<and> lightHeightOf (lightRun 10 ''ab'') = None"
  by (simp add: light_run light_sets light_quorums)

text \<open>C28: An event proof binds its event. Two Merkle proofs with the same directions that verify against the same root have the same
  leaf and the same siblings, byte for byte, unless at some level the two checks themselves hash two different strings to one digest: such a pair is
  found among the at most 64 strings each of them hashes.\<close>

theorem merkle_proof_binds:
  assumes "\<forall>x. length (sha256 C x) = 32"
    and "verifyBridgeMerkleProof C leaf siblings left rt" "verifyBridgeMerkleProof C leaf' siblings' left rt"
  shows "(leaf = leaf' \<and> map siblingBytes siblings = map siblingBytes siblings') \<or>
    collide C (merkleInputs C leaf (zip siblings left)) (merkleInputs C leaf' (zip siblings' left))"
proof -
  from assms(2) obtain r where r: "merkleFold C leaf (zip siblings left) = Some r" "equal_fold (hex0x r) rt"
    and l: "length leaf = 32" "length siblings = length left" by (auto simp: verifyBridgeMerkleProof_def split: option.split_asm)
  from assms(3) obtain r' where r': "merkleFold C leaf' (zip siblings' left) = Some r'" "equal_fold (hex0x r') rt"
    and l': "length leaf' = 32" "length siblings' = length left" by (auto simp: verifyBridgeMerkleProof_def split: option.split_asm)
  have e: "r' = r" by (rule equal_fold_hex0x [OF r'(2) r(2)])
  have z: "map (siblingBytes \<circ> fst) (zip xs left) = map siblingBytes xs" if "length xs = length left" for xs
    using that by (simp flip: map_map)
  have "map snd (zip siblings left) = map snd (zip siblings' left)" using l l' by simp
  from merkleFold_binds [OF assms(1) r(1) r'(1) [unfolded e] this l(1) l'(1)] show ?thesis
    unfolding z [OF l(2)] z [OF l'(2)] .
qed

definition pair_crypto :: crypto where
  "pair_crypto = \<lparr>sha256 = (\<lambda>s. if s = replicate 32 CHR ''x'' @ replicate 32 CHR ''y'' then replicate 32 CHR ''a'' else replicate 32 CHR ''b''),
     recover = (\<lambda>_ _. None)\<rparr>"

lemma merkle_runs:
  "verifyBridgeMerkleProof pair_crypto (replicate 32 CHR ''x'') [hex0x (replicate 32 CHR ''y'')] [False] (hex0x (replicate 32 CHR ''a''))"
  "verifyBridgeMerkleProof pair_crypto (replicate 32 CHR ''x'') [hex_encode (replicate 32 CHR ''y'')] [False] (hex0x (replicate 32 CHR ''a''))"
  "\<not> verifyBridgeMerkleProof pair_crypto (replicate 32 CHR ''z'') [hex0x (replicate 32 CHR ''y'')] [False] (hex0x (replicate 32 CHR ''a''))"
  "merkleInputs pair_crypto (replicate 32 CHR ''x'') (zip [hex0x (replicate 32 CHR ''y'')] [False]) =
     merkleInputs pair_crypto (replicate 32 CHR ''x'') (zip [hex_encode (replicate 32 CHR ''y'')] [False])"
  by code_simp+

lemma merkle_proof_binds_witness:
  "verifyBridgeMerkleProof pair_crypto (replicate 32 CHR ''x'') [hex0x (replicate 32 CHR ''y'')] [False] (hex0x (replicate 32 CHR ''a'')) \<and>
   verifyBridgeMerkleProof pair_crypto (replicate 32 CHR ''x'') [hex_encode (replicate 32 CHR ''y'')] [False] (hex0x (replicate 32 CHR ''a'')) \<and>
   map siblingBytes [hex0x (replicate 32 CHR ''y'')] = map siblingBytes [hex_encode (replicate 32 CHR ''y'')]"
proof -
  have l: "\<forall>x. length (sha256 pair_crypto x) = 32" by (simp add: pair_crypto_def)
  have "\<not> collide pair_crypto us us" for us by (simp add: collide_def)
  with merkle_proof_binds [OF l merkle_runs(1,2)] merkle_runs(1,2) show ?thesis unfolding merkle_runs(4) by blast
qed

end
