(* ===== verification/BridgeTheorems.thy ===== *)
theory BridgeTheorems
  imports BridgeLight
begin

text \<open>
  What the attestation policy of the bridge guarantees and what it lets through, over the reachable security states
  of \<open>BridgeLight\<close>; and the request book of \<open>bridge.go\<close>.
\<close>

section \<open>Authorisation\<close>

text \<open>A fresh authorisation under enforced attestations, taken apart.\<close>

lemma authorize_fresh:
  assumes "authorizeBridgeExecutionLocked C reg now paused req s = Inr s'"
    and "rp_EnforceAttestations (bs_Policy s)" "\<not> flag (bs_Authorized s) (br_ID req)"
  obtains amount k first rest where
    "\<not> paused" "rp_RequireLightClientProof (bs_Policy s) \<Longrightarrow> flag (bs_ProofAuthorized s) (br_ID req)"
    "attestations_of s (br_ID req) = (k, first) # rest"
    "rp_RequiredSigners (bs_Policy (ensureBridge s)) \<le> int (length (attestations_of s (br_ID req)))"
    "NewAmountFromString (br_Amount req) = Some amount" "0 < amount"
    "minConfirmations reg (bridgeChainRiskKey req) \<le> at_Confirmations first"
    "\<not> overCap (rp_PerTransactionCaps (bs_Policy s)) (bridgeChainRiskKey req) amount"
    "\<not> overCap (rp_AssetTransactionCaps (bs_Policy s)) (bridgeChainRiskKey req @ '':'' @ norm_addr (br_Token req)) amount"
    "\<not> overCap (rp_DailyCaps (bs_Policy s)) (bridgeChainRiskKey req)
       (volume_at (bs_DailyVolume s) (bridgeChainRiskKey req @ '':'' @ dayString now) + amount)"
    "\<not> overCap (rp_AssetDailyCaps (bs_Policy s)) (bridgeChainRiskKey req @ '':'' @ norm_addr (br_Token req))
       (volume_at (bs_DailyVolume s) ((bridgeChainRiskKey req @ '':'' @ norm_addr (br_Token req)) @ '':'' @ dayString now) + amount)"
    "\<not> overCap (rp_HourlyCaps (bs_Policy s)) (bridgeChainRiskKey req)
       (volume_at (bs_HourlyVolume s) (bridgeChainRiskKey req @ '':'' @ hourString now) + amount)"
    "bs_Policy s' = bs_Policy (ensureBridge s)"
    "bs_DailyVolume s' = (let day = bridgeChainRiskKey req @ '':'' @ dayString now;
       assetDay = (bridgeChainRiskKey req @ '':'' @ norm_addr (br_Token req)) @ '':'' @ dayString now in
       mput assetDay (volume_at (bs_DailyVolume s) assetDay + amount) (mput day (volume_at (bs_DailyVolume s) day + amount) (bs_DailyVolume s)))"
    "bs_HourlyVolume s' = mput (bridgeChainRiskKey req @ '':'' @ hourString now)
       (volume_at (bs_HourlyVolume s) (bridgeChainRiskKey req @ '':'' @ hourString now) + amount) (bs_HourlyVolume s)"
    "flag (bs_Authorized s') (br_ID req)" "flag (bs_Consumed s') (bridgeEventKey C first)"
proof -
  have p: "rp_EnforceAttestations (bs_Policy (ensureBridge s)) = rp_EnforceAttestations (bs_Policy s)"
    "rp_RequireLightClientProof (bs_Policy (ensureBridge s)) = rp_RequireLightClientProof (bs_Policy s)"
    "rp_PerTransactionCaps (bs_Policy (ensureBridge s)) = rp_PerTransactionCaps (bs_Policy s)"
    "rp_AssetTransactionCaps (bs_Policy (ensureBridge s)) = rp_AssetTransactionCaps (bs_Policy s)"
    "rp_DailyCaps (bs_Policy (ensureBridge s)) = rp_DailyCaps (bs_Policy s)"
    "rp_AssetDailyCaps (bs_Policy (ensureBridge s)) = rp_AssetDailyCaps (bs_Policy s)"
    "rp_HourlyCaps (bs_Policy (ensureBridge s)) = rp_HourlyCaps (bs_Policy s)"
    by (simp_all add: ensureBridge_def ensurePolicyBridge_def)
  have a: "attestations_of (ensureBridge s) i = attestations_of s i" for i by (simp add: attestations_of_def)
  from assms show thesis
    by (auto simp: authorizeBridgeExecutionLocked_def Let_def p a not_less
        split: if_split_asm option.split_asm list.split_asm prod.split_asm intro!: that)
qed

text \<open>What an amount books: it is within a chain's and an asset's cap for one transfer, the volumes of the chain and of the asset on this day and of the chain in
  this hour grow by exactly it, no other volume changes, and all three stay within their caps.\<close>

definition booked_within_caps :: "BridgeRiskPolicy \<Rightarrow> int \<Rightarrow> BridgeRequest \<Rightarrow> int \<Rightarrow> BridgeSecurityState \<Rightarrow> BridgeSecurityState \<Rightarrow> bool" where
  "booked_within_caps p now req amount s s' \<longleftrightarrow>
     (let chain = bridgeChainRiskKey req; asset = chain @ '':'' @ norm_addr (br_Token req);
        day = chain @ '':'' @ dayString now; assetDay = asset @ '':'' @ dayString now; hour = chain @ '':'' @ hourString now in
      \<not> overCap (rp_PerTransactionCaps p) chain amount \<and> \<not> overCap (rp_AssetTransactionCaps p) asset amount \<and>
      (\<forall>x. volume_at (bs_DailyVolume s') x = volume_at (bs_DailyVolume s) x + (if x = day \<or> x = assetDay then amount else 0)) \<and>
      (\<forall>x. volume_at (bs_HourlyVolume s') x = volume_at (bs_HourlyVolume s) x + (if x = hour then amount else 0)) \<and>
      \<not> overCap (rp_DailyCaps p) chain (volume_at (bs_DailyVolume s') day) \<and>
      \<not> overCap (rp_AssetDailyCaps p) asset (volume_at (bs_DailyVolume s') assetDay) \<and>
      \<not> overCap (rp_HourlyCaps p) chain (volume_at (bs_HourlyVolume s') hour))"

text \<open>C26: Authorisation by attestations. In every reachable state in which attestations are enforced, a request that was not yet
  authorised is authorised only while the bridge is not paused, with its light-client proof where the policy asks for one, and on at least the required
  number of different signers, each with a signature that recovers to him, all over one source event, which is consumed and whose confirmations, as the
  first attestation reports them, are enough for the chain. Its amount is positive and within all five caps: per transfer for the chain and for the asset, per day for the
  chain and for the asset, per hour for the chain; and the volumes grow by exactly that amount.\<close>

theorem bridge_threshold:
  assumes "bridge_reach C reg s" "rp_EnforceAttestations (bs_Policy s)" "\<not> flag (bs_Authorized s) (br_ID req)"
    and "authorizeBridgeExecutionLocked C reg now paused req s = Inr s'"
  shows "\<not> paused \<and> flag (bs_Authorized s') (br_ID req) \<and>
    (rp_RequireLightClientProof (bs_Policy s') \<longrightarrow> flag (bs_ProofAuthorized s) (br_ID req)) \<and>
    (\<exists>signers e amount. distinct signers \<and> rp_RequiredSigners (bs_Policy s') \<le> int (length signers) \<and>
      0 < rp_RequiredSigners (bs_Policy s') \<and>
      (\<forall>k \<in> set signers. \<exists>a. at_Signer a = k \<and> VerifyBridgeAttestation C a \<and> sameEvent a e) \<and>
      flag (bs_Consumed s') (bridgeEventKey C e) \<and> minConfirmations reg (bridgeChainRiskKey req) \<le> at_Confirmations e \<and>
      NewAmountFromString (br_Amount req) = Some amount \<and> 0 < amount \<and> booked_within_caps (bs_Policy s') now req amount s s')"
proof -
  from bridge_reach_ok [OF assms(1)] have ok: "attestationsOk C (attestations_of s (br_ID req))" by (simp add: attestOk_of)
  let ?signers = "map fst (attestations_of s (br_ID req))"
  have neq: "bridgeChainRiskKey req @ CHR '':'' # dayString now \<noteq>
      bridgeChainRiskKey req @ CHR '':'' # norm_addr (br_Token req) @ CHR '':'' # dayString now"
    by (auto dest: arg_cong [where f = length])
  from assms(4,2,3) show ?thesis
  proof (rule authorize_fresh)
    fix amount k first rest
    assume f: "attestations_of s (br_ID req) = (k, first) # rest"
      and n: "rp_RequiredSigners (bs_Policy (ensureBridge s)) \<le> int (length (attestations_of s (br_ID req)))"
      and rest: "\<not> paused" "rp_RequireLightClientProof (bs_Policy s) \<Longrightarrow> flag (bs_ProofAuthorized s) (br_ID req)"
        "NewAmountFromString (br_Amount req) = Some amount" "0 < amount" "minConfirmations reg (bridgeChainRiskKey req) \<le> at_Confirmations first"
        "flag (bs_Authorized s') (br_ID req)" "flag (bs_Consumed s') (bridgeEventKey C first)"
      and pol: "bs_Policy s' = bs_Policy (ensureBridge s)"
      and vol: "bs_DailyVolume s' = (let day = bridgeChainRiskKey req @ '':'' @ dayString now;
          assetDay = (bridgeChainRiskKey req @ '':'' @ norm_addr (br_Token req)) @ '':'' @ dayString now in
          mput assetDay (volume_at (bs_DailyVolume s) assetDay + amount) (mput day (volume_at (bs_DailyVolume s) day + amount) (bs_DailyVolume s)))"
        "bs_HourlyVolume s' = mput (bridgeChainRiskKey req @ '':'' @ hourString now)
          (volume_at (bs_HourlyVolume s) (bridgeChainRiskKey req @ '':'' @ hourString now) + amount) (bs_HourlyVolume s)"
      and caps: "\<not> overCap (rp_PerTransactionCaps (bs_Policy s)) (bridgeChainRiskKey req) amount"
        "\<not> overCap (rp_AssetTransactionCaps (bs_Policy s)) (bridgeChainRiskKey req @ '':'' @ norm_addr (br_Token req)) amount"
        "\<not> overCap (rp_DailyCaps (bs_Policy s)) (bridgeChainRiskKey req)
          (volume_at (bs_DailyVolume s) (bridgeChainRiskKey req @ '':'' @ dayString now) + amount)"
        "\<not> overCap (rp_AssetDailyCaps (bs_Policy s)) (bridgeChainRiskKey req @ '':'' @ norm_addr (br_Token req))
          (volume_at (bs_DailyVolume s) ((bridgeChainRiskKey req @ '':'' @ norm_addr (br_Token req)) @ '':'' @ dayString now) + amount)"
        "\<not> overCap (rp_HourlyCaps (bs_Policy s)) (bridgeChainRiskKey req)
          (volume_at (bs_HourlyVolume s) (bridgeChainRiskKey req @ '':'' @ hourString now) + amount)"
    have same: "rp_PerTransactionCaps (bs_Policy s') = rp_PerTransactionCaps (bs_Policy s)"
      "rp_AssetTransactionCaps (bs_Policy s') = rp_AssetTransactionCaps (bs_Policy s)"
      "rp_DailyCaps (bs_Policy s') = rp_DailyCaps (bs_Policy s)" "rp_HourlyCaps (bs_Policy s') = rp_HourlyCaps (bs_Policy s)"
      "rp_AssetDailyCaps (bs_Policy s') = rp_AssetDailyCaps (bs_Policy s)"
      "rp_RequireLightClientProof (bs_Policy s') = rp_RequireLightClientProof (bs_Policy s)" "0 < rp_RequiredSigners (bs_Policy s')"
      by (simp_all add: pol ensureBridge_def ensurePolicyBridge_def)
    have b: "booked_within_caps (bs_Policy s') now req amount s s'"
      using caps neq by (auto simp: booked_within_caps_def Let_def same vol volume_at_def)
    from ok have d: "distinct ?signers" by (simp add: attestationsOk_def)
    from ok f have "\<forall>k \<in> set ?signers. \<exists>a. at_Signer a = k \<and> VerifyBridgeAttestation C a \<and> sameEvent a first"
      by (fastforce simp: attestationsOk_def)
    with d n rest same b show ?thesis
      by (intro conjI exI [of _ ?signers] exI [of _ first] exI [of _ amount] impI) (simp_all add: pol)
  qed
qed

section \<open>A run with three signers\<close>

definition att_crypto :: crypto where
  "att_crypto = \<lparr>sha256 = (\<lambda>s. take 8 s), recover = (\<lambda>_ raw. Some (take 2 raw))\<rparr>"

definition demo_policy :: BridgeRiskPolicy where
  "demo_policy = (bs_Policy NewBridgeSecurityState)\<lparr>rp_EnforceAttestations := True,
     rp_AllowedSigners := [(''s1'', True), (''s2'', True), (''s3'', True)], rp_DailyCaps := [(''bsc'', ''100'')]\<rparr>"

definition demo_requests :: requests where
  "demo_requests = AddBridgeRequestChain (\<lambda>_ _ _ _ _ _ _. Some ([], [], [], [])) None 1000 ''bsc'' ''0xt'' ''usdt'' ''alice'' ''bob'' (Some 40) []"

definition demo_attestation :: "string \<Rightarrow> BridgeAttestation" where
  "demo_attestation k = \<lparr>at_RequestID = ''0xt'', at_SourceChainID = ''bsc'', at_SourceTxHash = ''0xt'', at_SourceBlockHash = ''b'',
     at_EventIndex = ''0'', at_Confirmations = 12, at_ObservedAt = 1000, at_Signer = k, at_Signature = hex_encode (k @ replicate 63 CHR ''.'')\<rparr>"

fun attestAll :: "crypto \<Rightarrow> int \<Rightarrow> requests \<Rightarrow> BridgeAttestation list \<Rightarrow> BridgeSecurityState \<Rightarrow> string + BridgeSecurityState" where
  "attestAll C now reqs [] s = Inr s"
| "attestAll C now reqs (a # as) s = (case SubmitBridgeAttestation C True now reqs a s of Inl e \<Rightarrow> Inl e | Inr s' \<Rightarrow> attestAll C now reqs as s')"

lemma attestAll_reach: "bridge_reach C reg s \<Longrightarrow> attestAll C now reqs as s = Inr s' \<Longrightarrow> bridge_reach C reg s'"
  by (induction as arbitrary: s) (auto split: sum.split_asm intro: bridge_reach.attest)

definition demo_secure :: BridgeSecurityState where
  "demo_secure = ensureBridge (NewBridgeSecurityState\<lparr>bs_Policy := demo_policy\<rparr>)"

definition attested :: "string list \<Rightarrow> string + BridgeSecurityState" where
  "attested ks = attestAll att_crypto 1000 demo_requests (map demo_attestation ks) demo_secure"

definition demo_request :: BridgeRequest where
  "demo_request = snd (hd demo_requests)"

definition authorised :: "string list \<Rightarrow> int option" where
  "authorised ks = (case attested ks of Inl _ \<Rightarrow> None | Inr s \<Rightarrow>
     (case authorizeBridgeExecutionLocked att_crypto None 1000 False demo_request s of Inl _ \<Rightarrow> None
      | Inr s' \<Rightarrow> Some (volume_at (bs_DailyVolume s') ''bsc:1970-01-01'')))"

lemma bridge_runs: "authorised [''s1'', ''s2'', ''s3''] = Some 40" "authorised [''s1'', ''s2'', ''s2''] = None"
  by code_simp+

lemma attested_flags:
  "(case attested [''s1'', ''s2'', ''s3''] of Inl _ \<Rightarrow> False
    | Inr s \<Rightarrow> rp_EnforceAttestations (bs_Policy s) \<and> bs_Authorized s = [] \<and> rp_RequiredSigners (bs_Policy s) = 3)"
  by code_simp

lemma bridge_threshold_witness:
  "\<exists>s s' (signers :: string list) e. bridge_reach att_crypto None s \<and> authorizeBridgeExecutionLocked att_crypto None 1000 False demo_request s = Inr s' \<and>
     distinct signers \<and> 0 < rp_RequiredSigners (bs_Policy s') \<and> rp_RequiredSigners (bs_Policy s') \<le> int (length signers) \<and>
     flag (bs_Consumed s') (bridgeEventKey att_crypto e)"
proof -
  from bridge_runs(1) obtain s s' where a: "attested [''s1'', ''s2'', ''s3''] = Inr s"
    and z: "authorizeBridgeExecutionLocked att_crypto None 1000 False demo_request s = Inr s'"
    by (auto simp: authorised_def split: sum.split_asm)
  have "bridge_reach att_crypto None demo_secure"
    unfolding demo_secure_def by (rule bridge_reach.policy [OF bridge_reach.fresh])
  with a have r: "bridge_reach att_crypto None s" unfolding attested_def by (rule attestAll_reach [rotated])
  from attested_flags a have e: "rp_EnforceAttestations (bs_Policy s)" "\<not> flag (bs_Authorized s) (br_ID demo_request)" by simp_all
  from bridge_threshold [OF r e z] r z show ?thesis by blast
qed

text \<open>What the policy check lets through. A policy with one signer under three spellings counts as three independent signers, yet
  only the lower-case spelling can ever attest, so its threshold is never met; and a cap written with a blank in front passes
  the check but limits nothing.\<close>

definition spelled_policy :: BridgeRiskPolicy where
  "spelled_policy = demo_policy\<lparr>rp_AllowedSigners := [(''sa'', True), (''sA'', True), (''SA'', True)], rp_DailyCaps := [(''bsc'', '' 5'')]\<rparr>"

theorem bridge_policy_gaps:
  "BridgeRiskPolicy_Validate spelled_policy = None \<and>
   (\<forall>C legacy now reqs a s s'. bs_Policy s = spelled_policy \<longrightarrow> SubmitBridgeAttestation C legacy now reqs a s = Inr s' \<longrightarrow>
      to_lower (at_Signer a) = ''sa'') \<and>
   \<not> overCap (rp_DailyCaps spelled_policy) ''bsc'' 1000000"
proof (intro conjI allI impI)
  show "BridgeRiskPolicy_Validate spelled_policy = None" by code_simp
  show "\<not> overCap (rp_DailyCaps spelled_policy) ''bsc'' 1000000" by code_simp
next
  fix C legacy now reqs a s s'
  assume p: "bs_Policy s = spelled_policy" and sub: "SubmitBridgeAttestation C legacy now reqs a s = Inr s'"
  have l: "to_lower x \<noteq> y" if "to_lower y \<noteq> y" for x y using that by (metis to_lower_idem)
  have u: "to_lower ''sA'' \<noteq> ''sA''" "to_lower ''SA'' \<noteq> ''SA''" by code_simp+
  from sub have "flag (rp_AllowedSigners (bs_Policy (ensureRuntimeBridge legacy s))) (to_lower (at_Signer a))"
    by (auto simp: SubmitBridgeAttestation_def Let_def split: if_split_asm)
  also have "rp_AllowedSigners (bs_Policy (ensureRuntimeBridge legacy s)) = [(''sa'', True), (''sA'', True), (''SA'', True)]"
    by (simp add: ensureRuntimeBridge_def ensureBridge_def ensurePolicyBridge_def Let_def p spelled_policy_def)
  finally show "to_lower (at_Signer a) = ''sa''" using l [OF u(1)] l [OF u(2)] by (auto split: if_split_asm)
qed

end
