(* ===== verification/Governance.thy ===== *)
theory Governance
  imports BridgeLight ArbAuction
begin

text \<open>
  Governance (\<open>governance.go\<close>, \<open>governance_transactions.go\<close>), the slashing cases it adjudicates
  (\<open>consensus_safety.go\<close>, \<open>slashValidatorAt\<close> of \<open>validator.go\<close>) and the oracle and pair policies it sets
  (\<open>liquidity_policy.go\<close>). \<open>gov_world\<close> holds the fields of \<open>Blockchain_struct\<close> these operations touch.
  A handler returns the new state with the error it reports, if any. The wall clock (\<open>now\<close>), the two
  environment settings of the penalties and the JSON decoders are arguments.
\<close>

section \<open>Data\<close>

record GovernanceAction =
  ga_Module :: string
  ga_Parameter :: string
  ga_Value :: string

record GovernanceVote =
  gv_Voter :: string
  gv_Choice :: string
  gv_Power :: f64

record GovernanceProposal =
  gp_ID :: string
  gp_Proposer :: string
  gp_Title :: string
  gp_DescriptionHash :: string
  gp_Actions :: "GovernanceAction list"
  gp_StartHeight :: u64
  gp_EndHeight :: u64
  gp_ExecuteHeight :: u64
  gp_Status :: string
  gp_SnapshotPower :: "(string, f64) gomap"
  gp_Votes :: "(string, GovernanceVote) gomap"
  gp_ForPower :: f64
  gp_AgainstPower :: f64
  gp_AbstainPower :: f64
  gp_VetoApprovals :: "(string, bool) gomap"

record GuardianAction =
  gu_ID :: string
  gu_Module :: string
  gu_ExpiresAtHeight :: u64
  gu_Approvals :: "(string, bool) gomap"
  gu_Executed :: bool

record GovernanceAuditEvent =
  au_Height :: u64
  au_Operation :: string
  au_Actor :: string
  au_ProposalID :: string
  au_Detail :: string

record GovernanceState =
  gs_Proposals :: "(string, GovernanceProposal) gomap"
  gs_VotingPeriodBlocks :: u64
  gs_TimelockBlocks :: u64
  gs_QuorumBPS :: int
  gs_ApprovalBPS :: int
  gs_Guardian :: string
  gs_GuardianExpiryBlock :: u64
  gs_Nonce :: u64
  gs_Guardians :: "(string, bool) gomap"
  gs_GuardianThreshold :: int
  gs_GuardianActions :: "(string, GuardianAction) gomap"
  gs_AuditTrail :: "GovernanceAuditEvent list"
  gs_Delegations :: "(string, string) gomap"
  gs_SlashingCouncil :: "(string, bool) gomap"
  gs_SlashingCouncilThreshold :: int
  gs_SlashingCouncilExpiryBlock :: u64

record GovernanceTxPayload =
  pl_Operation :: string
  pl_ProposalID :: string
  pl_Title :: string
  pl_DescriptionHash :: string
  pl_Actions :: "GovernanceAction list"
  pl_Choice :: string
  pl_ReasonHash :: string
  pl_Module :: string
  pl_ActionID :: string
  pl_ExpiresAtHeight :: u64
  pl_Delegatee :: string
  pl_CaseID :: string
  pl_Decision :: string

record SlashingCouncilVote =
  sv_Decision :: string
  sv_ReasonHash :: string
  sv_Height :: u64

record SlashingCase =
  sc_ID :: string
  sc_Validator :: string
  sc_EvidenceHash :: string
  sc_Reason :: string
  sc_Penalty :: f64
  sc_OpenedHeight :: u64
  sc_ChallengeUntil :: u64
  sc_Status :: string
  sc_AppealHash :: string
  sc_GovernanceID :: string
  sc_ResolvedAt :: int
  sc_CouncilVotes :: "(string, SlashingCouncilVote) gomap"
  sc_CouncilDecision :: string

record PairRiskPolicy =
  pp_PairAddress :: string
  pp_RiskClass :: string
  pp_CorrelatedGroup :: string
  pp_ApprovedAtHeight :: u64
  pp_ActiveAfterHeight :: u64
  pp_MaxExposureBPS :: int
  pp_RecoveryDelaySec :: int
  pp_CircuitTrippedAt :: int
  pp_Enabled :: bool

record OracleUpdatePayload =
  ou_Asset :: string
  ou_Source :: string
  ou_PriceUSD :: f64
  ou_Confidence :: f64
  ou_ObservedAt :: int
  ou_Nonce :: u64

record OracleObservation =
  ob_Asset :: string
  ob_Source :: string
  ob_PriceUSD :: f64
  ob_Confidence :: f64
  ob_Timestamp :: int

text \<open>The validator with the fields a penalty writes on top of those of \<open>ConsensusPower\<close>; times are Unix seconds.\<close>

record PenalizedValidator = Validator +
  v_LastPenaltyAt :: int
  v_JailedUntil :: int
  v_SlashReason :: string

record gov_world =
  gw_Gov :: GovernanceState
  gw_Policy :: EconomicPolicy
  gw_Pauses :: "(string, bool) gomap"
  gw_Consensus :: BFTConsensusState
  gw_Publishers :: "(string, string) gomap"
  gw_OracleNonces :: "(string, u64) gomap"
  gw_Observations :: "(string, (string, OracleObservation) gomap) gomap"
  gw_Pairs :: "(string, PairRiskPolicy) gomap"
  gw_Arb :: ProtocolArbPolicy
  gw_Bridge :: BridgeSecurityState
  gw_Cases :: "(string, SlashingCase) gomap"
  gw_Validators :: "PenalizedValidator option list"
  gw_SlashingPool :: f64
  gw_MinStake :: f64
  gw_Blocks :: "(u64 \<times> u64) list"
  gw_AllowLegacyFinality :: bool

text \<open>
  \<open>json.Unmarshal\<close> into the payloads: \<open>None\<close> is an error. \<open>members\<close> are the members, threshold and expiry of a
  multisig configuration.
\<close>

record gov_json =
  json_payload :: "string \<Rightarrow> GovernanceTxPayload option"
  json_pair :: "string \<Rightarrow> PairRiskPolicy option"
  json_members :: "string \<Rightarrow> (string list \<times> int \<times> u64) option"
  json_bridge :: "string \<Rightarrow> BridgeRiskPolicy option"
  json_light :: "string \<Rightarrow> BridgeLightClientConfig option"
  json_oracle :: "string \<Rightarrow> OracleUpdatePayload option"

type_synonym gov_result = "gov_world \<times> string option"

definition NewGovernanceState :: GovernanceState where
  "NewGovernanceState = \<lparr>gs_Proposals = [], gs_VotingPeriodBlocks = 1000, gs_TimelockBlocks = 500, gs_QuorumBPS = 4000,
     gs_ApprovalBPS = 5001, gs_Guardian = [], gs_GuardianExpiryBlock = 0, gs_Nonce = 0, gs_Guardians = [],
     gs_GuardianThreshold = 2, gs_GuardianActions = [], gs_AuditTrail = [], gs_Delegations = [], gs_SlashingCouncil = [],
     gs_SlashingCouncilThreshold = 0, gs_SlashingCouncilExpiryBlock = 0\<rparr>"

section \<open>EnsureRuntimeState\<close>

definition ensureEconomicPolicy :: "EconomicPolicy \<Rightarrow> EconomicPolicy" where
  "ensureEconomicPolicy q = (let d = DefaultEconomicPolicy; p = (if ep_InsuranceBPS q = 0 then d else q) in
     p\<lparr>ep_IssuanceCap := (if ep_IssuanceCap p = [] then ep_IssuanceCap d else ep_IssuanceCap p),
       ep_TreasuryDeployCapBPS := (if ep_TreasuryDeployCapBPS p = 0 then ep_TreasuryDeployCapBPS d else ep_TreasuryDeployCapBPS p),
       ep_LQDExposureCapBPS := (if ep_LQDExposureCapBPS p = 0 then ep_LQDExposureCapBPS d else ep_LQDExposureCapBPS p)\<rparr>)"

lemma ensure_economic: "es_Policy (ensurePolicy s) = ensureEconomicPolicy (es_Policy s)"
  by (simp add: ensurePolicy_def ensureEconomicPolicy_def Let_def)

definition ensureGov :: "GovernanceState \<Rightarrow> GovernanceState" where
  "ensureGov g = g\<lparr>gs_GuardianThreshold := (if gs_GuardianThreshold g \<le> 0
     then (if length (gs_Guardians g) \<le> 1 then 1 else 2) else gs_GuardianThreshold g)\<rparr>"

text \<open>
  The repairs to the fields of \<open>gov_world\<close>. The guardian map is never nil after the first repair, so the
  fallback to the single legacy guardian has no case here.
\<close>

definition ensureWorld :: "gov_world \<Rightarrow> gov_world" where
  "ensureWorld w = w\<lparr>gw_Gov := ensureGov (gw_Gov w), gw_Policy := ensureEconomicPolicy (gw_Policy w),
     gw_Consensus := ensure (gw_Consensus w), gw_Arb := ensureArbPolicy (gw_Arb w),
     gw_Bridge := ensureRuntimeBridge (gw_AllowLegacyFinality w) (gw_Bridge w)\<rparr>"

section \<open>Voting power and delegation\<close>

definition governanceProposalID :: "crypto \<Rightarrow> string \<Rightarrow> string \<Rightarrow> u64 \<Rightarrow> string" where
  "governanceProposalID C proposer title nonce = ''gov_'' @ hex_encode (take 12 (sha256 C
     (to_lower proposer @ ''|'' @ trim_space title @ ''|'' @ u64_str nonce)))"

definition delegate_of :: "(string, string) gomap \<Rightarrow> string \<Rightarrow> string" where
  "delegate_of d k = (case map_of d k of None \<Rightarrow> [] | Some v \<Rightarrow> norm_addr v)"

definition power_at :: "(string, f64) gomap \<Rightarrow> string \<Rightarrow> f64" where
  "power_at m k = (case map_of m k of None \<Rightarrow> Fin 0 | Some p \<Rightarrow> p)"

text \<open>The walk to the account that votes for \<open>owner\<close>, at most \<open>n\<close> hops and never to an account seen before.\<close>

fun sinkOf :: "(string, string) gomap \<Rightarrow> nat \<Rightarrow> string list \<Rightarrow> string \<Rightarrow> string" where
  "sinkOf d 0 seen destination = destination"
| "sinkOf d (Suc n) seen destination = (let nxt = delegate_of d destination in
     if nxt = [] \<or> nxt \<in> set seen then destination else sinkOf d n (nxt # seen) nxt)"

definition powerMap :: "ValidatorPower list \<Rightarrow> (string, f64) gomap" where
  "powerMap vs = fold (\<lambda>v. mput (to_lower (vp_Address v)) (vp_Power v)) vs []"

definition delegatedPower :: "(string, string) gomap \<Rightarrow> (string, f64) gomap \<Rightarrow> (string, f64) gomap" where
  "delegatedPower d pw = fold (\<lambda>(owner, amount) m. let k = sinkOf d 64 [owner] owner in
     mput k (fadd (power_at m k) amount) m) pw []"

definition governancePowerSnapshot :: "int \<Rightarrow> gov_world \<Rightarrow> (string, f64) gomap" where
  "governancePowerSnapshot now w =
     (let pw = powerMap (buildValidatorPowerSet now (gw_MinStake w) (map (map_option Validator.truncate) (gw_Validators w))) in
      if gs_Delegations (gw_Gov w) = [] then pw else delegatedPower (gs_Delegations (gw_Gov w)) pw)"

section \<open>Actions\<close>

definition allowedActions :: "(string \<times> string list) list" where
  "allowedActions = [
     (''economics'', [''insurance_bps'', ''lp_yield_bps'', ''operations_bps'', ''buyback_bps'', ''buyback_enabled'',
        ''min_insurance_balance'', ''issuance_cap'', ''treasury_deployment_cap_bps'', ''lqd_exposure_cap_bps'']),
     (''consensus'', [''round_timeout_seconds'', ''max_liquidity_credit_bps'']),
     (''safety'', [''bridge_paused'', ''vault_paused'', ''router_paused'']),
     (''oracle'', [''publisher'']),
     (''liquidity'', [''pair_policy'']),
     (''protocol_arb'', [''enabled'', ''max_capital_bps'', ''min_profit_bps'']),
     (''governance'', [''guardian_config'', ''slashing_council'']),
     (''bridge'', [''risk_policy'', ''light_client''])]"

definition validateGovernanceAction :: "GovernanceAction \<Rightarrow> string option" where
  "validateGovernanceAction a = (case map_of allowedActions (norm_addr (ga_Module a)) of
     None \<Rightarrow> Some ''unsupported governance action''
   | Some ps \<Rightarrow> if norm_addr (ga_Parameter a) \<in> set ps then None else Some ''unsupported governance action'')"

definition parseGovernanceInt :: "string \<Rightarrow> int option" where
  "parseGovernanceInt v = (case parse_int10 (trim_space v) of None \<Rightarrow> None | Some n \<Rightarrow> if is_i64 n then Some n else None)"

definition PairRiskPolicy_Validate :: "PairRiskPolicy \<Rightarrow> string option" where
  "PairRiskPolicy_Validate p =
     (if trim_space (pp_PairAddress p) = [] \<or> pp_ActiveAfterHeight p \<le> pp_ApprovedAtHeight p \<or> pp_MaxExposureBPS p < 100 \<or>
         10000 < pp_MaxExposureBPS p \<or> pp_RecoveryDelaySec p < 60
      then Some ''invalid pair onboarding/risk policy''
      else if to_lower (pp_RiskClass p) \<in> {''bluechip'', ''stable'', ''longtail'', ''experimental''} then None
      else Some ''unsupported asset risk class'')"

definition trim_suffix :: "string \<Rightarrow> string \<Rightarrow> string" where
  "trim_suffix s suf = (if rev (take (length suf) (rev s)) = suf then take (length s - length suf) s else s)"

text \<open>\<open>strings.SplitN(v, ",", 2)\<close> with two parts.\<close>

definition cut_comma :: "string \<Rightarrow> (string \<times> string) option" where
  "cut_comma v = (case dropWhile (\<lambda>c. c \<noteq> CHR '','') v of [] \<Rightarrow> None
     | _ # rest \<Rightarrow> Some (takeWhile (\<lambda>c. c \<noteq> CHR '','') v, rest))"

definition applyEconomics :: "string \<Rightarrow> string \<Rightarrow> EconomicPolicy \<Rightarrow> string + EconomicPolicy" where
  "applyEconomics parameter v p =
     (if parameter = ''buyback_enabled'' then Inr (p\<lparr>ep_BuybackEnabled := equal_fold v ''true''\<rparr>)
      else if parameter = ''min_insurance_balance'' then Inr (p\<lparr>ep_MinInsuranceBalance := v\<rparr>)
      else if parameter = ''issuance_cap'' then Inr (p\<lparr>ep_IssuanceCap := v\<rparr>)
      else case parseGovernanceInt v of None \<Rightarrow> Inl ''invalid integer'' | Some n \<Rightarrow> Inr
        (if parameter = ''insurance_bps'' then p\<lparr>ep_InsuranceBPS := n\<rparr>
         else if parameter = ''lp_yield_bps'' then p\<lparr>ep_LPYieldBPS := n\<rparr>
         else if parameter = ''operations_bps'' then p\<lparr>ep_OperationsBPS := n\<rparr>
         else if parameter = ''buyback_bps'' then p\<lparr>ep_BuybackBPS := n\<rparr>
         else if parameter = ''treasury_deployment_cap_bps'' then p\<lparr>ep_TreasuryDeployCapBPS := n\<rparr>
         else if parameter = ''lqd_exposure_cap_bps'' then p\<lparr>ep_LQDExposureCapBPS := n\<rparr> else p))"

definition applyConsensus :: "string \<Rightarrow> string \<Rightarrow> BFTConsensusState \<Rightarrow> string + BFTConsensusState" where
  "applyConsensus parameter v s = (case parseGovernanceInt v of None \<Rightarrow> Inl ''invalid integer'' | Some n \<Rightarrow>
     if parameter = ''round_timeout_seconds'' then
       (if n < 2 \<or> 120 < n then Inl ''round timeout out of range'' else Inr (s\<lparr>RoundTimeoutSeconds := n\<rparr>))
     else if parameter = ''max_liquidity_credit_bps'' then
       (if n < 0 \<or> 5000 < n then Inl ''liquidity credit cap out of range'' else Inr (s\<lparr>MaxLiquidityCreditBPS := of_int n\<rparr>))
     else Inr s)"

definition applyArb :: "string \<Rightarrow> string \<Rightarrow> ProtocolArbPolicy \<Rightarrow> string + ProtocolArbPolicy" where
  "applyArb parameter v p =
     (if parameter = ''enabled'' then Inr (p\<lparr>ap_Enabled := equal_fold v ''true''\<rparr>)
      else case parseGovernanceInt v of None \<Rightarrow> Inl ''invalid integer'' | Some n \<Rightarrow>
      if parameter = ''max_capital_bps'' then
        (if n < 1 \<or> 1000 < n then Inl ''arb capital cap out of range'' else Inr (p\<lparr>ap_MaxCapitalBPS := n\<rparr>))
      else if parameter = ''min_profit_bps'' then
        (if n < 1 \<or> 1000 < n then Inl ''arb profit threshold out of range'' else Inr (p\<lparr>ap_MinProfitBPS := n\<rparr>))
      else Inr p)"

definition memberMap :: "string list \<Rightarrow> (string, bool) gomap" where
  "memberMap ms = fold (\<lambda>m. mput (to_lower m) True) ms []"

definition applyMembers :: "gov_json \<Rightarrow> string \<Rightarrow> string \<Rightarrow> GovernanceState \<Rightarrow> string + GovernanceState" where
  "applyMembers J parameter v g =
     (if parameter \<noteq> ''guardian_config'' \<and> parameter \<noteq> ''slashing_council'' then Inl ''unsupported governance configuration''
      else case json_members J v of None \<Rightarrow> Inl ''invalid guardian multisig configuration'' | Some (ms, threshold, expiry) \<Rightarrow>
      if length ms < 2 \<or> threshold < 2 \<or> int (length ms) < threshold then Inl ''invalid guardian multisig configuration''
      else if \<not> list_all ValidateAddress ms then Inl ''invalid guardian address''
      else if parameter = ''guardian_config'' then
        Inr (g\<lparr>gs_Guardians := memberMap ms, gs_GuardianThreshold := threshold, gs_GuardianExpiryBlock := expiry, gs_Guardian := []\<rparr>)
      else Inr (g\<lparr>gs_SlashingCouncil := memberMap ms, gs_SlashingCouncilThreshold := threshold, gs_SlashingCouncilExpiryBlock := expiry\<rparr>))"

definition applyBridge :: "gov_json \<Rightarrow> string \<Rightarrow> string \<Rightarrow> BridgeSecurityState \<Rightarrow> string + BridgeSecurityState" where
  "applyBridge J parameter v s =
     (if parameter = ''risk_policy'' then
        (case json_bridge J v of None \<Rightarrow> Inl ''invalid bridge policy'' | Some p \<Rightarrow>
         (case BridgeRiskPolicy_Validate p of Some e \<Rightarrow> Inl e | None \<Rightarrow> Inr (ensureBridge (s\<lparr>bs_Policy := p\<rparr>))))
      else if parameter = ''light_client'' then
        (case json_light J v of None \<Rightarrow> Inl ''invalid light client'' | Some c \<Rightarrow> configureBridgeLightClient c s)
      else Inl ''unsupported bridge action'')"

definition applyPair :: "gov_json \<Rightarrow> string \<Rightarrow> string \<Rightarrow> (string, PairRiskPolicy) gomap \<Rightarrow> string + (string, PairRiskPolicy) gomap" where
  "applyPair J parameter v m =
     (if parameter \<noteq> ''pair_policy'' then Inl ''unsupported liquidity action''
      else case json_pair J v of None \<Rightarrow> Inl ''invalid pair policy'' | Some p0 \<Rightarrow>
      let p = p0\<lparr>pp_PairAddress := norm_addr (pp_PairAddress p0)\<rparr> in
      case PairRiskPolicy_Validate p of Some e \<Rightarrow> Inl e | None \<Rightarrow> Inr (mput (pp_PairAddress p) p m))"

definition applyOracle :: "string \<Rightarrow> string \<Rightarrow> (string, string) gomap \<Rightarrow> string + (string, string) gomap" where
  "applyOracle parameter v m = (case cut_comma v of None \<Rightarrow> Inl ''oracle publisher value must be source,address''
     | Some (source, address) \<Rightarrow>
         if parameter \<noteq> ''publisher'' \<or> trim_space source = [] \<or> \<not> ValidateAddress (trim_space address)
         then Inl ''oracle publisher value must be source,address''
         else Inr (mput (norm_addr source) (norm_addr address) m))"

definition applyGovernanceAction :: "gov_json \<Rightarrow> GovernanceAction \<Rightarrow> gov_world \<Rightarrow> string + gov_world" where
  "applyGovernanceAction J a w =
     (let m = to_lower (ga_Module a); p = to_lower (ga_Parameter a); v = ga_Value a in
      if m = ''economics'' then map_sum id (\<lambda>x. w\<lparr>gw_Policy := x\<rparr>) (applyEconomics p v (gw_Policy w))
      else if m = ''consensus'' then map_sum id (\<lambda>x. w\<lparr>gw_Consensus := x\<rparr>) (applyConsensus p v (gw_Consensus w))
      else if m = ''safety'' then Inr (w\<lparr>gw_Pauses := mput (trim_suffix p ''_paused'') (equal_fold v ''true'') (gw_Pauses w)\<rparr>)
      else if m = ''oracle'' then map_sum id (\<lambda>x. w\<lparr>gw_Publishers := x\<rparr>) (applyOracle p v (gw_Publishers w))
      else if m = ''liquidity'' then map_sum id (\<lambda>x. w\<lparr>gw_Pairs := x\<rparr>) (applyPair J p v (gw_Pairs w))
      else if m = ''protocol_arb'' then map_sum id (\<lambda>x. w\<lparr>gw_Arb := x\<rparr>) (applyArb p v (gw_Arb w))
      else if m = ''governance'' then map_sum id (\<lambda>x. w\<lparr>gw_Gov := x\<rparr>) (applyMembers J p v (gw_Gov w))
      else if m = ''bridge'' then map_sum id (\<lambda>x. w\<lparr>gw_Bridge := x\<rparr>) (applyBridge J p v (gw_Bridge w))
      else Inl ''unsupported module'')"

text \<open>The loop over the actions of a proposal: the state reached and the first error.\<close>

fun applyActions :: "gov_json \<Rightarrow> GovernanceAction list \<Rightarrow> gov_world \<Rightarrow> gov_result" where
  "applyActions J [] w = (w, None)"
| "applyActions J (a # as) w = (case applyGovernanceAction J a w of Inl e \<Rightarrow> (w, Some e) | Inr w' \<Rightarrow> applyActions J as w')"

end
