(* ===== verification/GovernanceTx.thy ===== *)
theory GovernanceTx
  imports Governance ChainData
begin

text \<open>
  The governance handlers: the direct operations of \<open>governance.go\<close>, the signed transactions of
  \<open>governance_transactions.go\<close>, slashing cases and oracle updates.
\<close>

section \<open>Proposals\<close>

definition proposal :: "gov_world \<Rightarrow> string \<Rightarrow> GovernanceProposal option" where
  "proposal w i = map_of (gs_Proposals (gw_Gov w)) i"

definition putProposal :: "string \<Rightarrow> GovernanceProposal \<Rightarrow> gov_world \<Rightarrow> gov_world" where
  "putProposal i p w = w\<lparr>gw_Gov := (gw_Gov w)\<lparr>gs_Proposals := mput i p (gs_Proposals (gw_Gov w))\<rparr>\<rparr>"

text \<open>The end of both create operations: a fresh nonce, its id and an open proposal.\<close>

definition openProposal ::
  "crypto \<Rightarrow> string \<Rightarrow> string \<Rightarrow> string \<Rightarrow> GovernanceAction list \<Rightarrow> (string, f64) gomap \<Rightarrow> u64 \<Rightarrow> gov_world \<Rightarrow> string \<times> gov_world" where
  "openProposal C proposer title descriptionHash actions snapshot height w =
     (let g = (gw_Gov w)\<lparr>gs_Nonce := gs_Nonce (gw_Gov w) + 1\<rparr>; i = governanceProposalID C proposer title (gs_Nonce g) in
      (i, putProposal i \<lparr>gp_ID = i, gp_Proposer = to_lower proposer, gp_Title = trim_space title,
        gp_DescriptionHash = descriptionHash, gp_Actions = actions, gp_StartHeight = height,
        gp_EndHeight = height + gs_VotingPeriodBlocks g, gp_ExecuteHeight = 0, gp_Status = ''voting'', gp_SnapshotPower = snapshot,
        gp_Votes = [], gp_ForPower = Fin 0, gp_AgainstPower = Fin 0, gp_AbstainPower = Fin 0, gp_VetoApprovals = []\<rparr>
        (w\<lparr>gw_Gov := g\<rparr>)))"

fun firstInvalid :: "GovernanceAction list \<Rightarrow> string option" where
  "firstInvalid [] = None"
| "firstInvalid (a # as) = (case validateGovernanceAction a of Some e \<Rightarrow> Some e | None \<Rightarrow> firstInvalid as)"

definition CreateGovernanceProposal ::
  "crypto \<Rightarrow> int \<Rightarrow> string \<Rightarrow> string \<Rightarrow> string \<Rightarrow> GovernanceAction list \<Rightarrow> u64 \<Rightarrow> gov_world \<Rightarrow> gov_result" where
  "CreateGovernanceProposal C now proposer title descriptionHash actions height w0 =
     (if \<not> ValidateAddress proposer \<or> trim_space title = [] \<or> actions = [] \<or> 16 < length actions
      then (w0, Some ''valid proposer, title and 1..16 actions are required'')
      else case firstInvalid actions of Some e \<Rightarrow> (w0, Some e) | None \<Rightarrow>
      let w = ensureWorld w0; snapshot = governancePowerSnapshot now w in
      if fle (power_at snapshot (to_lower proposer)) (Fin 0) then (w, Some ''proposer has no bonded governance power'')
      else (snd (openProposal C proposer title (trim_space descriptionHash) actions snapshot height w), None))"

text \<open>The vote and its tally.\<close>

definition recordVote :: "string \<Rightarrow> string \<Rightarrow> f64 \<Rightarrow> GovernanceProposal \<Rightarrow> GovernanceProposal" where
  "recordVote voter choice pw p0 =
     (let p = p0\<lparr>gp_Votes := mput voter \<lparr>gv_Voter = voter, gv_Choice = choice, gv_Power = pw\<rparr> (gp_Votes p0)\<rparr> in
      if choice = ''for'' then p\<lparr>gp_ForPower := fadd (gp_ForPower p) pw\<rparr>
      else if choice = ''against'' then p\<lparr>gp_AgainstPower := fadd (gp_AgainstPower p) pw\<rparr>
      else p\<lparr>gp_AbstainPower := fadd (gp_AbstainPower p) pw\<rparr>)"

definition castVote :: "string \<Rightarrow> string \<Rightarrow> string \<Rightarrow> u64 \<Rightarrow> gov_world \<Rightarrow> gov_result" where
  "castVote i voter choice height w = (case proposal w i of None \<Rightarrow> (w, Some ''proposal is not open'') | Some p \<Rightarrow>
     if gp_Status p \<noteq> ''voting'' \<or> gp_EndHeight p < height then (w, Some ''proposal is not open'') else
     let pw = power_at (gp_SnapshotPower p) voter in
     if fle pw (Fin 0) then (w, Some ''voter has no snapshot power'')
     else if map_of (gp_Votes p) voter \<noteq> None then (w, Some ''voter already voted'')
     else (putProposal i (recordVote voter choice pw p) w, None))"

definition VoteGovernance :: "string \<Rightarrow> string \<Rightarrow> string \<Rightarrow> u64 \<Rightarrow> gov_world \<Rightarrow> gov_result" where
  "VoteGovernance i voter choice0 height w = (let choice = norm_addr choice0 in
     if choice \<noteq> ''for'' \<and> choice \<noteq> ''against'' \<and> choice \<noteq> ''abstain''
     then (w, Some ''choice must be for, against or abstain'')
     else castVote i (norm_addr voter) choice height (ensureWorld w))"

definition snapshotTotal :: "GovernanceProposal \<Rightarrow> f64" where
  "snapshotTotal p = foldl fadd (Fin 0) (map snd (gp_SnapshotPower p))"

definition participating :: "GovernanceProposal \<Rightarrow> f64" where
  "participating p = fadd (fadd (gp_ForPower p) (gp_AgainstPower p)) (gp_AbstainPower p)"

definition decided :: "GovernanceProposal \<Rightarrow> f64" where
  "decided p = fadd (gp_ForPower p) (gp_AgainstPower p)"

text \<open>
  Quorum and approval, as the direct operation tests them; the transaction tests the negated comparisons for a
  rejection, which differs where a power is not a number.
\<close>

definition proposalPasses :: "GovernanceState \<Rightarrow> GovernanceProposal \<Rightarrow> bool" where
  "proposalPasses g p \<longleftrightarrow> (fless (Fin 0) (snapshotTotal p) \<and>
       fle (fmul (snapshotTotal p) (f_of_int (gs_QuorumBPS g))) (fmul (participating p) (Fin 10000))) \<and>
     (fless (Fin 0) (decided p) \<and>
       fle (fmul (decided p) (f_of_int (gs_ApprovalBPS g))) (fmul (gp_ForPower p) (Fin 10000)))"

definition proposalFails :: "GovernanceState \<Rightarrow> GovernanceProposal \<Rightarrow> bool" where
  "proposalFails g p \<longleftrightarrow> fle (snapshotTotal p) (Fin 0) \<or>
     fless (fmul (participating p) (Fin 10000)) (fmul (snapshotTotal p) (f_of_int (gs_QuorumBPS g))) \<or>
     fle (decided p) (Fin 0) \<or> fless (fmul (gp_ForPower p) (Fin 10000)) (fmul (decided p) (f_of_int (gs_ApprovalBPS g)))"

definition closeVoting :: "(GovernanceState \<Rightarrow> GovernanceProposal \<Rightarrow> bool) \<Rightarrow> string \<Rightarrow> u64 \<Rightarrow> gov_world \<Rightarrow> gov_result" where
  "closeVoting passes i height w = (case proposal w i of None \<Rightarrow> (w, Some ''proposal voting is not complete'') | Some p \<Rightarrow>
     if gp_Status p \<noteq> ''voting'' \<or> height \<le> gp_EndHeight p then (w, Some ''proposal voting is not complete'')
     else (putProposal i (if passes (gw_Gov w) p
             then p\<lparr>gp_Status := ''timelocked'', gp_ExecuteHeight := height + gs_TimelockBlocks (gw_Gov w)\<rparr>
             else p\<lparr>gp_Status := ''rejected''\<rparr>) w, None))"

definition QueueGovernanceProposal :: "string \<Rightarrow> u64 \<Rightarrow> gov_world \<Rightarrow> gov_result" where
  "QueueGovernanceProposal i height w = closeVoting proposalPasses i height (ensureWorld w)"

section \<open>Execution\<close>

text \<open>
  What both rollbacks put back: the policies, pauses, publishers, pair policies, the consensus settings, the
  guardian and council configuration and the bridge state. Only the direct operation restores the legacy guardian.
\<close>

definition rollbackTo :: "bool \<Rightarrow> gov_world \<Rightarrow> gov_world \<Rightarrow> gov_world" where
  "rollbackTo legacyGuardian old w = (let g = gw_Gov old in
     w\<lparr>gw_Policy := gw_Policy old, gw_Pauses := gw_Pauses old, gw_Publishers := gw_Publishers old, gw_Pairs := gw_Pairs old,
       gw_Arb := gw_Arb old, gw_Bridge := gw_Bridge old,
       gw_Consensus := (gw_Consensus w)\<lparr>RoundTimeoutSeconds := RoundTimeoutSeconds (gw_Consensus old),
         MaxLiquidityCreditBPS := MaxLiquidityCreditBPS (gw_Consensus old)\<rparr>,
       gw_Gov := (gw_Gov w)\<lparr>gs_Guardians := gs_Guardians g, gs_GuardianThreshold := gs_GuardianThreshold g,
         gs_GuardianExpiryBlock := gs_GuardianExpiryBlock g,
         gs_Guardian := (if legacyGuardian then gs_Guardian g else gs_Guardian (gw_Gov w)),
         gs_SlashingCouncil := gs_SlashingCouncil g, gs_SlashingCouncilThreshold := gs_SlashingCouncilThreshold g,
         gs_SlashingCouncilExpiryBlock := gs_SlashingCouncilExpiryBlock g\<rparr>\<rparr>)"

definition runActions :: "gov_json \<Rightarrow> bool \<Rightarrow> string \<Rightarrow> GovernanceProposal \<Rightarrow> gov_world \<Rightarrow> gov_result" where
  "runActions J legacyGuardian i p w = (let (w', err) = applyActions J (gp_Actions p) w in
     case err of Some e \<Rightarrow> (rollbackTo legacyGuardian w w', Some e)
     | None \<Rightarrow> (case Validate (gw_Policy w') of Some e \<Rightarrow> (rollbackTo legacyGuardian w w', Some e)
        | None \<Rightarrow> (putProposal i (p\<lparr>gp_Status := ''executed''\<rparr>) w', None)))"

definition executable :: "u64 \<Rightarrow> GovernanceProposal \<Rightarrow> bool" where
  "executable height p \<longleftrightarrow> gp_Status p = ''timelocked'' \<and> gp_ExecuteHeight p \<le> height"

definition ExecuteGovernanceProposal :: "gov_json \<Rightarrow> string \<Rightarrow> u64 \<Rightarrow> gov_world \<Rightarrow> gov_result" where
  "ExecuteGovernanceProposal J i height w0 = (let w = ensureWorld w0 in
     case proposal w i of None \<Rightarrow> (w, Some ''proposal is not executable'') | Some p \<Rightarrow>
     if \<not> executable height p then (w, Some ''proposal is not executable'')
     else case firstInvalid (gp_Actions p) of Some e \<Rightarrow> (w, Some e) | None \<Rightarrow> runActions J True i p w)"

definition pausable :: "string list" where "pausable = [''bridge'', ''vault'', ''router'']"

definition GuardianPause :: "string \<Rightarrow> string \<Rightarrow> u64 \<Rightarrow> gov_world \<Rightarrow> gov_result" where
  "GuardianPause guardian mod0 height w0 = (let w = ensureWorld w0; g = gw_Gov w; md = norm_addr mod0 in
     if md \<notin> set pausable then (w, Some ''guardian cannot pause this module'')
     else if gs_Guardians g \<noteq> [] \<or> 1 < gs_GuardianThreshold g then (w, Some ''legacy single-guardian path disabled'')
     else if \<not> equal_fold guardian (gs_Guardian g) \<or> gs_Guardian g = [] \<or>
        0 < gs_GuardianExpiryBlock g \<and> gs_GuardianExpiryBlock g < height then (w, Some ''guardian authorization unavailable'')
     else (w\<lparr>gw_Pauses := mput md True (gw_Pauses w)\<rparr>, None))"

section \<open>Slashing\<close>

record penalty_env =
  pe_MaxPenaltyScore :: f64
  pe_JailSeconds :: int

text \<open>
  The validators the penalty leaves and what it moves to the slashing pool. The zero time is \<open>- 62135596800\<close>; a
  jailed validator is released after the configured duration.
\<close>

definition penalize :: "penalty_env \<Rightarrow> f64 \<Rightarrow> string \<Rightarrow> int \<Rightarrow> PenalizedValidator \<Rightarrow> f64 \<times> PenalizedValidator" where
  "penalize E pen reason now v = (let e0 = fmul pen (fadd (Fin 1) (v_PenaltyScore v));
     e = (if fless (rnd (3 / 10)) e0 then rnd (3 / 10) else e0);
     s0 = fadd (v_PenaltyScore v) e; s = (if fless (pe_MaxPenaltyScore E) s0 then pe_MaxPenaltyScore E else s0);
     u = v\<lparr>v_PenaltyScore := s, v_LastPenaltyAt := now, v_SlashReason := reason\<rparr> in
     (e, if fle (pe_MaxPenaltyScore E) s then u\<lparr>v_JailedUntil := now + pe_JailSeconds E\<rparr> else u))"

fun slashIn :: "penalty_env \<Rightarrow> f64 \<Rightarrow> f64 \<Rightarrow> string \<Rightarrow> string \<Rightarrow> int \<Rightarrow> PenalizedValidator option list \<Rightarrow> f64 option \<times> PenalizedValidator option list" where
  "slashIn E minStake pen add reason now [] = (None, [])"
| "slashIn E minStake pen add reason now (None # vs) = map_prod id (Cons None) (slashIn E minStake pen add reason now vs)"
| "slashIn E minStake pen add reason now (Some v # vs) =
     (if \<not> equal_fold (v_Address v) add then map_prod id (Cons (Some v)) (slashIn E minStake pen add reason now vs)
      else let (e, u) = penalize E pen reason now v in
      if isDEXBackedValidator (Validator.truncate v) then (None, Some u # vs)
      else let local = fmul (v_LPStakeAmount v) e; u' = u\<lparr>v_LPStakeAmount := fsub (v_LPStakeAmount u) local\<rparr> in
        (Some local, if fless (v_LPStakeAmount u') minStake then vs else Some u' # vs))"

definition slashValidatorAt :: "penalty_env \<Rightarrow> string \<Rightarrow> f64 \<Rightarrow> string \<Rightarrow> int \<Rightarrow> gov_world \<Rightarrow> gov_world" where
  "slashValidatorAt E add pen0 reason now0 w = (let pen = (if fle pen0 (Fin 0) then rnd (1 / 100) else pen0);
     now = (if now0 = - 62135596800 then 0 else now0);
     (local, vs) = slashIn E (gw_MinStake w) pen add reason now (gw_Validators w) in
     w\<lparr>gw_Validators := vs, gw_SlashingPool := (case local of None \<Rightarrow> gw_SlashingPool w | Some x \<Rightarrow> fadd (gw_SlashingPool w) x)\<rparr>)"

definition slashingCaseID :: "crypto \<Rightarrow> string \<Rightarrow> string \<Rightarrow> string" where
  "slashingCaseID C validator evidence = ''slash_'' @ hex_encode (take 12 (sha256 C (to_lower validator @ ''|'' @ to_lower evidence)))"

definition OpenSlashingCase ::
  "crypto \<Rightarrow> string \<Rightarrow> string \<Rightarrow> string \<Rightarrow> f64 \<Rightarrow> u64 \<Rightarrow> u64 \<Rightarrow> gov_world \<Rightarrow> gov_result" where
  "OpenSlashingCase C validator evidence reason pen height challengeBlocks w0 =
     (if \<not> ValidateAddress validator \<or> trim_space evidence = [] \<or> fle pen (Fin 0) \<or> fless (Fin 1) pen
      then (w0, Some ''valid validator, evidence and penalty required'')
      else let w = ensureWorld w0; i = slashingCaseID C validator evidence in
      if map_of (gw_Cases w) i \<noteq> None then (w, None)
      else (w\<lparr>gw_Cases := mput i \<lparr>sc_ID = i, sc_Validator = to_lower validator, sc_EvidenceHash = evidence, sc_Reason = reason,
        sc_Penalty = pen, sc_OpenedHeight = height,
        sc_ChallengeUntil = height + (if challengeBlocks = 0 then 100 else challengeBlocks), sc_Status = ''challengeable'',
        sc_AppealHash = [], sc_GovernanceID = [], sc_ResolvedAt = 0, sc_CouncilVotes = [], sc_CouncilDecision = []\<rparr> (gw_Cases w)\<rparr>, None))"

definition AppealSlashingCase :: "string \<Rightarrow> string \<Rightarrow> string \<Rightarrow> u64 \<Rightarrow> gov_world \<Rightarrow> gov_result" where
  "AppealSlashingCase caseID validator appealHash height w0 = (let w = ensureWorld w0 in
     case map_of (gw_Cases w) caseID of None \<Rightarrow> (w, Some ''slashing case is not appealable'') | Some c \<Rightarrow>
     if sc_Status c \<noteq> ''challengeable'' \<or> sc_ChallengeUntil c < height \<or> \<not> equal_fold (sc_Validator c) validator \<or> trim_space appealHash = []
     then (w, Some ''slashing case is not appealable'')
     else (w\<lparr>gw_Cases := mput caseID (c\<lparr>sc_AppealHash := appealHash, sc_Status := ''appealed''\<rparr>) (gw_Cases w)\<rparr>, None))"

text \<open>Blocks are listed oldest first, as number and time stamp.\<close>

definition deterministicTimeForHeight :: "u64 \<Rightarrow> gov_world \<Rightarrow> int" where
  "deterministicTimeForHeight height w = (case find (\<lambda>(n, _). n \<le> height) (rev (gw_Blocks w)) of
     Some (_, t) \<Rightarrow> i64 (uint t) | None \<Rightarrow> i64 (uint height))"

definition open_case :: "SlashingCase \<Rightarrow> bool" where
  "open_case c \<longleftrightarrow> sc_Status c = ''challengeable'' \<or> sc_Status c = ''appealed''"

definition closeCase :: "penalty_env \<Rightarrow> bool \<Rightarrow> int \<Rightarrow> string \<Rightarrow> SlashingCase \<Rightarrow> gov_world \<Rightarrow> gov_world" where
  "closeCase E uphold now caseID c w =
     (let w' = (if uphold then slashValidatorAt E (sc_Validator c) (sc_Penalty c) (sc_Reason c) now w else w) in
      w'\<lparr>gw_Cases := mput caseID (c\<lparr>sc_Status := (if uphold then ''upheld'' else ''dismissed''), sc_ResolvedAt := now\<rparr>) (gw_Cases w')\<rparr>)"

definition ResolveSlashingCase :: "penalty_env \<Rightarrow> string \<Rightarrow> string \<Rightarrow> bool \<Rightarrow> u64 \<Rightarrow> gov_world \<Rightarrow> gov_result" where
  "ResolveSlashingCase E caseID governanceID uphold height w0 = (let w = ensureWorld w0 in
     case (map_of (gw_Cases w) caseID, proposal w governanceID) of
       (Some c, Some p) \<Rightarrow>
         if gp_Status p \<noteq> ''executed'' \<or> \<not> open_case c then (w, Some ''executed governance adjudication required'')
         else if sc_Status c = ''challengeable'' \<and> height \<le> sc_ChallengeUntil c then (w, Some ''challenge window remains open'')
         else (closeCase E uphold (deterministicTimeForHeight height w) caseID (c\<lparr>sc_GovernanceID := governanceID\<rparr>) w, None)
     | _ \<Rightarrow> (w, Some ''executed governance adjudication required''))"

definition approveSlashingCaseCouncilLocked ::
  "penalty_env \<Rightarrow> string \<Rightarrow> string \<Rightarrow> string \<Rightarrow> string \<Rightarrow> u64 \<Rightarrow> int \<Rightarrow> gov_world \<Rightarrow> gov_result" where
  "approveSlashingCaseCouncilLocked E caseID member0 decision0 reasonHash height timestamp w =
     (let member = norm_addr member0; decision = norm_addr decision0; g = gw_Gov w in
      case map_of (gw_Cases w) caseID of None \<Rightarrow> (w, Some ''slashing case is not council-decidable'') | Some c \<Rightarrow>
      if \<not> open_case c \<or> height \<le> sc_ChallengeUntil c then (w, Some ''slashing case is not council-decidable'')
      else if decision \<noteq> ''uphold'' \<and> decision \<noteq> ''dismiss'' then (w, Some ''council decision must be uphold or dismiss'')
      else if trim_space reasonHash = [] \<or> \<not> flag (gs_SlashingCouncil g) member \<or> gs_SlashingCouncilThreshold g < 2 \<or>
         0 < gs_SlashingCouncilExpiryBlock g \<and> gs_SlashingCouncilExpiryBlock g < height
      then (w, Some ''active slashing council authorization required'')
      else case map_of (sc_CouncilVotes c) member of
        Some previous \<Rightarrow> if sv_Decision previous = decision \<and> sv_ReasonHash previous = reasonHash then (w, None)
          else (w, Some ''council member already voted'')
      | None \<Rightarrow>
        let votes = mput member \<lparr>sv_Decision = decision, sv_ReasonHash = reasonHash, sv_Height = height\<rparr> (sc_CouncilVotes c);
            c' = c\<lparr>sc_CouncilVotes := votes\<rparr>;
            approvals = length (filter (\<lambda>(_, v). sv_Decision v = decision) votes) in
        if int approvals < gs_SlashingCouncilThreshold g then (w\<lparr>gw_Cases := mput caseID c' (gw_Cases w)\<rparr>, None)
        else let decisionTime = (if timestamp \<le> 0 then deterministicTimeForHeight height w else timestamp) in
          (closeCase E (decision = ''uphold'') decisionTime caseID (c'\<lparr>sc_CouncilDecision := decision\<rparr>) w, None))"

section \<open>Governance transactions\<close>

definition DecodeGovernanceTransaction :: "gov_json \<Rightarrow> Transaction \<Rightarrow> string + GovernanceTxPayload" where
  "DecodeGovernanceTransaction J tx = (if tx_Type tx \<noteq> ''governance_action'' then Inl ''governance_action transaction required'' else
     case json_payload J (tx_ExtraData tx) of None \<Rightarrow> Inl ''invalid json'' | Some p \<Rightarrow>
     let operation = norm_addr (pl_Operation p) in
     if operation \<in> {''create'', ''vote'', ''queue'', ''execute'', ''cancel'', ''guardian_pause'', ''delegate'', ''undelegate'',
        ''guardian_veto'', ''slash_decide''} then Inr (p\<lparr>pl_Operation := operation\<rparr>)
     else Inl ''unsupported governance operation'')"

definition ValidateGovernanceTransaction :: "gov_json \<Rightarrow> Transaction \<Rightarrow> string + GovernanceTxPayload" where
  "ValidateGovernanceTransaction J tx = (case DecodeGovernanceTransaction J tx of Inl e \<Rightarrow> Inl e | Inr p \<Rightarrow>
     if \<not> ValidateAddress (tx_From tx) then Inl ''signed governance actor required''
     else if pl_Operation p = ''create'' \<and> (trim_space (pl_Title p) = [] \<or> pl_Actions p = [] \<or> 16 < length (pl_Actions p))
     then Inl ''invalid proposal payload''
     else if pl_Operation p \<notin> {''create'', ''guardian_pause'', ''delegate'', ''undelegate'', ''slash_decide''} \<and> trim_space (pl_ProposalID p) = []
     then Inl ''proposal id required''
     else if pl_Operation p = ''vote'' \<and> pl_Choice p \<noteq> ''for'' \<and> pl_Choice p \<noteq> ''against'' \<and> pl_Choice p \<noteq> ''abstain''
     then Inl ''invalid governance vote''
     else if pl_Operation p = ''slash_decide'' \<and> (trim_space (pl_CaseID p) = [] \<or>
        to_lower (pl_Decision p) \<noteq> ''uphold'' \<and> to_lower (pl_Decision p) \<noteq> ''dismiss'' \<or> trim_space (pl_ReasonHash p) = [])
     then Inl ''case, uphold/dismiss decision and reason hash required''
     else Inr p)"

definition auditGovernance :: "u64 \<Rightarrow> string \<Rightarrow> string \<Rightarrow> string \<Rightarrow> string \<Rightarrow> gov_world \<Rightarrow> gov_world" where
  "auditGovernance height operation actor proposalID detail w =
     (let trail = gs_AuditTrail (gw_Gov w) @ [\<lparr>au_Height = height, au_Operation = operation, au_Actor = to_lower actor,
        au_ProposalID = proposalID, au_Detail = detail\<rparr>] in
      w\<lparr>gw_Gov := (gw_Gov w)\<lparr>gs_AuditTrail := keepLast 10000 trail\<rparr>\<rparr>)"

text \<open>A handler that ends with an entry of the audit trail when it succeeds.\<close>

definition audited :: "u64 \<Rightarrow> string \<Rightarrow> string \<Rightarrow> string \<Rightarrow> string \<Rightarrow> gov_result \<Rightarrow> gov_result" where
  "audited height operation actor proposalID detail r =
     (case r of (w, Some e) \<Rightarrow> (w, Some e) | (w, None) \<Rightarrow> (auditGovernance height operation actor proposalID detail w, None))"

text \<open>The walk from the delegatee, \<open>n\<close> steps at most: an error when it meets the delegator or does not end.\<close>

fun delegationError :: "(string, string) gomap \<Rightarrow> string \<Rightarrow> nat \<Rightarrow> string \<Rightarrow> string option" where
  "delegationError d actor 0 cursor = Some ''delegation chain too deep''"
| "delegationError d actor (Suc n) cursor = (if cursor = actor then Some ''delegation cycle''
     else let nxt = delegate_of d cursor in if nxt = [] then None else delegationError d actor n nxt)"

definition delegate :: "string \<Rightarrow> string \<Rightarrow> gov_world \<Rightarrow> gov_result" where
  "delegate actor delegatee w = (let d = gs_Delegations (gw_Gov w) in
     if \<not> ValidateAddress delegatee \<or> delegatee = actor then (w, Some ''valid distinct delegatee required'')
     else case delegationError d actor 64 delegatee of Some e \<Rightarrow> (w, Some e)
     | None \<Rightarrow> (w\<lparr>gw_Gov := (gw_Gov w)\<lparr>gs_Delegations := mput actor delegatee d\<rparr>\<rparr>, None))"

definition undelegate :: "string \<Rightarrow> gov_world \<Rightarrow> gov_result" where
  "undelegate actor w = (w\<lparr>gw_Gov := (gw_Gov w)\<lparr>gs_Delegations := mdel actor (gs_Delegations (gw_Gov w))\<rparr>\<rparr>, None)"

definition createTx :: "crypto \<Rightarrow> int \<Rightarrow> GovernanceTxPayload \<Rightarrow> string \<Rightarrow> u64 \<Rightarrow> gov_world \<Rightarrow> gov_result" where
  "createTx C now p actor height w = (case firstInvalid (pl_Actions p) of Some e \<Rightarrow> (w, Some e) | None \<Rightarrow>
     let snapshot = governancePowerSnapshot now w in
     if fle (power_at snapshot actor) (Fin 0) then (w, Some ''proposer has no bonded power'')
     else let (i, w') = openProposal C actor (pl_Title p) (pl_DescriptionHash p) (pl_Actions p) snapshot height w in
       (auditGovernance height ''create'' actor i (pl_DescriptionHash p) w', None))"

definition executeTx :: "gov_json \<Rightarrow> string \<Rightarrow> u64 \<Rightarrow> gov_world \<Rightarrow> gov_result" where
  "executeTx J i height w = (case proposal w i of None \<Rightarrow> (w, Some ''proposal not executable'') | Some p \<Rightarrow>
     if \<not> executable height p then (w, Some ''proposal not executable'') else runActions J False i p w)"

definition cancelTx :: "string \<Rightarrow> string \<Rightarrow> string \<Rightarrow> gov_world \<Rightarrow> gov_result" where
  "cancelTx i actor reason w = (case proposal w i of None \<Rightarrow> (w, Some ''proposal not cancellable'') | Some p \<Rightarrow>
     if gp_Status p \<noteq> ''voting'' \<and> gp_Status p \<noteq> ''timelocked'' then (w, Some ''proposal not cancellable'')
     else if actor \<noteq> gp_Proposer p then (w, Some ''only proposer may cancel before execution'')
     else if fless (Fin 0) (participating p) \<or> trim_space reason = [] then (w, Some ''voted proposal requires governance resolution'')
     else (putProposal i (p\<lparr>gp_Status := ''cancelled''\<rparr>) w, None))"

definition activeGuardian :: "GovernanceState \<Rightarrow> string \<Rightarrow> u64 \<Rightarrow> bool" where
  "activeGuardian g actor height \<longleftrightarrow> flag (gs_Guardians g) actor \<and>
     \<not> (0 < gs_GuardianExpiryBlock g \<and> gs_GuardianExpiryBlock g < height)"

definition guardianPauseTx :: "string \<Rightarrow> string \<Rightarrow> u64 \<Rightarrow> string \<Rightarrow> u64 \<Rightarrow> gov_world \<Rightarrow> gov_result" where
  "guardianPauseTx md actionID expires actor height w = (let g = gw_Gov w in
     if md \<notin> set pausable then (w, Some ''guardian module not pausable'')
     else if \<not> activeGuardian g actor height then (w, Some ''guardian authorization expired'')
     else if actionID = [] \<or> expires \<le> height then (w, Some ''guardian action id and expiry required'')
     else let action = (case map_of (gs_GuardianActions g) actionID of Some a \<Rightarrow> a
            | None \<Rightarrow> \<lparr>gu_ID = actionID, gu_Module = md, gu_ExpiresAtHeight = expires, gu_Approvals = [], gu_Executed = False\<rparr>) in
     if gu_Module action \<noteq> md \<or> gu_ExpiresAtHeight action \<noteq> expires \<or> gu_Executed action
     then (w, Some ''guardian action mismatch'')
     else let approvals = mput actor True (gu_Approvals action);
       executed = gs_GuardianThreshold g \<le> int (length approvals);
       action' = action\<lparr>gu_Approvals := approvals, gu_Executed := executed\<rparr> in
       (w\<lparr>gw_Gov := g\<lparr>gs_GuardianActions := mput actionID action' (gs_GuardianActions g)\<rparr>,
          gw_Pauses := (if executed then mput md True (gw_Pauses w) else gw_Pauses w)\<rparr>, None))"

definition guardianVetoTx :: "string \<Rightarrow> string \<Rightarrow> string \<Rightarrow> u64 \<Rightarrow> gov_world \<Rightarrow> gov_result" where
  "guardianVetoTx i actor reason height w = (let g = gw_Gov w in
     case proposal w i of None \<Rightarrow> (w, Some ''proposal is outside guardian veto window'') | Some p \<Rightarrow>
     if gp_Status p \<noteq> ''timelocked'' \<or> gp_ExecuteHeight p \<le> height then (w, Some ''proposal is outside guardian veto window'')
     else if \<not> activeGuardian g actor height then (w, Some ''guardian authorization expired'')
     else if trim_space reason = [] then (w, Some ''public veto reason hash required'')
     else let approvals = mput actor True (gp_VetoApprovals p) in
       (putProposal i (p\<lparr>gp_VetoApprovals := approvals,
          gp_Status := (if gs_GuardianThreshold g \<le> int (length approvals) then ''vetoed'' else gp_Status p)\<rparr>) w, None))"

definition applyGovernanceTransactionAt ::
  "crypto \<Rightarrow> gov_json \<Rightarrow> penalty_env \<Rightarrow> int \<Rightarrow> Transaction \<Rightarrow> u64 \<Rightarrow> gov_world \<Rightarrow> gov_result" where
  "applyGovernanceTransactionAt C J E now tx height w0 = (case ValidateGovernanceTransaction J tx of Inl e \<Rightarrow> (w0, Some e) | Inr p \<Rightarrow>
     let actor = to_lower (tx_From tx); w = ensureWorld w0; i = pl_ProposalID p; operation = pl_Operation p; d = norm_addr (pl_Delegatee p);
         md = norm_addr (pl_Module p) in
     if operation = ''delegate'' then audited height ''delegate'' actor [] d (delegate actor d w)
     else if operation = ''undelegate'' then audited height ''undelegate'' actor [] [] (undelegate actor w)
     else if operation = ''slash_decide'' then audited height ''slash_decide'' actor (pl_CaseID p) (to_lower (pl_Decision p) @ '':'' @ pl_ReasonHash p)
       (approveSlashingCaseCouncilLocked E (pl_CaseID p) actor (pl_Decision p) (pl_ReasonHash p) height (i64 (uint (tx_Timestamp tx))) w)
     else if operation = ''create'' then createTx C now p actor height w
     else if operation = ''vote'' then audited height ''vote'' actor i (pl_Choice p) (castVote i actor (pl_Choice p) height w)
     else if operation = ''queue'' then (let (w', err) = closeVoting (\<lambda>g q. \<not> proposalFails g q) i height w in
       audited height ''queue'' actor i (case proposal w' i of None \<Rightarrow> [] | Some q \<Rightarrow> gp_Status q) (w', err))
     else if operation = ''execute'' then audited height ''execute'' actor i ''typed-actions'' (executeTx J i height w)
     else if operation = ''cancel'' then audited height ''cancel'' actor i (pl_ReasonHash p) (cancelTx i actor (pl_ReasonHash p) w)
     else if operation = ''guardian_pause'' then audited height ''guardian_pause'' actor (pl_ActionID p) md
       (guardianPauseTx md (pl_ActionID p) (pl_ExpiresAtHeight p) actor height w)
     else audited height ''guardian_veto'' actor i (pl_ReasonHash p) (guardianVetoTx i actor (pl_ReasonHash p) height w))"

section \<open>Oracle updates and pair policies\<close>

definition OracleMaxAgeSeconds :: int where "OracleMaxAgeSeconds = 900"

definition upper_char :: "char \<Rightarrow> char" where
  "upper_char c = (let n = (of_char c :: nat) in if 97 \<le> n \<and> n \<le> 122 then char_of (n - 32) else c)"

definition DecodeOracleUpdateTransaction :: "gov_json \<Rightarrow> Transaction \<Rightarrow> string + OracleUpdatePayload" where
  "DecodeOracleUpdateTransaction J tx =
     (if tx_Type tx \<noteq> ''oracle_update'' \<or> tx_ExtraData tx = [] then Inl ''oracle_update transaction required''
      else case json_oracle J (tx_ExtraData tx) of None \<Rightarrow> Inl ''invalid oracle payload''
      | Some p \<Rightarrow> Inr (p\<lparr>ou_Asset := map upper_char (trim_space (ou_Asset p)), ou_Source := norm_addr (ou_Source p)\<rparr>))"

definition ValidateOracleUpdateTransactionAt :: "gov_json \<Rightarrow> int \<Rightarrow> Transaction \<Rightarrow> int \<Rightarrow> gov_world \<Rightarrow> string + OracleUpdatePayload" where
  "ValidateOracleUpdateTransactionAt J now tx blockTime0 w = (case DecodeOracleUpdateTransaction J tx of Inl e \<Rightarrow> Inl e | Inr p \<Rightarrow>
     let blockTime = (if blockTime0 \<le> 0 then now else blockTime0) in
     if ou_Asset p = [] \<or> ou_Source p = [] \<or> fle (ou_PriceUSD p) (Fin 0) \<or> fless (ou_Confidence p) (Fin (1 / 2)) \<or> fless (Fin 1) (ou_Confidence p)
     then Inl ''invalid oracle observation''
     else if i64 (blockTime + 30) < ou_ObservedAt p \<or> OracleMaxAgeSeconds < i64 (blockTime - ou_ObservedAt p)
     then Inl ''oracle observation outside freshness window''
     else if \<not> equal_fold (at_key (gw_Publishers w) (ou_Source p)) (tx_From tx) then Inl ''transaction signer is not publisher for source''
     else if ou_Nonce p \<noteq> (case map_of (gw_OracleNonces w) (ou_Source p) of None \<Rightarrow> 0 | Some n \<Rightarrow> n) + 1 then Inl ''oracle nonce mismatch''
     else Inr p)"

definition ApplyOracleUpdateTransactionAt :: "gov_json \<Rightarrow> int \<Rightarrow> Transaction \<Rightarrow> int \<Rightarrow> gov_world \<Rightarrow> gov_result" where
  "ApplyOracleUpdateTransactionAt J now tx blockTime w = (case ValidateOracleUpdateTransactionAt J now tx blockTime w of Inl e \<Rightarrow> (w, Some e)
     | Inr p \<Rightarrow>
       let obs = (case map_of (gw_Observations w) (ou_Asset p) of None \<Rightarrow> [] | Some m \<Rightarrow> m);
           prior = (case map_of obs (ou_Source p) of None \<Rightarrow> 0 | Some ob \<Rightarrow> ob_Timestamp ob) in
       if ou_ObservedAt p < prior then (w, Some ''oracle timestamp regression'')
       else (w\<lparr>gw_Observations := mput (ou_Asset p) (mput (ou_Source p) \<lparr>ob_Asset = ou_Asset p, ob_Source = ou_Source p,
                  ob_PriceUSD = ou_PriceUSD p, ob_Confidence = ou_Confidence p, ob_Timestamp = ou_ObservedAt p\<rparr> obs) (gw_Observations w),
               gw_OracleNonces := mput (ou_Source p) (ou_Nonce p) (gw_OracleNonces w)\<rparr>, None))"

definition SetPairRiskPolicy :: "PairRiskPolicy \<Rightarrow> gov_world \<Rightarrow> gov_result" where
  "SetPairRiskPolicy p0 w = (let p = p0\<lparr>pp_PairAddress := norm_addr (pp_PairAddress p0), pp_RiskClass := norm_addr (pp_RiskClass p0),
       pp_CorrelatedGroup := norm_addr (pp_CorrelatedGroup p0)\<rparr> in
     case PairRiskPolicy_Validate p of Some e \<Rightarrow> (w, Some e)
     | None \<Rightarrow> ((ensureWorld w)\<lparr>gw_Pairs := mput (pp_PairAddress p) p (gw_Pairs w)\<rparr>, None))"

definition pairRoutable :: "string \<Rightarrow> u64 \<Rightarrow> int \<Rightarrow> gov_world \<Rightarrow> bool \<times> string" where
  "pairRoutable pair height now w = (case map_of (gw_Pairs w) (norm_addr pair) of
     None \<Rightarrow> if gw_AllowLegacyFinality w then (True, ''legacy-testnet'') else (False, ''pair has no governance risk policy'')
   | Some p \<Rightarrow> if \<not> pp_Enabled p \<or> height < pp_ActiveAfterHeight p then (False, ''pair onboarding delay or disablement'')
       else if 0 < pp_CircuitTrippedAt p \<and> i64 (now - pp_CircuitTrippedAt p) < pp_RecoveryDelaySec p
       then (False, ''circuit recovery delay active'') else (True, []))"

end
