(* ===== verification/GovernanceTheorems.thy ===== *)
theory GovernanceTheorems
  imports GovernanceTx
begin

text \<open>
  What governance guarantees: tallies are the votes, execution is earned by a vote and a time lock, a failed
  execution changes nothing, delegations have no cycle. Reachable states come from \<open>gov_step\<close>, one rule for
  each handler, and any change by the rest of the chain outside governance.
\<close>

section \<open>Steps\<close>

inductive gov_step :: "crypto \<Rightarrow> gov_json \<Rightarrow> penalty_env \<Rightarrow> u64 \<Rightarrow> gov_world \<Rightarrow> gov_world \<Rightarrow> bool" for C J E h where
  create: "gov_step C J E h w (fst (CreateGovernanceProposal C now proposer title dh acts h w))"
| vote: "gov_step C J E h w (fst (VoteGovernance i voter choice h w))"
| queue: "gov_step C J E h w (fst (QueueGovernanceProposal i h w))"
| execute: "gov_step C J E h w (fst (ExecuteGovernanceProposal J i h w))"
| pause: "gov_step C J E h w (fst (GuardianPause guardian md h w))"
| open_slashing: "gov_step C J E h w (fst (OpenSlashingCase C validator evidence reason pen h blocks w))"
| appeal: "gov_step C J E h w (fst (AppealSlashingCase caseID validator appealHash h w))"
| resolve: "gov_step C J E h w (fst (ResolveSlashingCase E caseID governanceID uphold h w))"
| council: "gov_step C J E h w (fst (approveSlashingCaseCouncilLocked E caseID member decision reasonHash h ts (ensureWorld w)))"
| signed: "gov_step C J E h w (fst (applyGovernanceTransactionAt C J E now tx h w))"
| oracle_update: "gov_step C J E h w (fst (ApplyOracleUpdateTransactionAt J now tx blockTime w))"
| pair_policy: "gov_step C J E h w (fst (SetPairRiskPolicy p w))"

inductive gov_reach :: "crypto \<Rightarrow> gov_json \<Rightarrow> penalty_env \<Rightarrow> gov_world \<Rightarrow> bool" for C J E where
  genesis: "gw_Gov w = NewGovernanceState \<Longrightarrow> gov_reach C J E w"
| step: "gov_reach C J E w \<Longrightarrow> gov_step C J E h w w' \<Longrightarrow> gov_reach C J E w'"
| rest: "gov_reach C J E w \<Longrightarrow> gw_Gov w' = gw_Gov w \<Longrightarrow> gov_reach C J E w'"

section \<open>The invariant\<close>

definition choices :: "string list" where "choices = [''for'', ''against'', ''abstain'']"

definition tally :: "string \<Rightarrow> (string, GovernanceVote) gomap \<Rightarrow> f64" where
  "tally c vs = foldl fadd (Fin 0) (map (gv_Power \<circ> snd) (filter (\<lambda>(_, v). gv_Choice v = c) vs))"

definition votesCounted :: "GovernanceProposal \<Rightarrow> bool" where
  "votesCounted p \<longleftrightarrow> wf_map (gp_Votes p) \<and>
     (\<forall>(k, v) \<in> set (gp_Votes p). gv_Voter v = k \<and> gv_Choice v \<in> set choices \<and>
        gv_Power v = power_at (gp_SnapshotPower p) k \<and> \<not> fle (gv_Power v) (Fin 0)) \<and>
     gp_ForPower p = tally ''for'' (gp_Votes p) \<and> gp_AgainstPower p = tally ''against'' (gp_Votes p) \<and>
     gp_AbstainPower p = tally ''abstain'' (gp_Votes p)"

definition passed :: "GovernanceProposal \<Rightarrow> bool" where
  "passed p \<longleftrightarrow> \<not> proposalFails NewGovernanceState p \<and>
     (\<exists>queued. gp_EndHeight p < queued \<and> gp_ExecuteHeight p = queued + 500)"

definition proposalOk :: "string \<Rightarrow> GovernanceProposal \<Rightarrow> bool" where
  "proposalOk i p \<longleftrightarrow> gp_ID p = i \<and> votesCounted p \<and> gp_EndHeight p = gp_StartHeight p + 1000 \<and>
     (gp_Status p \<in> {''timelocked'', ''executed'', ''vetoed''} \<longrightarrow> passed p)"

definition configured :: "GovernanceState \<Rightarrow> bool" where
  "configured g \<longleftrightarrow> gs_VotingPeriodBlocks g = 1000 \<and> gs_TimelockBlocks g = 500 \<and> gs_QuorumBPS g = 4000 \<and> gs_ApprovalBPS g = 5001"

definition delegationEdges :: "(string, string) gomap \<Rightarrow> string rel" where
  "delegationEdges d = {(k, delegate_of d k) | k. delegate_of d k \<noteq> []}"

definition govOk :: "GovernanceState \<Rightarrow> bool" where
  "govOk g \<longleftrightarrow> configured g \<and> (\<forall>i p. map_of (gs_Proposals g) i = Some p \<longrightarrow> proposalOk i p) \<and> acyclic (delegationEdges (gs_Delegations g))"

lemma govOk_cong: "gs_Proposals g' = gs_Proposals g \<Longrightarrow> gs_Delegations g' = gs_Delegations g \<Longrightarrow>
    gs_VotingPeriodBlocks g' = gs_VotingPeriodBlocks g \<Longrightarrow> gs_TimelockBlocks g' = gs_TimelockBlocks g \<Longrightarrow>
    gs_QuorumBPS g' = gs_QuorumBPS g \<Longrightarrow> gs_ApprovalBPS g' = gs_ApprovalBPS g \<Longrightarrow> govOk g' = govOk g"
  by (simp add: govOk_def configured_def)

lemma govOk_upd [simp]:
  "govOk (g\<lparr>gs_Guardians := a, gs_GuardianThreshold := b, gs_GuardianExpiryBlock := c, gs_Guardian := d\<rparr>) = govOk g"
  "govOk (g\<lparr>gs_SlashingCouncil := a, gs_SlashingCouncilThreshold := b, gs_SlashingCouncilExpiryBlock := c\<rparr>) = govOk g"
  "govOk (g\<lparr>gs_AuditTrail := trail\<rparr>) = govOk g" "govOk (g\<lparr>gs_GuardianActions := actions\<rparr>) = govOk g"
  by (simp_all add: govOk_def configured_def)

lemma ensureWorld_gov [simp]: "gs_Proposals (gw_Gov (ensureWorld w)) = gs_Proposals (gw_Gov w)"
  "gs_Delegations (gw_Gov (ensureWorld w)) = gs_Delegations (gw_Gov w)" "proposal (ensureWorld w) i = proposal w i"
  "gs_QuorumBPS (gw_Gov (ensureWorld w)) = gs_QuorumBPS (gw_Gov w)" "gs_ApprovalBPS (gw_Gov (ensureWorld w)) = gs_ApprovalBPS (gw_Gov w)"
  by (simp_all add: ensureWorld_def ensureGov_def proposal_def)

lemma govOk_ensure [simp]: "govOk (gw_Gov (ensureWorld w)) = govOk (gw_Gov w)"
  by (rule govOk_cong) (simp_all add: ensureWorld_def ensureGov_def)

lemma proposal_put [simp]: "proposal (putProposal i p w) j = (if i = j then Some p else proposal w j)"
  by (simp add: proposal_def putProposal_def)

lemma govOk_put: "govOk (gw_Gov w) \<Longrightarrow> proposalOk i p \<Longrightarrow> govOk (gw_Gov (putProposal i p w))"
  by (auto simp: govOk_def configured_def putProposal_def)

lemma govOk_proposal: "govOk (gw_Gov w) \<Longrightarrow> proposal w i = Some p \<Longrightarrow> proposalOk i p"
  by (simp add: govOk_def proposal_def)

section \<open>The handlers keep it\<close>

lemma openProposal_ok: "govOk (gw_Gov w) \<Longrightarrow> govOk (gw_Gov (snd (openProposal C a t dh acts snap h w)))"
  by (auto simp: openProposal_def Let_def govOk_def configured_def putProposal_def proposalOk_def votesCounted_def tally_def)

lemma tally_snoc: "tally c (vs @ [(k, v)]) = (if gv_Choice v = c then fadd (tally c vs) (gv_Power v) else tally c vs)"
  by (simp add: tally_def)

lemma recordVote_ok:
  assumes "votesCounted p" "map_of (gp_Votes p) k = None" "\<not> fle (power_at (gp_SnapshotPower p) k) (Fin 0)" "c \<in> set choices"
  shows "votesCounted (recordVote k c (power_at (gp_SnapshotPower p) k) p)"
  using assms by (auto simp: votesCounted_def recordVote_def Let_def mput_fresh tally_snoc choices_def map_of_eq_None_iff)

lemma recordVote_fields: "gp_ID (recordVote k c x p) = gp_ID p" "gp_Status (recordVote k c x p) = gp_Status p"
  "gp_StartHeight (recordVote k c x p) = gp_StartHeight p" "gp_EndHeight (recordVote k c x p) = gp_EndHeight p"
  by (simp_all add: recordVote_def Let_def)

lemma castVote_ok: "govOk (gw_Gov w) \<Longrightarrow> c \<in> set choices \<Longrightarrow> govOk (gw_Gov (fst (castVote i k c h w)))"
  by (auto simp: castVote_def Let_def proposalOk_def recordVote_fields intro!: govOk_put recordVote_ok
      dest: govOk_proposal split: option.split)

lemma fle_not_fless: "fle a b \<Longrightarrow> \<not> fless b a" and fless_not_fle: "fless a b \<Longrightarrow> \<not> fle b a"
  by (cases a; cases b; simp)+

lemma passes_not_fails: "proposalPasses g p \<Longrightarrow> \<not> proposalFails g p"
  by (auto simp: proposalPasses_def proposalFails_def dest: fle_not_fless fless_not_fle)

lemma proposalFails_cong: "configured g \<Longrightarrow> proposalFails g p = proposalFails NewGovernanceState p"
  by (simp add: proposalFails_def configured_def NewGovernanceState_def)

lemma proposalFails_upd [simp]: "proposalFails g (p\<lparr>gp_Status := s\<rparr>) = proposalFails g p"
  "proposalFails g (p\<lparr>gp_Status := s, gp_ExecuteHeight := x\<rparr>) = proposalFails g p"
  "proposalFails g (p\<lparr>gp_Status := s, gp_VetoApprovals := m\<rparr>) = proposalFails g p"
  by (simp_all add: proposalFails_def participating_def decided_def snapshotTotal_def)

lemma votesCounted_upd [simp]: "votesCounted (p\<lparr>gp_Status := s\<rparr>) = votesCounted p"
  "votesCounted (p\<lparr>gp_Status := s, gp_ExecuteHeight := x\<rparr>) = votesCounted p"
  "votesCounted (p\<lparr>gp_Status := s, gp_VetoApprovals := m\<rparr>) = votesCounted p"
  by (simp_all add: votesCounted_def)

lemma veto_upd [simp]: "proposalFails g (p\<lparr>gp_VetoApprovals := m\<rparr>) = proposalFails g p" "votesCounted (p\<lparr>gp_VetoApprovals := m\<rparr>) = votesCounted p"
  by (simp_all add: proposalFails_def participating_def decided_def snapshotTotal_def votesCounted_def)

lemma passed_upd [simp]: "passed (p\<lparr>gp_Status := s\<rparr>) = passed p" "passed (p\<lparr>gp_VetoApprovals := m\<rparr>) = passed p"
  "passed (p\<lparr>gp_Status := s, gp_VetoApprovals := m\<rparr>) = passed p"
  by (simp_all add: passed_def)

lemma closeVoting_ok:
  assumes "govOk (gw_Gov w)" and passes: "\<And>g p. passes g p \<Longrightarrow> \<not> proposalFails g p"
  shows "govOk (gw_Gov (fst (closeVoting passes i h w)))"
proof (cases "proposal w i")
  case (Some p)
  from assms(1) have c: "configured (gw_Gov w)" by (simp add: govOk_def)
  from govOk_proposal [OF assms(1) Some] have p: "proposalOk i p" .
  have "passed (p\<lparr>gp_Status := ''timelocked'', gp_ExecuteHeight := h + gs_TimelockBlocks (gw_Gov w)\<rparr>)"
    if "passes (gw_Gov w) p" "gp_EndHeight p < h"
    using passes [OF that(1)] that(2) proposalFails_cong [OF c, of p] c by (auto simp: passed_def configured_def)
  with p Some assms(1) show ?thesis by (auto simp: closeVoting_def proposalOk_def not_le intro!: govOk_put)
qed (use assms in \<open>simp add: closeVoting_def\<close>)

lemma applyMembers_gov: "applyMembers J p v g = Inr g' \<Longrightarrow> govOk g' = govOk g \<and> gs_Proposals g' = gs_Proposals g"
  by (auto simp: applyMembers_def split: if_split_asm option.split_asm)

lemma applyAction_gov: "applyGovernanceAction J a w = Inr w' \<Longrightarrow>
    govOk (gw_Gov w') = govOk (gw_Gov w) \<and> gs_Proposals (gw_Gov w') = gs_Proposals (gw_Gov w)"
  by (auto simp: applyGovernanceAction_def Let_def map_sum_def split: if_split_asm sum.split_asm dest: applyMembers_gov)

lemma applyActions_gov: "applyActions J as w = (w', e) \<Longrightarrow>
    govOk (gw_Gov w') = govOk (gw_Gov w) \<and> gs_Proposals (gw_Gov w') = gs_Proposals (gw_Gov w)"
  by (induction as arbitrary: w) (auto split: sum.split_asm dest!: applyAction_gov)


text \<open>A rollback restores everything an action can change; the direct one restores it exactly.\<close>

lemma rollback_self [simp]: "rollbackTo l w w = w"
  by (simp add: rollbackTo_def)

lemma applyMembers_rollback: "applyMembers J p v (gw_Gov w) = Inr g \<Longrightarrow> rollbackTo True w0 (w\<lparr>gw_Gov := g\<rparr>) = rollbackTo True w0 w"
  by (auto simp: applyMembers_def rollbackTo_def Let_def split: if_split_asm option.split_asm)

lemma applyConsensus_rollback:
  "applyConsensus p v (gw_Consensus w) = Inr s \<Longrightarrow> rollbackTo True w0 (w\<lparr>gw_Consensus := s\<rparr>) = rollbackTo True w0 w"
  by (auto simp: applyConsensus_def rollbackTo_def Let_def split: if_split_asm option.split_asm)

lemma rollback_upd [simp]: "rollbackTo l w0 (w\<lparr>gw_Policy := a\<rparr>) = rollbackTo l w0 w" "rollbackTo l w0 (w\<lparr>gw_Pauses := b\<rparr>) = rollbackTo l w0 w"
  "rollbackTo l w0 (w\<lparr>gw_Publishers := c\<rparr>) = rollbackTo l w0 w" "rollbackTo l w0 (w\<lparr>gw_Pairs := d\<rparr>) = rollbackTo l w0 w"
  "rollbackTo l w0 (w\<lparr>gw_Arb := e\<rparr>) = rollbackTo l w0 w" "rollbackTo l w0 (w\<lparr>gw_Bridge := f\<rparr>) = rollbackTo l w0 w"
  by (simp_all add: rollbackTo_def Let_def)

lemma applyAction_rollback: "applyGovernanceAction J a w = Inr w' \<Longrightarrow> rollbackTo True w0 w' = rollbackTo True w0 w"
  by (auto simp: applyGovernanceAction_def Let_def map_sum_def split: if_split_asm sum.split_asm
      dest: applyMembers_rollback applyConsensus_rollback)

lemma applyActions_rollback: "applyActions J as w = (w', e) \<Longrightarrow> rollbackTo True w0 w' = rollbackTo True w0 w"
  by (induction as arbitrary: w) (auto split: sum.split_asm dest!: applyAction_rollback [where ?w0.0 = w0])

lemma rollback_weaker: "rollbackTo True w0 w = x \<Longrightarrow> rollbackTo False w0 w = x\<lparr>gw_Gov := (gw_Gov x)\<lparr>gs_Guardian := gs_Guardian (gw_Gov w)\<rparr>\<rparr>"
  by (auto simp: rollbackTo_def Let_def)


lemma applyMembers_guardian: "applyMembers J p v g = Inr g' \<Longrightarrow> gs_Guardian g' = gs_Guardian g \<or> gs_Guardian g' = []"
  by (auto simp: applyMembers_def split: if_split_asm option.split_asm)

lemma applyAction_guardian: "applyGovernanceAction J a w = Inr w' \<Longrightarrow> gs_Guardian (gw_Gov w') = gs_Guardian (gw_Gov w) \<or> gs_Guardian (gw_Gov w') = []"
  by (auto simp: applyGovernanceAction_def Let_def map_sum_def split: if_split_asm sum.split_asm dest: applyMembers_guardian)

lemma applyActions_guardian: "applyActions J as w = (w', e) \<Longrightarrow> gs_Guardian (gw_Gov w') = gs_Guardian (gw_Gov w) \<or> gs_Guardian (gw_Gov w') = []"
  by (induction as arbitrary: w) (auto split: sum.split_asm dest!: applyAction_guardian)

definition blankGuardian :: "gov_world \<Rightarrow> gov_world" where
  "blankGuardian w = w\<lparr>gw_Gov := (gw_Gov w)\<lparr>gs_Guardian := []\<rparr>\<rparr>"

lemma runActions_failed:
  assumes "runActions J l i p w = (w', Some e)"
  shows "w' = w \<or> \<not> l \<and> w' = blankGuardian w"
proof -
  obtain w1 err where a: "applyActions J (gp_Actions p) w = (w1, err)" by (cases "applyActions J (gp_Actions p) w")
  have r: "rollbackTo True w w1 = w" using applyActions_rollback [OF a, of w] by simp
  from assms a have "w' = rollbackTo l w w1" by (auto simp: runActions_def split: option.split_asm)
  with r rollback_weaker [OF r] applyActions_guardian [OF a] show ?thesis by (cases l) (auto simp: blankGuardian_def)
qed

lemma runActions_done:
  assumes "runActions J l i p w = (w', None)"
  obtains w1 where "applyActions J (gp_Actions p) w = (w1, None)" "Validate (gw_Policy w1) = None"
    "w' = putProposal i (p\<lparr>gp_Status := ''executed''\<rparr>) w1"
  using assms by (auto simp: runActions_def split: option.split_asm prod.split_asm intro!: that)

lemma passed_executed: "proposalOk i p \<Longrightarrow> gp_Status p = ''timelocked'' \<Longrightarrow> proposalOk i (p\<lparr>gp_Status := ''executed''\<rparr>)"
  by (simp add: proposalOk_def)

lemma runActions_ok:
  assumes "govOk (gw_Gov w)" "proposal w i = Some p" "gp_Status p = ''timelocked''"
  shows "govOk (gw_Gov (fst (runActions J l i p w)))"
proof (cases "runActions J l i p w")
  case (Pair w' err)
  show ?thesis
  proof (cases err)
    case None
    with Pair obtain w1 where a: "applyActions J (gp_Actions p) w = (w1, None)"
      and w': "w' = putProposal i (p\<lparr>gp_Status := ''executed''\<rparr>) w1" by (auto elim: runActions_done)
    from applyActions_gov [OF a] assms have "govOk (gw_Gov w1)" by simp
    with w' Pair passed_executed [OF govOk_proposal [OF assms(1,2)] assms(3)] show ?thesis by (simp add: govOk_put)
  next
    case (Some e)
    with Pair runActions_failed [of J l i p w w' e] assms show ?thesis
      by (auto simp: blankGuardian_def govOk_def configured_def)
  qed
qed

section \<open>Delegations\<close>

lemma edge_unique: "(k, z) \<in> delegationEdges d \<Longrightarrow> z = delegate_of d k \<and> z \<noteq> []"
  by (auto simp: delegationEdges_def)

lemma delegationError_path: "delegationError d actor n c = None \<Longrightarrow> (c, actor) \<notin> (delegationEdges d)\<^sup>*"
proof (induction n arbitrary: c)
  case (Suc n)
  show ?case
  proof
    assume path: "(c, actor) \<in> (delegationEdges d)\<^sup>*"
    from Suc.prems have ne: "c \<noteq> actor" by (auto split: if_split_asm)
    with path obtain z where z: "(c, z) \<in> delegationEdges d" "(z, actor) \<in> (delegationEdges d)\<^sup>*" by (meson converse_rtranclE)
    with edge_unique [OF z(1)] Suc ne show False by (auto simp: Let_def split: if_split_asm)
  qed
qed simp

lemma edges_put: "norm_addr v = v \<Longrightarrow> delegationEdges (mput k v d) \<subseteq> insert (k, v) (delegationEdges d)"
  by (auto simp: delegationEdges_def delegate_of_def)

lemma edges_del: "delegationEdges (mdel k d) \<subseteq> delegationEdges d"
  by (auto simp: delegationEdges_def delegate_of_def split: if_split_asm)

lemma govOk_delegations: "govOk g \<Longrightarrow> acyclic (delegationEdges d) \<Longrightarrow> govOk (g\<lparr>gs_Delegations := d\<rparr>)"
  by (simp add: govOk_def configured_def)

lemma delegate_ok: "govOk (gw_Gov w) \<Longrightarrow> norm_addr v = v \<Longrightarrow> govOk (gw_Gov (fst (delegate actor v w)))"
  by (auto simp: delegate_def Let_def acyclic_insert dest: delegationError_path
      intro!: govOk_delegations acyclic_subset [OF _ edges_put] split: option.split) (simp_all add: govOk_def)

lemma undelegate_ok: "govOk (gw_Gov w) \<Longrightarrow> govOk (gw_Gov (fst (undelegate actor w)))"
  by (auto simp: undelegate_def intro!: govOk_delegations acyclic_subset [OF _ edges_del]) (simp add: govOk_def)

section \<open>Reachable states\<close>

lemma slash_gov [simp]: "gw_Gov (slashValidatorAt E a p r n w) = gw_Gov w" "gw_Gov (closeCase E u n i c w) = gw_Gov w"
  by (simp_all add: slashValidatorAt_def closeCase_def Let_def split: prod.split)

lemma approve_gov [simp]: "gw_Gov (fst (approveSlashingCaseCouncilLocked E i m d r h ts w)) = gw_Gov w"
  by (simp add: approveSlashingCaseCouncilLocked_def Let_def split: option.split)

lemma audited_ok: "govOk (gw_Gov (fst r)) \<Longrightarrow> govOk (gw_Gov (fst (audited h operation a i d r)))"
  by (auto simp: audited_def auditGovernance_def Let_def split: prod.split option.split)

lemma createTx_ok: "govOk (gw_Gov w) \<Longrightarrow> govOk (gw_Gov (fst (createTx C now p a h w)))"
  by (auto simp: createTx_def Let_def auditGovernance_def split: option.split prod.split
      dest: openProposal_ok [of w C a "pl_Title p" "pl_DescriptionHash p" "pl_Actions p" "governancePowerSnapshot now w" h])

lemma cancelTx_ok: "govOk (gw_Gov w) \<Longrightarrow> govOk (gw_Gov (fst (cancelTx i a r w)))"
  by (auto simp: cancelTx_def proposalOk_def dest: govOk_proposal intro!: govOk_put split: option.split)

lemma executeTx_ok: "govOk (gw_Gov w) \<Longrightarrow> govOk (gw_Gov (fst (executeTx J i h w)))"
  by (auto simp: executeTx_def executable_def runActions_ok split: option.split)

lemma guardianPauseTx_ok: "govOk (gw_Gov w) \<Longrightarrow> govOk (gw_Gov (fst (guardianPauseTx md i e a h w)))"
  by (simp add: guardianPauseTx_def Let_def)

lemma guardianVetoTx_ok: "govOk (gw_Gov w) \<Longrightarrow> govOk (gw_Gov (fst (guardianVetoTx i a r h w)))"
  by (auto simp: guardianVetoTx_def Let_def proposalOk_def dest: govOk_proposal intro!: govOk_put split: option.split)

lemma valid_choice: "ValidateGovernanceTransaction J tx = Inr p \<Longrightarrow> pl_Operation p = ''vote'' \<Longrightarrow> pl_Choice p \<in> set choices"
  by (auto simp: ValidateGovernanceTransaction_def choices_def split: sum.split_asm if_split_asm)

lemma transaction_ok: "govOk (gw_Gov w) \<Longrightarrow> govOk (gw_Gov (fst (applyGovernanceTransactionAt C J E now tx h w)))"
  by (auto simp: applyGovernanceTransactionAt_def Let_def split: sum.split prod.split
      intro!: audited_ok delegate_ok undelegate_ok createTx_ok cancelTx_ok executeTx_ok guardianPauseTx_ok guardianVetoTx_ok castVote_ok valid_choice)
    (metis closeVoting_ok fst_conv govOk_ensure)+


lemma CreateGovernanceProposal_ok: "govOk (gw_Gov w) \<Longrightarrow> govOk (gw_Gov (fst (CreateGovernanceProposal C now a t dh acts h w)))"
  by (simp add: CreateGovernanceProposal_def Let_def openProposal_ok split: option.split)

lemma VoteGovernance_ok: "govOk (gw_Gov w) \<Longrightarrow> govOk (gw_Gov (fst (VoteGovernance i v c h w)))"
  by (auto simp: VoteGovernance_def Let_def choices_def intro!: castVote_ok)

lemma QueueGovernanceProposal_ok: "govOk (gw_Gov w) \<Longrightarrow> govOk (gw_Gov (fst (QueueGovernanceProposal i h w)))"
  by (auto simp: QueueGovernanceProposal_def passes_not_fails intro!: closeVoting_ok)

lemma ExecuteGovernanceProposal_ok: "govOk (gw_Gov w) \<Longrightarrow> govOk (gw_Gov (fst (ExecuteGovernanceProposal J i h w)))"
  by (auto simp: ExecuteGovernanceProposal_def Let_def executable_def intro!: runActions_ok split: option.split)

lemma other_handlers [simp]:
  "govOk (gw_Gov (fst (GuardianPause g m h w))) = govOk (gw_Gov w)"
  "govOk (gw_Gov (fst (OpenSlashingCase C v ev r pen h b w))) = govOk (gw_Gov w)"
  "govOk (gw_Gov (fst (AppealSlashingCase i v a h w))) = govOk (gw_Gov w)"
  "govOk (gw_Gov (fst (ResolveSlashingCase E i g u h w))) = govOk (gw_Gov w)"
  "govOk (gw_Gov (fst (ApplyOracleUpdateTransactionAt J now tx bt w))) = govOk (gw_Gov w)"
  "govOk (gw_Gov (fst (SetPairRiskPolicy q w))) = govOk (gw_Gov w)"
  by (simp_all add: GuardianPause_def OpenSlashingCase_def AppealSlashingCase_def ResolveSlashingCase_def
      ApplyOracleUpdateTransactionAt_def SetPairRiskPolicy_def Let_def split: option.split sum.split)

lemmas handlers_ok = CreateGovernanceProposal_ok VoteGovernance_ok QueueGovernanceProposal_ok ExecuteGovernanceProposal_ok transaction_ok

lemma gov_step_ok: "gov_step C J E h w w' \<Longrightarrow> govOk (gw_Gov w) \<Longrightarrow> govOk (gw_Gov w')"
  by (induction rule: gov_step.induct) (simp_all add: handlers_ok)

lemma gov_reach_ok: "gov_reach C J E w \<Longrightarrow> govOk (gw_Gov w)"
proof (induction rule: gov_reach.induct)
  case (genesis w)
  then show ?case by (simp add: govOk_def configured_def NewGovernanceState_def delegationEdges_def delegate_of_def acyclic_def)
qed (simp_all add: gov_step_ok)

section \<open>Who executes\<close>

text \<open>The proposals executed after a step were executed before it.\<close>

definition noExecution :: "gov_world \<Rightarrow> gov_world \<Rightarrow> bool" where
  "noExecution w w' \<longleftrightarrow> (\<forall>i q. proposal w' i = Some q \<longrightarrow> gp_Status q = ''executed'' \<longrightarrow>
     (\<exists>p. proposal w i = Some p \<and> gp_Status p = ''executed''))"

lemma noExecution_same: "gs_Proposals (gw_Gov w') = gs_Proposals (gw_Gov w) \<Longrightarrow> noExecution w w'"
  by (simp add: noExecution_def proposal_def)

lemma noExecution_put: "gp_Status p \<noteq> ''executed'' \<Longrightarrow> noExecution w w' \<Longrightarrow> noExecution w (putProposal i p w')"
  by (simp add: noExecution_def)

lemma noExecution_put_same: "gs_Proposals (gw_Gov w') = gs_Proposals (gw_Gov w) \<Longrightarrow> gp_Status p \<noteq> ''executed'' \<Longrightarrow> noExecution w (putProposal i p w')"
  by (simp add: noExecution_put noExecution_same)

lemmas unexecuted = noExecution_same noExecution_put_same

lemma noExecution_audit: "noExecution w (fst r) \<Longrightarrow> noExecution w (fst (audited h operation a i d r))"
  by (auto simp: noExecution_def proposal_def audited_def auditGovernance_def Let_def split: prod.split option.split)

lemma noExecution_open: "gs_Proposals (gw_Gov w') = gs_Proposals (gw_Gov w) \<Longrightarrow> noExecution w (snd (openProposal C a t dh acts sn h w'))"
  by (simp add: openProposal_def Let_def noExecution_def) (simp add: proposal_def)

lemma noExecution_cast: "gs_Proposals (gw_Gov w') = gs_Proposals (gw_Gov w) \<Longrightarrow> noExecution w (fst (castVote i k c h w'))"
  by (auto simp: castVote_def Let_def recordVote_fields simp: unexecuted split: option.split)

lemma noExecution_close: "gs_Proposals (gw_Gov w') = gs_Proposals (gw_Gov w) \<Longrightarrow> noExecution w (fst (closeVoting P i h w'))"
  by (auto simp: closeVoting_def simp: unexecuted split: option.split)

lemma noExecution_create: "gs_Proposals (gw_Gov w') = gs_Proposals (gw_Gov w) \<Longrightarrow> noExecution w (fst (createTx C now p a h w'))"
  using noExecution_open [of w' w C a "pl_Title p" "pl_DescriptionHash p" "pl_Actions p" "governancePowerSnapshot now w'" h]
  by (auto simp: createTx_def Let_def noExecution_same noExecution_def [of w "auditGovernance _ _ _ _ _ _"] proposal_def auditGovernance_def
      split: option.split prod.split) (simp add: noExecution_def proposal_def)

lemma noExecution_others: "gs_Proposals (gw_Gov w') = gs_Proposals (gw_Gov w) \<Longrightarrow> noExecution w (fst (delegate a v w'))"
  "gs_Proposals (gw_Gov w') = gs_Proposals (gw_Gov w) \<Longrightarrow> noExecution w (fst (undelegate a w'))"
  "gs_Proposals (gw_Gov w') = gs_Proposals (gw_Gov w) \<Longrightarrow> noExecution w (fst (guardianPauseTx md i e a h w'))"
  "gs_Proposals (gw_Gov w') = gs_Proposals (gw_Gov w) \<Longrightarrow> noExecution w (fst (approveSlashingCaseCouncilLocked E i a d r h ts w'))"
  "gs_Proposals (gw_Gov w') = gs_Proposals (gw_Gov w) \<Longrightarrow> noExecution w (fst (cancelTx i a r w'))"
  "gs_Proposals (gw_Gov w') = gs_Proposals (gw_Gov w) \<Longrightarrow> noExecution w (fst (guardianVetoTx i a r h w'))"
  by (auto simp: delegate_def undelegate_def guardianPauseTx_def cancelTx_def guardianVetoTx_def Let_def
      simp: unexecuted split: option.split)


definition settings :: "gov_world \<Rightarrow> EconomicPolicy \<times> (string, bool) gomap \<times> (string, string) gomap \<times> (string, PairRiskPolicy) gomap \<times>
    ProtocolArbPolicy \<times> BridgeSecurityState \<times> BFTConsensusState" where
  "settings w = (gw_Policy w, gw_Pauses w, gw_Publishers w, gw_Pairs w, gw_Arb w, gw_Bridge w, gw_Consensus w)"

text \<open>Either nothing was executed, or exactly one proposal that was due, with all its actions.\<close>

definition executedOne :: "gov_json \<Rightarrow> u64 \<Rightarrow> gov_world \<Rightarrow> gov_world \<Rightarrow> bool" where
  "executedOne J h w w' \<longleftrightarrow> (\<exists>i p w1. proposal w i = Some p \<and> executable h p \<and> applyActions J (gp_Actions p) (ensureWorld w) = (w1, None) \<and>
     Validate (gw_Policy w1) = None \<and> settings w' = settings w1 \<and>
     (\<forall>j q. proposal w' j = Some q \<longrightarrow> gp_Status q = ''executed'' \<longrightarrow> j = i \<or> (\<exists>p. proposal w j = Some p \<and> gp_Status p = ''executed'')))"

lemma executedOne_audit: "executedOne J h w (fst r) \<Longrightarrow> executedOne J h w (fst (audited h' operation a i d r))"
  by (cases r) (simp add: executedOne_def proposal_def audited_def auditGovernance_def settings_def Let_def split: option.split)

lemma runActions_executes:
  assumes "proposal w i = Some p" "executable h p"
  shows "noExecution w (fst (runActions J l i p (ensureWorld w))) \<or> executedOne J h w (fst (runActions J l i p (ensureWorld w)))"
proof (cases "runActions J l i p (ensureWorld w)")
  case (Pair w' err)
  show ?thesis
  proof (cases err)
    case (Some e)
    with Pair runActions_failed [of J l i p "ensureWorld w" w' e] have "gs_Proposals (gw_Gov w') = gs_Proposals (gw_Gov w)"
      by (auto simp: blankGuardian_def)
    with Pair show ?thesis by (simp add: noExecution_same)
  next
    case None
    with Pair obtain w1 where a: "applyActions J (gp_Actions p) (ensureWorld w) = (w1, None)" "Validate (gw_Policy w1) = None"
      and w': "w' = putProposal i (p\<lparr>gp_Status := ''executed''\<rparr>) w1" by (auto elim: runActions_done)
    from applyActions_gov [OF a(1)] have "proposal w1 j = proposal w j" for j by (simp add: proposal_def)
    with a w' assms Pair show ?thesis
      unfolding executedOne_def by (intro disjI2 exI [of _ i] exI [of _ p] exI [of _ w1]) (simp add: settings_def, simp add: putProposal_def)
  qed
qed

lemma tx_executes: "noExecution w (fst (applyGovernanceTransactionAt C J E now tx h w)) \<or>
    executedOne J h w (fst (applyGovernanceTransactionAt C J E now tx h w))"
proof -
  have e: "noExecution w (fst (executeTx J i h (ensureWorld w))) \<or> executedOne J h w (fst (executeTx J i h (ensureWorld w)))" for i
    using runActions_executes [where w = w and i = i and h = h and J = J and l = False]
    by (auto simp: executeTx_def unexecuted split: option.split)
  then have e': "noExecution w (fst (audited h b c d a (executeTx J i h (ensureWorld w)))) \<or>
      executedOne J h w (fst (audited h b c d a (executeTx J i h (ensureWorld w))))" for a b c d i
    by (blast intro: noExecution_audit executedOne_audit)
  have q: "noExecution w (fst (audited h b c d a (closeVoting P i h (ensureWorld w))))" for a b c d P i
    by (intro noExecution_audit noExecution_close) simp
  show ?thesis
    using e' q by (simp add: applyGovernanceTransactionAt_def Let_def noExecution_audit noExecution_others noExecution_cast noExecution_create
        unexecuted split: sum.split prod.split) (metis prod.collapse)
qed

lemma step_executes: "gov_step C J E h w w' \<Longrightarrow> noExecution w w' \<or> executedOne J h w w'"
proof (induction rule: gov_step.induct)
  case (create w now proposer title dh acts)
  show ?case by (simp add: CreateGovernanceProposal_def Let_def noExecution_open unexecuted split: option.split)
next
  case (vote w i voter choice)
  show ?case by (simp add: VoteGovernance_def Let_def noExecution_cast unexecuted)
next
  case (queue w i)
  show ?case by (simp add: QueueGovernanceProposal_def noExecution_close)
next
  case (execute w i)
  show ?case using runActions_executes [where w = w and i = i and h = h and J = J and l = True]
    by (auto simp: ExecuteGovernanceProposal_def Let_def unexecuted split: option.split)
next
  case (signed w now tx)
  show ?case by (rule tx_executes)
qed (simp_all add: GuardianPause_def OpenSlashingCase_def AppealSlashingCase_def ResolveSlashingCase_def noExecution_others
    ApplyOracleUpdateTransactionAt_def SetPairRiskPolicy_def Let_def unexecuted split: option.split sum.split)


section \<open>Properties\<close>

text \<open>C31: Governance keeps its books. In every reachable state a proposal is filed under its id; each account has at most one vote
  on it, one of the three choices, with exactly the power the snapshot gives the account, which is positive; the three
  tallies are the sums of those powers in the order of the votes; and the delegations have no cycle.\<close>

theorem governance_books:
  assumes "gov_reach C J E w"
  shows "acyclic (delegationEdges (gs_Delegations (gw_Gov w))) \<and>
    (\<forall>i p. proposal w i = Some p \<longrightarrow> gp_ID p = i \<and> wf_map (gp_Votes p) \<and>
      (\<forall>(k, v) \<in> set (gp_Votes p). gv_Voter v = k \<and> gv_Choice v \<in> {''for'', ''against'', ''abstain''} \<and>
         gv_Power v = power_at (gp_SnapshotPower p) k \<and> \<not> fle (gv_Power v) (Fin 0)) \<and>
      gp_ForPower p = tally ''for'' (gp_Votes p) \<and> gp_AgainstPower p = tally ''against'' (gp_Votes p) \<and>
      gp_AbstainPower p = tally ''abstain'' (gp_Votes p))"
proof -
  from gov_reach_ok [OF assms] have "govOk (gw_Gov w)" .
  then show ?thesis by (auto simp: govOk_def proposal_def proposalOk_def votesCounted_def choices_def)
qed

text \<open>C30: Execution is earned. When a step makes some proposal executed, that step executes exactly one proposal; it was time-locked, its
  votes reached the quorum and the approval threshold, it was queued after its voting period and five hundred blocks
  before; all its actions succeeded in their order, their result is a valid economic policy, and the settings of the chain
  are exactly what these actions make of them.\<close>

theorem execution_is_earned:
  assumes "gov_reach C J E w" "gov_step C J E h w w'"
    and "proposal w' i = Some q" "gp_Status q = ''executed''" "\<forall>p. proposal w i = Some p \<longrightarrow> gp_Status p \<noteq> ''executed''"
  shows "\<exists>p w1 queued. proposal w i = Some p \<and> gp_Status p = ''timelocked'' \<and> \<not> proposalFails NewGovernanceState p \<and>
    gp_EndHeight p < queued \<and> gp_ExecuteHeight p = queued + 500 \<and> gp_ExecuteHeight p \<le> h \<and>
    applyActions J (gp_Actions p) (ensureWorld w) = (w1, None) \<and> Validate (gw_Policy w1) = None \<and> settings w' = settings w1 \<and>
    (\<forall>j r. proposal w' j = Some r \<longrightarrow> gp_Status r = ''executed'' \<longrightarrow> j = i \<or> (\<exists>p. proposal w j = Some p \<and> gp_Status p = ''executed''))"
proof -
  from assms(3-5) have "\<not> noExecution w w'" by (auto simp: noExecution_def)
  with step_executes [OF assms(2)] have "executedOne J h w w'" by blast
  then obtain i' p w1 where p: "proposal w i' = Some p" "executable h p" "applyActions J (gp_Actions p) (ensureWorld w) = (w1, None)"
      "Validate (gw_Policy w1) = None" "settings w' = settings w1"
    and one: "\<And>j r. proposal w' j = Some r \<Longrightarrow> gp_Status r = ''executed'' \<Longrightarrow> j = i' \<or> (\<exists>p. proposal w j = Some p \<and> gp_Status p = ''executed'')"
    unfolding executedOne_def by blast
  from one [OF assms(3,4)] assms(5) have i: "i' = i" by blast
  from govOk_proposal [OF gov_reach_ok [OF assms(1)] p(1)] p(2) have "passed p" by (simp add: proposalOk_def executable_def)
  then obtain queued where q: "\<not> proposalFails NewGovernanceState p" "gp_EndHeight p < queued" "gp_ExecuteHeight p = queued + 500"
    unfolding passed_def by blast
  from p q one i show ?thesis
    by (intro exI [of _ p] exI [of _ w1] exI [of _ queued]) (auto simp: executable_def)
qed

text \<open>C32: A failed execution leaves nothing behind. The direct operation restores the state exactly; the transaction does so up to
  the legacy guardian, which is lost when a guardian configuration precedes the failing action.\<close>

theorem failed_execution_restores:
  "(ExecuteGovernanceProposal J i h w = (w', Some e) \<longrightarrow> w' = ensureWorld w) \<and>
   (executeTx J i h w = (w', Some e) \<longrightarrow> w' = w \<or> w' = w\<lparr>gw_Gov := (gw_Gov w)\<lparr>gs_Guardian := []\<rparr>\<rparr>)"
  unfolding blankGuardian_def [symmetric]
  by (auto simp: ExecuteGovernanceProposal_def executeTx_def Let_def split: option.split_asm if_split_asm dest: runActions_failed)

section \<open>A run from proposal to execution\<close>

definition demo_json :: gov_json where
  "demo_json = \<lparr>json_payload = (\<lambda>_. None), json_pair = (\<lambda>_. None), json_members = (\<lambda>_. Some ([''0x00000000000000000000000000000000000000a1'',
     ''0x00000000000000000000000000000000000000a2''], 2, 0)), json_bridge = (\<lambda>_. None), json_light = (\<lambda>_. None), json_oracle = (\<lambda>_. None)\<rparr>"

definition demo_env :: penalty_env where "demo_env = \<lparr>pe_MaxPenaltyScore = Fin 1, pe_JailSeconds = 60\<rparr>"
definition gov_crypto :: crypto where "gov_crypto = \<lparr>sha256 = (\<lambda>_. ''aaaaaaaaaaaa''), recover = (\<lambda>_ _. None)\<rparr>"
definition voter_a :: string where "voter_a = ''0x00000000000000000000000000000000000000aa''"

definition demo_validator :: PenalizedValidator where
  "demo_validator = \<lparr>v_Address = voter_a, v_DEXAddress = ''d'', v_PairKey = [], v_LPTokenAmount = [], v_LockedLiquidityUSD = Fin 0,
     v_LPStakeAmount = Fin 1, v_NativeBond = Fin 1, v_LockTime = None, v_LiquidityPower = Fin 0, v_PenaltyScore = Fin 0,
     v_LastPenaltyAt = 0, v_JailedUntil = 0, v_SlashReason = []\<rparr>"

definition demo_world :: gov_world where
  "demo_world = \<lparr>gw_Gov = NewGovernanceState, gw_Policy = DefaultEconomicPolicy, gw_Pauses = [], gw_Consensus = NewBFTConsensusState 100,
     gw_Publishers = [], gw_OracleNonces = [], gw_Observations = [], gw_Pairs = [], gw_Arb = DefaultProtocolArbPolicy,
     gw_Bridge = NewBridgeSecurityState, gw_Cases = [], gw_Validators = [Some demo_validator], gw_SlashingPool = Fin 0,
     gw_MinStake = Fin 1, gw_Blocks = [], gw_AllowLegacyFinality = True\<rparr>"


definition pauseBridge :: GovernanceAction where "pauseBridge = \<lparr>ga_Module = ''safety'', ga_Parameter = ''bridge_paused'', ga_Value = ''true''\<rparr>"
definition newGuardians :: GovernanceAction where "newGuardians = \<lparr>ga_Module = ''governance'', ga_Parameter = ''guardian_config'', ga_Value = []\<rparr>"
definition badTimeout :: GovernanceAction where "badTimeout = \<lparr>ga_Module = ''consensus'', ga_Parameter = ''round_timeout_seconds'', ga_Value = ''1''\<rparr>"

definition gov_id :: string where "gov_id = governanceProposalID gov_crypto voter_a ''t'' 1"
definition demo_voted :: "GovernanceAction list \<Rightarrow> gov_world" where
  "demo_voted acts = fst (VoteGovernance gov_id voter_a ''for'' 2 (fst (CreateGovernanceProposal gov_crypto 5 voter_a ''t'' [] acts 1 demo_world)))"
definition demo_queued :: "GovernanceAction list \<Rightarrow> gov_world" where
  "demo_queued acts = fst (QueueGovernanceProposal gov_id 1002 (demo_voted acts))"

lemma demo_voted_reach: "gov_reach gov_crypto demo_json demo_env (demo_voted acts)"
  unfolding demo_voted_def
  by (rule gov_reach.step [OF gov_reach.step [OF gov_reach.genesis gov_step.create] gov_step.vote]) (simp add: demo_world_def)

lemma demo_queued_reach: "gov_reach gov_crypto demo_json demo_env (demo_queued acts)"
  unfolding demo_queued_def by (rule gov_reach.step [OF demo_voted_reach gov_step.queue])

text \<open>The square root and the half that the power of one bonded coin needs.\<close>

lemma isqrt_square: "isqrt (s * s) = s"
proof -
  from isqrt_bounds [of "s * s"] have b: "isqrt (s * s) * isqrt (s * s) \<le> s * s" "s * s < (isqrt (s * s) + 1) * (isqrt (s * s) + 1)" by auto
  have "isqrt (s * s) \<le> s" using b(1) by (metis not_le mult_strict_mono' le0)
  moreover have "s < isqrt (s * s) + 1" using b(2) by (metis mult_le_mono not_le)
  ultimately show ?thesis by simp
qed

lemma fsqrt_one: "fsqrt (Fin 1) = Fin 1"
proof -
  have "isqrt (nat \<lfloor>pow2 120\<rfloor>) = 2 ^ 60" using isqrt_square [of "2 ^ 60"] by (simp add: pow2_def flip: power_add)
  moreover have "ilog2 1 = 0" by (simp add: ilog2_def flog2.simps)
  ultimately show ?thesis by (simp add: sqrt_rat_def Let_def pow2_def go_simps)
qed

lemma rnd_half: "rnd (1 / 2) = Fin (1 / 2)"
  by (rule rnd_exact [of _ 1 "- 1"]) (simp_all add: pow2_def)

lemma voter_facts: "to_lower voter_a = voter_a" "norm_addr voter_a = voter_a" "ValidateAddress voter_a" "voter_a \<noteq> []" "trim_space voter_a \<noteq> []"
  by code_simp+

lemma demo_weight: "validatorEffectiveWeight 5 (Validator.truncate demo_validator) = Fin 1" "isDEXBackedValidator (Validator.truncate demo_validator)"
  by (simp_all add: validatorEffectiveWeight_def demo_validator_def Validator.truncate_def isDEXBackedValidator_def fsub_def go_simps Let_def trim_space_def is_space_def)

lemma demo_entry: "powerEntry 5 (Fin 1) (Validator.truncate demo_validator) =
    Some \<lparr>vp_Address = voter_a, vp_Power = Fin 1, vp_NativeBondWeight = Fin 1, vp_LiquidityCredit = Fin 0, vp_HybridBonded = True\<rparr>"
  unfolding powerEntry_def demo_weight
  by (simp add: demo_validator_def Validator.truncate_def fsqrt_one [simplified] rnd_half voter_facts fsub_def go_simps Let_def)

lemma demo_snapshot: "gw_Validators w = [Some demo_validator] \<Longrightarrow> gw_MinStake w = Fin 1 \<Longrightarrow> gs_Delegations (gw_Gov w) = [] \<Longrightarrow>
    governancePowerSnapshot 5 w = [(voter_a, Fin 1)]"
  by (simp add: governancePowerSnapshot_def buildValidatorPowerSet_def List.map_filter_def demo_entry powerMap_def voter_facts)

definition demo_proposal :: "GovernanceAction list \<Rightarrow> GovernanceProposal" where
  "demo_proposal acts = \<lparr>gp_ID = gov_id, gp_Proposer = voter_a, gp_Title = ''t'', gp_DescriptionHash = [], gp_Actions = acts, gp_StartHeight = 1,
     gp_EndHeight = 1001, gp_ExecuteHeight = 0, gp_Status = ''voting'', gp_SnapshotPower = [(voter_a, Fin 1)],
     gp_Votes = [(voter_a, \<lparr>gv_Voter = voter_a, gv_Choice = ''for'', gv_Power = Fin 1\<rparr>)], gp_ForPower = Fin 1, gp_AgainstPower = Fin 0,
     gp_AbstainPower = Fin 0, gp_VetoApprovals = []\<rparr>"

definition demo_actions :: "GovernanceAction list list" where
  "demo_actions = [[pauseBridge], [newGuardians, badTimeout]]"

lemma demo_actions_valid: "acts \<in> set demo_actions \<Longrightarrow> firstInvalid acts = None \<and> acts \<noteq> [] \<and> length acts \<le> 16"
proof -
  have "list_all (\<lambda>acts. firstInvalid acts = None \<and> acts \<noteq> [] \<and> length acts \<le> 16) demo_actions" by code_simp
  then show "acts \<in> set demo_actions \<Longrightarrow> firstInvalid acts = None \<and> acts \<noteq> [] \<and> length acts \<le> 16" by (auto simp: list_all_iff)
qed

lemma demo_frame: "gw_Validators (ensureWorld demo_world) = [Some demo_validator]" "gw_MinStake (ensureWorld demo_world) = Fin 1"
  "gs_Delegations (gw_Gov (ensureWorld demo_world)) = []" "gs_Nonce (gw_Gov (ensureWorld demo_world)) = 0"
  "gs_VotingPeriodBlocks (gw_Gov (ensureWorld demo_world)) = 1000" "gs_TimelockBlocks (gw_Gov (ensureWorld demo_world)) = 500"
  by (simp_all add: ensureWorld_def ensureGov_def demo_world_def NewGovernanceState_def)

lemma demo_power: "governancePowerSnapshot 5 (ensureWorld demo_world) = [(voter_a, Fin 1)]"
  by (rule demo_snapshot) (rule demo_frame)+

lemma title_trim: "trim_space ''t'' = ''t''" "trim_space [] = []" "norm_addr ''for'' = ''for''"
  by code_simp+

lemma demo_vote: "acts \<in> set demo_actions \<Longrightarrow> proposal (demo_voted acts) gov_id = Some (demo_proposal acts)"
proof -
  assume "acts \<in> set demo_actions"
  with demo_actions_valid have v: "firstInvalid acts = None" "acts \<noteq> []" "\<not> 16 < length acts" by (simp_all add: not_less)
  show ?thesis
    by (simp add: demo_voted_def CreateGovernanceProposal_def VoteGovernance_def castVote_def openProposal_def recordVote_def
        v voter_facts title_trim demo_power demo_frame Let_def demo_proposal_def power_at_def go_simps flip: gov_id_def)
qed

lemma demo_vote_power: "map_option (\<lambda>p. (gp_Votes p, gp_ForPower p)) (proposal (demo_voted [pauseBridge]) gov_id) =
    Some ([(voter_a, \<lparr>gv_Voter = voter_a, gv_Choice = ''for'', gv_Power = Fin 1\<rparr>)], Fin 1)"
  using demo_vote [of "[pauseBridge]"] by (simp add: demo_actions_def demo_proposal_def)


lemma demo_passes: "proposalPasses g p \<longleftrightarrow> True" if "configured g" "p = demo_proposal acts"
  using that by (simp add: proposalPasses_def configured_def demo_proposal_def snapshotTotal_def participating_def decided_def f_of_int_def go_simps)

lemma demo_due: "acts \<in> set demo_actions \<Longrightarrow> proposal (demo_queued acts) gov_id = Some (demo_proposal acts\<lparr>gp_Status := ''timelocked'', gp_ExecuteHeight := 1502\<rparr>)"
proof -
  assume a: "acts \<in> set demo_actions"
  let ?w = "ensureWorld (demo_voted acts)"
  from gov_reach_ok [OF demo_voted_reach] have "govOk (gw_Gov ?w)" by simp
  then have c: "configured (gw_Gov ?w)" by (simp add: govOk_def)
  then have "gs_TimelockBlocks (gw_Gov ?w) = 500" by (simp add: configured_def)
  with c demo_vote [OF a] demo_passes [OF c HOL.refl, of acts] show ?thesis
    by (simp add: demo_queued_def QueueGovernanceProposal_def closeVoting_def) (simp add: demo_proposal_def)
qed

lemma governance_books_witness:
  "\<exists>p. proposal (demo_voted [pauseBridge]) gov_id = Some p \<and> gp_ForPower p = tally ''for'' (gp_Votes p) \<and> gp_ForPower p = Fin 1 \<and> gp_ID p = gov_id"
proof -
  from demo_vote_power obtain p where p: "proposal (demo_voted [pauseBridge]) gov_id = Some p" "gp_ForPower p = Fin 1" by auto
  with governance_books [OF demo_voted_reach] show ?thesis by blast
qed

lemma put_policy [simp]: "gw_Policy (putProposal i p w) = gw_Policy w" "gw_Policy (fst (closeVoting P i h w)) = gw_Policy w"
  "gw_Policy (fst (castVote i k c h w)) = gw_Policy w" "gw_Policy (snd (openProposal C a t dh acts sn h w)) = gw_Policy w"
  by (simp_all add: putProposal_def closeVoting_def castVote_def openProposal_def Let_def split: option.split)

lemma default_policy: "ensureEconomicPolicy DefaultEconomicPolicy = DefaultEconomicPolicy" "Validate DefaultEconomicPolicy = None"
  by code_simp+

lemma demo_policy: "gw_Policy (ensureWorld (demo_queued acts)) = DefaultEconomicPolicy"
proof -
  have e: "gw_Policy (ensureWorld w) = ensureEconomicPolicy (gw_Policy w)" for w by (simp add: ensureWorld_def)
  show ?thesis
    by (simp add: demo_queued_def demo_voted_def CreateGovernanceProposal_def VoteGovernance_def QueueGovernanceProposal_def Let_def e
        demo_world_def default_policy split: option.split)
qed

definition demo_executed :: gov_world where
  "demo_executed = fst (ExecuteGovernanceProposal demo_json gov_id 1502 (demo_queued [pauseBridge]))"

lemma pause_applied: "applyGovernanceAction demo_json pauseBridge w = Inr (w\<lparr>gw_Pauses := mput ''bridge'' True (gw_Pauses w)\<rparr>)"
proof -
  have l: "to_lower ''safety'' = ''safety''" "to_lower ''bridge_paused'' = ''bridge_paused''" "trim_suffix ''bridge_paused'' ''_paused'' = ''bridge''"
    by code_simp+
  show ?thesis by (simp add: applyGovernanceAction_def pauseBridge_def l)
qed

lemma demo_done: "map_option gp_Status (proposal demo_executed gov_id) = Some ''executed'' \<and> map_of (gw_Pauses demo_executed) ''bridge'' = Some True"
proof -
  have v: "firstInvalid [pauseBridge] = None" using demo_actions_valid [of "[pauseBridge]"] by (simp add: demo_actions_def)
  have due: "proposal (demo_queued [pauseBridge]) gov_id = Some (demo_proposal [pauseBridge]\<lparr>gp_Status := ''timelocked'', gp_ExecuteHeight := 1502\<rparr>)"
    by (rule demo_due) (simp add: demo_actions_def)
  have a: "gp_Actions (demo_proposal [pauseBridge]) = [pauseBridge]" by (simp add: demo_proposal_def)
  show ?thesis
    by (simp add: demo_executed_def ExecuteGovernanceProposal_def Let_def due executable_def v a runActions_def pause_applied demo_policy default_policy del: firstInvalid.simps)
      (simp add: putProposal_def)
qed

lemma execution_is_earned_witness:
  "\<exists>p w1. proposal (demo_queued [pauseBridge]) gov_id = Some p \<and> gp_Status p = ''timelocked'' \<and> \<not> proposalFails NewGovernanceState p \<and>
     settings demo_executed = settings w1 \<and> map_of (gw_Pauses w1) ''bridge'' = Some True"
proof -
  from demo_done obtain q where q: "proposal demo_executed gov_id = Some q" "gp_Status q = ''executed''" by auto
  have "\<forall>p. proposal (demo_queued [pauseBridge]) gov_id = Some p \<longrightarrow> gp_Status p \<noteq> ''executed''"
    using demo_due [of "[pauseBridge]"] by (simp add: demo_actions_def)
  from execution_is_earned [OF demo_queued_reach gov_step.execute q(1) [unfolded demo_executed_def] q(2) this] demo_done
  show ?thesis unfolding demo_executed_def [symmetric] by (auto simp: settings_def)
qed

definition guarded :: "gov_world \<Rightarrow> gov_world" where
  "guarded w = w\<lparr>gw_Gov := (gw_Gov w)\<lparr>gs_Guardian := ''g''\<rparr>\<rparr>"

lemma failing_actions: "applyActions demo_json [newGuardians, badTimeout] w =
    (w\<lparr>gw_Gov := (gw_Gov w)\<lparr>gs_Guardians := memberMap (fst (the (json_members demo_json []))), gs_GuardianThreshold := 2, gs_GuardianExpiryBlock := 0,
       gs_Guardian := []\<rparr>\<rparr>, Some ''round timeout out of range'')"
proof -
  have l: "to_lower ''governance'' = ''governance''" "to_lower ''guardian_config'' = ''guardian_config''" "to_lower ''consensus'' = ''consensus''"
    "to_lower ''round_timeout_seconds'' = ''round_timeout_seconds''" "parseGovernanceInt ''1'' = Some 1"
    "list_all ValidateAddress (fst (the (json_members demo_json [])))"
    by code_simp+
  show ?thesis using l(6)
    by (simp add: applyGovernanceAction_def newGuardians_def badTimeout_def l applyMembers_def applyConsensus_def demo_json_def)
qed

lemma demo_failure: "(case executeTx demo_json gov_id 1502 (guarded (demo_queued [newGuardians, badTimeout])) of
     (w', Some e) \<Rightarrow> gs_Guardian (gw_Gov w') = [] | (_, None) \<Rightarrow> False)"
proof -
  have due: "proposal (demo_queued [newGuardians, badTimeout]) gov_id =
      Some (demo_proposal [newGuardians, badTimeout]\<lparr>gp_Status := ''timelocked'', gp_ExecuteHeight := 1502\<rparr>)"
    by (rule demo_due) (simp add: demo_actions_def)
  have a: "gp_Actions (demo_proposal as) = as" for as by (simp add: demo_proposal_def)
  have p: "proposal (guarded w) i = proposal w i" for w i by (simp add: guarded_def proposal_def)
  show ?thesis by (simp add: executeTx_def p due executable_def a runActions_def failing_actions rollbackTo_def Let_def del: applyActions.simps)
qed

lemma failed_execution_restores_witness:
  "\<exists>w e. executeTx demo_json gov_id 1502 w = (w\<lparr>gw_Gov := (gw_Gov w)\<lparr>gs_Guardian := []\<rparr>\<rparr>, Some e) \<and> gs_Guardian (gw_Gov w) = ''g''"
proof -
  let ?w = "guarded (demo_queued [newGuardians, badTimeout])"
  from demo_failure obtain w' e where r: "executeTx demo_json gov_id 1502 ?w = (w', Some e)" and g: "gs_Guardian (gw_Gov w') = []"
    by (auto split: prod.split_asm option.split_asm)
  have "gs_Guardian (gw_Gov ?w) = ''g''" by (simp add: guarded_def)
  with failed_execution_restores [of demo_json gov_id 1502 ?w w' e] r g show ?thesis by (intro exI [of _ ?w] exI [of _ e]) auto
qed

text \<open>A check that trims and an effect that does not: with a trailing blank the pause of the bridge is a valid action, is executed
  without an error, and pauses nothing the chain looks at.\<close>

lemma padded_pause_is_ineffective:
  "validateGovernanceAction (pauseBridge\<lparr>ga_Parameter := ''bridge_paused ''\<rparr>) = None \<and>
   (case applyGovernanceAction demo_json (pauseBridge\<lparr>ga_Parameter := ''bridge_paused ''\<rparr>) demo_world of
      Inl _ \<Rightarrow> False | Inr w \<Rightarrow> map_of (gw_Pauses w) ''bridge'' = None)"
  by code_simp

end
