(* ===== verification/ChainTx.thy ===== *)
theory ChainTx
  imports GovernanceTx
begin

text \<open>
  Fees, nonces, the transaction pool and the verification of a transaction (\<open>blockchain_struct.go\<close>,
  \<open>transaction.go\<close>, the header of \<open>blocks.go\<close>). The state \<open>mempool\<close> has the fields of
  \<open>Blockchain_struct\<close> these functions use. \<open>json.Marshal\<close> of a transaction, \<open>sort.Slice\<close> (an unstable
  sort, so any permutation in the order of the comparison) and the public-key recovery of go-ethereum
  are the fields of \<open>tx_env\<close>; \<open>time.Now().Unix()\<close> is the argument \<open>now\<close>. Saving to disk is not modelled.
  A transaction is a pointer in the source: marking it as failed changes the pool, the recent list and the
  caller's copy at once, and \<open>RecordRecentTx\<close> replaces the older copy by the hash, so the values agree.
\<close>

section \<open>Base fee and gas limit\<close>

definition InitialBaseFee :: u64 where "InitialBaseFee = 10"
definition MinBaseFee :: u64 where "MinBaseFee = 10"
definition MaxBaseFee :: u64 where "MaxBaseFee = 10000000000"
definition GasLimitAdjustmentFactor :: u64 where "GasLimitAdjustmentFactor = 1024"
definition MinGasLimit :: u64 where "MinGasLimit = 21000000"
definition MaxGasLimit :: u64 where "MaxGasLimit = 500000000"

definition f_of_u64 :: "u64 \<Rightarrow> f64" where
  "f_of_u64 w = f_of_int (uint w)"

text \<open>The conversion \<open>uint64(f)\<close> truncates; out of range Go leaves the value open and amd64 gives \<open>2^63\<close>.\<close>

fun u64_of_f :: "f64 \<Rightarrow> u64" where
  "u64_of_f (Fin a) = (if - 1 < a \<and> a < 2 ^ 64 then of_int (if 0 \<le> a then \<lfloor>a\<rfloor> else 0) else 2 ^ 63)"
| "u64_of_f x = 2 ^ 63"

definition clampRatio :: "f64 \<Rightarrow> f64" where
  "clampRatio r = (if fless r (Fin (3 / 4)) then Fin (3 / 4) else if fless (Fin (5 / 4)) r then Fin (5 / 4) else r)"

definition CalculateBaseFee :: "Block list \<Rightarrow> u64" where
  "CalculateBaseFee blocks = (if blocks = [] then InitialBaseFee else
     let b = last blocks in
     if b_BlockNumber b = 0 then InitialBaseFee else
     let target = (if b_GasLimit b div 2 = 0 then 1 else b_GasLimit b div 2);
         ratio = clampRatio (fdiv (f_of_u64 (b_GasUsed b)) (f_of_u64 target));
         fee = u64_of_f (fmul (f_of_u64 (b_BaseFee b)) ratio) in
     if fee < MinBaseFee then MinBaseFee else if MaxBaseFee < fee then MaxBaseFee else fee)"

definition CalculateNextGasLimit :: "Block list \<Rightarrow> u64" where
  "CalculateNextGasLimit blocks = (if blocks = [] then MaxGasLimit else
     let b = last blocks; limit = b_GasLimit b; step = limit div GasLimitAdjustmentFactor;
         new = (if limit * 3 div 4 < b_GasUsed b then limit + step
                else if b_GasUsed b < limit div 2 then limit - step else limit) in
     if new < MinGasLimit then MinGasLimit else if MaxGasLimit < new then MaxGasLimit else new)"

section \<open>The pool\<close>

record mempool =
  mp_Blocks :: "Block list"
  mp_Pool :: "Transaction list"
  mp_Recent :: "Transaction list"
  mp_BaseFee :: u64
  mp_Accounts :: accounts

record tx_env =
  te_JSON :: "Transaction \<Rightarrow> string"
  te_Sort :: "(Transaction \<Rightarrow> Transaction \<Rightarrow> bool) \<Rightarrow> Transaction list \<Rightarrow> Transaction list"
  te_Ecrecover :: "string \<Rightarrow> string \<Rightarrow> string option"
  te_Gov :: gov_json

definition CalculateTransactionHash :: "crypto \<Rightarrow> tx_env \<Rightarrow> Transaction \<Rightarrow> string" where
  "CalculateTransactionHash C E tx = ''0x'' @ hex_encode (take 32 (sha256 C (te_JSON E tx)))"

definition NewTransaction :: "crypto \<Rightarrow> tx_env \<Rightarrow> u64 \<Rightarrow> string \<Rightarrow> string \<Rightarrow> int \<Rightarrow> string \<Rightarrow> Transaction" where
  "NewTransaction C E now from to value data = (let tx = \<lparr>tx_From = from, tx_To = to, tx_Value = value, tx_Data = data,
     tx_TxHash = [], tx_Status = StatusPending, tx_FailureReason = [], tx_Gas = MinGas, tx_GasPrice = 1, tx_Sig = [], tx_Nonce = 0,
     tx_ChainID = ChainIDConst, tx_Timestamp = now, tx_PriorityFee = 0, tx_IsContract = False, tx_Function = [], tx_Args = [],
     tx_Type = [], tx_ExtraData = [], tx_IsSystem = False\<rparr> in tx\<lparr>tx_TxHash := CalculateTransactionHash C E tx\<rparr>)"

text \<open>The zero transaction, the starting point of a struct literal.\<close>

definition zeroTx :: Transaction where
  "zeroTx = \<lparr>tx_From = [], tx_To = [], tx_Value = 0, tx_Data = [], tx_TxHash = [], tx_Status = [], tx_FailureReason = [],
     tx_Gas = 0, tx_GasPrice = 0, tx_Sig = [], tx_Nonce = 0, tx_ChainID = 0, tx_Timestamp = 0, tx_PriorityFee = 0,
     tx_IsContract = False, tx_Function = [], tx_Args = [], tx_Type = [], tx_ExtraData = [], tx_IsSystem = False\<rparr>"

definition NewSystemTx :: "crypto \<Rightarrow> tx_env \<Rightarrow> u64 \<Rightarrow> string \<Rightarrow> string \<Rightarrow> string \<Rightarrow> int \<Rightarrow> Transaction" where
  "NewSystemTx C E now txType from to value = (let tx = zeroTx\<lparr>tx_From := from, tx_To := to, tx_Value := value, tx_Gas := 21000,
     tx_GasPrice := 1, tx_ChainID := ChainIDConst, tx_Timestamp := now, tx_Status := StatusPending, tx_Type := txType,
     tx_IsSystem := True\<rparr> in tx\<lparr>tx_TxHash := CalculateTransactionHash C E tx\<rparr>)"

definition recordRecent :: "Transaction \<Rightarrow> Transaction list \<Rightarrow> Transaction list" where
  "recordRecent tx recent = (let h = to_lower (tx_TxHash tx) in
     if h = [] then recent else take 50000000000000000 (tx # filter (\<lambda>e. to_lower (tx_TxHash e) \<noteq> h) recent))"

definition RecordRecentTx :: "Transaction \<Rightarrow> mempool \<Rightarrow> mempool" where
  "RecordRecentTx tx m = m\<lparr>mp_Recent := recordRecent tx (mp_Recent m)\<rparr>"

definition preparePendingTx :: "crypto \<Rightarrow> tx_env \<Rightarrow> u64 \<Rightarrow> Transaction \<Rightarrow> Transaction" where
  "preparePendingTx C E now tx0 = (let tx1 = (if tx_Timestamp tx0 = 0 then tx0\<lparr>tx_Timestamp := now\<rparr> else tx0);
     tx = tx1\<lparr>tx_Status := StatusPending, tx_FailureReason := []\<rparr> in tx\<lparr>tx_TxHash := CalculateTransactionHash C E tx\<rparr>)"

definition failedTx :: "crypto \<Rightarrow> tx_env \<Rightarrow> string \<Rightarrow> Transaction \<Rightarrow> Transaction" where
  "failedTx C E reason0 tx = (let reason = (if trim_space reason0 = [] then ''transaction failed'' else reason0);
     h = (if tx_TxHash tx = [] then CalculateTransactionHash C E (tx\<lparr>tx_Status := StatusPending, tx_FailureReason := []\<rparr>) else tx_TxHash tx)
     in tx\<lparr>tx_TxHash := h, tx_Status := StatusFailed, tx_FailureReason := reason\<rparr>)"

definition markTxFailedLocked :: "crypto \<Rightarrow> tx_env \<Rightarrow> Transaction \<Rightarrow> string \<Rightarrow> mempool \<Rightarrow> mempool" where
  "markTxFailedLocked C E tx reason m = RecordRecentTx (failedTx C E reason tx) m"

text \<open>The next nonce: a scan of transactions that have not failed. The increment wraps.\<close>

definition scanNonce :: "string \<Rightarrow> u64 \<Rightarrow> Transaction list \<Rightarrow> u64" where
  "scanNonce address = foldl (\<lambda>h tx. if equal_fold (tx_From tx) address \<and> \<not> equal_fold (tx_Status tx) StatusFailed \<and>
     h \<le> tx_Nonce tx then tx_Nonce tx + 1 else h)"

definition GetConfirmedAccountNonce :: "Block list \<Rightarrow> string \<Rightarrow> u64" where
  "GetConfirmedAccountNonce blocks address = scanNonce address 0 (concat (map b_Transactions blocks))"

text \<open>
  Memory holds the last blocks only: \<open>main.go\<close> trims to 100 in its loop. The slice panics for a negative bound (\<open>None\<close>).
\<close>

definition TrimInMemoryBlocks :: "int \<Rightarrow> Block list \<Rightarrow> Block list option" where
  "TrimInMemoryBlocks keepLastN blocks =
     (if int (length blocks) \<le> keepLastN then Some blocks
      else if keepLastN < 0 then None else Some (drop (length blocks - nat keepLastN) blocks))"

definition GetAccountNonce :: "mempool \<Rightarrow> string \<Rightarrow> u64" where
  "GetAccountNonce m address = scanNonce address (GetConfirmedAccountNonce (mp_Blocks m) address) (mp_Pool m)"

definition takeLast :: "nat \<Rightarrow> 'a list \<Rightarrow> 'a list" where
  "takeLast n xs = drop (length xs - n) xs"

definition countTxsFrom :: "mempool \<Rightarrow> string \<Rightarrow> nat" where
  "countTxsFrom m from = length (filter (\<lambda>tx. equal_fold (tx_From tx) from)
     (mp_Pool m @ concat (map b_Transactions (takeLast 5 (mp_Blocks m)))))"

definition MaxTxsPerAccount :: nat where "MaxTxsPerAccount = 20000"
definition MaxTxPoolSize :: nat where "MaxTxPoolSize = 100000000"
definition TransactionTTLSeconds :: u64 where "TransactionTTLSeconds = 86400"

definition effFee :: "mempool \<Rightarrow> Transaction \<Rightarrow> u64" where
  "effFee m tx = mp_BaseFee m + tx_PriorityFee tx"

definition sameSlot :: "Transaction \<Rightarrow> Transaction \<Rightarrow> bool" where
  "sameSlot tx e \<longleftrightarrow> equal_fold (tx_From e) (tx_From tx) \<and> tx_Nonce e = tx_Nonce tx"

text \<open>What the search through the pool decides: no entry of that sender and nonce, a replacement at its index, or a refusal.\<close>

datatype replacement = NoMatch | Replaced nat | Refused

fun findSlot :: "('a \<Rightarrow> bool) \<Rightarrow> nat \<Rightarrow> 'a list \<Rightarrow> (nat \<times> 'a) option" where
  "findSlot P i [] = None"
| "findSlot P i (e # es) = (if P e then Some (i, e) else findSlot P (Suc i) es)"

definition replacementFor :: "mempool \<Rightarrow> Transaction \<Rightarrow> replacement" where
  "replacementFor m tx = (case findSlot (sameSlot tx) 0 (mp_Pool m) of None \<Rightarrow> NoMatch
     | Some (i, e) \<Rightarrow> if equal_fold (tx_Status e) StatusFailed \<or> effFee m e * 110 \<le> effFee m tx * 100
         then Replaced i else Refused)"

text \<open>The reason not to append a transaction that replaces nothing.\<close>

definition appendError :: "mempool \<Rightarrow> Transaction \<Rightarrow> string option" where
  "appendError m tx = (if \<not> uncheckedTx tx \<and> tx_Nonce tx \<noteq> GetAccountNonce m (tx_From tx)
     then Some (''bad nonce (got '' @ u64_str (tx_Nonce tx) @ '' want '' @ u64_str (GetAccountNonce m (tx_From tx)) @ '')'')
     else if MaxTxsPerAccount \<le> countTxsFrom m (tx_From tx)
     then Some (''account tx pool limit reached ('' @ nat_str (countTxsFrom m (tx_From tx)) @ ''/'' @ nat_str MaxTxsPerAccount @ '')'')
     else None)"

definition feeOrder :: "mempool \<Rightarrow> Transaction \<Rightarrow> Transaction \<Rightarrow> bool" where
  "feeOrder m a b \<longleftrightarrow> effFee m b < effFee m a"

definition sortPool :: "tx_env \<Rightarrow> mempool \<Rightarrow> mempool" where
  "sortPool E m = m\<lparr>mp_Pool := te_Sort E (feeOrder m) (mp_Pool m)\<rparr>"

definition markAllFailed :: "crypto \<Rightarrow> tx_env \<Rightarrow> string \<Rightarrow> Transaction list \<Rightarrow> mempool \<Rightarrow> mempool" where
  "markAllFailed C E reason = fold (\<lambda>tx m. markTxFailedLocked C E tx reason m)"

definition initBaseFee :: "mempool \<Rightarrow> mempool" where
  "initBaseFee m = (if mp_BaseFee m = 0 then m\<lparr>mp_BaseFee := CalculateBaseFee (mp_Blocks m)\<rparr> else m)"

text \<open>
  The submission of one transaction. The result is the state, the transaction as the caller sees it and the error.
  The dropped transactions are found by their hash: a pointer comparison would add nothing, the hash of the
  submitted one is its own.
\<close>

definition refuse :: "crypto \<Rightarrow> tx_env \<Rightarrow> Transaction \<Rightarrow> string \<Rightarrow> mempool \<Rightarrow> mempool \<times> Transaction \<times> string option" where
  "refuse C E tx reason m = (markTxFailedLocked C E tx reason m, failedTx C E reason tx, Some reason)"

definition trimPool :: "crypto \<Rightarrow> tx_env \<Rightarrow> mempool \<Rightarrow> mempool" where
  "trimPool C E m = (if MaxTxPoolSize < length (mp_Pool m)
     then markAllFailed C E ''txpool full'' (drop MaxTxPoolSize (mp_Pool m)) (m\<lparr>mp_Pool := take MaxTxPoolSize (mp_Pool m)\<rparr>) else m)"

definition admitted :: "crypto \<Rightarrow> tx_env \<Rightarrow> Transaction \<Rightarrow> mempool \<Rightarrow> mempool \<times> Transaction \<times> string option" where
  "admitted C E tx m0 = (let m = sortPool E m0; t = trimPool C E m in
     if \<exists>d \<in> set (drop MaxTxPoolSize (mp_Pool m)). equal_fold (tx_TxHash d) (tx_TxHash tx)
     then (t, failedTx C E ''txpool full'' tx, Some ''txpool full'') else (RecordRecentTx tx t, tx, None))"

definition AddNewTxToTheTransaction_pool :: "crypto \<Rightarrow> tx_env \<Rightarrow> u64 \<Rightarrow> Transaction \<Rightarrow> mempool \<Rightarrow> mempool \<times> Transaction \<times> string option" where
  "AddNewTxToTheTransaction_pool C E now tx0 m0 = (let m = initBaseFee m0; tx = preparePendingTx C E now tx0 in
     if TransactionTTLSeconds < now - tx_Timestamp tx then refuse C E tx ''transaction expired'' m
     else case replacementFor m tx of
       Refused \<Rightarrow> refuse C E tx ''replacement requires >=10% higher effective fee'' m
     | Replaced i \<Rightarrow> admitted C E tx (m\<lparr>mp_Pool := (mp_Pool m)[i := tx]\<rparr>)
     | NoMatch \<Rightarrow> (case appendError m tx of Some e \<Rightarrow> refuse C E tx e m
        | None \<Rightarrow> admitted C E tx (m\<lparr>mp_Pool := mp_Pool m @ [tx]\<rparr>)))"

text \<open>
  One transaction of a batch, with the numbers of accepted and failed ones. A refused replacement is counted and
  then falls through to the append.
\<close>

definition batchAppend :: "crypto \<Rightarrow> tx_env \<Rightarrow> Transaction \<Rightarrow> mempool \<times> nat \<times> nat \<Rightarrow> mempool \<times> nat \<times> nat" where
  "batchAppend C E tx = (\<lambda>(m, a, f). case appendError m tx of
     Some e \<Rightarrow> (markTxFailedLocked C E tx e m, a, f + 1)
   | None \<Rightarrow> (RecordRecentTx tx (m\<lparr>mp_Pool := mp_Pool m @ [tx]\<rparr>), a + 1, f))"

definition batchStep :: "crypto \<Rightarrow> tx_env \<Rightarrow> u64 \<Rightarrow> Transaction \<Rightarrow> mempool \<times> nat \<times> nat \<Rightarrow> mempool \<times> nat \<times> nat" where
  "batchStep C E now tx0 = (\<lambda>(m, a, f). let tx = preparePendingTx C E now tx0 in
     if TransactionTTLSeconds < now - tx_Timestamp tx then (markTxFailedLocked C E tx ''transaction expired'' m, a, f + 1)
     else case replacementFor m tx of
       Replaced i \<Rightarrow> (RecordRecentTx tx (m\<lparr>mp_Pool := (mp_Pool m)[i := tx]\<rparr>), a + 1, f)
     | NoMatch \<Rightarrow> batchAppend C E tx (m, a, f)
     | Refused \<Rightarrow> batchAppend C E (failedTx C E ''replacement requires >=10% higher effective fee'' tx)
         (markTxFailedLocked C E tx ''replacement requires >=10% higher effective fee'' m, a, f + 1))"

text \<open>A nil entry of the batch counts as failed. Something has changed unless every entry is nil.\<close>

definition AddNewTxBatch :: "crypto \<Rightarrow> tx_env \<Rightarrow> u64 \<Rightarrow> Transaction option list \<Rightarrow> mempool \<Rightarrow> mempool \<times> nat \<times> nat" where
  "AddNewTxBatch C E now txs m0 =
     (case fold (\<lambda>t s. case t of None \<Rightarrow> (case s of (m, a, f) \<Rightarrow> (m, a, f + 1)) | Some tx \<Rightarrow> batchStep C E now tx s) txs (initBaseFee m0, 0, 0) of
       (m, a, f) \<Rightarrow> if list_all (\<lambda>t. t = None) txs then (m, a, f)
         else let m1 = sortPool E m in (trimPool C E m1, a, f + (length (mp_Pool m1) - MaxTxPoolSize)))"

section \<open>Cleaning\<close>

definition CleanTransactionPool :: "u64 \<Rightarrow> mempool \<Rightarrow> mempool" where
  "CleanTransactionPool now m = m\<lparr>mp_Pool := filter (\<lambda>tx. now - tx_Timestamp tx < 3600 \<or> mp_BaseFee m * 2 < tx_GasPrice tx) (mp_Pool m)\<rparr>"

text \<open>\<open>constantset.TransactionTTL\<close> is a hundred times the current year, in seconds.\<close>

definition CleanStaleTransactions :: "u64 \<Rightarrow> u64 \<Rightarrow> mempool \<Rightarrow> mempool" where
  "CleanStaleTransactions year now m = (let cutoff = now - 100 * year;
     stale = map (\<lambda>tx. if tx_Status tx = StatusPending then tx\<lparr>tx_Status := StatusFailed\<rparr> else tx)
       (filter (\<lambda>tx. tx_Timestamp tx < cutoff) (mp_Pool m)) in
     if mp_Pool m = [] then m
     else (fold RecordRecentTx stale m)\<lparr>mp_Pool := filter (\<lambda>tx. cutoff \<le> tx_Timestamp tx) (mp_Pool m)\<rparr>)"

fun RemoveFailedTx :: "Transaction list \<Rightarrow> Transaction \<Rightarrow> Transaction list" where
  "RemoveFailedTx [] tx = []"
| "RemoveFailedTx (t # pool) tx = (if tx_TxHash t = tx_TxHash tx then pool else t # RemoveFailedTx pool tx)"

definition evictRejectedTransactions :: "Transaction list \<Rightarrow> mempool \<Rightarrow> mempool" where
  "evictRejectedTransactions txs m = (let rejected = filter (\<lambda>tx. trim_space (tx_TxHash tx) \<noteq> []) txs;
     hashes = map (\<lambda>tx. to_lower (tx_TxHash tx)) rejected in
     if txs = [] then m
     else (fold RecordRecentTx rejected m)\<lparr>mp_Pool := filter (\<lambda>tx. to_lower (tx_TxHash tx) \<notin> set hashes) (mp_Pool m)\<rparr>)"

section \<open>Signatures\<close>

definition transactionTimestampWithinBounds :: "u64 \<Rightarrow> u64 \<Rightarrow> bool" where
  "transactionTimestampWithinBounds timestamp now = (if now < timestamp then timestamp - now \<le> 600 else now - timestamp \<le> 3600)"

definition controlTx :: "Transaction \<Rightarrow> bool" where
  "controlTx tx \<longleftrightarrow> tx_Type tx = ''oracle_update'' \<or> tx_Type tx = ''governance_action''"

definition controlPayload :: "Transaction \<Rightarrow> string" where
  "controlPayload tx = jsonObject [(''domain'', jsonString ''PODL-CONTROL-TX-V2''), (''from'', jsonString (to_lower (tx_From tx))),
     (''to'', jsonString (to_lower (tx_To tx))), (''value'', jsonString (int_str (tx_Value tx))), (''gas'', u64_str (tx_Gas tx)),
     (''gas_price'', u64_str (tx_GasPrice tx)), (''chain_id'', u64_str (tx_ChainID tx)), (''timestamp'', u64_str (tx_Timestamp tx)),
     (''nonce'', u64_str (tx_Nonce tx)), (''type'', jsonString (tx_Type tx)), (''extra_data_hex'', jsonString (hex_encode (tx_ExtraData tx)))]"

definition signingPayload :: "Transaction \<Rightarrow> string" where
  "signingPayload tx = jsonObject [(''from'', jsonString (tx_From tx)), (''to'', jsonString (tx_To tx)),
     (''value'', jsonString (int_str (tx_Value tx))), (''data'', jsonString (hex_encode (tx_Data tx))), (''gas'', u64_str (tx_Gas tx)),
     (''gas_price'', u64_str (tx_GasPrice tx)), (''chain_id'', u64_str (tx_ChainID tx)), (''timestamp'', u64_str (tx_Timestamp tx))]"

definition TransactionSigningDigest :: "crypto \<Rightarrow> Transaction \<Rightarrow> string" where
  "TransactionSigningDigest C tx = (if controlTx tx then sha256 C (controlPayload tx) else sha256 C (sha256 C (signingPayload tx)))"

text \<open>
  \<open>te_Ecrecover\<close> is the recovery of the address from a digest and a signature whose last byte is 0 or 1, together
  with the check of the signature under the recovered key; it has no result when either fails.
\<close>

definition VerifyTransactionSignature :: "crypto \<Rightarrow> tx_env \<Rightarrow> u64 \<Rightarrow> Transaction \<Rightarrow> bool" where
  "VerifyTransactionSignature C E now tx = (if tx_ChainID tx \<noteq> ChainIDConst \<or> length (tx_Sig tx) \<noteq> 65 then False else
     let v = (of_char (last (tx_Sig tx)) :: nat); w = (if 27 \<le> v then v - 27 else v) in
     if v \<notin> {0, 1, 27, 28} \<or> \<not> transactionTimestampWithinBounds (tx_Timestamp tx) now then False
     else case te_Ecrecover E (TransactionSigningDigest C tx) (butlast (tx_Sig tx) @ [char_of w]) of
       None \<Rightarrow> False | Some address \<Rightarrow> equal_fold address (tx_From tx))"

section \<open>Verification\<close>

text \<open>
  The checks of an ordinary transaction in the order of the code; the result is the failure reason (its prefix, without
  the printed values). A transaction without gas gets the minimum between the two groups.
\<close>

definition shapeError :: "u64 \<Rightarrow> Transaction \<Rightarrow> string option" where
  "shapeError now tx =
     (if tx_From tx = [] \<or> tx_To tx = [] then Some ''missing from/to''
      else if (tx_Type tx = ''bridge_lock'' \<or> tx_Type tx = ''bridge_lock_private'') \<and> tx_To tx \<noteq> BridgeEscrowAddress
      then Some ''bridge_lock must go to escrow''
      else if \<not> ValidateAddress (tx_From tx) \<or> \<not> ValidateAddress (tx_To tx) then Some ''invalid address format''
      else if tx_ChainID tx \<noteq> ChainIDConst then Some ''invalid chain ID''
      else if \<not> transactionTimestampWithinBounds (tx_Timestamp tx) now then Some ''timestamp out of range'' else None)"

definition chargeError :: "crypto \<Rightarrow> tx_env \<Rightarrow> int \<Rightarrow> mempool \<Rightarrow> gov_world \<Rightarrow> Transaction \<Rightarrow> string option" where
  "chargeError C E now m w tx =
     (if tx_GasPrice tx < CalculateBaseFee (mp_Blocks m) + tx_PriorityFee tx then Some ''gas_price < baseFee+tip''
      else if tx_Nonce tx < GetConfirmedAccountNonce (mp_Blocks m) (tx_From tx) then Some ''nonce already used''
      else if \<not> VerifyTransactionSignature C E (of_int now) tx then Some ''signature verify''
      else if tx_Type tx = ''oracle_update'' \<and> isl (ValidateOracleUpdateTransactionAt (te_Gov E) now tx (i64 (uint (tx_Timestamp tx))) w)
      then Some ''oracle update''
      else if tx_Type tx = ''governance_action'' \<and> isl (ValidateGovernanceTransaction (te_Gov E) tx) then Some ''governance action''
      else if AccountBalanceAmount (mp_Accounts m) (tx_From tx) < tx_Value tx + uint (tx_GasPrice tx * CalculateGasCost tx)
      then Some ''insufficient funds'' else None)"

definition withGas :: "Transaction \<Rightarrow> Transaction" where
  "withGas tx = (if tx_Gas tx = 0 then tx\<lparr>tx_Gas := MinGas\<rparr> else tx)"

definition judged :: "Transaction \<Rightarrow> string option \<Rightarrow> bool \<times> Transaction" where
  "judged tx r = (case r of Some e \<Rightarrow> (False, tx\<lparr>tx_Status := StatusFailed, tx_FailureReason := e\<rparr>)
     | None \<Rightarrow> (True, tx\<lparr>tx_Status := StatusPending, tx_FailureReason := []\<rparr>))"

text \<open>The verdict and the transaction as \<open>VerifyTransaction\<close> leaves it.\<close>

definition VerifyTransaction :: "crypto \<Rightarrow> tx_env \<Rightarrow> int \<Rightarrow> mempool \<Rightarrow> gov_world \<Rightarrow> Transaction \<Rightarrow> bool \<times> Transaction" where
  "VerifyTransaction C E now m w tx =
     (if uncheckedTx tx then judged (if tx_ChainID tx = 0 then tx\<lparr>tx_ChainID := ChainIDConst\<rparr> else tx) None
      else case shapeError (of_int now) tx of Some e \<Rightarrow> judged tx (Some e)
      | None \<Rightarrow> judged (withGas tx) (chargeError C E now m w (withGas tx)))"

end
