(* ===== verification/ChainTxTheorems.thy ===== *)
theory ChainTxTheorems
  imports ChainTx
begin

text \<open>
  What the fee market, the nonces, the pool and the signing digests guarantee.
\<close>

section \<open>Fees and gas limits\<close>

lemma u64_of_f_int:
  assumes "0 \<le> a" "a < 2 ^ 64"
  shows "uint (u64_of_f (Fin a)) = \<lfloor>a\<rfloor>"
proof -
  have "- 1 < a" using assms(1) by linarith
  moreover have "\<lfloor>a\<rfloor> < 2 ^ 64" using assms(2) by (simp add: floor_less_iff)
  moreover have "0 \<le> \<lfloor>a\<rfloor>" using assms(1) by simp
  ultimately show ?thesis using assms by (simp add: uint_word_of_int take_bit_int_eq_self)
qed

lemma f_of_u64_small: "w < 2 ^ 52 \<Longrightarrow> f_of_u64 w = Fin (of_int (uint w))"
proof -
  assume "w < 2 ^ 52"
  then have "uint w < uint (2 ^ 52 :: u64)" by (simp only: word_less_def)
  then have "\<bar>uint w\<bar> < 2 ^ 53" by simp
  then show ?thesis by (simp only: f_of_u64_def f_of_int_def rnd_of_int)
qed

lemma clampRatio_range: "r \<noteq> NaN \<Longrightarrow> \<exists>q. clampRatio r = Fin q \<and> 3 / 4 \<le> q \<and> q \<le> 5 / 4"
  by (cases r) (auto simp: clampRatio_def intro: exI [of _ "3 / 4"] exI [of _ "5 / 4"])

text \<open>One rounded product of a fee below \<open>2^34\<close> and a clamped ratio.\<close>

lemma fee_product:
  assumes b: "10 \<le> b" "b \<le> 10000000000" and q: "3 / 4 \<le> q" "q \<le> 5 / 4"
  obtains v where "rnd (of_int b * q) = Fin v" "of_int b * 3 / 4 - 1 \<le> v" "v \<le> of_int b * 5 / 4 + 1 / 8"
proof -
  let ?x = "of_int b * q :: rat"
  have b': "10 \<le> (of_int b :: rat)" "(of_int b :: rat) \<le> 10000000000"
    using b of_int_le_iff [of 10 b, where 'a = rat] of_int_le_iff [of b 10000000000, where 'a = rat] by simp_all
  have b0: "0 \<le> (of_int b :: rat)" using b'(1) by linarith
  have x: "of_int b * (3 / 4) \<le> ?x" "?x \<le> of_int b * (5 / 4)"
    by (rule mult_left_mono [OF q(1) b0], rule mult_left_mono [OF q(2) b0])
  have "?x \<le> 12500000000" using x(2) b' by linarith
  have p: "pow2 (- 1022) \<le> 1" "pow2 1000 = 2 ^ 1000" by (simp_all add: pow2_def)
  have lo: "pow2 (- 1022) \<le> ?x" using p(1) x(1) b' by linarith
  have "(12500000000 :: rat) \<le> 2 ^ 1000" by simp
  then have hi: "?x \<le> pow2 1000" using \<open>?x \<le> 12500000000\<close> by (simp only: p(2))
  obtain v where v: "rnd ?x = Fin v" "\<bar>v - ?x\<bar> \<le> ?x * uro" by (rule rnd_normal [OF lo hi])
  have "?x * uro \<le> 12500000000 * (1 / 2 ^ 52)"
    by (rule mult_mono [OF \<open>?x \<le> 12500000000\<close> uro_small(1)]) (use b0 q in simp_all)
  then have e: "?x * uro \<le> 1 / 8" by simp
  show thesis by (rule that [OF v(1)]) (use v(2) e x in linarith)+
qed

lemma rnd_not_NaN: "rnd x \<noteq> NaN"
  by (simp add: rnd_def Let_def)

lemma ratio_not_NaN:
  "fdiv (f_of_u64 a) (f_of_u64 b) \<noteq> NaN" if "b \<noteq> 0"
proof -
  have r: "\<exists>v. f_of_u64 w = Fin v \<and> (w \<noteq> 0 \<longrightarrow> 0 < v)" for w
  proof (cases "w = 0")
    case True
    then show ?thesis by (simp add: f_of_u64_def f_of_int_def rnd_def)
  next
    case False
    then have "0 < uint w" by (simp add: word_neq_0_conv word_less_def)
    then have u: "1 \<le> uint w" by linarith
    have "uint w < 2 ^ 64" using unsigned_less [of w] by simp
    have u': "1 \<le> (of_int (uint w) :: rat)" using u by (simp only: of_int_1_le_iff)
    have "(of_int (uint w) :: rat) \<le> 2 ^ 64" using \<open>uint w < 2 ^ 64\<close>
      by (metis less_imp_le of_int_le_iff of_int_numeral of_int_power)
    moreover have "(2 :: rat) ^ 64 \<le> pow2 1000" by (simp add: pow2_def)
    ultimately have hi: "of_int (uint w) \<le> pow2 1000" by linarith
    have "pow2 (- 1022) \<le> 1" by (simp add: pow2_def)
    then have lo: "pow2 (- 1022) \<le> of_int (uint w)" using u' by linarith
    obtain v where v: "rnd (of_int (uint w)) = Fin v" "\<bar>v - of_int (uint w)\<bar> \<le> of_int (uint w) * uro"
      by (rule rnd_normal [OF lo hi])
    have "of_int (uint w) * uro \<le> of_int (uint w) * (1 / 4)"
      using uro_small(3) u' by (intro mult_left_mono) auto
    then have "0 < v" using v(2) u' by linarith
    with v(1) show ?thesis by (simp add: f_of_u64_def f_of_int_def)
  qed
  from r [of a] r [of b] that show ?thesis by (auto simp: rnd_not_NaN)
qed

text \<open>The uncapped fee: at most a quarter away from the parent's.\<close>

lemma fee_step:
  assumes b: "MinBaseFee \<le> b_BaseFee B" "b_BaseFee B \<le> MaxBaseFee" and t: "target \<noteq> 0"
  defines "fee \<equiv> u64_of_f (fmul (f_of_u64 (b_BaseFee B)) (clampRatio (fdiv (f_of_u64 (b_GasUsed B)) (f_of_u64 target))))"
  shows "uint (b_BaseFee B) * 3 div 4 - 1 \<le> uint fee" "uint fee \<le> uint (b_BaseFee B) * 5 div 4"
proof -
  let ?b = "uint (b_BaseFee B)"
  have b': "10 \<le> ?b" "?b \<le> 10000000000"
    using b by (simp_all add: MinBaseFee_def MaxBaseFee_def word_le_def)
  have "f_of_u64 (b_BaseFee B) = Fin (of_int ?b)"
    by (rule f_of_u64_small) (use b' in \<open>simp add: word_less_def\<close>)
  moreover obtain q where q: "clampRatio (fdiv (f_of_u64 (b_GasUsed B)) (f_of_u64 target)) = Fin q" "3 / 4 \<le> q" "q \<le> 5 / 4"
    using clampRatio_range [OF ratio_not_NaN [OF t]] by blast
  moreover obtain v where v: "rnd (of_int ?b * q) = Fin v" "of_int ?b * 3 / 4 - 1 \<le> v" "v \<le> of_int ?b * 5 / 4 + 1 / 8"
    by (rule fee_product [OF b' q(2,3)])
  ultimately have fee: "fee = u64_of_f (Fin v)" by (simp add: fee_def)
  have b'': "10 \<le> (of_int ?b :: rat)" "(of_int ?b :: rat) \<le> 10000000000"
    using b' of_int_le_iff [of 10 ?b, where 'a = rat] of_int_le_iff [of ?b 10000000000, where 'a = rat] by simp_all
  have v0: "0 \<le> v" "v \<le> 12500000001" using v(2,3) b'' by linarith+
  then have v1: "v < 2 ^ 64" by simp
  have f: "uint fee = \<lfloor>v\<rfloor>" unfolding fee by (rule u64_of_f_int [OF v0(1) v1])
  have "4 * (?b * 3 div 4) \<le> ?b * 3" by linarith
  then have "(of_int (4 * (?b * 3 div 4)) :: rat) \<le> of_int (?b * 3)" by (simp only: of_int_le_iff)
  then have lo: "of_int (?b * 3 div 4) \<le> (of_int ?b * 3 / 4 :: rat)" by simp
  have "?b * 3 div 4 - 1 \<le> \<lfloor>v\<rfloor>"
    by (rule le_floor_iff [THEN iffD2]) (use lo v(2) in simp)
  then show "?b * 3 div 4 - 1 \<le> uint fee" by (simp only: f)
  have "?b * 5 < 4 * (?b * 5 div 4) + 4" by linarith
  then have "?b * 5 \<le> 4 * (?b * 5 div 4) + 3" by linarith
  then have "(of_int (?b * 5) :: rat) \<le> of_int (4 * (?b * 5 div 4) + 3)" by (simp only: of_int_le_iff)
  then have "v < of_int (?b * 5 div 4) + 1" using v(3) by simp
  then have "\<lfloor>v\<rfloor> \<le> ?b * 5 div 4" by (simp add: floor_le_iff)
  then show "uint fee \<le> ?b * 5 div 4" by (simp only: f)
qed

lemma gas_limit_step:
  assumes "MinGasLimit \<le> limit" "limit \<le> MaxGasLimit"
  shows "uint (limit + limit div GasLimitAdjustmentFactor) = uint limit + uint limit div 1024"
    "uint (limit - limit div GasLimitAdjustmentFactor) = uint limit - uint limit div 1024"
proof -
  have l: "21000000 \<le> uint limit" "uint limit \<le> 500000000"
    using assms by (simp_all add: MinGasLimit_def MaxGasLimit_def word_le_def)
  have d: "uint (limit div GasLimitAdjustmentFactor) = uint limit div 1024"
    by (simp add: GasLimitAdjustmentFactor_def uint_div)
  have "uint limit div 1024 \<le> uint limit" "0 \<le> uint limit div 1024" using l by linarith+
  then show "uint (limit + limit div GasLimitAdjustmentFactor) = uint limit + uint limit div 1024"
    "uint (limit - limit div GasLimitAdjustmentFactor) = uint limit - uint limit div 1024"
    using l by (simp_all add: uint_plus_if' uint_sub_if' d)
qed

text \<open>C36: The fee market moves slowly and stays in bounds. The base fee of the next block always lies between the
  configured minimum and maximum; after a block other than the genesis whose fee was in those bounds it lies, up to the
  minimum and maximum, within a quarter of that fee, in spite of the detour over floating-point numbers. The
  next gas limit always lies in its bounds, and from a limit in bounds it moves by at most 1/1024 of it.\<close>

theorem fee_market_bounds:
  assumes "blocks \<noteq> []"
  defines "b \<equiv> last blocks" and "fee \<equiv> CalculateBaseFee blocks" and "limit \<equiv> CalculateNextGasLimit blocks"
  shows "MinBaseFee \<le> fee \<and> fee \<le> MaxBaseFee \<and> MinGasLimit \<le> limit \<and> limit \<le> MaxGasLimit \<and>
    (b_BlockNumber b \<noteq> 0 \<and> MinBaseFee \<le> b_BaseFee b \<and> b_BaseFee b \<le> MaxBaseFee \<longrightarrow>
       uint (b_BaseFee b) * 3 div 4 - 1 \<le> uint fee \<and> uint fee \<le> max 10 (uint (b_BaseFee b) * 5 div 4)) \<and>
    (MinGasLimit \<le> b_GasLimit b \<and> b_GasLimit b \<le> MaxGasLimit \<longrightarrow>
       \<bar>uint limit - uint (b_GasLimit b)\<bar> \<le> uint (b_GasLimit b) div 1024)"
proof (intro conjI impI)
  show "MinBaseFee \<le> fee" "fee \<le> MaxBaseFee"
    by (auto simp: fee_def CalculateBaseFee_def Let_def InitialBaseFee_def MinBaseFee_def MaxBaseFee_def not_less)
  show "MinGasLimit \<le> limit" "limit \<le> MaxGasLimit"
    by (auto simp: limit_def CalculateNextGasLimit_def Let_def MinGasLimit_def MaxGasLimit_def not_less)
next
  assume h: "b_BlockNumber b \<noteq> 0 \<and> MinBaseFee \<le> b_BaseFee b \<and> b_BaseFee b \<le> MaxBaseFee"
  define t where "t = (if b_GasLimit b div 2 = 0 then 1 else b_GasLimit b div 2)"
  define f where "f = u64_of_f (fmul (f_of_u64 (b_BaseFee b)) (clampRatio (fdiv (f_of_u64 (b_GasUsed b)) (f_of_u64 t))))"
  have "t \<noteq> 0" by (simp add: t_def)
  then have s: "uint (b_BaseFee b) * 3 div 4 - 1 \<le> uint f" "uint f \<le> uint (b_BaseFee b) * 5 div 4"
    using fee_step [of b t] h by (simp_all add: f_def)
  have "fee = (if f < MinBaseFee then MinBaseFee else if MaxBaseFee < f then MaxBaseFee else f)"
    using h assms(1) by (simp add: fee_def CalculateBaseFee_def Let_def f_def t_def flip: b_def)
  moreover have "uint (b_BaseFee b) \<le> 10000000000" using h by (simp add: MaxBaseFee_def word_le_def)
  ultimately show "uint (b_BaseFee b) * 3 div 4 - 1 \<le> uint fee" "uint fee \<le> max 10 (uint (b_BaseFee b) * 5 div 4)"
    using s by (auto simp: MinBaseFee_def MaxBaseFee_def word_less_def)
next
  assume h: "MinGasLimit \<le> b_GasLimit b \<and> b_GasLimit b \<le> MaxGasLimit"
  note st = gas_limit_step [OF h [THEN conjunct1] h [THEN conjunct2]]
  have l: "21000000 \<le> uint (b_GasLimit b)" "uint (b_GasLimit b) \<le> 500000000"
    using h by (simp_all add: MinGasLimit_def MaxGasLimit_def word_le_def)
  show "\<bar>uint limit - uint (b_GasLimit b)\<bar> \<le> uint (b_GasLimit b) div 1024"
    using assms(1) l st by (auto simp: limit_def CalculateNextGasLimit_def Let_def word_less_def MinGasLimit_def MaxGasLimit_def simp flip: b_def)
qed

section \<open>Nonces\<close>

lemma scanNonce_Nil [simp]: "scanNonce a h [] = h"
  by (simp add: scanNonce_def)

text \<open>The transactions that count for an address.\<close>

definition counts_for :: "string \<Rightarrow> Transaction \<Rightarrow> bool" where
  "counts_for a tx \<longleftrightarrow> equal_fold (tx_From tx) a \<and> \<not> equal_fold (tx_Status tx) StatusFailed"

lemma scanNonce_Cons: "scanNonce a h (tx # txs) = scanNonce a (if counts_for a tx \<and> h \<le> tx_Nonce tx then tx_Nonce tx + 1 else h) txs"
  by (simp add: scanNonce_def counts_for_def)

lemma scanNonce_append: "scanNonce a h (xs @ ys) = scanNonce a (scanNonce a h xs) ys"
  by (simp add: scanNonce_def)

lemma scanNonce_none: "\<forall>tx \<in> set txs. \<not> counts_for a tx \<Longrightarrow> scanNonce a h txs = h"
  by (induction txs) (auto simp: scanNonce_Cons)

lemma nonce_less_Suc: "(n :: u64) \<noteq> - 1 \<Longrightarrow> n < n + 1"
proof -
  assume "n \<noteq> - 1"
  moreover have "n = - 1" if "uint n = 2 ^ 64 - 1"
    using that word_of_int_uint [of n] by simp
  ultimately have "uint n \<noteq> 2 ^ 64 - 1" by blast
  moreover have "uint n < 2 ^ 64" using unsigned_less [of n] by simp
  ultimately show ?thesis by (simp add: word_less_def uint_plus_if')
qed

lemma le_word_Suc: "(h :: u64) \<le> n \<Longrightarrow> n \<noteq> - 1 \<Longrightarrow> h \<le> n + 1"
  using nonce_less_Suc [of n] by (metis less_imp_le order_trans)

lemma scanNonce_mono: "\<forall>tx \<in> set txs. counts_for a tx \<longrightarrow> tx_Nonce tx \<noteq> - 1 \<Longrightarrow> h \<le> scanNonce a h txs"
proof (induction txs arbitrary: h)
  case (Cons tx txs)
  then show ?case
    by (auto simp: scanNonce_Cons intro: order_trans [OF le_word_Suc])
qed simp

lemma scanNonce_above:
  "\<forall>tx \<in> set txs. counts_for a tx \<longrightarrow> tx_Nonce tx \<noteq> - 1 \<Longrightarrow> tx \<in> set txs \<Longrightarrow> counts_for a tx \<Longrightarrow> tx_Nonce tx < scanNonce a h txs"
proof (induction txs arbitrary: h)
  case (Cons t txs)
  show ?case
  proof (cases "tx \<in> set txs")
    case True
    with Cons show ?thesis by (simp add: scanNonce_Cons)
  next
    case False
    with Cons.prems have [simp]: "t = tx" by simp
    let ?h = "if h \<le> tx_Nonce tx then tx_Nonce tx + 1 else h"
    have "tx_Nonce tx < ?h" using Cons.prems(1,3) nonce_less_Suc [of "tx_Nonce tx"] by auto
    also have "?h \<le> scanNonce a ?h txs" using scanNonce_mono [of txs a ?h] Cons.prems(1) by simp
    finally show ?thesis using Cons.prems(3) by (simp add: scanNonce_Cons)
  qed
qed simp

text \<open>C34: Replay protection among the blocks in memory. While a transaction that did not fail is in a block that is still in memory, no
  ordinary transaction of the same sender with its nonce, or a smaller one, is verified, whatever its signature says, as
  long as no counted transaction of this sender in those blocks has the nonce \<open>2 ^ 64 - 1\<close>, where the counter wraps. Both limits
  are real: \<open>trimming_forgets\<close> and \<open>nonce_wraps\<close>.\<close>

theorem no_nonce_reuse:
  assumes "B \<in> set (mp_Blocks m)" "old \<in> set (b_Transactions B)" "\<not> equal_fold (tx_Status old) StatusFailed"
    and "\<forall>B \<in> set (mp_Blocks m). \<forall>t \<in> set (b_Transactions B). counts_for (tx_From tx) t \<longrightarrow> tx_Nonce t \<noteq> - 1"
    and "equal_fold (tx_From old) (tx_From tx)" "tx_Nonce tx \<le> tx_Nonce old" "\<not> uncheckedTx tx"
  shows "\<not> fst (VerifyTransaction C E now m w tx)"
proof -
  have "tx_Nonce old < GetConfirmedAccountNonce (mp_Blocks m) (tx_From tx)"
    unfolding GetConfirmedAccountNonce_def by (rule scanNonce_above) (use assms(1-5) in \<open>auto simp: counts_for_def\<close>)
  then have "tx_Nonce (withGas tx) < GetConfirmedAccountNonce (mp_Blocks m) (tx_From (withGas tx))"
    using assms(6) by (auto simp: withGas_def)
  then show ?thesis
    using assms(7) by (auto simp: VerifyTransaction_def judged_def chargeError_def split: option.splits)
qed

text \<open>The counter of an account restarts at zero when the blocks with its transactions leave memory, and when it wraps.\<close>

lemma trimming_forgets:
  assumes "length rest = n" "\<forall>B \<in> set rest. \<forall>t \<in> set (b_Transactions B). \<not> counts_for a t"
  shows "\<exists>blocks. TrimInMemoryBlocks (int n) (older @ B # rest) = Some blocks \<and> GetConfirmedAccountNonce blocks a = 0"
proof -
  have "TrimInMemoryBlocks (int n) (older @ B # rest) = Some rest" using assms(1) by (simp add: TrimInMemoryBlocks_def)
  moreover have "GetConfirmedAccountNonce rest a = 0"
    unfolding GetConfirmedAccountNonce_def by (rule scanNonce_none) (use assms(2) in auto)
  ultimately show ?thesis by blast
qed

lemma nonce_wraps:
  assumes "b_Transactions B = txs @ [t]" "counts_for a t" "tx_Nonce t = - 1"
  shows "GetConfirmedAccountNonce (blocks @ [B]) a = 0"
  by (simp add: GetConfirmedAccountNonce_def assms scanNonce_append scanNonce_Cons)

section \<open>Signing digests\<close>

text \<open>Reading one character of a JSON string back, a part of \<open>json.Unmarshal\<close> that only the proofs use.\<close>

definition unescape :: "string \<Rightarrow> (char \<times> string) option" where
  "unescape s = (case s of [] \<Rightarrow> None | c # r \<Rightarrow>
     if of_char c = (34 :: nat) then None
     else if of_char c \<noteq> (92 :: nat) then Some (c, r)
     else case r of [] \<Rightarrow> None | e # r1 \<Rightarrow>
       if e = CHR ''u'' then (case drop 2 r1 of h # l # r2 \<Rightarrow> Some (char_of (16 * the (hex_val h) + the (hex_val l)), r2) | _ \<Rightarrow> None)
       else Some (if e = CHR ''b'' then char_of (8 :: nat) else if e = CHR ''f'' then char_of (12 :: nat)
         else if e = CHR ''n'' then char_of (10 :: nat) else if e = CHR ''r'' then char_of (13 :: nat)
         else if e = CHR ''t'' then char_of (9 :: nat) else e, r1))"

lemma char_of_eqI: "of_char c = (n :: nat) \<Longrightarrow> char_of n = c"
  by auto

lemma unescape_jsonChar: "unescape (jsonChar c @ r) = Some (c, r)"
proof -
  let ?n = "of_char c :: nat"
  have bound: "?n < 256" by (rule of_char_bound)
  then have "?n div 16 < 16" by (simp add: less_mult_imp_div_less)
  then have hex: "hex_val (hex_digit (?n div 16)) = Some (?n div 16)" "hex_val (hex_digit (?n mod 16)) = Some (?n mod 16)"
    by (simp_all add: hex_val_digit)
  have char_again: "char_of (16 * (?n div 16) + ?n mod 16) = c" by simp
  have b: "of_char (char_of (92 :: nat)) = (92 :: nat)" by (simp add: of_char_of)
  have e: "c \<noteq> CHR ''u''" "c \<noteq> CHR ''b''" "c \<noteq> CHR ''f''" "c \<noteq> CHR ''n''" "c \<noteq> CHR ''r''" "c \<noteq> CHR ''t''"
    if "?n = 34 \<or> ?n = 92" using that by auto
  show ?thesis
    by (auto simp: jsonChar_def Let_def unescape_def b e hex char_again char_of_eqI)
qed

lemma jsonChar_prefix_free: "jsonChar c @ x = jsonChar d @ y \<Longrightarrow> c = d \<and> x = y"
  by (metis option.inject prod.inject unescape_jsonChar)

lemma jsonChar_not_quote: "jsonChar c @ x \<noteq> CHR 0x22 # y"
proof
  assume "jsonChar c @ x = CHR 0x22 # y"
  with unescape_jsonChar [of c x] show False by (simp add: unescape_def)
qed

lemma jsonBody_inject:
  "concat (map jsonChar s) @ CHR 0x22 # x = concat (map jsonChar t) @ CHR 0x22 # y \<Longrightarrow> s = t \<and> x = y"
proof (induction s arbitrary: t)
  case Nil
  show ?case
  proof (cases t)
    case (Cons d t')
    with Nil jsonChar_not_quote [of d "concat (map jsonChar t') @ CHR 0x22 # y" x] show ?thesis by (simp add: eq_commute)
  qed (use Nil in simp)
next
  case (Cons c s)
  show ?case
  proof (cases t)
    case Nil
    with Cons.prems jsonChar_not_quote show ?thesis by simp
  next
    case (Cons d t')
    with Cons.prems have "jsonChar c @ concat (map jsonChar s) @ CHR 0x22 # x = jsonChar d @ concat (map jsonChar t') @ CHR 0x22 # y"
      by simp
    from jsonChar_prefix_free [OF this] Cons.IH [of t'] Cons show ?thesis by simp
  qed
qed

lemma jsonString_inject [simp]: "jsonString s @ x = jsonString t @ y \<longleftrightarrow> s = t \<and> x = y"
  using jsonBody_inject [of s x t y] by (auto simp: jsonString_def)

lemma jsonString_eq [simp]: "jsonString s = jsonString t \<longleftrightarrow> s = t"
  using jsonString_inject [of s "[]" t "[]"] by simp

lemma until_inject: "c \<notin> set s \<Longrightarrow> c \<notin> set s' \<Longrightarrow> s @ c # t = s' @ c # t' \<longleftrightarrow> s = s' \<and> t = t'"
proof (induction s arbitrary: s')
  case Nil
  then show ?case by (cases s') auto
next
  case (Cons a s)
  then show ?case by (cases s') auto
qed

lemma u64_str_no_comma: "CHR '','' \<notin> set (u64_str a)"
proof
  assume "CHR '','' \<in> set (u64_str a)"
  then obtain d where d: "d < 10" "CHR '','' = digit_char d" by (auto simp: u64_str_def dest: set_nat_str)
  from of_char_digit_char [OF d(1)] have "(of_char (CHR '','') :: nat) = 48 + d" by (simp only: d(2))
  then show False by simp
qed

lemma number_inject [simp]: "u64_str a @ CHR '','' # x = u64_str b @ CHR '','' # y \<longleftrightarrow> a = b \<and> x = y"
  by (simp add: until_inject u64_str_no_comma)

lemma controlPayload_inject:
  "controlPayload a = controlPayload b \<longleftrightarrow> to_lower (tx_From a) = to_lower (tx_From b) \<and> to_lower (tx_To a) = to_lower (tx_To b) \<and>
     tx_Value a = tx_Value b \<and> tx_Gas a = tx_Gas b \<and> tx_GasPrice a = tx_GasPrice b \<and> tx_ChainID a = tx_ChainID b \<and>
     tx_Timestamp a = tx_Timestamp b \<and> tx_Nonce a = tx_Nonce b \<and> tx_Type a = tx_Type b \<and> tx_ExtraData a = tx_ExtraData b"
  by (simp add: controlPayload_def jsonObject_def)

lemma signingPayload_inject:
  "signingPayload a = signingPayload b \<longleftrightarrow> tx_From a = tx_From b \<and> tx_To a = tx_To b \<and> tx_Value a = tx_Value b \<and>
     tx_Data a = tx_Data b \<and> tx_Gas a = tx_Gas b \<and> tx_GasPrice a = tx_GasPrice b \<and> tx_ChainID a = tx_ChainID b \<and>
     tx_Timestamp a = tx_Timestamp b"
proof -
  have brace: "CHR ''}'' \<notin> set (u64_str t)" for t
  proof
    assume "CHR ''}'' \<in> set (u64_str t)"
    then obtain d where d: "d < 10" "CHR ''}'' = digit_char d" by (auto simp: u64_str_def dest: set_nat_str)
    from of_char_digit_char [OF d(1)] have "(of_char (CHR ''}'') :: nat) = 48 + d" by (simp only: d(2))
    with d(1) show False by simp
  qed
  show ?thesis by (simp add: signingPayload_def jsonObject_def until_inject [of "CHR ''}''", OF brace brace])
qed

lemma controlPayload_long: "32 < length (controlPayload tx)"
  by (simp add: controlPayload_def jsonObject_def jsonString_def)

text \<open>C35: What a signature binds. Take two transactions whose payloads, and their hashes, do not collide under SHA-256. If
  their signing digests are equal then both are control transactions or neither is, the accounts, the amount,
  the gas, its price, the chain and the time agree; a control digest also binds nonce, type and payload of the
  transaction, an ordinary one its data. No two different transactions of either kind can share a signature in these fields, in spite of
  the JSON text in between.\<close>

theorem signing_digest_binds:
  assumes len: "\<And>x. length (sha256 C x) = 32"
    and nocol: "\<And>x y. {x, y} \<subseteq> (\<Union>t \<in> {a, b}. {controlPayload t, signingPayload t, sha256 C (signingPayload t)}) \<Longrightarrow>
      sha256 C x = sha256 C y \<Longrightarrow> x = y"
    and eq: "TransactionSigningDigest C a = TransactionSigningDigest C b"
  shows "controlTx a = controlTx b \<and> equal_fold (tx_From a) (tx_From b) \<and> equal_fold (tx_To a) (tx_To b) \<and>
    tx_Value a = tx_Value b \<and> tx_Gas a = tx_Gas b \<and> tx_GasPrice a = tx_GasPrice b \<and> tx_ChainID a = tx_ChainID b \<and>
    tx_Timestamp a = tx_Timestamp b \<and>
    (if controlTx a then tx_Nonce a = tx_Nonce b \<and> tx_Type a = tx_Type b \<and> tx_ExtraData a = tx_ExtraData b
     else tx_From a = tx_From b \<and> tx_To a = tx_To b \<and> tx_Data a = tx_Data b)"
proof -
  have diff: False if "controlPayload s = sha256 C x" for s x
    using controlPayload_long [of s] len [of x] that by simp
  have kind: "controlTx a = controlTx b"
  proof (rule ccontr)
    assume ne: "controlTx a \<noteq> controlTx b"
    show False
    proof (cases "controlTx a")
      case True
      with ne eq have "sha256 C (controlPayload a) = sha256 C (sha256 C (signingPayload b))" by (simp add: TransactionSigningDigest_def)
      from nocol [OF _ this] diff show False by simp
    next
      case False
      with ne eq have "sha256 C (controlPayload b) = sha256 C (sha256 C (signingPayload a))" by (simp add: TransactionSigningDigest_def)
      from nocol [OF _ this] diff show False by simp
    qed
  qed
  show ?thesis
  proof (cases "controlTx a")
    case True
    with kind eq have "sha256 C (controlPayload a) = sha256 C (controlPayload b)" by (simp add: TransactionSigningDigest_def)
    from nocol [OF _ this] have "controlPayload a = controlPayload b" by simp
    with True kind show ?thesis by (simp add: controlPayload_inject equal_fold_def)
  next
    case False
    with kind eq have "sha256 C (sha256 C (signingPayload a)) = sha256 C (sha256 C (signingPayload b))" by (simp add: TransactionSigningDigest_def)
    from nocol [OF _ this] have "sha256 C (signingPayload a) = sha256 C (signingPayload b)" by simp
    from nocol [OF _ this] have "signingPayload a = signingPayload b" by simp
    with False kind show ?thesis by (simp add: signingPayload_inject)
  qed
qed

text \<open>What an ordinary digest leaves out: the nonce, the type, the function and arguments of a contract call, and the tip.\<close>

lemma ordinary_digest_omits:
  assumes "\<not> controlTx tx" "ty \<noteq> ''oracle_update''" "ty \<noteq> ''governance_action''"
  shows "TransactionSigningDigest C (tx\<lparr>tx_Nonce := n, tx_Type := ty, tx_IsContract := c, tx_Function := f, tx_Args := as,
    tx_PriorityFee := p, tx_ExtraData := x\<rparr>) = TransactionSigningDigest C tx"
  using assms by (simp add: TransactionSigningDigest_def controlTx_def signingPayload_def)

section \<open>The pool\<close>

definition slot :: "Transaction \<Rightarrow> string \<times> u64" where
  "slot tx = (to_lower (tx_From tx), tx_Nonce tx)"

definition sorter :: "tx_env \<Rightarrow> bool" where
  "sorter E \<longleftrightarrow> (\<forall>m xs. mset (te_Sort E (feeOrder m) xs) = mset xs \<and>
     sorted_wrt (\<lambda>a b. effFee m b \<le> effFee m a) (te_Sort E (feeOrder m) xs))"

definition pool_ok :: "mempool \<Rightarrow> bool" where
  "pool_ok m \<longleftrightarrow> distinct (map slot (mp_Pool m)) \<and> length (mp_Pool m) \<le> MaxTxPoolSize"

lemma sameSlot_iff: "sameSlot tx e \<longleftrightarrow> slot e = slot tx"
  by (auto simp: sameSlot_def slot_def equal_fold_def)

lemma findSlot_None: "findSlot P i xs = None \<longleftrightarrow> (\<forall>e \<in> set xs. \<not> P e)"
  by (induction xs arbitrary: i) auto

lemma findSlot_Some: "findSlot P i xs = Some (j, e) \<Longrightarrow> i \<le> j \<and> j - i < length xs \<and> xs ! (j - i) = e \<and> P e"
proof (induction xs arbitrary: i)
  case (Cons x xs)
  show ?case
  proof (cases "P x")
    case False
    with Cons.prems have "findSlot P (Suc i) xs = Some (j, e)" by simp
    from Cons.IH [OF this] have h: "Suc i \<le> j" "j - Suc i < length xs" "xs ! (j - Suc i) = e" "P e" by auto
    then have "j - i = Suc (j - Suc i)" by simp
    with h show ?thesis by simp
  qed (use Cons.prems in simp)
qed simp

lemma pool_simps [simp]:
  "mp_Pool (RecordRecentTx tx m) = mp_Pool m" "mp_BaseFee (RecordRecentTx tx m) = mp_BaseFee m"
  "mp_Blocks (RecordRecentTx tx m) = mp_Blocks m"
  "mp_Pool (markTxFailedLocked C E tx r m) = mp_Pool m" "mp_BaseFee (markTxFailedLocked C E tx r m) = mp_BaseFee m"
  "mp_Pool (initBaseFee m) = mp_Pool m" "mp_Recent (initBaseFee m) = mp_Recent m" "mp_Blocks (initBaseFee m) = mp_Blocks m"
  "mp_BaseFee (sortPool E m) = mp_BaseFee m"
  by (simp_all add: RecordRecentTx_def markTxFailedLocked_def initBaseFee_def sortPool_def)

lemma markAllFailed_pool [simp]: "mp_Pool (markAllFailed C E r txs m) = mp_Pool m" "mp_BaseFee (markAllFailed C E r txs m) = mp_BaseFee m"
  unfolding markAllFailed_def by (induction txs arbitrary: m) simp_all

lemma trimPool_pool: "mp_Pool (trimPool C E m) = take MaxTxPoolSize (mp_Pool m)" "mp_BaseFee (trimPool C E m) = mp_BaseFee m"
  by (simp_all add: trimPool_def)

lemma hd_recent: "tx_TxHash tx \<noteq> [] \<Longrightarrow> hd (mp_Recent (RecordRecentTx tx m)) = tx"
  by (simp add: RecordRecentTx_def recordRecent_def Let_def)

lemma prepared_simps [simp]: "tx_From (preparePendingTx C E now tx) = tx_From tx" "tx_Nonce (preparePendingTx C E now tx) = tx_Nonce tx"
  "tx_Status (preparePendingTx C E now tx) = StatusPending" "tx_TxHash (preparePendingTx C E now tx) \<noteq> []"
  "uncheckedTx (preparePendingTx C E now tx) = uncheckedTx tx"
  by (simp_all add: preparePendingTx_def Let_def CalculateTransactionHash_def uncheckedTx_def systemTx_def)

lemma failed_simps [simp]: "tx_Status (failedTx C E r tx) = StatusFailed" "tx_TxHash tx \<noteq> [] \<Longrightarrow> tx_TxHash (failedTx C E r tx) = tx_TxHash tx"
  by (simp_all add: failedTx_def Let_def)

text \<open>The effect of sorting, trimming and recording a new pool list.\<close>

lemma admitted_effect:
  assumes "sorter E" "distinct (map slot (mp_Pool m))" "tx \<in> set (mp_Pool m)" "tx_TxHash tx \<noteq> []"
    and run: "admitted C E tx m = (m', tx', err)"
  shows "pool_ok m'" "sorted_wrt (\<lambda>a b. effFee m b \<le> effFee m a) (mp_Pool m')" "set (mp_Pool m') \<subseteq> set (mp_Pool m)"
    "mp_BaseFee m' = mp_BaseFee m"
    "err = None \<Longrightarrow> tx' = tx \<and> tx \<in> set (mp_Pool m') \<and> hd (mp_Recent m') = tx"
    "err = None \<or> err = Some ''txpool full''"
proof -
  define s where "s = sortPool E m"
  have srt: "mset (mp_Pool s) = mset (mp_Pool m)" "sorted_wrt (\<lambda>a b. effFee m b \<le> effFee m a) (mp_Pool s)"
    using assms(1) by (simp_all add: s_def sorter_def sortPool_def)
  have pool: "mp_Pool m' = take MaxTxPoolSize (mp_Pool s)" and base: "mp_BaseFee m' = mp_BaseFee m"
    using run by (auto simp: admitted_def Let_def trimPool_pool s_def split: if_splits)
  have d: "distinct (map slot (mp_Pool s))"
    using assms(2) srt(1) by (metis mset_eq_imp_distinct_iff mset_map)
  show "pool_ok m'"
    using d by (simp add: pool_ok_def pool distinct_take flip: take_map)
  show "sorted_wrt (\<lambda>a b. effFee m b \<le> effFee m a) (mp_Pool m')"
    using srt(2) by (simp add: pool sorted_wrt_take)
  have ss: "set (mp_Pool s) = set (mp_Pool m)" using srt(1) by (metis set_mset_mset)
  then show "set (mp_Pool m') \<subseteq> set (mp_Pool m)" using set_take_subset [of MaxTxPoolSize "mp_Pool s"] by (simp add: pool)
  show "mp_BaseFee m' = mp_BaseFee m" by (rule base)
  show "err = None \<or> err = Some ''txpool full''"
    using run by (auto simp: admitted_def Let_def split: if_splits)
  assume "err = None"
  then have r: "\<forall>d \<in> set (drop MaxTxPoolSize (mp_Pool s)). \<not> equal_fold (tx_TxHash d) (tx_TxHash tx)" "tx' = tx"
    "m' = RecordRecentTx tx (trimPool C E s)"
    using run by (auto simp: admitted_def Let_def s_def split: if_splits)
  have "tx \<notin> set (drop MaxTxPoolSize (mp_Pool s))" using r(1) by auto
  moreover have "tx \<in> set (mp_Pool s)" using ss assms(3) by simp
  ultimately have "tx \<in> set (take MaxTxPoolSize (mp_Pool s))" by (metis UnE append_take_drop_id set_append)
  with r(2,3) assms(4) show "tx' = tx \<and> tx \<in> set (mp_Pool m') \<and> hd (mp_Recent m') = tx"
    by (simp add: trimPool_pool hd_recent)
qed

lemma refuse_effect:
  assumes "refuse C E tx r m = (m', tx', err)" "tx_TxHash tx \<noteq> []"
  shows "mp_Pool m' = mp_Pool m" "tx_Status tx' = StatusFailed" "hd (mp_Recent m') = tx'" "err = Some r"
  using assms by (auto simp: refuse_def markTxFailedLocked_def hd_recent)

definition admission_post :: "mempool \<Rightarrow> u64 \<Rightarrow> mempool \<Rightarrow> Transaction \<Rightarrow> bool" where
  "admission_post m now m' tx' \<longleftrightarrow> sorted_wrt (\<lambda>a b. effFee m' b \<le> effFee m' a) (mp_Pool m') \<and> tx' \<in> set (mp_Pool m') \<and>
     set (mp_Pool m') \<subseteq> insert tx' (set (mp_Pool m)) \<and> hd (mp_Recent m') = tx' \<and> tx_Status tx' = StatusPending \<and>
     now - tx_Timestamp tx' \<le> TransactionTTLSeconds \<and>
     (\<forall>e \<in> set (mp_Pool m). sameSlot tx' e \<longrightarrow> equal_fold (tx_Status e) StatusFailed \<or> effFee m' e * 110 \<le> effFee m' tx' * 100) \<and>
     ((\<forall>e \<in> set (mp_Pool m). \<not> sameSlot tx' e) \<and> \<not> uncheckedTx tx' \<longrightarrow> tx_Nonce tx' = GetAccountNonce m (tx_From tx'))"

lemma effFee_cong: "mp_BaseFee m = mp_BaseFee m' \<Longrightarrow> effFee m = effFee m'"
  by (simp add: effFee_def fun_eq_iff)

lemma admitted_post:
  assumes "sorter E" "tx_TxHash t \<noteq> []" "tx_Status t = StatusPending"
    and run: "admitted C E t (n\<lparr>mp_Pool := P\<rparr>) = (m', tx', err)"
    and P: "distinct (map slot P)" "t \<in> set P" "set P \<subseteq> insert t (set (mp_Pool m))" and ttl: "\<not> TransactionTTLSeconds < now - tx_Timestamp t"
    and fee: "\<forall>e \<in> set (mp_Pool m). sameSlot t e \<longrightarrow> equal_fold (tx_Status e) StatusFailed \<or> effFee n e * 110 \<le> effFee n t * 100"
    and nonce: "(\<forall>e \<in> set (mp_Pool m). \<not> sameSlot t e) \<and> \<not> uncheckedTx t \<longrightarrow> tx_Nonce t = GetAccountNonce m (tx_From t)"
  shows "pool_ok m' \<and> (case err of None \<Rightarrow> admission_post m now m' tx' | Some e \<Rightarrow> tx_Status tx' = StatusFailed \<and> e = ''txpool full'')"
proof -
  have d: "distinct (map slot (mp_Pool (n\<lparr>mp_Pool := P\<rparr>)))" "t \<in> set (mp_Pool (n\<lparr>mp_Pool := P\<rparr>))" using P by simp_all
  note e = admitted_effect [OF assms(1) d assms(2) run]
  have f: "effFee (n\<lparr>mp_Pool := P\<rparr>) = effFee m'" "effFee n = effFee m'"
    by (rule effFee_cong, use e(4) in simp)+
  show ?thesis
  proof (cases err)
    case None
    with e(5) have tt: "tx' = t" "t \<in> set (mp_Pool m')" "hd (mp_Recent m') = t" by simp_all
    have "admission_post m now m' t"
      unfolding admission_post_def
    proof (intro conjI)
      show "set (mp_Pool m') \<subseteq> insert t (set (mp_Pool m))" using e(3) P(3) by auto
      show "now - tx_Timestamp t \<le> TransactionTTLSeconds" using ttl by simp
      show "sorted_wrt (\<lambda>a b. effFee m' b \<le> effFee m' a) (mp_Pool m')" using e(2) by (simp only: f)
      show "\<forall>e \<in> set (mp_Pool m). sameSlot t e \<longrightarrow> equal_fold (tx_Status e) StatusFailed \<or> effFee m' e * 110 \<le> effFee m' t * 100"
        using fee by (simp only: f)
    qed (rule tt nonce assms(3))+
    with e(1) None tt show ?thesis by simp
  next
    case (Some x)
    then have "tx_Status tx' = StatusFailed" using run by (auto simp: admitted_def Let_def split: if_splits)
    with e(1,6) Some show ?thesis by simp
  qed
qed

text \<open>A replacement leaves the slots of the pool as they are, and only the replaced entry had its slot.\<close>

lemma replaced_slots:
  assumes "findSlot (sameSlot t) 0 pool = Some (i, e)" "distinct (map slot pool)"
  shows "distinct (map slot (pool[i := t]))" "t \<in> set (pool[i := t])" "set (pool[i := t]) \<subseteq> insert t (set pool)"
    "e \<in> set pool" "sameSlot t e" "\<And>e'. e' \<in> set pool \<Longrightarrow> sameSlot t e' \<Longrightarrow> e' = e"
proof -
  from findSlot_Some [OF assms(1)] have i: "i < length pool" "pool ! i = e" "slot e = slot t" by (simp_all add: sameSlot_iff)
  then have "map slot (pool[i := t]) = map slot pool" by (metis list_update_id length_map map_update nth_map)
  then show "distinct (map slot (pool[i := t]))" using assms(2) by simp
  show "t \<in> set (pool[i := t])" "set (pool[i := t]) \<subseteq> insert t (set pool)"
    using i by (auto intro: set_update_memI dest: set_update_subset_insert [THEN subsetD])
  show "e \<in> set pool" "sameSlot t e" using i by (auto simp: sameSlot_iff)
  show "e' = e" if "e' \<in> set pool" "sameSlot t e'" for e' using that i assms(2) by (metis distinct_map inj_onD nth_mem sameSlot_iff)
qed

text \<open>C33: Admission to the pool. From a pool in which no sender has two entries with one nonce and which is not larger than the
  limit, a submission leads to such a pool again. Accepted, the transaction is pending, recent enough, in the pool
  and first in the recent list, the pool is in the order of the effective fees and holds nothing else that is new; a live entry it
  replaces had its fee raised by 10 per cent, and an ordinary transaction that replaces nothing has the sender's
  next nonce. Refused, it is recorded as failed and, unless the pool overflowed, the pool is as it was.\<close>

theorem pool_admission:
  assumes "sorter E" "pool_ok m" and run: "AddNewTxToTheTransaction_pool C E now tx m = (m', tx', err)"
  shows "pool_ok m' \<and> (case err of None \<Rightarrow> admission_post m now m' tx'
    | Some e \<Rightarrow> tx_Status tx' = StatusFailed \<and> (e \<noteq> ''txpool full'' \<longrightarrow> mp_Pool m' = mp_Pool m \<and> hd (mp_Recent m') = tx'))"
proof -
  define t where "t = preparePendingTx C E now tx"
  define n where "n = initBaseFee m"
  have h: "tx_TxHash t \<noteq> []" "tx_Status t = StatusPending" by (simp_all add: t_def)
  have n: "mp_Pool n = mp_Pool m" by (simp add: n_def)
  have nonce: "GetAccountNonce n a = GetAccountNonce m a" for a by (simp add: n_def GetAccountNonce_def)
  have ref: ?thesis if "refuse C E t r n = (m', tx', err)" for r
    using refuse_effect [OF that h(1)] assms(2) n by (simp add: pool_ok_def)
  have d: "distinct (map slot (mp_Pool m))" using assms(2) by (simp add: pool_ok_def)
  note adm = admitted_post [OF assms(1) h, where n = n and m = m and now = now]
  have weaken: ?thesis
    if "pool_ok m' \<and> (case err of None \<Rightarrow> admission_post m now m' tx' | Some e \<Rightarrow> tx_Status tx' = StatusFailed \<and> e = ''txpool full'')"
    using that by (cases err) simp_all
  note run' = run [unfolded AddNewTxToTheTransaction_pool_def Let_def, folded t_def n_def]
  show ?thesis
  proof (cases "TransactionTTLSeconds < now - tx_Timestamp t")
    case True
    with run' show ?thesis by (intro ref) simp
  next
    case ttl: False
    consider (no) "replacementFor n t = NoMatch" | (yes) i where "replacementFor n t = Replaced i" | (refused) "replacementFor n t = Refused"
      by (cases "replacementFor n t")
    then show ?thesis
    proof cases
      case refused
      with run' ttl show ?thesis by (intro ref) simp
    next
      case no
      then have free: "\<forall>e \<in> set (mp_Pool m). \<not> sameSlot t e"
        by (auto simp: replacementFor_def n findSlot_None split: option.splits prod.splits if_splits)
      show ?thesis
      proof (cases "appendError n t")
        case (Some e)
        with run' ttl no show ?thesis by (intro ref) simp
      next
        case None
        with run' ttl no have a: "admitted C E t (n\<lparr>mp_Pool := mp_Pool m @ [t]\<rparr>) = (m', tx', err)" by (simp add: n)
        have "distinct (map slot (mp_Pool m @ [t]))" using d free by (auto simp: sameSlot_iff)
        moreover have "\<not> uncheckedTx t \<Longrightarrow> tx_Nonce t = GetAccountNonce m (tx_From t)"
          using None by (auto simp: appendError_def nonce split: if_splits)
        ultimately show ?thesis using free by (intro weaken adm [OF a _ _ _ ttl]) auto
      qed
    next
      case (yes i)
      then obtain e where e: "findSlot (sameSlot t) 0 (mp_Pool m) = Some (i, e)"
        "equal_fold (tx_Status e) StatusFailed \<or> effFee n e * 110 \<le> effFee n t * 100"
        by (auto simp: replacementFor_def n split: option.splits prod.splits if_splits)
      note s = replaced_slots [OF e(1) d]
      from run' ttl yes have "admitted C E t (n\<lparr>mp_Pool := (mp_Pool m)[i := t]\<rparr>) = (m', tx', err)" by (simp add: n)
      moreover have "\<forall>e' \<in> set (mp_Pool m). sameSlot t e' \<longrightarrow> equal_fold (tx_Status e') StatusFailed \<or> effFee n e' * 110 \<le> effFee n t * 100"
        using s(6) e(2) by blast
      moreover have "\<not> ((\<forall>e \<in> set (mp_Pool m). \<not> sameSlot t e) \<and> \<not> uncheckedTx t)" using s(4,5) by blast
      ultimately show ?thesis by (intro weaken adm [OF _ s(1-3) ttl]) blast+
    qed
  qed
qed

section \<open>Concrete runs\<close>

text \<open>Insertion sort is one of the sorts the theorems admit.\<close>

fun insertBy :: "('a \<Rightarrow> 'a \<Rightarrow> bool) \<Rightarrow> 'a \<Rightarrow> 'a list \<Rightarrow> 'a list" where
  "insertBy before x [] = [x]"
| "insertBy before x (y # ys) = (if before y x then y # insertBy before x ys else x # y # ys)"

definition insertionSort :: "('a \<Rightarrow> 'a \<Rightarrow> bool) \<Rightarrow> 'a list \<Rightarrow> 'a list" where
  "insertionSort before xs = foldr (insertBy before) xs []"

lemma mset_insertBy [simp]: "mset (insertBy before x xs) = add_mset x (mset xs)"
  by (induction xs) auto

lemma set_insertBy [simp]: "set (insertBy before x xs) = insert x (set xs)"
  by (induction xs) auto

lemma sorted_insertBy:
  "sorted_wrt (\<lambda>a b. f b \<le> (f a :: 'b :: linorder)) xs \<Longrightarrow> sorted_wrt (\<lambda>a b. f b \<le> f a) (insertBy (\<lambda>a b. f b < f a) x xs)"
  by (induction xs) (auto simp: not_less)

lemma insertionSort_sorter: "te_Sort E = insertionSort \<Longrightarrow> sorter E"
proof -
  have "sorted_wrt (\<lambda>a b. effFee m b \<le> effFee m a) (foldr (insertBy (feeOrder m)) xs [])" for m xs
    by (induction xs) (simp_all add: feeOrder_def [abs_def] sorted_insertBy)
  moreover have "mset (foldr (insertBy (feeOrder m)) xs []) = mset xs" for m xs
    by (induction xs) simp_all
  ultimately show "te_Sort E = insertionSort \<Longrightarrow> sorter E" by (simp add: sorter_def insertionSort_def)
qed

definition demo_tx :: Transaction where
  "demo_tx = zeroTx\<lparr>tx_From := ''0xaa'', tx_To := ''0xbb'', tx_Status := StatusSuccess, tx_Timestamp := 1000\<rparr>"

definition demo_block :: Block where
  "demo_block = \<lparr>b_BlockNumber = 7, b_PreviousHash = ''p'', b_CurrentHash = ''h'', b_TimeStamp = 900, b_Transactions = [demo_tx],
     b_BaseFee = 100, b_GasUsed = 21000, b_GasLimit = 22000000, b_RewardBreakdown = \<lparr>rb_Validator = [], rb_ValidatorReward = [],
     rb_ValidatorRewards = [], rb_ValidatorPartRewards = [], rb_LiquidityRewards = [], rb_ParticipantRewards = [],
     rb_ParticipantRewardAddresses = [], rb_TreasuryReward = []\<rparr>, b_ProtocolVersion = 1, b_StateRoot = [], b_ParentStateRoot = [],
     b_ConsensusRound = 0, b_ProposerProof = None, b_NextVRFProof = None\<rparr>"

definition demo_pool :: mempool where
  "demo_pool = \<lparr>mp_Blocks = [demo_block], mp_Pool = [], mp_Recent = [], mp_BaseFee = 10, mp_Accounts = []\<rparr>"

lemma fee_market_bounds_witness:
  "74 \<le> uint (CalculateBaseFee [demo_block]) \<and> uint (CalculateBaseFee [demo_block]) \<le> 125 \<and>
   \<bar>uint (CalculateNextGasLimit [demo_block]) - 22000000\<bar> \<le> 21484"
  using fee_market_bounds [of "[demo_block]"]
  by (simp add: demo_block_def MinBaseFee_def MaxBaseFee_def MinGasLimit_def MaxGasLimit_def)

lemma no_nonce_reuse_witness: "\<forall>C E now w. \<not> fst (VerifyTransaction C E now demo_pool w (demo_tx\<lparr>tx_To := ''0xcc''\<rparr>))"
  by (intro allI no_nonce_reuse [of demo_block _ demo_tx])
    (simp_all add: demo_pool_def demo_block_def demo_tx_def zeroTx_def equal_fold_def StatusSuccess_def StatusFailed_def
       uncheckedTx_def systemTx_def to_lower_def lower_char_code)

definition demo_sha :: crypto where
  "demo_sha = \<lparr>sha256 = (\<lambda>x. replicate 32 (if x = signingPayload demo_tx then CHR ''a'' else if x = controlPayload demo_tx then CHR ''b''
     else if x = controlPayload (demo_tx\<lparr>tx_Nonce := 1\<rparr>) then CHR ''c'' else CHR ''d'')), recover = (\<lambda>_ _. None)\<rparr>"

lemma signing_digest_binds_witness:
  "tx_Value demo_tx = tx_Value (demo_tx\<lparr>tx_Nonce := 1\<rparr>) \<and> controlTx demo_tx = controlTx (demo_tx\<lparr>tx_Nonce := 1\<rparr>)"
proof -
  let ?b = "demo_tx\<lparr>tx_Nonce := 1\<rparr>"
  have sp: "signingPayload ?b = signingPayload demo_tx" by (simp add: signingPayload_def)
  have long: "32 < length (signingPayload demo_tx)" by (simp add: signingPayload_def jsonObject_def jsonString_def)
  have ne: "controlPayload demo_tx \<noteq> controlPayload ?b" by (simp add: controlPayload_inject demo_tx_def zeroTx_def)
  have ne2: "signingPayload demo_tx \<noteq> controlPayload t" for t
    by (simp add: signingPayload_def controlPayload_def jsonObject_def)
  have sh: "replicate 32 c \<noteq> signingPayload demo_tx" "replicate 32 c \<noteq> controlPayload t" for c t
    using long controlPayload_long [of t] by (metis length_replicate less_irrefl)+
  have eq: "TransactionSigningDigest demo_sha demo_tx = TransactionSigningDigest demo_sha ?b"
    by (simp add: TransactionSigningDigest_def controlTx_def sp) (simp add: demo_tx_def zeroTx_def)
  have "(\<Union>t \<in> {demo_tx, ?b}. {controlPayload t, signingPayload t, sha256 demo_sha (signingPayload t)}) =
      {controlPayload demo_tx, controlPayload ?b, signingPayload demo_tx, replicate 32 (CHR ''a'')}"
    by (auto simp: sp demo_sha_def)
  then have nocol: "x = y" if "{x, y} \<subseteq> (\<Union>t \<in> {demo_tx, ?b}. {controlPayload t, signingPayload t, sha256 demo_sha (signingPayload t)})"
      "sha256 demo_sha x = sha256 demo_sha y" for x y
    using that ne ne2 [of demo_tx] ne2 [of ?b] sh by (auto simp: demo_sha_def split: if_splits)
  have len: "length (sha256 demo_sha x) = 32" for x by (simp add: demo_sha_def)
  from signing_digest_binds [OF len nocol eq] show ?thesis by simp
qed

definition demo_env :: tx_env where
  "demo_env = \<lparr>te_JSON = tx_From, te_Sort = insertionSort, te_Ecrecover = (\<lambda>_ _. None),
     te_Gov = \<lparr>json_payload = (\<lambda>_. None), json_pair = (\<lambda>_. None), json_members = (\<lambda>_. None), json_bridge = (\<lambda>_. None),
       json_light = (\<lambda>_. None), json_oracle = (\<lambda>_. None)\<rparr>\<rparr>"

lemma pool_admission_witness:
  "\<exists>m' tx'. AddNewTxToTheTransaction_pool demo_sha demo_env 1010 (demo_tx\<lparr>tx_Nonce := 1\<rparr>) demo_pool = (m', tx', None) \<and>
     admission_post demo_pool 1010 m' tx'"
proof -
  obtain m' tx' err where run: "AddNewTxToTheTransaction_pool demo_sha demo_env 1010 (demo_tx\<lparr>tx_Nonce := 1\<rparr>) demo_pool = (m', tx', err)"
    by (metis prod_cases3)
  define t where "t = preparePendingTx demo_sha demo_env 1010 (demo_tx\<lparr>tx_Nonce := 1\<rparr>)"
  have t: "tx_Timestamp t = 1000" "tx_From t = ''0xaa''" "tx_Nonce t = 1" "\<not> uncheckedTx t"
    by (simp_all add: t_def preparePendingTx_def Let_def demo_tx_def zeroTx_def uncheckedTx_def systemTx_def)
  have "GetAccountNonce demo_pool ''0xaa'' = 1" "countTxsFrom demo_pool ''0xaa'' = 1"
    by (simp_all add: GetAccountNonce_def GetConfirmedAccountNonce_def scanNonce_Cons counts_for_def demo_pool_def demo_block_def demo_tx_def
      zeroTx_def equal_fold_def StatusSuccess_def StatusFailed_def to_lower_def lower_char_code countTxsFrom_def takeLast_def)
  then have "appendError demo_pool t = None" by (simp add: appendError_def t MaxTxsPerAccount_def)
  moreover have "replacementFor demo_pool t = NoMatch" by (simp add: replacementFor_def demo_pool_def)
  moreover have "initBaseFee demo_pool = demo_pool" by (simp add: initBaseFee_def demo_pool_def)
  moreover have "mp_Pool demo_pool = []" by (simp add: demo_pool_def)
  moreover have "\<not> TransactionTTLSeconds < 1010 - tx_Timestamp t" by (simp add: t TransactionTTLSeconds_def)
  ultimately have "admitted demo_sha demo_env t (demo_pool\<lparr>mp_Pool := [t]\<rparr>) = (m', tx', err)"
    using run by (simp add: AddNewTxToTheTransaction_pool_def Let_def flip: t_def)
  then have "err = None"
    by (auto simp: admitted_def Let_def sortPool_def demo_env_def insertionSort_def MaxTxPoolSize_def split: if_splits)
  have "sorter demo_env" by (rule insertionSort_sorter) (simp add: demo_env_def)
  moreover have "pool_ok demo_pool" by (simp add: pool_ok_def demo_pool_def)
  ultimately have "case err of None \<Rightarrow> admission_post demo_pool 1010 m' tx' | Some e \<Rightarrow> tx_Status tx' = StatusFailed \<and>
      (e \<noteq> ''txpool full'' \<longrightarrow> mp_Pool m' = mp_Pool demo_pool \<and> hd (mp_Recent m') = tx')"
    using pool_admission [OF _ _ run] by blast
  with run \<open>err = None\<close> show ?thesis by auto
qed

end
