(* ===== verification/Liquidity.thy ===== *)
theory Liquidity
  imports ChainTx Economics
begin

text \<open>
  Liquidity locks (\<open>rewards.go\<close>), liquidity positions with their rewards and vested release, the pool registry
  (the end of \<open>blockchain_struct.go\<close>) and the reward ledger. A \<open>*big.Int\<close> that is nil counts as zero in all these
  functions and is an \<open>int\<close>; a \<open>time.Time\<close> is its Unix time in nanoseconds. The two copies of
  a record that the source updates through a pointer are one map entry here. \<open>time.Now\<close> is the argument \<open>now\<close>;
  saving to disk is not modelled.
\<close>

section \<open>State\<close>

record LiquidityProvider =
  lp_Address :: string
  lp_StakeAmount :: int
  lp_LiquidityPower :: f64
  lp_LockTime :: int
  lp_LockDays :: int
  lp_TotalRewards :: int
  lp_PendingRewards :: int
  lp_IsUnstaking :: bool
  lp_UnstakeStartTime :: int
  lp_UnstakeAmount :: int
  lp_ReleasedSoFar :: int

record LockRecord =
  lk_Amount :: int
  lk_UnlockAt :: int
  lk_CreatedAt :: int

record LedgerEntry = RewardLedgerEntry +
  rl_BlockNumber :: u64
  rl_BlockHash :: string
  rl_ClaimRequired :: bool
  rl_TxHash :: string

record liq_world =
  lw_Accounts :: accounts
  lw_Providers :: "(string, LiquidityProvider) gomap"
  lw_Locks :: "(string, LockRecord list) gomap"
  lw_TotalLiquidity :: int
  lw_PoolLiquidity :: "(string, int) gomap"
  lw_Unallocated :: int
  lw_MinLiquidityStake :: "int option"
  lw_TxPool :: "Transaction list"
  lw_Ledger :: "LedgerEntry list"
  lw_Cumulative :: "int option"
  lw_Policy :: EconomicPolicy
  lw_LatestBlock :: u64
  lw_Validators :: "Validator option list"

text \<open>An outcome: the new state and an error, or the value of a call that succeeds.\<close>

type_synonym 'a liq_result = "liq_world \<times> (string + 'a)"

definition NewProvider :: "string \<Rightarrow> f64 \<Rightarrow> LiquidityProvider" where
  "NewProvider address w = \<lparr>lp_Address = address, lp_StakeAmount = 0, lp_LiquidityPower = w, lp_LockTime = 0, lp_LockDays = 0,
     lp_TotalRewards = 0, lp_PendingRewards = 0, lp_IsUnstaking = False, lp_UnstakeStartTime = 0, lp_UnstakeAmount = 0,
     lp_ReleasedSoFar = 0\<rparr>"

definition credit :: "string \<Rightarrow> int \<Rightarrow> liq_world \<Rightarrow> liq_world" where
  "credit a d w = w\<lparr>lw_Accounts := addAccountBalance a d (lw_Accounts w)\<rparr>"

definition putProvider :: "string \<Rightarrow> LiquidityProvider \<Rightarrow> liq_world \<Rightarrow> liq_world" where
  "putProvider k lp w = w\<lparr>lw_Providers := mput k lp (lw_Providers w)\<rparr>"

definition submit :: "Transaction \<Rightarrow> liq_world \<Rightarrow> liq_world" where
  "submit tx w = w\<lparr>lw_TxPool := lw_TxPool w @ [tx]\<rparr>"

section \<open>Locks\<close>

definition lockedSum :: "LockRecord list \<Rightarrow> int" where
  "lockedSum ls = sum_list (map lk_Amount ls)"

definition locks_of :: "liq_world \<Rightarrow> string \<Rightarrow> LockRecord list" where
  "locks_of w a = (case map_of (lw_Locks w) a of None \<Rightarrow> [] | Some ls \<Rightarrow> ls)"

definition recalculateTotalLiquidityLocked :: "liq_world \<Rightarrow> liq_world" where
  "recalculateTotalLiquidityLocked w = w\<lparr>lw_TotalLiquidity := vsum lockedSum (lw_Locks w)\<rparr>"

definition LockLiquidity :: "int \<Rightarrow> string \<Rightarrow> int \<Rightarrow> int \<Rightarrow> liq_world \<Rightarrow> unit liq_result" where
  "LockLiquidity now address amount lockDuration w =
     (if amount = 0 then (w, Inl ''lock amount must be > 0'')
      else if lockDuration \<le> 0 then (w, Inl ''lock duration must be > 0'')
      else let bal = AccountBalanceAmount (lw_Accounts w) address in
        if bal < amount then (w, Inl (''insufficient balance: have '' @ int_str bal @ '', need '' @ int_str amount))
        else (recalculateTotalLiquidityLocked (w\<lparr>lw_Accounts := setAccountBalance address (bal - amount) (lw_Accounts w),
            lw_Locks := mput address (locks_of w address @ [\<lparr>lk_Amount = amount, lk_UnlockAt = now + lockDuration, lk_CreatedAt = now\<rparr>])
              (lw_Locks w)\<rparr>), Inr ()))"

definition reduceTotal :: "int \<Rightarrow> liq_world \<Rightarrow> liq_world" where
  "reduceTotal d w = w\<lparr>lw_TotalLiquidity := (if lw_TotalLiquidity w \<le> d then 0 else lw_TotalLiquidity w - d)\<rparr>"

definition UnlockLiquidity :: "int \<Rightarrow> string \<Rightarrow> liq_world \<Rightarrow> int liq_result" where
  "UnlockLiquidity now address w = (let locks = locks_of w address;
     remaining = filter (\<lambda>l. now < lk_UnlockAt l) locks;
     unlocked = lockedSum (filter (\<lambda>l. lk_UnlockAt l \<le> now) locks) in
     if locks = [] then (w, Inr 0)
     else if unlocked = 0 then (w, Inl (''no matured liquidity locks for address '' @ address))
     else let w1 = reduceTotal unlocked (w\<lparr>lw_Locks := (if remaining = [] then mdel address (lw_Locks w) else mput address remaining (lw_Locks w))\<rparr>);
          bal = (case getAccountBalance (lw_Accounts w1) address of None \<Rightarrow> 0 | Some b \<Rightarrow> b) in
       (w1\<lparr>lw_Accounts := setAccountBalance address (bal + unlocked) (lw_Accounts w1)\<rparr>, Inr unlocked))"

definition getLock :: "int \<Rightarrow> liq_world \<Rightarrow> string \<Rightarrow> int" where
  "getLock now w address = lockedSum (filter (\<lambda>l. now < lk_UnlockAt l) (locks_of w address))"

text \<open>The second release function: maturity is strict here, and an empty list stays in the map.\<close>

definition UnlockAvailable :: "int \<Rightarrow> string \<Rightarrow> liq_world \<Rightarrow> int liq_result" where
  "UnlockAvailable now address w = (let recs = locks_of w address;
     kept = filter (\<lambda>r. now \<le> lk_UnlockAt r) recs; released = lockedSum (filter (\<lambda>r. lk_UnlockAt r < now) recs);
     w1 = (if 0 < released then reduceTotal released (credit address released w) else w) in
     if recs = [] then (w, Inr 0) else (w1\<lparr>lw_Locks := mput address kept (lw_Locks w1)\<rparr>, Inr released))"

section \<open>The reward ledger\<close>

definition maxRewardLedgerEntries :: nat where "maxRewardLedgerEntries = 100000"

definition nanos :: int where "nanos = 1000000000"

definition recordRewardLedgerEntryLocked :: "int \<Rightarrow> LedgerEntry \<Rightarrow> LedgerEntry list \<Rightarrow> LedgerEntry list" where
  "recordRewardLedgerEntryLocked now entry0 ledger =
     (if rl_Amount entry0 = [] \<or> rl_Address entry0 = [] then ledger else
      let e1 = entry0\<lparr>rl_Address := normalizeAccountAddress (rl_Address entry0),
            rl_Timestamp := (if rl_Timestamp entry0 \<le> 0 then now div nanos else rl_Timestamp entry0)\<rparr>;
          e = (if rl_ID e1 = [] then e1\<lparr>rl_ID := rl_Source e1 @ '':'' @ rl_Bucket e1 @ '':'' @ rl_Address e1 @ '':'' @ int_str (rl_Timestamp e1)
                 @ '':'' @ rl_TxHash e1\<rparr> else e1) in
      case findSlot (\<lambda>x. rl_ID x = rl_ID e) 0 ledger of
        Some (i, _) \<Rightarrow> ledger[i := e]
      | None \<Rightarrow> keepLast maxRewardLedgerEntries (ledger @ [e]))"

text \<open>\<open>AccountBalanceString\<close> is the sum of \<open>AccountBalanceAmount\<close> in decimal.\<close>

definition ledgerEntry where
  "ledgerEntry w i now address bucket source amount txHash = \<lparr>rl_ID = i, rl_Timestamp = now div nanos, rl_Address = normalizeAccountAddress address,
     rl_Bucket = bucket, rl_Source = source, rl_Amount = int_str amount, rl_Status = ''credited'',
     rl_BalanceAfter = int_str (AccountBalanceAmount (lw_Accounts w) (normalizeAccountAddress address)), rl_BlockNumber = 0, rl_BlockHash = [],
     rl_ClaimRequired = False, rl_TxHash = txHash\<rparr>"

definition RecordRewardClaim :: "int \<Rightarrow> string \<Rightarrow> int \<Rightarrow> string \<Rightarrow> string \<Rightarrow> liq_world \<Rightarrow> liq_world" where
  "RecordRewardClaim now address amount txHash source w = (if amount = 0 then w else
     let canonical = normalizeAccountAddress address; i = ''claim:'' @ canonical @ '':'' @ trim_space txHash @ '':'' @ trim_space source in
     w\<lparr>lw_Ledger := recordRewardLedgerEntryLocked now (ledgerEntry w i now canonical ''liquidity_claim'' source amount (trim_space txHash)) (lw_Ledger w)\<rparr>)"

section \<open>Liquidity positions\<close>

definition addLiquidityUnallocated :: "int \<Rightarrow> liq_world \<Rightarrow> liq_world" where
  "addLiquidityUnallocated amount w = w\<lparr>lw_Unallocated := lw_Unallocated w + amount\<rparr>"

text \<open>The \<open>int64\<close> product of a duration wraps. The result of the debit is ignored.\<close>

definition debit :: "string \<Rightarrow> int \<Rightarrow> liq_world \<Rightarrow> liq_world" where
  "debit a d w = (case subAccountBalance a d (lw_Accounts w) of None \<Rightarrow> w | Some m \<Rightarrow> w\<lparr>lw_Accounts := m\<rparr>)"

definition stakeMore :: "int \<Rightarrow> int \<Rightarrow> int \<Rightarrow> LiquidityProvider \<Rightarrow> LiquidityProvider" where
  "stakeMore now amount lockDays lp = (let s = lp_StakeAmount lp + amount in
     lp\<lparr>lp_StakeAmount := s, lp_LiquidityPower := fmul (f_of_int s) (f_of_int lockDays),
       lp_LockTime := (now + i64 (86400000000000 * lockDays)) div nanos, lp_LockDays := lockDays\<rparr>)"

definition ProvideLiquidity :: "crypto \<Rightarrow> tx_env \<Rightarrow> int \<Rightarrow> string \<Rightarrow> int \<Rightarrow> int \<Rightarrow> liq_world \<Rightarrow> unit liq_result" where
  "ProvideLiquidity C E now address amount lockDays w =
     (if amount \<le> 0 then (w, Inl ''amount must be greater than 0'')
      else if (case lw_MinLiquidityStake w of None \<Rightarrow> False | Some least \<Rightarrow> amount < least)
      then (w, Inl (''minimum liquidity stake is '' @ AmountString (lw_MinLiquidityStake w) @ '' LQD''))
      else if (case getAccountBalance (lw_Accounts w) address of None \<Rightarrow> True | Some b \<Rightarrow> b < amount)
      then (w, Inl ''insufficient balance to stake'')
      else let w1 = debit address amount w;
               lp = (case map_of (lw_Providers w1) address of None \<Rightarrow> NewProvider address (Fin 0) | Some lp \<Rightarrow> lp);
               w2 = putProvider address (stakeMore now amount lockDays lp) w1;
               w3 = submit (NewSystemTx C E (of_int (now div nanos)) ''stake'' address LiquidityPoolAddress amount) w2
           in (addLiquidityUnallocated amount w3, Inr ()))"

text \<open>Paying out the pending rewards of the position at a key.\<close>

definition payRewards :: "crypto \<Rightarrow> tx_env \<Rightarrow> int \<Rightarrow> string \<Rightarrow> string \<Rightarrow> LiquidityProvider \<Rightarrow> liq_world \<Rightarrow> liq_world" where
  "payRewards C E now source key lp w = (let claimed = lp_PendingRewards lp;
     tx = NewSystemTx C E (of_int (now div nanos)) ''lp_reward'' LiquidityPoolAddress (lp_Address lp) claimed;
     w1 = putProvider key (lp\<lparr>lp_PendingRewards := 0\<rparr>) (submit tx (credit key claimed w)) in
     RecordRewardClaim now key claimed (tx_TxHash tx) source w1)"

definition providerKey :: "(string, LiquidityProvider) gomap \<Rightarrow> string \<Rightarrow> string option" where
  "providerKey m address = (if map_of m address \<noteq> None then Some address else find (\<lambda>k. equal_fold k address) (keys_of m))"

definition claimAt :: "crypto \<Rightarrow> tx_env \<Rightarrow> int \<Rightarrow> string \<Rightarrow> liq_world \<Rightarrow> (int \<times> string) liq_result" where
  "claimAt C E now key w = (case map_of (lw_Providers w) key of None \<Rightarrow> (w, Inl ''no liquidity position found'')
     | Some lp \<Rightarrow> if lp_PendingRewards lp \<le> 0 then (w, Inr (0, []))
         else (payRewards C E now ''manual_claim'' key lp w, Inr (lp_PendingRewards lp,
           tx_TxHash (NewSystemTx C E (of_int (now div nanos)) ''lp_reward'' LiquidityPoolAddress (lp_Address lp) (lp_PendingRewards lp)))))"

text \<open>
  \<open>dex\<close> gives the owner and the weight of the aggregated position \<open>dexLPRewardPositionFor\<close> finds in the storage
  of the pair contracts.
\<close>

definition ClaimLPRewards :: "crypto \<Rightarrow> tx_env \<Rightarrow> (string \<Rightarrow> (string \<times> f64) option) \<Rightarrow> int \<Rightarrow> string \<Rightarrow> liq_world \<Rightarrow> (int \<times> string) liq_result" where
  "ClaimLPRewards C E dex now address w =
     (case providerKey (lw_Providers w) address of
        Some key \<Rightarrow> claimAt C E now key w
      | None \<Rightarrow> (case dex address of None \<Rightarrow> (w, Inl ''no liquidity position found'')
          | Some (owner, wt) \<Rightarrow> (putProvider owner (NewProvider owner wt) w, Inr (0, []))))"

section \<open>Pools\<close>

definition RegisterPool :: "string \<Rightarrow> liq_world \<Rightarrow> liq_world" where
  "RegisterPool a w = (if a = [] \<or> map_of (lw_PoolLiquidity w) a \<noteq> None then w
     else w\<lparr>lw_PoolLiquidity := mput a 0 (lw_PoolLiquidity w)\<rparr>)"

text \<open>The first pool with the largest balance.\<close>

fun richest :: "(string, int) gomap \<Rightarrow> (string \<times> int) option" where
  "richest [] = None"
| "richest ((a, b) # m) = (case richest m of None \<Rightarrow> Some (a, b)
     | Some (a', b') \<Rightarrow> if b < b' then Some (a', b') else Some (a, b))"

lemma richest_mem: "richest m = Some (a, b) \<Longrightarrow> (a, b) \<in> set m"
  by (induction m arbitrary: a b rule: richest.induct) (auto split: option.splits if_splits)

text \<open>
  Taking an amount out of the richest pools. Every round but the last empties a pool that was not empty, so as many rounds
  as there are pools are enough (\<open>reduceLoop_fuel\<close>).
\<close>

fun reduceLoop :: "nat \<Rightarrow> int \<Rightarrow> (string, int) gomap \<Rightarrow> (string, int) gomap" where
  "reduceLoop 0 remaining m = m"
| "reduceLoop (Suc n) remaining m = (if remaining \<le> 0 then m else case richest m of None \<Rightarrow> m
     | Some (a, most) \<Rightarrow> if most = 0 then m
         else if most \<le> remaining then reduceLoop n (remaining - most) (mput a 0 m)
         else mput a (most - remaining) m)"

definition reducePoolLiquidity :: "int \<Rightarrow> liq_world \<Rightarrow> liq_world" where
  "reducePoolLiquidity amount w = w\<lparr>lw_PoolLiquidity := reduceLoop (length (lw_PoolLiquidity w)) amount (lw_PoolLiquidity w)\<rparr>"

definition nonempty_pools :: "(string, int) gomap \<Rightarrow> nat" where
  "nonempty_pools m = length (filter (\<lambda>p. snd p \<noteq> 0) m)"

lemma zeroed_shorter:
  "wf_map m \<Longrightarrow> (a, b) \<in> set m \<Longrightarrow> b \<noteq> 0 \<Longrightarrow> nonempty_pools (mput a 0 m) < nonempty_pools m"
proof (induction m)
  case (Cons p m)
  show ?case
  proof (cases "fst p = a")
    case True
    with Cons.prems have "snd p = b" by (cases p) (auto simp: image_iff)
    with True Cons.prems(3) show ?thesis by (cases p) (simp add: nonempty_pools_def)
  next
    case False
    with Cons show ?thesis by (cases p) (auto simp: nonempty_pools_def)
  qed
qed simp

lemma reduceLoop_fuel: "wf_map m \<Longrightarrow> nonempty_pools m \<le> n \<Longrightarrow> reduceLoop n r m = reduceLoop (n + k) r m"
proof (induction n arbitrary: r m)
  case 0
  show ?case
  proof (cases k)
    case (Suc k')
    have z: "b = 0" if "richest m = Some (a, b)" for a b
      using richest_mem [OF that] 0 by (auto simp: nonempty_pools_def filter_empty_conv)
    show ?thesis by (auto simp: Suc z split: option.split)
  qed simp
next
  case (Suc n)
  have "reduceLoop n (r - b) (mput a 0 m) = reduceLoop (n + k) (r - b) (mput a 0 m)" if "richest m = Some (a, b)" "b \<noteq> 0" for a b
    using Suc zeroed_shorter [OF Suc.prems(1) richest_mem [OF that(1)] that(2)] by (intro Suc.IH) (simp_all add: wf_mput)
  then show ?case by (auto split: option.split)
qed

text \<open>
  \<open>RebalancePoolsEqual\<close>: what is unallocated goes to the richest pool, then two indices run towards each other over
  the pools in the order of their balances (both are always in range) and move value from the rich to the poor. The sort of the source is not stable; the order of equal
  balances is that of the map here.
\<close>

function balanceLoop :: "int \<Rightarrow> nat \<Rightarrow> nat \<Rightarrow> (string \<times> int) list \<Rightarrow> (string \<times> int) list" where
  "balanceLoop target i j es = (if j \<le> i \<or> length es \<le> j then es else
     let low = snd (es ! i); high = snd (es ! j) in
     if target \<le> low then balanceLoop target (i + 1) j es
     else if high \<le> target then balanceLoop target i (j - 1) es
     else let move = min (target - low) (high - target) in
       balanceLoop target i j (es[i := (fst (es ! i), low + move), j := (fst (es ! j), high - move)]))"
  by auto

termination
  by (relation "measures [\<lambda>(t, i, j, es). j - i,
      \<lambda>(t, i, j, es). if i < length es \<and> j < length es \<and> snd (es ! i) < t \<and> t < snd (es ! j) then 1 else 0]")
    (auto simp: nth_list_update)

declare balanceLoop.simps [simp del]

definition absorbUnallocated :: "liq_world \<Rightarrow> liq_world" where
  "absorbUnallocated w = (case richest (lw_PoolLiquidity w) of
     Some (a, b) \<Rightarrow> if 0 < lw_Unallocated w then w\<lparr>lw_PoolLiquidity := mput a (b + lw_Unallocated w) (lw_PoolLiquidity w), lw_Unallocated := 0\<rparr> else w
   | None \<Rightarrow> w)"

definition poolTarget :: "(string, int) gomap \<Rightarrow> int" where
  "poolTarget m = vsum (\<lambda>b. b) m div int (length m)"

definition RebalancePoolsEqual :: "liq_world \<Rightarrow> liq_world" where
  "RebalancePoolsEqual w0 = (let w = absorbUnallocated w0; m = lw_PoolLiquidity w;
     entries = sort_key snd m in
     if lw_PoolLiquidity w0 = [] then w0
     else if vsum (\<lambda>b. b) m = 0 \<or> poolTarget m = 0 then w
     else w\<lparr>lw_PoolLiquidity := fold (\<lambda>(a, b). mput a b) (balanceLoop (poolTarget m) 0 (length entries - 1) entries) m\<rparr>)"

section \<open>Leaving a position\<close>

definition StartUnstake :: "crypto \<Rightarrow> tx_env \<Rightarrow> int \<Rightarrow> string \<Rightarrow> liq_world \<Rightarrow> unit liq_result" where
  "StartUnstake C E now address w = (case map_of (lw_Providers w) address of None \<Rightarrow> (w, Inl ''no liquidity position found'')
     | Some lp0 \<Rightarrow>
       if now div nanos < lp_LockTime lp0 then (w, Inl ''liquidity still locked'')
       else if lp_IsUnstaking lp0 then (w, Inl ''already unstaking'')
       else let w1 = (if 0 < lp_PendingRewards lp0 then payRewards C E now ''unstake_auto_claim'' address lp0 w else w);
                lp1 = (if 0 < lp_PendingRewards lp0 then lp0\<lparr>lp_PendingRewards := 0\<rparr> else lp0);
                lp = lp1\<lparr>lp_IsUnstaking := True, lp_UnstakeStartTime := now div nanos, lp_UnstakeAmount := lp_StakeAmount lp1,
                  lp_ReleasedSoFar := 0, lp_LiquidityPower := Fin 0, lp_StakeAmount := 0\<rparr>;
                w2 = reducePoolLiquidity (lp_UnstakeAmount lp) (putProvider address lp w1)
            in (submit (NewSystemTx C E (of_int (now div nanos)) ''unstake'' address LiquidityPoolAddress (lp_UnstakeAmount lp)) w2, Inr ()))"

text \<open>One per cent of the stake a day, checked for every position.\<close>

definition releasable :: "int \<Rightarrow> LiquidityProvider \<Rightarrow> int" where
  "releasable now lp = min (lp_UnstakeAmount lp) (lp_UnstakeAmount lp * ((now div nanos - lp_UnstakeStartTime lp) div 86400) div 100)"

definition releaseDue :: "int \<Rightarrow> LiquidityProvider \<Rightarrow> bool" where
  "releaseDue now lp \<longleftrightarrow> lp_IsUnstaking lp \<and> 0 < (now div nanos - lp_UnstakeStartTime lp) div 86400 \<and> lp_UnstakeAmount lp \<noteq> 0 \<and>
     lp_ReleasedSoFar lp < releasable now lp"

definition releaseOne :: "crypto \<Rightarrow> tx_env \<Rightarrow> int \<Rightarrow> string \<Rightarrow> liq_world \<Rightarrow> liq_world" where
  "releaseOne C E now key w = (case map_of (lw_Providers w) key of None \<Rightarrow> w | Some lp \<Rightarrow>
     if \<not> releaseDue now lp then w
     else let delta = releasable now lp - lp_ReleasedSoFar lp;
              tx = NewSystemTx C E (of_int (now div nanos)) ''unstake_release'' LiquidityPoolAddress (lp_Address lp) delta;
              w1 = credit (lp_Address lp) delta (putProvider key (lp\<lparr>lp_ReleasedSoFar := releasable now lp\<rparr>) w);
              i = ''unstake_release:'' @ normalizeAccountAddress (lp_Address lp) @ '':'' @ tx_TxHash tx
          in submit tx (w1\<lparr>lw_Ledger := recordRewardLedgerEntryLocked now
               (ledgerEntry w1 i now (lp_Address lp) ''unstake_release'' ''unstake_vesting'' delta (tx_TxHash tx)) (lw_Ledger w1)\<rparr>))"

definition ProcessUnstakeReleases :: "crypto \<Rightarrow> tx_env \<Rightarrow> int \<Rightarrow> liq_world \<Rightarrow> liq_world" where
  "ProcessUnstakeReleases C E now w = fold (releaseOne C E now) (keys_of (lw_Providers w)) w"

section \<open>Credits\<close>

definition AddLPReward :: "string \<Rightarrow> int \<Rightarrow> liq_world \<Rightarrow> liq_world" where
  "AddLPReward address reward w = (let key = (case providerKey (lw_Providers w) address of None \<Rightarrow> address | Some k \<Rightarrow> k);
     lp = (case map_of (lw_Providers w) key of None \<Rightarrow> NewProvider address (Fin 0) | Some lp \<Rightarrow> lp) in
     putProvider key (lp\<lparr>lp_PendingRewards := lp_PendingRewards lp + reward, lp_TotalRewards := lp_TotalRewards lp + reward\<rparr>) w)"

definition AddParticipantReward :: "string \<Rightarrow> int \<Rightarrow> liq_world \<Rightarrow> liq_world" where
  "AddParticipantReward address reward w = credit address reward w"

end
