(* ===== verification/Rewards.thy ===== *)
theory Rewards
  imports Liquidity
begin

text \<open>
  The emission schedule with its cap and the distribution of a block's rewards (\<open>rewards.go\<close>). Which validators this node counts as eligible
  (it asks the network) and the positions found in the storage of the pair contracts (\<open>dexLPRewardPositions\<close>) are
  arguments. The order of the two lists of a map is the order in which \<open>range\<close> visits it, so the floating-point sums are
  those of that order.
\<close>

section \<open>Emission\<close>

definition BlocksPerHalving :: u64 where "BlocksPerHalving = 63115200"
definition GenesisRewardSats :: u64 where "GenesisRewardSats = 2000000000"

definition EmissionReward :: "u64 \<Rightarrow> int" where
  "EmissionReward n = (let halvings = n div BlocksPerHalving in
     if 64 \<le> halvings then 1
     else let reward = drop_bit (unat halvings) GenesisRewardSats in if reward = 0 then 1 else uint reward)"

lemma word_measure: "\<not> (stop \<le> start \<or> h < stop) \<Longrightarrow> 2 ^ 64 - unat (stop :: u64) < 2 ^ 64 - unat start"
proof -
  have "unat stop < 2 ^ 64" by (rule order_less_le_trans [OF unsigned_less]) simp
  moreover assume "\<not> (stop \<le> start \<or> h < stop)"
  then have "unat start < unat stop" by (simp add: word_le_nat_alt not_le)
  ultimately show ?thesis by linarith
qed

text \<open>One turn of the loop per halving epoch.\<close>

function scheduledFrom :: "u64 \<Rightarrow> u64 \<Rightarrow> int \<Rightarrow> int" where
  "scheduledFrom height start tot = (if height < start then tot else
     let epochEnd = (start div BlocksPerHalving + 1) * BlocksPerHalving;
         stop = (if height \<noteq> - 1 \<and> height + 1 < epochEnd then height + 1 else epochEnd);
         tot1 = tot + EmissionReward start * uint (stop - start) in
     if stop \<le> start \<or> height < stop then tot1 else scheduledFrom height stop tot1)"
  by auto

termination
  by (relation "measure (\<lambda>(h, s, t). 2 ^ 64 - unat s)") (simp, unfold in_measure prod.case, rule word_measure, simp only: HOL.refl)

declare scheduledFrom.simps [simp del]

definition ScheduledEmissionThrough :: "u64 \<Rightarrow> int" where
  "ScheduledEmissionThrough height = scheduledFrom height 0 0"

definition issuanceCap :: "liq_world \<Rightarrow> int" where
  "issuanceCap w = NewAmountFromStringOrZero (ep_IssuanceCap (lw_Policy w))"

text \<open>The part of \<open>EnsureRuntimeState\<close> that emission needs: a policy, and the counter of a chain that had none.\<close>

definition ensureEmission :: "liq_world \<Rightarrow> liq_world" where
  "ensureEmission w0 = (let w = w0\<lparr>lw_Policy := ensureEconomicPolicy (lw_Policy w0)\<rparr> in
     w\<lparr>lw_Cumulative := Some (case lw_Cumulative w of Some c \<Rightarrow> c | None \<Rightarrow> min (ScheduledEmissionThrough (lw_LatestBlock w)) (issuanceCap w))\<rparr>)"

definition issued :: "liq_world \<Rightarrow> int" where
  "issued w = (case lw_Cumulative w of None \<Rightarrow> 0 | Some c \<Rightarrow> c)"

definition takeCappedEmission :: "u64 \<Rightarrow> liq_world \<Rightarrow> liq_world \<times> int" where
  "takeCappedEmission blockNumber w0 = (let w = ensureEmission w0; remaining = issuanceCap w - issued w;
     reward = min (EmissionReward blockNumber) remaining in
     if remaining \<le> 0 then (w, 0) else (w\<lparr>lw_Cumulative := Some (issued w + reward)\<rparr>, reward))"

section \<open>Shares\<close>

definition pctAmount :: "int \<Rightarrow> int \<Rightarrow> int" where
  "pctAmount amount pct = (if amount = 0 then 0 else amount * pct div 100)"

text \<open>
  A \<open>big.Float\<close> with the precision of \<open>SetInt\<close>: the product is rounded to nearest, ties to even, and then truncated.
  \<open>None\<close> is the panic of \<open>big.NewFloat\<close> on a quotient that is not a number; an infinite one cannot occur, a weight is never
  larger than the total it is divided by.
\<close>

definition bitLen :: "int \<Rightarrow> nat" where
  "bitLen i = (if i = 0 then 0 else flog2 (nat \<bar>i\<bar>) + 1)"

definition roundTo :: "nat \<Rightarrow> rat \<Rightarrow> rat" where
  "roundTo p x = (if x = 0 then 0 else let u = pow2 (ilog2 \<bar>x\<bar> - int p + 1); v = of_int (round_even (\<bar>x\<bar> / u)) * u in
     if 0 < x then v else - v)"

definition truncRat :: "rat \<Rightarrow> int" where
  "truncRat x = (if 0 \<le> x then \<lfloor>x\<rfloor> else \<lceil>x\<rceil>)"

definition portionFromWeight :: "int \<Rightarrow> f64 \<Rightarrow> f64 \<Rightarrow> int option" where
  "portionFromWeight pool wt tot = (if pool = 0 \<or> fle tot (Fin 0) \<or> fle wt (Fin 0) then Some 0
     else case fdiv wt tot of Fin q \<Rightarrow> Some (truncRat (roundTo (max 64 (bitLen pool)) (of_int pool * q))) | _ \<Rightarrow> None)"

definition addStringAmount :: "(string, string) gomap \<Rightarrow> string \<Rightarrow> int \<Rightarrow> (string, string) gomap" where
  "addStringAmount dst key amt = (if amt = 0 then dst else mput key (int_str (amt + (case map_of dst key of None \<Rightarrow> 0
     | Some existing \<Rightarrow> NewAmountFromStringOrZero existing))) dst)"

definition rewardParticipantAddress :: "Transaction \<Rightarrow> string" where
  "rewardParticipantAddress tx = (if norm_addr (tx_Type tx) \<in> {''lp_reward'', ''claim_reward'', ''liquidity_claim''} \<and> trim_space (tx_To tx) \<noteq> []
     then tx_To tx else tx_From tx)"

section \<open>The rewards of a block\<close>

record dex_position =
  dp_Address :: string
  dp_Weight :: f64
  dp_LiquidityUSD :: f64
  dp_TierWeight :: f64
  dp_Locked :: bool

type_synonym reward_state = "liq_world \<times> BlockRewardBreakdown"

text \<open>Paying a share to every payee by its weight.\<close>

fun payOut :: "('a \<Rightarrow> int \<Rightarrow> reward_state \<Rightarrow> reward_state) \<Rightarrow> int \<Rightarrow> f64 \<Rightarrow> ('a \<times> f64) list \<Rightarrow> reward_state \<Rightarrow> reward_state option" where
  "payOut pay pool tot [] s = Some s"
| "payOut pay pool tot ((a, wt) # payees) s = (case portionFromWeight pool wt tot of None \<Rightarrow> None
     | Some p \<Rightarrow> payOut pay pool tot payees (pay a p s))"

text \<open>A category: nothing happens without a positive total weight and a positive share.\<close>

definition category :: "('a \<Rightarrow> int \<Rightarrow> reward_state \<Rightarrow> reward_state) \<Rightarrow> int \<Rightarrow> f64 \<Rightarrow> ('a \<times> f64) list \<Rightarrow> reward_state \<Rightarrow> reward_state option" where
  "category pay pool tot payees s = (if fless (Fin 0) tot \<and> 0 < pool then payOut pay pool tot payees s else Some s)"

definition payProvider :: "string \<Rightarrow> int \<Rightarrow> reward_state \<Rightarrow> reward_state" where
  "payProvider a p = (\<lambda>(w, b). (AddLPReward a p w, b\<lparr>rb_LiquidityRewards := addStringAmount (rb_LiquidityRewards b) a p\<rparr>))"

definition payValidator :: "string \<Rightarrow> int \<Rightarrow> reward_state \<Rightarrow> reward_state" where
  "payValidator a p = (\<lambda>(w, b). (credit a p w, b\<lparr>rb_ValidatorPartRewards := addStringAmount (rb_ValidatorPartRewards b) a p\<rparr>))"

definition payParticipant :: "Transaction \<Rightarrow> int \<Rightarrow> reward_state \<Rightarrow> reward_state" where
  "payParticipant tx p = (\<lambda>(w, b). (AddParticipantReward (rewardParticipantAddress tx) p w,
     b\<lparr>rb_ParticipantRewards := addStringAmount (rb_ParticipantRewards b) (tx_TxHash tx) p,
       rb_ParticipantRewardAddresses := addStringAmount (rb_ParticipantRewardAddresses b) (rewardParticipantAddress tx) p\<rparr>))"

definition stakeWeight :: "LiquidityProvider \<Rightarrow> f64" where
  "stakeWeight lp = fsqrt (f_of_int (lp_StakeAmount lp))"

definition stakers :: "liq_world \<Rightarrow> LiquidityProvider list" where
  "stakers w = filter (\<lambda>lp. 0 < lp_StakeAmount lp) (map snd (lw_Providers w))"

definition lpPayees :: "dex_position list \<Rightarrow> liq_world \<Rightarrow> (string \<times> f64) list" where
  "lpPayees dex w = map (\<lambda>lp. (lp_Address lp, stakeWeight lp)) (stakers w) @ map (\<lambda>d. (dp_Address d, dp_Weight d)) dex"

text \<open>The entries of the long-lock category, and the map that adds up those of one address.\<close>

definition dexLongWeight :: "dex_position \<Rightarrow> f64" where
  "dexLongWeight d = (if fle (dp_Weight d) (Fin 0)
     then (if fless (Fin 0) (dp_TierWeight d) then fmul (fsqrt (dp_LiquidityUSD d)) (dp_TierWeight d) else fsqrt (dp_LiquidityUSD d))
     else dp_Weight d)"

definition longEntries :: "dex_position list \<Rightarrow> liq_world \<Rightarrow> (string \<times> f64) list" where
  "longEntries dex w = map (\<lambda>lp. (lp_Address lp, stakeWeight lp)) (filter (\<lambda>lp. 365 \<le> lp_LockDays lp \<and> lp_LockDays lp \<le> 2000) (stakers w)) @
     map (\<lambda>d. (normalizeAccountAddress (dp_Address d), dexLongWeight d)) (filter (\<lambda>d. dp_Locked d \<and> \<not> fle (dp_LiquidityUSD d) (Fin 0)) dex)"

definition addWeight :: "string \<times> f64 \<Rightarrow> (string, f64) gomap \<Rightarrow> (string, f64) gomap" where
  "addWeight = (\<lambda>(a, x) m. mput a (fadd (case map_of m a of None \<Rightarrow> Fin 0 | Some y \<Rightarrow> y) x) m)"

definition otherValidators :: "(Validator \<Rightarrow> bool) \<Rightarrow> int \<Rightarrow> string \<Rightarrow> liq_world \<Rightarrow> (string \<times> f64) list" where
  "otherValidators eligible now winner w = map (\<lambda>v. (v_Address v, fsqrt (validatorEffectiveWeight now v)))
     (filter (\<lambda>v. v_Address v \<noteq> winner \<and> fless (Fin 0) (validatorEffectiveWeight now v) \<and> eligible v) (map the (filter (\<lambda>v. v \<noteq> None) (lw_Validators w))))"

definition participants :: "Transaction list \<Rightarrow> (Transaction \<times> f64) list" where
  "participants txs = map (\<lambda>tx. (tx, fsqrt (fadd (f_of_int (tx_Value tx)) (Fin 1)))) txs"

definition emptyBreakdown :: "string \<Rightarrow> BlockRewardBreakdown" where
  "emptyBreakdown winner = \<lparr>rb_Validator = winner, rb_ValidatorReward = ''0'', rb_ValidatorRewards = [], rb_ValidatorPartRewards = [],
     rb_LiquidityRewards = [], rb_ParticipantRewards = [], rb_ParticipantRewardAddresses = [], rb_TreasuryReward = ''0''\<rparr>"

definition payProposer :: "string \<Rightarrow> int \<Rightarrow> reward_state \<Rightarrow> reward_state" where
  "payProposer winner p = (\<lambda>(w, b). if 0 < p then (credit winner p w, b\<lparr>rb_ValidatorReward := int_str p,
     rb_ValidatorRewards := mput winner (int_str p) (rb_ValidatorRewards b)\<rparr>) else (w, b))"

definition payTreasury :: "int \<Rightarrow> reward_state \<Rightarrow> reward_state" where
  "payTreasury p = (\<lambda>(w, b). if 0 < p then (credit LiquidityPoolAddress p w, b\<lparr>rb_TreasuryReward := int_str p\<rparr>) else (w, b))"

abbreviation total_weight :: "('a \<times> f64) list \<Rightarrow> f64" where
  "total_weight xs \<equiv> fsum (map snd xs)"

text \<open>The six categories in the order of the code. Payees of the long-lock share are read after the curve share is paid.\<close>

definition distribute :: "(Validator \<Rightarrow> bool) \<Rightarrow> dex_position list \<Rightarrow> int \<Rightarrow> string \<Rightarrow> Transaction list \<Rightarrow> int \<Rightarrow> reward_state \<Rightarrow> reward_state option" where
  "distribute eligible dex now winner txs pot s0 = (let s1 = payProposer winner (pctAmount pot 40) s0; lps = lpPayees dex (fst s1) in
     case category payProvider (pctAmount pot 30) (total_weight lps) lps s1 of None \<Rightarrow> None | Some s2 \<Rightarrow>
     let longs = longEntries dex (fst s2) in
     case category payProvider (pctAmount pot 5) (total_weight longs) (filter (\<lambda>p. \<not> fle (snd p) (Fin 0)) (fold addWeight longs [])) s2 of None \<Rightarrow> None | Some s3 \<Rightarrow>
     let vals = otherValidators eligible now winner (fst s3) in
     case category payValidator (pctAmount pot 12) (total_weight vals) vals s3 of None \<Rightarrow> None | Some s4 \<Rightarrow>
     case category payParticipant (pctAmount pot 2) (total_weight (participants txs)) (participants txs) s4 of None \<Rightarrow> None | Some s5 \<Rightarrow>
     Some (payTreasury (pctAmount pot 11) s5))"

definition CalculateBlockRewards :: "(Validator \<Rightarrow> bool) \<Rightarrow> dex_position list \<Rightarrow> int \<Rightarrow> string \<Rightarrow> Transaction list \<Rightarrow> u64 \<Rightarrow> u64 \<Rightarrow> liq_world \<Rightarrow> reward_state option" where
  "CalculateBlockRewards eligible dex now winner txs gasFees blockNumber w = (case takeCappedEmission blockNumber w of
     (w1, emission) \<Rightarrow> distribute eligible dex now winner txs (emission + uint gasFees) (w1, emptyBreakdown winner))"

section \<open>The ledger of a block\<close>

definition shortHash :: "string \<Rightarrow> string" where
  "shortHash v = (let s = trim_space v in if length s \<le> 12 then s else take 10 s @ ''...'')"

definition rewardLedgerID :: "u64 \<Rightarrow> string \<Rightarrow> string \<Rightarrow> string \<Rightarrow> string \<Rightarrow> string" where
  "rewardLedgerID n h bucket address source = u64_str n @ '':'' @ shortHash h @ '':'' @ norm_addr bucket @ '':'' @
     normalizeAccountAddress address @ '':'' @ norm_addr source"

record RewardSnapshot =
  sn_BlockNumber :: u64
  sn_BaseFee :: u64
  sn_GasUsed :: u64
  sn_Dist :: "(string, string) gomap"

definition maxRewardHistoryRows :: nat where "maxRewardHistoryRows = 10000"

definition recordRewardSnapshotLocked :: "RewardSnapshot \<Rightarrow> RewardSnapshot list \<Rightarrow> RewardSnapshot list" where
  "recordRewardSnapshotLocked s rows = (case findSlot (\<lambda>r. sn_BlockNumber r = sn_BlockNumber s) 0 rows of
     Some (i, _) \<Rightarrow> rows[i := s] | None \<Rightarrow> keepLast maxRewardHistoryRows (rows @ [s]))"

definition nonzeroAmount :: "string \<Rightarrow> int option" where
  "nonzeroAmount s = (case NewAmountFromString s of None \<Rightarrow> None | Some a \<Rightarrow> if a = 0 then None else Some a)"

text \<open>The state is the ledger and the amounts by address. The dates are seconds.\<close>

definition blockEntry where
  "blockEntry blk ts bucket pending address amt = \<lparr>rl_ID = rewardLedgerID (b_BlockNumber blk) (b_CurrentHash blk) bucket address ''block_reward'',
     rl_Timestamp = ts, rl_Address = address, rl_Bucket = bucket, rl_Source = ''block_reward'', rl_Amount = int_str amt,
     rl_Status = (if pending then ''pending_claim'' else ''credited''), rl_BalanceAfter = [], rl_BlockNumber = b_BlockNumber blk,
     rl_BlockHash = b_CurrentHash blk, rl_ClaimRequired = pending, rl_TxHash = []\<rparr>"

definition recordOne where
  "recordOne now blk ts bucket pending = (\<lambda>(address, amount) (ledger, dist). case nonzeroAmount amount of None \<Rightarrow> (ledger, dist)
     | Some amt \<Rightarrow> let canonical = normalizeAccountAddress address in
         if canonical = [] then (ledger, dist)
         else (recordRewardLedgerEntryLocked now (blockEntry blk ts bucket pending canonical amt) ledger, addStringAmount dist canonical amt))"

definition RecordBlockRewardLedger :: "int \<Rightarrow> Block \<Rightarrow> LedgerEntry list \<times> RewardSnapshot list \<Rightarrow> LedgerEntry list \<times> RewardSnapshot list" where
  "RecordBlockRewardLedger now blk = (\<lambda>(ledger, history).
     let ts0 = i64 (uint (b_TimeStamp blk)); ts = (if ts0 \<le> 0 then now div nanos else ts0); b = b_RewardBreakdown blk;
         s1 = fold (recordOne now blk ts ''proposer_validator'' False) (rb_ValidatorRewards b) (ledger, []);
         s2 = fold (recordOne now blk ts ''validator_participant'' False) (rb_ValidatorPartRewards b) s1;
         s3 = fold (recordOne now blk ts ''liquidity'' True) (rb_LiquidityRewards b) s2;
         s4 = fold (recordOne now blk ts ''transaction_participant'' False) (rb_ParticipantRewardAddresses b) s3;
         (l, dist) = (case NewAmountFromString (rb_TreasuryReward b) of None \<Rightarrow> s4 | Some amt \<Rightarrow>
            if 0 < amt then recordOne now blk ts ''treasury'' False (LiquidityPoolAddress, int_str amt) s4 else s4) in
     (l, if dist = [] then history else recordRewardSnapshotLocked \<lparr>sn_BlockNumber = b_BlockNumber blk, sn_BaseFee = b_BaseFee blk,
        sn_GasUsed = b_GasUsed blk, sn_Dist = dist\<rparr> history))"

definition recentLimit :: "int \<Rightarrow> nat" where
  "recentLimit limit = (if limit \<le> 0 \<or> 500 < limit then 100 else nat limit)"

definition RewardLedgerRecent :: "int \<Rightarrow> LedgerEntry list \<Rightarrow> LedgerEntry list" where
  "RewardLedgerRecent limit ledger = rev (takeLast (recentLimit limit) ledger)"

definition RewardLedgerForAddress :: "string \<Rightarrow> int \<Rightarrow> LedgerEntry list \<Rightarrow> LedgerEntry list" where
  "RewardLedgerForAddress address limit ledger =
     take (recentLimit limit) (filter (\<lambda>e. equal_fold (rl_Address e) (normalizeAccountAddress address)) (rev ledger))"

end
