(* ===== verification/LiquidityTheorems.thy ===== *)
theory LiquidityTheorems
  imports Liquidity
begin

text \<open>
  The books of the liquidity system: balances, positions and locks together hold a constant value, whatever sequence of
  operations runs, and a position that leaves is paid out in full in a hundred days.
\<close>

section \<open>Sums over maps\<close>

lemma vsum_mput:
  fixes f :: "'v \<Rightarrow> 'a :: ab_group_add"
  shows "wf_map m \<Longrightarrow> vsum f (mput k v m) = vsum f m + f v - (case map_of m k of None \<Rightarrow> 0 | Some w \<Rightarrow> f w)"
  by (cases "map_of m k") (simp_all add: vsum_mput_new vsum_mput_old)

lemma vsum_mdel:
  fixes f :: "'v \<Rightarrow> int"
  shows "wf_map m \<Longrightarrow> vsum f (mdel k m) = vsum f m - (case map_of m k of None \<Rightarrow> 0 | Some w \<Rightarrow> f w)"
proof (induction m)
  case (Cons p m)
  then show ?case
    by (cases p) (auto simp: AList.delete_eq split: option.split dest: map_of_SomeD intro!: filter_True [THEN arg_cong] rev_image_eqI)
qed (simp add: AList.delete_eq)

section \<open>Canonical account books\<close>

text \<open>Keys as \<open>accountKeyForWrite\<close> chooses them for addresses: trimmed and in lower case.\<close>

definition canonical :: "accounts \<Rightarrow> bool" where
  "canonical m \<longleftrightarrow> wf_map m \<and> (\<forall>k. map_of m k \<noteq> None \<longrightarrow> norm_addr k = k)"

abbreviation address_ok :: "string \<Rightarrow> bool" where
  "address_ok a \<equiv> ValidateAddress (trim_space a)"

lemma canonical_fold:
  assumes "norm_addr k = k" "equal_fold k a"
  shows "k = norm_addr a"
proof -
  have "to_lower k = k" by (metis assms(1) norm_addr_lower)
  then have "k = to_lower a" using assms(2) by (simp add: equal_fold_def)
  moreover have "trim_space k = k" using assms(1) by (metis norm_addr_def trim_space_idem trim_to_lower)
  ultimately show ?thesis by (simp add: norm_addr_def trim_to_lower)
qed

lemma canonical_write: "canonical m \<Longrightarrow> address_ok a \<Longrightarrow> accountKeyForWrite m a = norm_addr a"
proof -
  assume c: "canonical m" and a: "address_ok a"
  show ?thesis
  proof (cases "map_of m a")
    case None
    show ?thesis
    proof (cases "find (\<lambda>key. equal_fold key a) (keys_of m)")
      case (Some k)
      then have "map_of m k \<noteq> None" "equal_fold k a" by (auto simp: find_Some_iff map_of_eq_None_iff dest: nth_mem)
      with c have "k = norm_addr a" by (intro canonical_fold) (simp_all add: canonical_def)
      with None Some show ?thesis by (simp add: accountKeyForWrite_def)
    next
      case none: None
      from a have "normalizeAccountAddress a = norm_addr a" by (simp add: normalizeAccountAddress_def norm_addr_def Let_def)
      with None none show ?thesis by (simp add: accountKeyForWrite_def)
    qed
  next
    case (Some b)
    with c Some show ?thesis by (simp add: accountKeyForWrite_def canonical_def)
  qed
qed

lemma canonical_read: "canonical m \<Longrightarrow> address_ok a \<Longrightarrow> getAccountBalance m a = map_of m (norm_addr a)"
proof -
  assume c: "canonical m" and a: "address_ok a"
  from a have n: "normalizeAccountAddress a = norm_addr a" by (simp add: normalizeAccountAddress_def norm_addr_def Let_def)
  show ?thesis
  proof (cases "map_of m a")
    case (Some b)
    with c Some show ?thesis by (simp add: getAccountBalance_def accountKeyForRead_def canonical_def)
  next
    case None
    show ?thesis
    proof (cases "map_of m (norm_addr a)")
      case (Some b)
      with None n show ?thesis by (simp add: getAccountBalance_def accountKeyForRead_def)
    next
      case none: None
      have "find (\<lambda>key. equal_fold key a) (keys_of m) = None"
      proof (rule ccontr)
        assume "find (\<lambda>key. equal_fold key a) (keys_of m) \<noteq> None"
        then obtain k where k: "map_of m k \<noteq> None" "equal_fold k a" by (auto simp: find_None_iff map_of_eq_None_iff)
        with c have "k = norm_addr a" by (intro canonical_fold) (simp_all add: canonical_def)
        with none k(1) show False by simp
      qed
      with None none n show ?thesis by (simp add: getAccountBalance_def accountKeyForRead_def)
    qed
  qed
qed

lemma canonical_amount:
  assumes "canonical m" "address_ok a"
  shows "AccountBalanceAmount m a = (case map_of m (norm_addr a) of None \<Rightarrow> 0 | Some b \<Rightarrow> b)"
proof -
  have e: "accountMatch (trim_space a) k \<longleftrightarrow> k = norm_addr a" if "norm_addr k = k" for k
  proof -
    have "trim_space k = k" using that by (metis norm_addr_def trim_space_idem trim_to_lower)
    then have "accountMatch (trim_space a) k \<longleftrightarrow> equal_fold k (trim_space a)" by (simp add: accountMatch_iff)
    also have "\<dots> \<longleftrightarrow> k = norm_addr a"
      using canonical_fold [OF that, of "trim_space a"] by (auto simp: norm_addr_def equal_fold_def)
    finally show ?thesis .
  qed
  have "filter (\<lambda>(k, _). accountMatch (trim_space a) k) m = filter (\<lambda>(k, _). k = norm_addr a) m"
  proof (rule filter_cong [OF HOL.refl])
    fix p assume "p \<in> set m"
    then have "map_of m (fst p) \<noteq> None" by (simp add: map_of_eq_None_iff)
    with assms(1) e show "(case p of (k, _) \<Rightarrow> accountMatch (trim_space a) k) = (case p of (k, _) \<Rightarrow> k = norm_addr a)"
      by (simp add: canonical_def split_beta)
  qed
  moreover have "trim_space a \<noteq> []" using assms(2) by (auto simp: ValidateAddress_def)
  ultimately show ?thesis
    using vsum_filter_key [of m "norm_addr a"] assms(1) by (simp add: AccountBalanceAmount_def canonical_def)
qed

lemma canonical_mput: "canonical m \<Longrightarrow> norm_addr k = k \<Longrightarrow> canonical (mput k v m)"
  by (auto simp: canonical_def wf_mput)

section \<open>The value the system holds\<close>

definition holding :: "LiquidityProvider \<Rightarrow> int" where
  "holding lp = lp_StakeAmount lp + lp_PendingRewards lp + lp_UnstakeAmount lp - lp_ReleasedSoFar lp"

definition total_value :: "liq_world \<Rightarrow> int" where
  "total_value w = vsum (\<lambda>b. b) (lw_Accounts w) + vsum holding (lw_Providers w) + vsum lockedSum (lw_Locks w)"

definition provider_ok :: "LiquidityProvider \<Rightarrow> bool" where
  "provider_ok lp \<longleftrightarrow> address_ok (lp_Address lp) \<and> 0 \<le> lp_StakeAmount lp \<and> 0 \<le> lp_PendingRewards lp \<and>
     0 \<le> lp_ReleasedSoFar lp \<and> lp_ReleasedSoFar lp \<le> lp_UnstakeAmount lp \<and>
     (\<not> lp_IsUnstaking lp \<longrightarrow> lp_ReleasedSoFar lp = lp_UnstakeAmount lp)"

definition liq_ok :: "liq_world \<Rightarrow> bool" where
  "liq_ok w \<longleftrightarrow> canonical (lw_Accounts w) \<and> nonneg_accounts (lw_Accounts w) \<and> wf_map (lw_Providers w) \<and> wf_map (lw_Locks w) \<and>
     (\<forall>k lp. map_of (lw_Providers w) k = Some lp \<longrightarrow> address_ok k \<and> provider_ok lp) \<and>
     (\<forall>k ls. map_of (lw_Locks w) k = Some ls \<longrightarrow> (\<forall>l \<in> set ls. 0 < lk_Amount l))"

text \<open>A good state of value \<open>T\<close>.\<close>

definition holds :: "int \<Rightarrow> liq_world \<Rightarrow> bool" where
  "holds T w \<longleftrightarrow> liq_ok w \<and> total_value w = T"

lemma holds_cong:
  "lw_Accounts w' = lw_Accounts w \<Longrightarrow> lw_Providers w' = lw_Providers w \<Longrightarrow> lw_Locks w' = lw_Locks w \<Longrightarrow> holds T w' = holds T w"
  by (simp add: holds_def liq_ok_def total_value_def)

lemma holds_side [simp]:
  "holds T (submit tx w) = holds T w" "holds T (addLiquidityUnallocated d w) = holds T w"
  "holds T (reducePoolLiquidity d w) = holds T w" "holds T (reduceTotal d w) = holds T w"
  "holds T (recalculateTotalLiquidityLocked w) = holds T w" "holds T (RecordRewardClaim now a d h src w) = holds T w"
  "holds T (w\<lparr>lw_Ledger := L\<rparr>) = holds T w"
  by (rule holds_cong; simp add: submit_def addLiquidityUnallocated_def reducePoolLiquidity_def reduceTotal_def
      recalculateTotalLiquidityLocked_def RecordRewardClaim_def Let_def)+

lemma side_fields [simp]:
  "lw_Providers (submit tx w) = lw_Providers w" "lw_Providers (credit a d w) = lw_Providers w"
  "lw_Providers (RecordRewardClaim now a d h src w) = lw_Providers w" "lw_Providers (debit a d w) = lw_Providers w"
  "lw_Locks (credit a d w) = lw_Locks w" "lw_Locks (reduceTotal d w) = lw_Locks w" "lw_Accounts (reduceTotal d w) = lw_Accounts w"
  "lw_Providers (putProvider k lp w) = mput k lp (lw_Providers w)"
  by (simp_all add: submit_def credit_def RecordRewardClaim_def debit_def reduceTotal_def putProvider_def Let_def split: option.split)

lemma holds_accounts:
  assumes "holds T w" "canonical m" "nonneg_accounts m" "vsum (\<lambda>b. b) m = vsum (\<lambda>b. b) (lw_Accounts w) + d"
  shows "holds (T + d) (w\<lparr>lw_Accounts := m\<rparr>)"
  using assms by (simp add: holds_def liq_ok_def total_value_def)

lemma holds_canonical: "holds T w \<Longrightarrow> canonical (lw_Accounts w) \<and> wf_map (lw_Accounts w) \<and> nonneg_accounts (lw_Accounts w)"
  by (simp add: holds_def liq_ok_def canonical_def)

lemma norm_addr_fixed [simp]: "norm_addr (norm_addr a) = norm_addr a"
  by simp

lemma holds_credit:
  assumes "holds T w" "address_ok a" "0 \<le> d"
  shows "holds (T + d) (credit a d w)"
proof -
  note c = holds_canonical [OF assms(1)]
  have k: "accountKeyForWrite (lw_Accounts w) a = norm_addr a" using c assms(2) by (simp add: canonical_write)
  show ?thesis unfolding credit_def
    by (rule holds_accounts [OF assms(1)])
      (use c assms(3) acc.credit_supply [of "lw_Accounts w" a d] in
        \<open>simp_all add: nonneg_add, simp add: addAccountBalance_def k Let_def canonical_mput\<close>)
qed

lemma holds_set:
  assumes "holds T w" "address_ok a" "0 \<le> v"
  shows "holds (T + v - (case map_of (lw_Accounts w) (norm_addr a) of None \<Rightarrow> 0 | Some b \<Rightarrow> b))
    (w\<lparr>lw_Accounts := setAccountBalance a v (lw_Accounts w)\<rparr>)"
proof -
  note c = holds_canonical [OF assms(1)]
  have s: "setAccountBalance a v (lw_Accounts w) = mput (norm_addr a) v (lw_Accounts w)"
    using c assms(2) by (simp add: setAccountBalance_def canonical_write)
  let ?b = "case map_of (lw_Accounts w) (norm_addr a) of None \<Rightarrow> 0 | Some b \<Rightarrow> b"
  have "holds (T + (v - ?b)) (w\<lparr>lw_Accounts := setAccountBalance a v (lw_Accounts w)\<rparr>)"
    unfolding s
  proof (rule holds_accounts [OF assms(1)])
    show "canonical (mput (norm_addr a) v (lw_Accounts w))" using c by (simp add: canonical_mput)
    show "nonneg_accounts (mput (norm_addr a) v (lw_Accounts w))" using c assms(3) by (simp add: nonneg_accounts_def)
    show "vsum (\<lambda>b. b) (mput (norm_addr a) v (lw_Accounts w)) = vsum (\<lambda>b. b) (lw_Accounts w) + (v - ?b)"
      using c by (simp add: vsum_mput)
  qed
  then show ?thesis by (simp add: algebra_simps)
qed

lemma holds_debit:
  assumes "holds T w" "address_ok a" "getAccountBalance (lw_Accounts w) a = Some b" "d \<le> b" "0 \<le> d"
  shows "holds (T - d) (debit a d w)"
proof -
  note c = holds_canonical [OF assms(1)]
  have b: "map_of (lw_Accounts w) (norm_addr a) = Some b" using c assms(2,3) by (simp add: canonical_read)
  have "debit a d w = w\<lparr>lw_Accounts := setAccountBalance a (b - d) (lw_Accounts w)\<rparr>"
    using c assms(2,4) b by (simp add: debit_def subAccountBalance_def setAccountBalance_def canonical_write)
  with holds_set [OF assms(1,2), of "b - d"] assms(4) b show ?thesis by simp
qed

lemma holds_provider:
  assumes "holds T w" "address_ok k" "provider_ok lp"
  shows "holds (T + holding lp - (case map_of (lw_Providers w) k of None \<Rightarrow> 0 | Some lp' \<Rightarrow> holding lp')) (putProvider k lp w)"
  using assms by (auto simp: holds_def liq_ok_def total_value_def putProvider_def vsum_mput wf_mput)

lemma holds_locks:
  assumes "holds T w" "\<forall>l \<in> set ls. 0 < lk_Amount l"
  shows "holds (T + lockedSum ls - lockedSum (locks_of w k)) (w\<lparr>lw_Locks := mput k ls (lw_Locks w)\<rparr>)"
  using assms by (auto simp: holds_def liq_ok_def total_value_def vsum_mput wf_mput locks_of_def lockedSum_def split: option.split)

lemma lockedSum_split: "lockedSum (filter P ls) + lockedSum (filter (\<lambda>l. \<not> P l) ls) = lockedSum ls"
  by (induction ls) (auto simp: lockedSum_def)

lemma lockedSum_nonneg: "\<forall>l \<in> set ls. 0 < lk_Amount l \<Longrightarrow> 0 \<le> lockedSum ls"
  unfolding lockedSum_def by (rule sum_list_nonneg) auto

lemma locks_positive: "holds T w \<Longrightarrow> l \<in> set (locks_of w a) \<Longrightarrow> 0 < lk_Amount l"
  by (auto simp: holds_def liq_ok_def locks_of_def split: option.splits)

section \<open>Every operation keeps the value\<close>

lemma LockLiquidity_holds:
  assumes "holds T w" "address_ok a" "0 < amount"
  shows "holds T (fst (LockLiquidity now a amount d w))"
proof (cases "d \<le> 0 \<or> AccountBalanceAmount (lw_Accounts w) a < amount")
  case True
  with assms show ?thesis by (auto simp: LockLiquidity_def Let_def)
next
  case False
  define lk where "lk = \<lparr>lk_Amount = amount, lk_UnlockAt = now + d, lk_CreatedAt = now\<rparr>"
  let ?bal = "AccountBalanceAmount (lw_Accounts w) a"
  let ?w = "w\<lparr>lw_Accounts := setAccountBalance a (?bal - amount) (lw_Accounts w)\<rparr>"
  have "?bal = (case map_of (lw_Accounts w) (norm_addr a) of None \<Rightarrow> 0 | Some b \<Rightarrow> b)"
    using holds_canonical [OF assms(1)] assms(2) by (simp add: canonical_amount)
  with holds_set [OF assms(1,2), of "?bal - amount"] False have h: "holds (T - amount) ?w" by simp
  have "holds (T - amount + lockedSum (locks_of ?w a @ [lk]) - lockedSum (locks_of ?w a))
      (?w\<lparr>lw_Locks := mput a (locks_of ?w a @ [lk]) (lw_Locks ?w)\<rparr>)"
    by (rule holds_locks [OF h]) (use locks_positive [OF h] assms(3) in \<open>auto simp: lk_def\<close>)
  moreover have "lockedSum (locks_of ?w a @ [lk]) = lockedSum (locks_of ?w a) + amount" by (simp add: lockedSum_def lk_def)
  moreover have "locks_of ?w a = locks_of w a" by (simp add: locks_of_def)
  ultimately show ?thesis using False assms(3) by (simp add: LockLiquidity_def Let_def lk_def)
qed

lemma holds_unlock:
  assumes "holds T w" "P = (\<lambda>l. \<not> Q l)"
  shows "holds (T - lockedSum (filter Q (locks_of w a))) (w\<lparr>lw_Locks := mput a (filter P (locks_of w a)) (lw_Locks w)\<rparr>)"
proof -
  have "lockedSum (filter P (locks_of w a)) - lockedSum (locks_of w a) = - lockedSum (filter Q (locks_of w a))"
    using lockedSum_split [of Q "locks_of w a"] by (simp add: assms(2))
  then have e: "T + lockedSum (filter P (locks_of w a)) - lockedSum (locks_of w a) = T - lockedSum (filter Q (locks_of w a))" by simp
  have "\<forall>l \<in> set (filter P (locks_of w a)). 0 < lk_Amount l" using locks_positive [OF assms(1)] by auto
  from holds_locks [OF assms(1) this, of a] show ?thesis by (simp only: e)
qed

lemma UnlockAvailable_holds:
  assumes "holds T w" "address_ok a"
  shows "holds T (fst (UnlockAvailable now a w))"
proof -
  define Q where "Q = (\<lambda>r :: LockRecord. lk_UnlockAt r < now)"
  let ?d = "lockedSum (filter Q (locks_of w a))"
  have d: "0 \<le> ?d" by (rule lockedSum_nonneg) (use locks_positive [OF assms(1)] in auto)
  let ?w = "if 0 < ?d then reduceTotal ?d (credit a ?d w) else w"
  have h: "holds (T + ?d) ?w" using holds_credit [OF assms d] d assms(1) by auto
  have l: "locks_of ?w a = locks_of w a" "lw_Locks ?w = lw_Locks w" by (simp_all add: locks_of_def)
  have "holds (T + ?d - ?d) (?w\<lparr>lw_Locks := mput a (filter (\<lambda>r. now \<le> lk_UnlockAt r) (locks_of w a)) (lw_Locks w)\<rparr>)"
    using holds_unlock [OF h, of "\<lambda>r. now \<le> lk_UnlockAt r" Q a] unfolding l by (simp add: Q_def fun_eq_iff not_less)
  with assms(1) show ?thesis by (auto simp: UnlockAvailable_def Let_def l simp flip: Q_def)
qed

lemma holds_drop_locks: "holds T w \<Longrightarrow> holds (T - lockedSum (locks_of w k)) (w\<lparr>lw_Locks := mdel k (lw_Locks w)\<rparr>)"
  by (auto simp: holds_def liq_ok_def total_value_def vsum_mdel wf_mdel locks_of_def lockedSum_def split: option.split if_splits)

lemma UnlockLiquidity_holds:
  assumes "holds T w" "address_ok a"
  shows "holds T (fst (UnlockLiquidity now a w))"
proof (cases "locks_of w a = [] \<or> lockedSum (filter (\<lambda>l. lk_UnlockAt l \<le> now) (locks_of w a)) = 0")
  case True
  with assms(1) show ?thesis by (auto simp: UnlockLiquidity_def Let_def)
next
  case False
  define Q where "Q = (\<lambda>l :: LockRecord. lk_UnlockAt l \<le> now)"
  define P where "P = (\<lambda>l :: LockRecord. now < lk_UnlockAt l)"
  have PQ: "P = (\<lambda>l. \<not> Q l)" by (auto simp: P_def Q_def)
  let ?d = "lockedSum (filter Q (locks_of w a))" and ?rest = "filter P (locks_of w a)"
  let ?w = "w\<lparr>lw_Locks := (if ?rest = [] then mdel a (lw_Locks w) else mput a ?rest (lw_Locks w))\<rparr>"
  have "holds (T - ?d) ?w"
  proof (cases "?rest = []")
    case True
    then have "filter Q (locks_of w a) = locks_of w a" by (auto simp: PQ filter_empty_conv intro: filter_True)
    with holds_drop_locks [OF assms(1), of a] True show ?thesis by simp
  next
    case f: False
    with holds_unlock [OF assms(1) PQ, of a] show ?thesis by simp
  qed
  then have h: "holds (T - ?d) (reduceTotal ?d ?w)" by simp
  define bal where "bal = (case getAccountBalance (lw_Accounts w) a of None \<Rightarrow> 0 | Some b \<Rightarrow> b)"
  have b: "bal = (case map_of (lw_Accounts w) (norm_addr a) of None \<Rightarrow> 0 | Some b \<Rightarrow> b)"
    using holds_canonical [OF assms(1)] assms(2) by (simp add: bal_def canonical_read)
  have "0 \<le> bal" using holds_canonical [OF assms(1)] by (auto simp: b nonneg_accounts_def split: option.split)
  moreover have "0 \<le> ?d" by (rule lockedSum_nonneg) (use locks_positive [OF assms(1)] in auto)
  ultimately have "holds T ((reduceTotal ?d ?w)\<lparr>lw_Accounts := setAccountBalance a (bal + ?d) (lw_Accounts w)\<rparr>)"
    using holds_set [OF h assms(2), of "bal + ?d"] by (simp flip: b)
  with False show ?thesis by (simp add: UnlockLiquidity_def Let_def bal_def flip: Q_def P_def)
qed

lemma ProvideLiquidity_holds:
  assumes "holds T w" "address_ok a"
  shows "holds T (fst (ProvideLiquidity C E now a amount days w))"
proof (cases "amount \<le> 0 \<or> (case lw_MinLiquidityStake w of None \<Rightarrow> False | Some least \<Rightarrow> amount < least) \<or>
    (case getAccountBalance (lw_Accounts w) a of None \<Rightarrow> True | Some b \<Rightarrow> b < amount)")
  case True
  with assms show ?thesis by (auto simp: ProvideLiquidity_def Let_def)
next
  case False
  then obtain b where b: "getAccountBalance (lw_Accounts w) a = Some b" "amount \<le> b" "0 < amount"
    by (auto split: option.splits)
  define lp where "lp = (case map_of (lw_Providers w) a of None \<Rightarrow> NewProvider a (Fin 0) | Some lp \<Rightarrow> lp)"
  have h: "holds (T - amount) (debit a amount w)" using holds_debit [OF assms b(1,2)] b(3) by simp
  have lp: "provider_ok lp" "holding lp = (case map_of (lw_Providers w) a of None \<Rightarrow> 0 | Some lp \<Rightarrow> holding lp)"
    using assms by (auto simp: lp_def provider_ok_def NewProvider_def holding_def holds_def liq_ok_def split: option.split)
  then have "provider_ok (stakeMore now amount days lp)" "holding (stakeMore now amount days lp) = holding lp + amount"
    using b(3) by (simp_all add: provider_ok_def holding_def stakeMore_def Let_def)
  with holds_provider [OF h assms(2), of "stakeMore now amount days lp"] lp(2)
  have "holds T (putProvider a (stakeMore now amount days lp) (debit a amount w))" by simp
  with False show ?thesis by (simp add: ProvideLiquidity_def Let_def flip: lp_def)
qed

lemma payRewards_holds:
  assumes "holds T w" "map_of (lw_Providers w) k = Some lp"
  shows "holds T (payRewards C E now src k lp w)"
proof -
  have ok: "address_ok k" "provider_ok lp" using assms by (auto simp: holds_def liq_ok_def)
  let ?tx = "NewSystemTx C E (of_int (now div nanos)) ''lp_reward'' LiquidityPoolAddress (lp_Address lp) (lp_PendingRewards lp)"
  have h: "holds (T + lp_PendingRewards lp) (submit ?tx (credit k (lp_PendingRewards lp) w))"
    using holds_credit [OF assms(1) ok(1)] ok(2) by (simp add: provider_ok_def)
  have "provider_ok (lp\<lparr>lp_PendingRewards := 0\<rparr>)" using ok(2) by (simp add: provider_ok_def)
  from holds_provider [OF h ok(1) this] assms(2) show ?thesis by (simp add: payRewards_def Let_def holding_def)
qed

lemma claimAt_holds: "holds T w \<Longrightarrow> holds T (fst (claimAt C E now k w))"
  by (auto simp: claimAt_def payRewards_holds split: option.split)

lemma holds_new_provider:
  "holds T w \<Longrightarrow> address_ok k \<Longrightarrow> map_of (lw_Providers w) k = None \<Longrightarrow> holds T (putProvider k (NewProvider k wt) w)"
  using holds_provider [of T w k "NewProvider k wt"] by (simp add: provider_ok_def NewProvider_def holding_def)

lemma ClaimLPRewards_holds:
  assumes "holds T w" "\<And>owner wt. dex a = Some (owner, wt) \<Longrightarrow> address_ok owner \<and> equal_fold owner a"
  shows "holds T (fst (ClaimLPRewards C E dex now a w))"
proof (cases "providerKey (lw_Providers w) a")
  case None
  then have free: "map_of (lw_Providers w) owner = None" if "equal_fold owner a" for owner
    using that by (auto simp: providerKey_def find_None_iff map_of_eq_None_iff split: if_splits)
  with None assms show ?thesis by (auto simp: ClaimLPRewards_def holds_new_provider split: option.split)
next
  case (Some k)
  with claimAt_holds [OF assms(1)] show ?thesis by (simp add: ClaimLPRewards_def)
qed

lemma StartUnstake_holds:
  assumes "holds T w"
  shows "holds T (fst (StartUnstake C E now a w))"
proof (cases "map_of (lw_Providers w) a")
  case (Some lp0)
  show ?thesis
  proof (cases "now div nanos < lp_LockTime lp0 \<or> lp_IsUnstaking lp0")
    case False
    let ?w1 = "if 0 < lp_PendingRewards lp0 then payRewards C E now ''unstake_auto_claim'' a lp0 w else w"
    let ?lp1 = "if 0 < lp_PendingRewards lp0 then lp0\<lparr>lp_PendingRewards := 0\<rparr> else lp0"
    let ?lp = "?lp1\<lparr>lp_IsUnstaking := True, lp_UnstakeStartTime := now div nanos, lp_UnstakeAmount := lp_StakeAmount ?lp1,
      lp_ReleasedSoFar := 0, lp_LiquidityPower := Fin 0, lp_StakeAmount := 0\<rparr>"
    have h: "holds T ?w1" using assms payRewards_holds [OF assms Some] by simp
    have m: "map_of (lw_Providers ?w1) a = Some ?lp1"
      by (simp add: Some payRewards_def Let_def)
    have ok: "address_ok a" "provider_ok ?lp1" using h m by (auto simp: holds_def liq_ok_def)
    then have "provider_ok ?lp" "holding ?lp = holding ?lp1" using False by (auto simp: provider_ok_def holding_def)
    with holds_provider [OF h ok(1), of ?lp] m have "holds T (putProvider a ?lp ?w1)" by simp
    with Some False show ?thesis by (simp add: StartUnstake_def Let_def)
  qed (use assms Some in \<open>auto simp: StartUnstake_def\<close>)
qed (use assms in \<open>simp add: StartUnstake_def\<close>)

section \<open>Vesting\<close>

definition vested :: "int \<Rightarrow> LiquidityProvider \<Rightarrow> LiquidityProvider" where
  "vested now lp = (if lp_IsUnstaking lp then lp\<lparr>lp_ReleasedSoFar := max (lp_ReleasedSoFar lp) (releasable now lp)\<rparr> else lp)"

lemma releaseDue_iff: "provider_ok lp \<Longrightarrow> releaseDue now lp \<longleftrightarrow> lp_IsUnstaking lp \<and> lp_ReleasedSoFar lp < releasable now lp"
proof -
  assume ok: "provider_ok lp"
  let ?d = "(now div nanos - lp_UnstakeStartTime lp) div 86400"
  have u: "0 \<le> lp_ReleasedSoFar lp" "0 \<le> lp_UnstakeAmount lp" using ok by (auto simp: provider_ok_def)
  have "0 < ?d \<and> lp_UnstakeAmount lp \<noteq> 0" if "lp_ReleasedSoFar lp < releasable now lp"
  proof (rule ccontr)
    assume "\<not> (0 < ?d \<and> lp_UnstakeAmount lp \<noteq> 0)"
    then have "lp_UnstakeAmount lp * ?d \<le> 0" using u(2) by (auto simp: mult_le_0_iff not_less)
    then have "lp_UnstakeAmount lp * ?d div 100 \<le> 0" by linarith
    then show False using that u(1) by (simp add: releasable_def)
  qed
  then show ?thesis by (auto simp: releaseDue_def)
qed

lemma vested_due: "provider_ok lp \<Longrightarrow> vested now lp = (if releaseDue now lp then lp\<lparr>lp_ReleasedSoFar := releasable now lp\<rparr> else lp)"
  by (cases lp) (auto simp: vested_def releaseDue_iff)

lemma provider_ok_vested: "provider_ok lp \<Longrightarrow> provider_ok (vested now lp)"
  by (auto simp: vested_def provider_ok_def releasable_def)

lemma vested_simps [simp]:
  "lp_UnstakeAmount (vested now lp) = lp_UnstakeAmount lp" "lp_UnstakeStartTime (vested now lp) = lp_UnstakeStartTime lp"
  "lp_IsUnstaking (vested now lp) = lp_IsUnstaking lp"
  by (simp_all add: vested_def)

lemma vested_idem: "vested now (vested now lp) = vested now lp"
proof -
  define r where "r = releasable now lp"
  have v: "vested now lp = (if lp_IsUnstaking lp then lp\<lparr>lp_ReleasedSoFar := max (lp_ReleasedSoFar lp) r\<rparr> else lp)"
    by (simp only: vested_def r_def)
  have "releasable now (vested now lp) = r" by (simp only: releasable_def vested_simps r_def)
  then have "vested now (vested now lp) = (if lp_IsUnstaking lp
      then (vested now lp)\<lparr>lp_ReleasedSoFar := max (lp_ReleasedSoFar (vested now lp)) r\<rparr> else vested now lp)"
    by (subst vested_def) (simp only: vested_simps)
  then show ?thesis by (simp add: v)
qed

definition due :: "int \<Rightarrow> LiquidityProvider \<Rightarrow> int" where
  "due now lp = lp_ReleasedSoFar (vested now lp) - lp_ReleasedSoFar lp"

lemma due_nonneg: "0 \<le> due now lp"
  by (simp add: due_def vested_def)

lemma releaseOne_fields:
  assumes "map_of (lw_Providers w) k = Some lp" "provider_ok lp"
  shows "map_of (lw_Providers (releaseOne C E now k w)) = (map_of (lw_Providers w))(k \<mapsto> vested now lp)"
    "lw_Accounts (releaseOne C E now k w) = (if due now lp = 0 then lw_Accounts w else addAccountBalance (lp_Address lp) (due now lp) (lw_Accounts w))"
    "releaseDue now lp \<longleftrightarrow> due now lp \<noteq> 0"
  using assms vested_due [OF assms(2), of now] releaseDue_iff [OF assms(2), of now]
  by (auto simp: releaseOne_def Let_def due_def submit_def putProvider_def credit_def)

lemma releaseOne_holds: "holds T w \<Longrightarrow> holds T (releaseOne C E now k w)"
proof (cases "map_of (lw_Providers w) k")
  case (Some lp)
  assume h: "holds T w"
  have ok: "address_ok k" "provider_ok lp" using h Some by (auto simp: holds_def liq_ok_def)
  show ?thesis
  proof (cases "releaseDue now lp")
    case True
    let ?lp = "lp\<lparr>lp_ReleasedSoFar := releasable now lp\<rparr>" and ?d = "releasable now lp - lp_ReleasedSoFar lp"
    have "provider_ok ?lp" using provider_ok_vested [OF ok(2), of now] vested_due [OF ok(2), of now] True by simp
    from holds_provider [OF h ok(1) this] Some have "holds (T - ?d) (putProvider k ?lp w)" by (simp add: holding_def algebra_simps)
    moreover have "0 \<le> ?d" "address_ok (lp_Address lp)" using True ok(2) by (simp_all add: releaseDue_def provider_ok_def)
    ultimately have "holds T (credit (lp_Address lp) ?d (putProvider k ?lp w))" using holds_credit by fastforce
    with Some True show ?thesis by (simp add: releaseOne_def Let_def)
  qed (use h Some in \<open>simp add: releaseOne_def\<close>)
qed (simp add: releaseOne_def)

lemma release_holds: "holds T w \<Longrightarrow> holds T (fold (releaseOne C E now) ks w)"
  by (induction ks arbitrary: w) (auto simp: releaseOne_holds)

text \<open>The payments to one account.\<close>

definition dueTo :: "int \<Rightarrow> liq_world \<Rightarrow> string \<Rightarrow> string list \<Rightarrow> int" where
  "dueTo now w a ks = sum_list (map (\<lambda>k. case map_of (lw_Providers w) k of None \<Rightarrow> 0
     | Some lp \<Rightarrow> if same_account (lp_Address lp) a then due now lp else 0) ks)"

lemma release_effect:
  assumes "holds T w" "distinct ks" "\<forall>k \<in> set ks. map_of (lw_Providers w) k \<noteq> None"
  shows "map_of (lw_Providers (fold (releaseOne C E now) ks w)) k =
      (if k \<in> set ks then map_option (vested now) (map_of (lw_Providers w) k) else map_of (lw_Providers w) k) \<and>
    AccountBalanceAmount (lw_Accounts (fold (releaseOne C E now) ks w)) a = AccountBalanceAmount (lw_Accounts w) a + dueTo now w a ks"
  using assms
proof (induction ks arbitrary: w)
  case (Cons x ks)
  then obtain lp where lp: "map_of (lw_Providers w) x = Some lp" by auto
  then have ok: "provider_ok lp" using Cons.prems(1) by (auto simp: holds_def liq_ok_def)
  define w1 where "w1 = releaseOne C E now x w"
  note f = releaseOne_fields(1,2) [OF lp ok, where C = C and E = E and now = now, folded w1_def]
  have h: "holds T w1" using Cons.prems(1) by (simp add: w1_def releaseOne_holds)
  have rest: "\<forall>k \<in> set ks. map_of (lw_Providers w1) k \<noteq> None" using Cons.prems(3) by (simp add: f(1))
  from Cons.IH [OF h _ rest] Cons.prems(2)
  have ih: "map_of (lw_Providers (fold (releaseOne C E now) ks w1)) k =
      (if k \<in> set ks then map_option (vested now) (map_of (lw_Providers w1) k) else map_of (lw_Providers w1) k)"
    "AccountBalanceAmount (lw_Accounts (fold (releaseOne C E now) ks w1)) a = AccountBalanceAmount (lw_Accounts w1) a + dueTo now w1 a ks"
    by simp_all
  have "dueTo now w1 a ks = dueTo now w a ks"
    unfolding dueTo_def using Cons.prems(2) by (intro arg_cong [where f = sum_list] map_cong) (auto simp: f(1))
  moreover have "AccountBalanceAmount (lw_Accounts w1) a =
      AccountBalanceAmount (lw_Accounts w) a + (if same_account (lp_Address lp) a then due now lp else 0)"
    using f(2) acc.credit_balance [of "lw_Accounts w" "lp_Address lp" "due now lp" a] holds_canonical [OF Cons.prems(1)] by auto
  moreover have "dueTo now w a (x # ks) = (if same_account (lp_Address lp) a then due now lp else 0) + dueTo now w a ks"
    by (simp add: dueTo_def lp)
  ultimately show ?case using ih Cons.prems(2) by (auto simp: f(1) lp simp flip: w1_def)
qed (simp add: dueTo_def)

text \<open>C38: Vesting. One pass over the positions releases, for every position that is leaving, exactly one per cent of its stake for each full
  day since it left, at most the stake, never less than what was released before; the balance of every account grows by
  what the positions paying to it release, and after a hundred days the whole stake has been paid. A second
  pass at the same time changes no position.\<close>

theorem unstake_vests:
  fixes C :: crypto and E :: tx_env and now :: int
  assumes "liq_ok w" "map_of (lw_Providers w) k = Some lp"
  defines "w' \<equiv> ProcessUnstakeReleases C E now w"
  shows "map_of (lw_Providers w') k = Some (vested now lp) \<and>
    AccountBalanceAmount (lw_Accounts w') a = AccountBalanceAmount (lw_Accounts w) a + dueTo now w a (keys_of (lw_Providers w)) \<and>
    (lp_IsUnstaking lp \<and> lp_UnstakeStartTime lp + 100 * 86400 \<le> now div nanos \<longrightarrow> lp_ReleasedSoFar (vested now lp) = lp_UnstakeAmount lp) \<and>
    map_of (lw_Providers (ProcessUnstakeReleases C E now w')) k = Some (vested now lp)"
proof -
  have h: "holds (total_value w) w" using assms(1) by (simp add: holds_def)
  have d: "distinct (keys_of (lw_Providers v))" "\<forall>k \<in> set (keys_of (lw_Providers v)). map_of (lw_Providers v) k \<noteq> None"
    if "holds T v" for T v using that by (auto simp: holds_def liq_ok_def map_of_eq_None_iff)
  have mem: "k' \<in> set (keys_of (lw_Providers v))" if "map_of (lw_Providers v) k' = Some x" for v k' x
    using that by (metis map_of_SomeD image_eqI fst_conv set_map)
  note e = release_effect [OF h d [OF h], where C = C and E = E and now = now, folded ProcessUnstakeReleases_def w'_def]
  have p1: "map_of (lw_Providers w') k = Some (vested now lp)" using e [where k = k] assms(2) mem by auto
  have h': "holds (total_value w) w'" unfolding w'_def ProcessUnstakeReleases_def by (rule release_holds [OF h])
  note vested_idem [of now lp]
  moreover have "map_of (lw_Providers (ProcessUnstakeReleases C E now w')) k = map_option (vested now) (map_of (lw_Providers w') k)"
    using release_effect [OF h' d [OF h'], where C = C and E = E and now = now and k = k] mem [OF p1]
    unfolding ProcessUnstakeReleases_def by presburger
  ultimately have p2: "map_of (lw_Providers (ProcessUnstakeReleases C E now w')) k = Some (vested now lp)" by (simp add: p1)
  have ok: "provider_ok lp" using assms(1,2) by (auto simp: liq_ok_def)
  have "lp_ReleasedSoFar (vested now lp) = lp_UnstakeAmount lp"
    if "lp_IsUnstaking lp" "lp_UnstakeStartTime lp + 100 * 86400 \<le> now div nanos"
  proof -
    have "100 \<le> (now div nanos - lp_UnstakeStartTime lp) div 86400" using that(2) by linarith
    moreover have u: "0 \<le> lp_UnstakeAmount lp" "lp_ReleasedSoFar lp \<le> lp_UnstakeAmount lp" using ok by (auto simp: provider_ok_def)
    ultimately have "lp_UnstakeAmount lp * 100 \<le> lp_UnstakeAmount lp * ((now div nanos - lp_UnstakeStartTime lp) div 86400)"
      by (intro mult_left_mono) simp_all
    then have "lp_UnstakeAmount lp \<le> lp_UnstakeAmount lp * ((now div nanos - lp_UnstakeStartTime lp) div 86400) div 100" by linarith
    with u that(1) show ?thesis by (simp add: vested_def releasable_def)
  qed
  with p1 p2 e [where k = k and a = a] show ?thesis by blast
qed

section \<open>The books of the pools\<close>

lemma mput_subset: "set (mput k v m) \<subseteq> insert (k, v) (set m)"
  by (induction m) auto

lemma vsum_zero: "\<forall>p \<in> set m. snd p = 0 \<Longrightarrow> vsum (\<lambda>b. b) m = 0"
  by (induction m) auto

lemma vsum_pos: "\<forall>b \<in> snd ` set m. 0 \<le> b \<Longrightarrow> 0 \<le> vsum (\<lambda>b. b :: int) m"
  by (induction m) auto

lemma vsum_list: "vsum f m = sum_list (map (f \<circ> snd) m)"
  by (induction m) auto

lemma pools_mput:
  fixes m :: "(string, int) gomap"
  assumes "wf_map m" "\<forall>b \<in> snd ` set m. 0 \<le> b" "0 \<le> c"
  shows "wf_map (mput a c m)" "\<forall>b \<in> snd ` set (mput a c m). 0 \<le> b"
  using assms mput_subset [of a c m] by (auto simp: wf_mput)

definition pools_ok :: "liq_world \<Rightarrow> bool" where
  "pools_ok w \<longleftrightarrow> wf_map (lw_PoolLiquidity w) \<and> (\<forall>b \<in> snd ` set (lw_PoolLiquidity w). 0 \<le> b) \<and> 0 \<le> lw_Unallocated w"

definition pool_value :: "liq_world \<Rightarrow> int" where
  "pool_value w = vsum (\<lambda>b. b) (lw_PoolLiquidity w) + lw_Unallocated w"

definition staked :: "liq_world \<Rightarrow> int" where
  "staked w = vsum lp_StakeAmount (lw_Providers w)"

text \<open>What a leaving stake takes out of the pools less than it put in, because the pools do not hold enough.\<close>

definition uncovered :: "int \<Rightarrow> string \<Rightarrow> liq_world \<Rightarrow> int" where
  "uncovered now a w = (case map_of (lw_Providers w) a of None \<Rightarrow> 0
     | Some lp \<Rightarrow> if now div nanos < lp_LockTime lp \<or> lp_IsUnstaking lp then 0
         else max 0 (lp_StakeAmount lp - vsum (\<lambda>b. b) (lw_PoolLiquidity w)))"

text \<open>One operation on behalf of a valid address, with what it leaves uncovered. The amount of a lock is positive, as the only caller checks.
  \<open>dex\<close> finds the owner of a position in the pair contracts.\<close>

inductive liq_step :: "crypto \<Rightarrow> tx_env \<Rightarrow> int \<Rightarrow> liq_world \<Rightarrow> liq_world \<Rightarrow> bool" for C E where
  lock: "address_ok a \<Longrightarrow> 0 < amount \<Longrightarrow> liq_step C E 0 w (fst (LockLiquidity now a amount d w))"
| unlock: "address_ok a \<Longrightarrow> liq_step C E 0 w (fst (UnlockLiquidity now a w))"
| withdraw: "address_ok a \<Longrightarrow> liq_step C E 0 w (fst (UnlockAvailable now a w))"
| provide: "address_ok a \<Longrightarrow> liq_step C E 0 w (fst (ProvideLiquidity C E now a amount days w))"
| claim: "(\<And>owner wt. dex a = Some (owner, wt) \<Longrightarrow> address_ok owner \<and> equal_fold owner a) \<Longrightarrow>
    liq_step C E 0 w (fst (ClaimLPRewards C E dex now a w))"
| unstake: "liq_step C E (uncovered now a w) w (fst (StartUnstake C E now a w))"
| release: "liq_step C E 0 w (ProcessUnstakeReleases C E now w)"
| register: "liq_step C E 0 w (RegisterPool a w)"
| rebalance: "liq_step C E 0 w (RebalancePoolsEqual w)"

inductive liq_reach :: "crypto \<Rightarrow> tx_env \<Rightarrow> liq_world \<Rightarrow> int \<Rightarrow> liq_world \<Rightarrow> bool" for C E w where
  start: "liq_reach C E w 0 w"
| step: "liq_reach C E w u v \<Longrightarrow> liq_step C E x v v' \<Longrightarrow> liq_reach C E w (u + x) v'"

subsection \<open>Rebalancing\<close>

lemma snd_sum_update:
  assumes "i < j" "j < length (es :: (string \<times> int) list)"
  shows "sum_list (map snd (es[i := (a, snd (es ! i) + d), j := (b, snd (es ! j) - d)])) = sum_list (map snd es)"
proof -
  have u: "sum_list (xs[k := y]) = sum_list xs + y - xs ! k" if "k < length xs" for xs :: "int list" and k y
    using that by (induction xs arbitrary: k) (auto split: nat.split)
  show ?thesis using assms by (simp add: map_update u)
qed

lemma balanceLoop_books:
  "0 \<le> t \<Longrightarrow> \<forall>p \<in> set es. 0 \<le> snd p \<Longrightarrow>
    map fst (balanceLoop t i j es) = map fst es \<and> sum_list (map snd (balanceLoop t i j es)) = sum_list (map snd es) \<and>
    (\<forall>p \<in> set (balanceLoop t i j es). 0 \<le> snd p)"
proof (induction t i j es rule: balanceLoop.induct)
  case (1 t i j es)
  show ?case
  proof (cases "j \<le> i \<or> length es \<le> j")
    case True
    with "1.prems" show ?thesis by (subst (1 2 3) balanceLoop.simps) simp
  next
    case False
    then have ij: "i < j" "j < length es" by auto
    let ?lo = "snd (es ! i)" and ?hi = "snd (es ! j)"
    consider (lo) "t \<le> ?lo" | (hi) "?lo < t" "?hi \<le> t" | (move) "?lo < t" "t < ?hi" by linarith
    then show ?thesis
    proof cases
      case lo
      then have e: "balanceLoop t i j es = balanceLoop t (i + 1) j es" using False by (subst balanceLoop.simps) (simp add: Let_def)
      show ?thesis unfolding e by (rule "1.IH"(1) [OF False HOL.refl HOL.refl lo "1.prems"])
    next
      case hi
      then have e: "balanceLoop t i j es = balanceLoop t i (j - 1) es" using False by (subst balanceLoop.simps) (simp add: Let_def)
      have "\<not> t \<le> ?lo" using hi(1) by simp
      from "1.IH"(2) [OF False HOL.refl HOL.refl this hi(2) "1.prems"] show ?thesis unfolding e .
    next
      case move
      define d where "d = min (t - ?lo) (?hi - t)"
      define es' where "es' = es[i := (fst (es ! i), ?lo + d), j := (fst (es ! j), ?hi - d)]"
      have e: "balanceLoop t i j es = balanceLoop t i j es'"
        using move False by (subst balanceLoop.simps) (simp add: Let_def d_def es'_def)
      have nn: "0 \<le> ?lo" "0 \<le> ?hi" using "1.prems"(2) ij by auto
      have "0 \<le> ?lo + d" "0 \<le> ?hi - d" using move nn "1.prems"(1) by (auto simp: d_def)
      then have "\<forall>p \<in> set es'. 0 \<le> snd p"
        unfolding es'_def using "1.prems"(2) by (fastforce dest!: subsetD [OF set_update_subset_insert])
      note ih = "1.IH"(3) [OF False HOL.refl HOL.refl _ _ d_def "1.prems"(1), folded es'_def, OF _ _ this]
      have "(map fst es)[k := fst (es ! k)] = map fst es" if "k < length es" for k
        using that by (metis list_update_id nth_map)
      then have f: "map fst es' = map fst es" using ij by (simp add: es'_def map_update)
      have g: "sum_list (map snd es') = sum_list (map snd es)" unfolding es'_def by (rule snd_sum_update [OF ij])
      show ?thesis unfolding e f [symmetric] g [symmetric] by (rule ih) (use move in simp_all)
    qed
  qed
qed

lemma putAll:
  fixes m :: "(string, int) gomap"
  assumes "wf_map m" "distinct (map fst es)" "fst ` set es \<subseteq> fst ` set m"
  shows "wf_map (fold (\<lambda>(a, b). mput a b) es m) \<and>
    vsum (\<lambda>b. b) (fold (\<lambda>(a, b). mput a b) es m) = vsum (\<lambda>b. b) m + sum_list (map snd es) - sum_list (map (\<lambda>a. the (map_of m a)) (map fst es)) \<and>
    snd ` set (fold (\<lambda>(a, b). mput a b) es m) \<subseteq> snd ` set es \<union> snd ` set m"
  using assms
proof (induction es arbitrary: m)
  case (Cons p es)
  obtain a b where p: "p = (a, b)" by (cases p)
  from Cons.prems(3) p obtain c where c: "map_of m a = Some c" by (auto simp: map_of_eq_None_iff dest: weak_map_of_SomeI)
  let ?m = "mput a b m"
  have wf: "wf_map ?m" using Cons.prems(1) by (rule wf_mput)
  have keys: "fst ` set es \<subseteq> fst ` set ?m" using Cons.prems(3) by (auto simp: dom_map_of_conv_image_fst [symmetric])
  have same: "map (\<lambda>x. the (map_of ?m x)) (map fst es) = map (\<lambda>x. the (map_of m x)) (map fst es)"
    using Cons.prems(2) p by (intro map_cong) auto
  have sub: "snd ` set ?m \<subseteq> insert b (snd ` set m)" using mput_subset [of a b m] by auto
  have v: "vsum (\<lambda>b. b) ?m = vsum (\<lambda>b. b) m + b - c" using Cons.prems(1) c by (simp add: vsum_mput)
  have d: "distinct (map fst es)" using Cons.prems(2) by simp
  note ih = Cons.IH [OF wf d keys, unfolded same v]
  have f: "fold (\<lambda>(a, b). mput a b) (p # es) m = fold (\<lambda>(a, b). mput a b) es ?m" by (simp add: p)
  show ?case unfolding f
  proof (intro conjI)
    show "wf_map (fold (\<lambda>(a, b). mput a b) es ?m)" using ih by blast
    show "snd ` set (fold (\<lambda>(a, b). mput a b) es ?m) \<subseteq> snd ` set (p # es) \<union> snd ` set m"
      using ih [THEN conjunct2, THEN conjunct2] sub p by (simp only: set_simps image_insert snd_conv) blast
    show "vsum (\<lambda>b. b) (fold (\<lambda>(a, b). mput a b) es ?m) = vsum (\<lambda>b. b) m + sum_list (map snd (p # es)) -
        sum_list (map (\<lambda>a. the (map_of m a)) (map fst (p # es)))" using ih by (simp add: p c)
  qed
qed simp

lemma rebalance_books:
  assumes "pools_ok w"
  shows "pools_ok (RebalancePoolsEqual w) \<and> pool_value (RebalancePoolsEqual w) = pool_value w"
proof -
  have a: "pools_ok (absorbUnallocated w) \<and> pool_value (absorbUnallocated w) = pool_value w"
  proof (cases "richest (lw_PoolLiquidity w)")
    case (Some p)
    obtain k b where p: "p = (k, b)" by (cases p)
    have wf: "wf_map (lw_PoolLiquidity w)" using assms by (simp add: pools_ok_def)
    have mem: "(k, b) \<in> set (lw_PoolLiquidity w)" using richest_mem Some p by blast
    then have m: "map_of (lw_PoolLiquidity w) k = Some b" using wf by (simp add: map_of_is_SomeI)
    let ?m = "mput k (b + lw_Unallocated w) (lw_PoolLiquidity w)"
    have nn: "\<forall>x \<in> snd ` set (lw_PoolLiquidity w). 0 \<le> x" "0 \<le> lw_Unallocated w" "0 \<le> b"
      using assms mem by (force simp: pools_ok_def)+
    then have "0 \<le> b + lw_Unallocated w" by simp
    note pm = pools_mput [OF wf nn(1) this, of k]
    show ?thesis using assms wf m Some p pm
      by (simp add: absorbUnallocated_def pools_ok_def pool_value_def vsum_mput)
  qed (simp add: absorbUnallocated_def assms)
  let ?w = "absorbUnallocated w" let ?m = "lw_PoolLiquidity ?w" let ?es = "sort_key snd ?m"
  let ?bs = "balanceLoop (poolTarget ?m) 0 (length ?es - 1) ?es"
  let ?m' = "fold (\<lambda>(a, b). mput a b) ?bs ?m"
  have ok: "wf_map ?m" "\<forall>p \<in> set ?m. 0 \<le> snd p" using a by (auto simp: pools_ok_def)
  have t: "0 \<le> poolTarget ?m" using vsum_pos [of ?m] ok(2) by (simp add: poolTarget_def div_int_pos_iff)
  have b: "map fst ?bs = map fst ?es" "sum_list (map snd ?bs) = sum_list (map snd ?es)" "\<forall>p \<in> set ?bs. 0 \<le> snd p"
    using balanceLoop_books [OF t, of ?es] ok(2) by simp_all
  have "mset (map fst ?es) = mset (map fst ?m)" by simp
  then have d: "distinct (map fst ?bs)" unfolding b(1) using ok(1) by (metis mset_eq_imp_distinct_iff)
  have keys: "fst ` set ?bs \<subseteq> fst ` set ?m" using arg_cong [OF b(1), of set] by simp
  have "mset (map snd ?es) = mset (map snd ?m)" by simp
  then have s: "sum_list (map snd ?es) = vsum (\<lambda>b. b) ?m" unfolding vsum_list comp_def by (metis sum_mset_sum_list)
  have "mset (map (\<lambda>a. the (map_of ?m a)) (map fst ?es)) = mset (map (\<lambda>a. the (map_of ?m a)) (map fst ?m))" by simp
  also have "map (\<lambda>a. the (map_of ?m a)) (map fst ?m) = map snd ?m" using ok(1) by (auto simp: map_of_is_SomeI)
  finally have o: "sum_list (map (\<lambda>a. the (map_of ?m a)) (map fst ?es)) = vsum (\<lambda>b. b) ?m"
    unfolding vsum_list comp_def by (metis sum_mset_sum_list)
  note pa = putAll [OF ok(1) d keys, unfolded b(1,2) s o]
  have "pools_ok (?w\<lparr>lw_PoolLiquidity := ?m'\<rparr>) \<and> pool_value (?w\<lparr>lw_PoolLiquidity := ?m'\<rparr>) = pool_value w"
  proof -
    have "0 \<le> x" if "x \<in> snd ` set ?m'" for x
    proof -
      from that pa have "x \<in> snd ` set ?bs \<union> snd ` set ?m" by blast
      with b(3) ok(2) show ?thesis by auto
    qed
    then have "pools_ok (?w\<lparr>lw_PoolLiquidity := ?m'\<rparr>)" using pa a by (simp add: pools_ok_def)
    moreover have "pool_value (?w\<lparr>lw_PoolLiquidity := ?m'\<rparr>) = pool_value ?w" using pa by (simp add: pool_value_def)
    ultimately show ?thesis using a by simp
  qed
  with a assms show ?thesis by (simp add: RebalancePoolsEqual_def Let_def)
qed

subsection \<open>Taking out of the pools\<close>

lemma richest_max: "richest m = Some (a, b) \<Longrightarrow> p \<in> set m \<Longrightarrow> snd p \<le> b"
proof (induction m arbitrary: a b)
  case (Cons q m)
  show ?case
  proof (cases "richest m")
    case None
    then have "m = []" by (cases m rule: richest.cases) (auto split: option.splits if_splits)
    with Cons.prems show ?thesis by (cases q) simp
  next
    case (Some r)
    obtain a' b' where r: "r = (a', b')" by (cases r)
    with Cons.IH [of a' b'] Some Cons.prems show ?thesis by (cases q) (auto split: if_splits)
  qed
qed simp

lemma richest_None: "richest m = None \<longleftrightarrow> m = []"
  by (induction m rule: richest.induct) (auto split: option.splits)

lemma reduceLoop_books:
  assumes "wf_map m" "\<forall>b \<in> snd ` set m. 0 \<le> b" "0 \<le> r" "nonempty_pools m \<le> n"
  shows "wf_map (reduceLoop n r m) \<and> (\<forall>b \<in> snd ` set (reduceLoop n r m). 0 \<le> b) \<and>
    vsum (\<lambda>b. b) (reduceLoop n r m) = vsum (\<lambda>b. b) m - min r (vsum (\<lambda>b. b) m)"
  using assms
proof (induction n arbitrary: r m)
  case 0
  then have "\<forall>p \<in> set m. snd p = 0" by (auto simp: nonempty_pools_def filter_empty_conv)
  then have "vsum (\<lambda>b. b) m = 0" by (rule vsum_zero)
  with 0 show ?case by simp
next
  case (Suc n)
  have nn: "0 \<le> vsum (\<lambda>b. b) m" using Suc.prems(2) by (rule vsum_pos)
  show ?case
  proof (cases "r = 0 \<or> m = []")
    case True
    then show ?thesis using Suc.prems(1-3) nn by (auto simp: richest_None)
  next
    case False
    then obtain a b where ab: "richest m = Some (a, b)" by (cases "richest m") (auto simp: richest_None)
    have mem: "(a, b) \<in> set m" by (rule richest_mem [OF ab])
    then have m: "map_of m a = Some b" "0 \<le> b" using Suc.prems(1,2) by (auto simp: map_of_is_SomeI)
    have v: "vsum (\<lambda>b. b) (mput a c m) = vsum (\<lambda>b. b) m + c - b" for c using Suc.prems(1) m by (simp add: vsum_mput)
    have le: "b \<le> vsum (\<lambda>b. b) m"
    proof -
      have "0 \<le> vsum (\<lambda>b. b) (mput a 0 m)" by (rule vsum_pos [OF pools_mput(2) [OF Suc.prems(1,2)]]) simp
      then show ?thesis by (simp add: v)
    qed
    consider (empty) "b = 0" | (drain) "b \<noteq> 0" "b \<le> r" | (cut) "r < b" using m(2) Suc.prems(3) by linarith
    then show ?thesis
    proof cases
      case empty
      then have "\<forall>p \<in> set m. snd p = 0" using richest_max [OF ab] Suc.prems(2) by fastforce
      then have "vsum (\<lambda>b. b) m = 0" by (rule vsum_zero)
      with empty ab False Suc.prems show ?thesis by simp
    next
      case drain
      have "nonempty_pools (mput a 0 m) \<le> n" using zeroed_shorter [OF Suc.prems(1) mem drain(1)] Suc.prems(4) by simp
      from Suc.IH [OF pools_mput [OF Suc.prems(1,2)] _ this, of "r - b"] drain(2)
      have "wf_map (reduceLoop n (r - b) (mput a 0 m)) \<and> (\<forall>b \<in> snd ` set (reduceLoop n (r - b) (mput a 0 m)). 0 \<le> b) \<and>
        vsum (\<lambda>b. b) (reduceLoop n (r - b) (mput a 0 m)) = vsum (\<lambda>b. b) m - b - min (r - b) (vsum (\<lambda>b. b) m - b)" by (simp add: v)
      then show ?thesis using ab drain False Suc.prems(3) by auto
    next
      case cut
      then show ?thesis using ab False Suc.prems(3) pools_mput [OF Suc.prems(1,2), of "b - r" a] le by (simp add: v)
    qed
  qed
qed


subsection \<open>What every operation does to the pools and the stakes\<close>

text \<open>The pools and the unallocated part grow by what the stakes grow by, plus \<open>u\<close>.\<close>

definition pools_follow :: "int \<Rightarrow> liq_world \<Rightarrow> liq_world \<Rightarrow> bool" where
  "pools_follow u w w' \<longleftrightarrow> pools_ok w' \<and> pool_value w' - pool_value w = staked w' - staked w + u"

lemma pools_follow_trans: "pools_follow u w v \<Longrightarrow> pools_follow x v v' \<Longrightarrow> pools_follow (u + x) w v'"
  by (simp add: pools_follow_def)

lemma pools_follow_same:
  "lw_PoolLiquidity w' = lw_PoolLiquidity w \<Longrightarrow> lw_Unallocated w' = lw_Unallocated w \<Longrightarrow> staked w' = staked w \<Longrightarrow>
   pools_ok w \<Longrightarrow> pools_follow 0 w w'"
  by (simp add: pools_follow_def pools_ok_def pool_value_def)

lemma pool_fields [simp]:
  "lw_PoolLiquidity (submit tx w) = lw_PoolLiquidity w" "lw_Unallocated (submit tx w) = lw_Unallocated w"
  "lw_PoolLiquidity (credit a d w) = lw_PoolLiquidity w" "lw_Unallocated (credit a d w) = lw_Unallocated w"
  "lw_PoolLiquidity (debit a d w) = lw_PoolLiquidity w" "lw_Unallocated (debit a d w) = lw_Unallocated w"
  "lw_PoolLiquidity (putProvider k lp w) = lw_PoolLiquidity w" "lw_Unallocated (putProvider k lp w) = lw_Unallocated w"
  "lw_PoolLiquidity (reduceTotal d w) = lw_PoolLiquidity w" "lw_Unallocated (reduceTotal d w) = lw_Unallocated w"
  "lw_PoolLiquidity (RecordRewardClaim now a d h src w) = lw_PoolLiquidity w"
  "lw_Unallocated (RecordRewardClaim now a d h src w) = lw_Unallocated w"
  "lw_PoolLiquidity (recalculateTotalLiquidityLocked w) = lw_PoolLiquidity w"
  "lw_Unallocated (recalculateTotalLiquidityLocked w) = lw_Unallocated w"
  "lw_Providers (recalculateTotalLiquidityLocked w) = lw_Providers w" "lw_Providers (reduceTotal d w) = lw_Providers w"
  by (simp_all add: submit_def credit_def debit_def putProvider_def reduceTotal_def RecordRewardClaim_def
      recalculateTotalLiquidityLocked_def Let_def split: option.split)

lemma staked_put:
  "wf_map (lw_Providers w) \<Longrightarrow> vsum lp_StakeAmount (mput k lp (lw_Providers w)) =
    staked w + lp_StakeAmount lp - (case map_of (lw_Providers w) k of None \<Rightarrow> 0 | Some lp' \<Rightarrow> lp_StakeAmount lp')"
  by (simp add: staked_def vsum_mput)

lemma lock_pools:
  assumes "pools_ok w"
  shows "pools_follow 0 w (fst (LockLiquidity now a amount d w))" "pools_follow 0 w (fst (UnlockLiquidity now a w))"
    "pools_follow 0 w (fst (UnlockAvailable now a w))"
  by (rule pools_follow_same; simp add: LockLiquidity_def UnlockLiquidity_def UnlockAvailable_def staked_def Let_def assms)+

lemma ProvideLiquidity_pools:
  assumes "pools_ok w" "wf_map (lw_Providers w)"
  shows "pools_follow 0 w (fst (ProvideLiquidity C E now a amount days w))"
proof (cases "fst (ProvideLiquidity C E now a amount days w) = w")
  case True
  with assms(1) show ?thesis by (simp add: pools_follow_def)
next
  case False
  then have g: "0 < amount" "fst (ProvideLiquidity C E now a amount days w) = addLiquidityUnallocated amount
      (submit (NewSystemTx C E (of_int (now div nanos)) ''stake'' a LiquidityPoolAddress amount)
        (putProvider a (stakeMore now amount days (case map_of (lw_Providers w) a of None \<Rightarrow> NewProvider a (Fin 0) | Some lp \<Rightarrow> lp)) (debit a amount w)))"
    by (auto simp: ProvideLiquidity_def Let_def split: if_splits)
  show ?thesis unfolding g(2) using assms g(1)
    by (simp add: pools_follow_def pools_ok_def pool_value_def addLiquidityUnallocated_def)
      (simp add: staked_def vsum_mput stakeMore_def NewProvider_def submit_def Let_def split: option.split)
qed

lemma payRewards_pools:
  assumes "pools_ok w" "wf_map (lw_Providers w)" "map_of (lw_Providers w) k = Some lp"
  shows "pools_follow 0 w (payRewards C E now src k lp w)"
  by (rule pools_follow_same) (use assms in \<open>simp_all add: payRewards_def Let_def staked_def vsum_mput\<close>)

lemma claim_pools:
  assumes "pools_ok w" "wf_map (lw_Providers w)" "\<And>owner wt. dex a = Some (owner, wt) \<Longrightarrow> equal_fold owner a"
  shows "pools_follow 0 w (fst (ClaimLPRewards C E dex now a w))"
proof (cases "providerKey (lw_Providers w) a")
  case None
  then have free: "map_of (lw_Providers w) owner = None" if "equal_fold owner a" for owner
    using that by (auto simp: providerKey_def find_None_iff map_of_eq_None_iff split: if_splits)
  show ?thesis
  proof (cases "dex a")
    case (Some x)
    obtain owner wt where x: "x = (owner, wt)" by (cases x)
    with Some assms(3) free have "map_of (lw_Providers w) owner = None" by blast
    with assms(1,2) have "pools_follow 0 w (putProvider owner (NewProvider owner wt) w)"
      by (intro pools_follow_same) (simp_all add: staked_def vsum_mput NewProvider_def)
    with None Some x show ?thesis by (simp add: ClaimLPRewards_def)
  qed (use None assms(1) in \<open>simp add: ClaimLPRewards_def pools_follow_def\<close>)
next
  case (Some k)
  have "pools_follow 0 w (fst (claimAt C E now k w))"
    using assms(1) payRewards_pools [OF assms(1,2)]
    by (auto simp: claimAt_def pools_follow_def split: option.split)
  with Some show ?thesis by (simp add: ClaimLPRewards_def)
qed

lemma reducePool_books:
  assumes "pools_ok w" "0 \<le> r"
  shows "pools_ok (reducePoolLiquidity r w)" "pool_value (reducePoolLiquidity r w) = pool_value w - min r (vsum (\<lambda>b. b) (lw_PoolLiquidity w))"
proof -
  have "nonempty_pools (lw_PoolLiquidity w) \<le> length (lw_PoolLiquidity w)" by (simp add: nonempty_pools_def)
  with reduceLoop_books [of "lw_PoolLiquidity w" r] assms
  have b: "wf_map (lw_PoolLiquidity (reducePoolLiquidity r w)) \<and> (\<forall>b \<in> snd ` set (lw_PoolLiquidity (reducePoolLiquidity r w)). 0 \<le> b) \<and>
    vsum (\<lambda>b. b) (lw_PoolLiquidity (reducePoolLiquidity r w)) = vsum (\<lambda>b. b) (lw_PoolLiquidity w) - min r (vsum (\<lambda>b. b) (lw_PoolLiquidity w))"
    by (simp add: reducePoolLiquidity_def pools_ok_def)
  have u: "lw_Unallocated (reducePoolLiquidity r w) = lw_Unallocated w" by (simp add: reducePoolLiquidity_def)
  from b u assms(1) show "pools_ok (reducePoolLiquidity r w)" by (simp add: pools_ok_def)
  from b u show "pool_value (reducePoolLiquidity r w) = pool_value w - min r (vsum (\<lambda>b. b) (lw_PoolLiquidity w))"
    by (simp add: pool_value_def)
qed

lemma StartUnstake_pools:
  assumes "pools_ok w" "liq_ok w"
  shows "pools_follow (uncovered now a w) w (fst (StartUnstake C E now a w))"
proof (cases "map_of (lw_Providers w) a")
  case (Some lp0)
  show ?thesis
  proof (cases "now div nanos < lp_LockTime lp0 \<or> lp_IsUnstaking lp0")
    case False
    have wf: "wf_map (lw_Providers w)" and st: "0 \<le> lp_StakeAmount lp0" using assms(2) Some by (auto simp: liq_ok_def provider_ok_def)
    let ?w1 = "if 0 < lp_PendingRewards lp0 then payRewards C E now ''unstake_auto_claim'' a lp0 w else w"
    let ?lp1 = "if 0 < lp_PendingRewards lp0 then lp0\<lparr>lp_PendingRewards := 0\<rparr> else lp0"
    let ?lp = "?lp1\<lparr>lp_IsUnstaking := True, lp_UnstakeStartTime := now div nanos, lp_UnstakeAmount := lp_StakeAmount ?lp1,
      lp_ReleasedSoFar := 0, lp_LiquidityPower := Fin 0, lp_StakeAmount := 0\<rparr>"
    have p1: "pools_follow 0 w ?w1" using payRewards_pools [OF assms(1) wf Some] assms(1) by (simp add: pools_follow_def)
    have pl: "lw_PoolLiquidity ?w1 = lw_PoolLiquidity w" "lw_Unallocated ?w1 = lw_Unallocated w"
      and pr: "lw_Providers ?w1 = (if 0 < lp_PendingRewards lp0 then mput a ?lp1 (lw_Providers w) else lw_Providers w)"
      by (simp_all add: payRewards_def Let_def)
    have m: "map_of (lw_Providers ?w1) a = Some ?lp1" "wf_map (lw_Providers ?w1)" using Some wf unfolding pr by (simp_all add: wf_mput del: map_of_eq_Some_iff)
    have s1: "staked ?w1 = staked w" using p1 by (simp add: pools_follow_def pool_value_def pl)
    let ?w2 = "putProvider a ?lp ?w1"
    have s2: "staked ?w2 = staked w - lp_StakeAmount lp0"
      using staked_put [OF m(2), of a ?lp] m(1) s1 by (simp add: staked_def)
    have ok2: "pools_ok ?w2" "pool_value ?w2 = pool_value w" using assms(1) by (simp_all add: pools_ok_def pool_value_def pl)
    note r = reducePool_books [OF ok2(1) st]
    let ?w3 = "reducePoolLiquidity (lp_StakeAmount lp0) ?w2"
    have e: "fst (StartUnstake C E now a w) = submit (NewSystemTx C E (of_int (now div nanos)) ''unstake'' a LiquidityPoolAddress (lp_StakeAmount lp0)) ?w3"
      using Some False by (simp add: StartUnstake_def Let_def)
    have f: "pools_ok (submit tx v) = pools_ok v" "pool_value (submit tx v) = pool_value v" "staked (submit tx v) = staked v" for tx v
      by (simp_all add: pools_ok_def pool_value_def staked_def submit_def)
    have s3: "staked ?w3 = staked ?w2" by (simp add: staked_def reducePoolLiquidity_def)
    have "uncovered now a w = max 0 (lp_StakeAmount lp0 - vsum (\<lambda>b. b) (lw_PoolLiquidity w))" using Some False by (simp add: uncovered_def)
    then show ?thesis
      unfolding e pools_follow_def f s3 s2 r(2) ok2(2) using r(1) by (simp add: pl min_def max_def)
  qed (use assms(1) Some in \<open>auto simp: StartUnstake_def pools_follow_def uncovered_def\<close>)
qed (use assms(1) in \<open>simp add: StartUnstake_def pools_follow_def uncovered_def\<close>)

lemma releaseOne_pools:
  assumes "pools_ok w" "wf_map (lw_Providers w)"
  shows "pools_follow 0 w (releaseOne C E now k w) \<and> wf_map (lw_Providers (releaseOne C E now k w))"
  using assms by (auto simp: releaseOne_def Let_def staked_def vsum_mput wf_mput pools_follow_def pools_ok_def pool_value_def split: option.split)

lemma release_pools:
  "pools_ok w \<Longrightarrow> wf_map (lw_Providers w) \<Longrightarrow> pools_follow 0 w (fold (releaseOne C E now) ks w)"
proof (induction ks arbitrary: w)
  case (Cons k ks)
  note r = releaseOne_pools [OF Cons.prems, of C E now k]
  have "pools_ok (releaseOne C E now k w)" using r by (simp add: pools_follow_def)
  from Cons.IH [OF this] r pools_follow_trans [of 0 w] show ?case by fastforce
qed (simp add: pools_follow_def)

lemma register_pools:
  assumes "pools_ok w"
  shows "pools_follow 0 w (RegisterPool a w)"
proof (cases "a = [] \<or> map_of (lw_PoolLiquidity w) a \<noteq> None")
  case False
  from assms have ok: "wf_map (lw_PoolLiquidity w)" "\<forall>b \<in> snd ` set (lw_PoolLiquidity w). 0 \<le> b" by (simp_all add: pools_ok_def)
  from False assms pools_mput [OF ok, of 0 a] vsum_mput [OF ok(1), of "\<lambda>b. b" a 0] show ?thesis
    by (simp add: RegisterPool_def pools_follow_def pools_ok_def pool_value_def staked_def)
qed (use assms in \<open>auto simp: RegisterPool_def pools_follow_def\<close>)

lemma rebalance_keeps [simp]:
  "lw_Accounts (RebalancePoolsEqual w) = lw_Accounts w" "lw_Providers (RebalancePoolsEqual w) = lw_Providers w"
  "lw_Locks (RebalancePoolsEqual w) = lw_Locks w" "lw_Accounts (RegisterPool a w) = lw_Accounts w"
  "lw_Providers (RegisterPool a w) = lw_Providers w" "lw_Locks (RegisterPool a w) = lw_Locks w"
  by (simp_all add: RebalancePoolsEqual_def absorbUnallocated_def RegisterPool_def Let_def split: option.split)

lemma liq_step_holds: "liq_step C E u w w' \<Longrightarrow> holds T w \<Longrightarrow> holds T w'"
proof (induction rule: liq_step.induct)
  case (register w a)
  then show ?case by (simp add: holds_cong [of "RegisterPool a w" w])
next
  case (rebalance w)
  then show ?case by (simp add: holds_cong [of "RebalancePoolsEqual w" w])
qed (auto simp: ProcessUnstakeReleases_def intro: LockLiquidity_holds UnlockLiquidity_holds UnlockAvailable_holds
  ProvideLiquidity_holds ClaimLPRewards_holds StartUnstake_holds release_holds)

lemma liq_step_pools: "liq_step C E u w w' \<Longrightarrow> liq_ok w \<Longrightarrow> pools_ok w \<Longrightarrow> pools_follow u w w'"
proof (induction rule: liq_step.induct)
  case (rebalance w)
  then show ?case using rebalance_books [of w] by (simp add: pools_follow_def staked_def)
next
  case (claim a dex w now)
  then show ?case by (intro claim_pools) (auto simp: liq_ok_def)
qed (auto simp: ProcessUnstakeReleases_def liq_ok_def intro: lock_pools ProvideLiquidity_pools StartUnstake_pools release_pools register_pools)

text \<open>C37: Conservation. Balances, stakes, pending rewards, the part of leaving stakes not yet released and locked amounts have one
  constant sum under every sequence of locks of positive amounts, unlocks, stakes, claims, exits and releases on behalf of valid addresses, registrations of pools and
  rebalancings; no balance, stake or reward becomes negative, no position releases more than its stake, and account keys stay canonical. The pools and the unallocated
  part never become negative; together they grow by exactly what the stakes grow by, plus what leaving stakes did not find in the pools:
  rebalancing and registration create and destroy nothing.\<close>

theorem liquidity_conserves:
  assumes "liq_reach C E w u w'" "liq_ok w" "pools_ok w"
  shows "total_value w' = total_value w \<and> liq_ok w' \<and> pools_ok w' \<and> pool_value w' - pool_value w = staked w' - staked w + u"
proof -
  have "holds (total_value w) w' \<and> pools_follow u w w'"
    using assms(1)
  proof induction
    case start
    show ?case using assms(2,3) by (simp add: holds_def pools_follow_def)
  next
    case (step u v x v')
    then have "liq_ok v" "pools_ok v" by (simp_all add: holds_def pools_follow_def)
    with step show ?case using liq_step_pools pools_follow_trans liq_step_holds by blast
  qed
  then show ?thesis by (simp add: holds_def pools_follow_def)
qed

text \<open>\<open>LockLiquidity\<close> itself refuses only the amount zero: a negative amount passes the balance test and is paid out to the locker.\<close>

lemma negative_lock_mints:
  assumes "amount < 0" "0 < d" "0 \<le> AccountBalanceAmount (lw_Accounts w) a"
  shows "\<exists>w'. LockLiquidity now a amount d w = (w', Inr ()) \<and>
    lw_Accounts w' = setAccountBalance a (AccountBalanceAmount (lw_Accounts w) a - amount) (lw_Accounts w)"
  using assms by (simp add: LockLiquidity_def Let_def recalculateTotalLiquidityLocked_def)

text \<open>A stake that leaves before the next rebalancing is not taken out of the unallocated part, where it was put: it stays there, uncovered.\<close>

lemma unallocated_stays:
  "lw_Unallocated (fst (StartUnstake C E now a w)) = lw_Unallocated w"
  by (auto simp: StartUnstake_def payRewards_def reducePoolLiquidity_def Let_def split: option.split)

text \<open>Nothing ends the state of leaving: a position that has left once can be given new stake but never leaves again.\<close>

lemma unstaking_is_final:
  assumes "map_of (lw_Providers w) k = Some lp" "lp_IsUnstaking lp"
  shows "\<exists>e. StartUnstake C E now k w = (w, Inl e)"
    "\<exists>lp'. map_of (lw_Providers (fst (ProvideLiquidity C E now k amount days w))) k = Some lp' \<and> lp_IsUnstaking lp'"
  using assms by (auto simp: StartUnstake_def ProvideLiquidity_def Let_def stakeMore_def submit_def addLiquidityUnallocated_def)

section \<open>A concrete position\<close>

definition demo_owner :: string where "demo_owner = ''0x'' @ replicate 40 (CHR ''a'')"

definition demo_position :: LiquidityProvider where
  "demo_position = (NewProvider demo_owner (Fin 0))\<lparr>lp_IsUnstaking := True, lp_UnstakeAmount := 1000\<rparr>"

definition demo_liq :: liq_world where
  "demo_liq = \<lparr>lw_Accounts = [], lw_Providers = [(demo_owner, demo_position)], lw_Locks = [], lw_TotalLiquidity = 0, lw_PoolLiquidity = [],
     lw_Unallocated = 0, lw_MinLiquidityStake = None, lw_TxPool = [], lw_Ledger = [], lw_Cumulative = None, lw_Policy = DefaultEconomicPolicy, lw_LatestBlock = 0,
     lw_Validators = []\<rparr>"

lemma demo_owner_ok: "trim_space demo_owner = demo_owner" "ValidateAddress demo_owner" "same_account demo_owner demo_owner"
proof -
  show t: "trim_space demo_owner = demo_owner"
    by (rule trim_space_none) (auto simp: demo_owner_def is_space_def)
  show "ValidateAddress demo_owner" by (simp add: ValidateAddress_def demo_owner_def has_prefix_def)
  show "same_account demo_owner demo_owner" by (simp add: same_account_def t) (simp add: demo_owner_def)
qed

lemma demo_liq_ok: "liq_ok demo_liq"
  by (simp add: liq_ok_def demo_liq_def canonical_def nonneg_accounts_def provider_ok_def demo_position_def NewProvider_def demo_owner_ok)

lemma unstake_vests_witness:
  "\<forall>C E. AccountBalanceAmount (lw_Accounts (ProcessUnstakeReleases C E (864000 * 10 ^ 9) demo_liq)) demo_owner = 100 \<and>
   (\<exists>lp. map_of (lw_Providers (ProcessUnstakeReleases C E (864000 * 10 ^ 9) demo_liq)) demo_owner = Some lp \<and> lp_ReleasedSoFar lp = 100)"
  (is "\<forall>C E. ?P C E")
proof (intro allI)
  fix C :: crypto and E :: tx_env
  have p: "map_of (lw_Providers demo_liq) demo_owner = Some demo_position" by (simp add: demo_liq_def)
  have "due (864000 * 10 ^ 9) demo_position = 100" "lp_ReleasedSoFar (vested (864000 * 10 ^ 9) demo_position) = 100"
    by (simp_all add: due_def vested_def demo_position_def NewProvider_def releasable_def nanos_def)
  moreover have "dueTo (864000 * 10 ^ 9) demo_liq demo_owner (keys_of (lw_Providers demo_liq)) = due (864000 * 10 ^ 9) demo_position"
    by (simp add: dueTo_def demo_liq_def demo_position_def NewProvider_def demo_owner_ok)
  moreover have "AccountBalanceAmount (lw_Accounts demo_liq) demo_owner = 0" by (simp add: demo_liq_def AccountBalanceAmount_def Let_def)
  ultimately show "?P C E" using unstake_vests [OF demo_liq_ok p, of C E "864000 * 10 ^ 9" demo_owner] by simp
qed

definition demo_pools :: liq_world where
  "demo_pools = demo_liq\<lparr>lw_PoolLiquidity := [(''p'', 10), (''q'', 50)], lw_Unallocated := 7\<rparr>"

lemma demo_rebalanced: "lw_PoolLiquidity (RebalancePoolsEqual demo_pools) = [(''p'', 33), (''q'', 34)]"
  "lw_Unallocated (RebalancePoolsEqual demo_pools) = 0"
  by code_simp+

lemma liquidity_conserves_witness:
  "\<forall>C E. (let w' = RebalancePoolsEqual (ProcessUnstakeReleases C E (864000 * 10 ^ 9) demo_pools) in
     total_value w' = 1000 \<and> pool_value w' = 67 + staked w' - staked demo_pools)"
proof (intro allI)
  fix C :: crypto and E :: tx_env
  let ?v = "ProcessUnstakeReleases C E (864000 * 10 ^ 9) demo_pools"
  have "liq_reach C E demo_pools (0 + 0 + 0) (RebalancePoolsEqual ?v)"
    by (rule liq_reach.step [OF liq_reach.step [OF liq_reach.start]]) (rule liq_step.intros)+
  moreover have "total_value demo_pools = 1000" "pool_value demo_pools = 67"
    by (simp_all add: total_value_def demo_pools_def demo_liq_def demo_position_def NewProvider_def holding_def pool_value_def)
  moreover have "pools_ok demo_pools" by (simp add: pools_ok_def demo_pools_def)
  moreover have "liq_ok demo_pools" using demo_liq_ok by (simp add: demo_pools_def liq_ok_def)
  ultimately show "let w' = RebalancePoolsEqual ?v in total_value w' = 1000 \<and> pool_value w' = 67 + staked w' - staked demo_pools"
    using liquidity_conserves [of C E demo_pools "0 + 0 + 0" "RebalancePoolsEqual ?v"] by (simp add: Let_def)
qed

end
