(* ===== verification/RewardsTheorems.thy ===== *)
theory RewardsTheorems
  imports Rewards LiquidityTheorems
begin

text \<open>
  The emission schedule is the sum of the rewards of its blocks, and a block never hands out more than its emission and its fees, in
  spite of the floating-point weights.
\<close>

section \<open>The schedule\<close>

definition emission :: "nat \<Rightarrow> int" where
  "emission n = EmissionReward (of_nat n)"

lemma EmissionReward_cong: "a div BlocksPerHalving = b div BlocksPerHalving \<Longrightarrow> EmissionReward a = EmissionReward b"
  by (simp add: EmissionReward_def)

lemma unat_small: "n < 2 ^ 64 \<Longrightarrow> unat (of_nat n :: u64) = n"
  by (simp add: unat_of_nat take_bit_nat_eq_self)

lemma emission_epoch:
  assumes "n div 63115200 = unat s div 63115200" "n < 2 ^ 64"
  shows "emission n = EmissionReward s"
  unfolding emission_def
  by (rule EmissionReward_cong) (use assms in \<open>simp add: word_unat_eq_iff unat_div unat_small BlocksPerHalving_def\<close>)

lemma epoch_end:
  assumes "unat s < 2 ^ 62"
  shows "unat ((s div BlocksPerHalving + 1) * BlocksPerHalving) = (unat s div 63115200 + 1) * 63115200"
proof -
  have "unat s div 63115200 * 63115200 \<le> unat s" by simp
  then have "(unat s div 63115200 + 1) * 63115200 < 2 ^ 63" using assms by simp
  then show ?thesis by (simp add: unat_word_ariths unat_div BlocksPerHalving_def)
qed

lemma scheduled_sum:
  assumes "unat height < 2 ^ 62"
  shows "scheduledFrom height start tot = tot + (\<Sum>n \<in> {unat start ..< unat height + 1}. emission n)"
  using assms
proof (induction height start tot rule: scheduledFrom.induct)
  case (1 height start tot)
  let ?B = "63115200 :: nat"
  show ?case
  proof (cases "height < start")
    case True
    then have "{unat start ..< unat height + 1} = {}" by (simp add: word_less_nat_alt)
    with True show ?thesis by (simp add: scheduledFrom.simps [of height start])
  next
    case False
    then have le: "unat start \<le> unat height" by (simp add: word_less_nat_alt)
    define e where "e = (start div BlocksPerHalving + 1) * BlocksPerHalving"
    define stop where "stop = (if height \<noteq> - 1 \<and> height + 1 < e then height + 1 else e)"
    define t where "t = tot + EmissionReward start * uint (stop - start)"
    have e: "unat e = (unat start div ?B + 1) * ?B" unfolding e_def using le "1.prems" by (intro epoch_end) simp
    have ne: "height \<noteq> - 1"
    proof
      assume "height = - 1"
      then have "unat height = 2 ^ 64 - 1" by (simp add: unsigned_minus_1_eq_mask mask_eq_exp_minus_1)
      with "1.prems" show False by simp
    qed
    have h1: "unat (height + 1) = unat height + 1" using "1.prems" by (simp add: unat_word_ariths)
    have stop: "unat stop = min (unat height + 1) ((unat start div ?B + 1) * ?B)"
      using ne h1 e by (auto simp: stop_def word_less_nat_alt)
    have ge: "unat start < (unat start div ?B + 1) * ?B" using div_mult_mod_eq [of "unat start" ?B] mod_less_divisor [of ?B "unat start"]
      by simp
    then have lt: "unat start < unat stop" using stop le by simp
    have "start \<le> stop" using lt by (simp add: word_le_nat_alt)
    then have d: "uint (stop - start) = int (unat stop - unat start)"
      by (metis unat_sub uint_nat)
    have "emission n = EmissionReward start" if "n \<in> {unat start ..< unat stop}" for n
    proof (rule emission_epoch)
      have "unat start div ?B \<le> n div ?B" using that by (intro div_le_mono) simp
      moreover have "n div ?B < unat start div ?B + 1" using that stop by (simp add: less_mult_imp_div_less)
      ultimately show "n div ?B = unat start div ?B" by simp
      show "n < 2 ^ 64" using that stop "1.prems" by simp
    qed
    then have "(\<Sum>n \<in> {unat start ..< unat stop}. emission n) = (\<Sum>n \<in> {unat start ..< unat stop}. EmissionReward start)" by simp
    also have "\<dots> = EmissionReward start * uint (stop - start)" using d by (simp add: mult.commute)
    finally have t: "t = tot + (\<Sum>n \<in> {unat start ..< unat stop}. emission n)" by (simp add: t_def)
    have split: "(\<Sum>n \<in> {unat start ..< unat height + 1}. emission n) =
        (\<Sum>n \<in> {unat start ..< unat stop}. emission n) + (\<Sum>n \<in> {unat stop ..< unat height + 1}. emission n)"
      using lt stop by (simp add: sum.atLeastLessThan_concat)
    have step: "scheduledFrom height start tot = (if stop \<le> start \<or> height < stop then t else scheduledFrom height stop t)"
      using False by (simp add: scheduledFrom.simps [of height start] Let_def stop_def e_def t_def)
    show ?thesis
    proof (cases "height < stop")
      case True
      then have "{unat stop ..< unat height + 1} = {}" by (simp add: word_less_nat_alt)
      with True step t split show ?thesis by simp
    next
      case c: False
      have "\<not> stop \<le> start" using lt by (simp add: word_le_nat_alt)
      with c have "scheduledFrom height stop t = t + (\<Sum>n \<in> {unat stop ..< unat height + 1}. emission n)"
        using "1.IH" [OF False e_def stop_def t_def] "1.prems" by simp
      with c \<open>\<not> stop \<le> start\<close> step t split show ?thesis by simp
    qed
  qed
qed

text \<open>C40: The emission schedule. The closed computation that walks over the halving epochs is the sum of the rewards of all blocks up to the
  given height, for every height below \<open>2 ^ 62\<close>.\<close>

theorem schedule_is_sum:
  assumes "unat height < 2 ^ 62"
  shows "ScheduledEmissionThrough height = (\<Sum>n \<le> unat height. EmissionReward (of_nat n))"
proof -
  have "{..unat height} = {0 ..< unat height + 1}" by auto
  then show ?thesis using scheduled_sum [OF assms, of 0 0] by (simp add: ScheduledEmissionThrough_def emission_def [abs_def])
qed

lemma schedule_is_sum_witness: "ScheduledEmissionThrough 2 = 6000000000"
proof -
  have two: "unat (2 :: u64) = 2" by simp
  have "EmissionReward (of_nat n) = 2000000000" if "n \<in> {..2}" for n
  proof -
    have "of_nat n div BlocksPerHalving = 0 div BlocksPerHalving"
      using that by (simp add: word_unat_eq_iff unat_div unat_small BlocksPerHalving_def)
    then have "EmissionReward (of_nat n) = EmissionReward 0" by (rule EmissionReward_cong)
    then show ?thesis by (simp add: EmissionReward_def GenesisRewardSats_def BlocksPerHalving_def)
  qed
  then have "(\<Sum>n \<le> 2. EmissionReward (of_nat n)) = (\<Sum>n \<le> (2 :: nat). 2000000000)" by (intro sum.cong) simp_all
  then show ?thesis using schedule_is_sum [of 2] by (simp add: two del: unsigned_numeral)
qed

section \<open>One portion\<close>

lemma uro_pos: "0 \<le> uro" "uro \<le> 1"
  using uro_small by simp_all

lemma roundTo_le:
  assumes "0 < x" "53 \<le> p"
  shows "0 \<le> roundTo p x \<and> roundTo p x \<le> x * (1 + uro)"
proof -
  define e where "e = ilog2 x"
  define u where "u = pow2 (e - int p + 1)"
  have u: "0 < u" by (simp add: u_def)
  have r: "roundTo p x = of_int (round_even (x / u)) * u" using assms(1) by (simp add: roundTo_def Let_def u_def e_def)
  have "0 \<le> round_even (x / u)" using assms(1) u by (intro round_even_nonneg) simp
  then have nn: "0 \<le> roundTo p x" using u by (simp add: r)
  have "\<bar>of_int (round_even (x / u)) - x / u\<bar> \<le> 1 / 2" using round_even_near [of "x / u"] by simp
  then have "of_int (round_even (x / u)) \<le> x / u + 1 / 2" by linarith
  then have "of_int (round_even (x / u)) * u \<le> (x / u + 1 / 2) * u" using u by (intro mult_right_mono) simp_all
  then have le: "roundTo p x \<le> x + u / 2" using u by (simp add: r distrib_right)
  have "u = 2 * pow2 (e - int p)" using pow2_add [of "e - int p" 1] pow2_of_nat [of 1] by (simp add: u_def)
  moreover have "pow2 (e - int p) = pow2 e * pow2 (- int p)" using pow2_add [of e "- int p"] by simp
  moreover have "pow2 (- int p) \<le> uro" using assms(2) by simp
  moreover have "pow2 e \<le> x" using ilog2_bounds [OF assms(1)] by (simp add: e_def)
  ultimately have "u / 2 \<le> x * uro" by (simp add: mult_mono assms(1) less_imp_le)
  with le nn show ?thesis by (simp add: distrib_left)
qed

lemma portion_bound:
  assumes pool: "0 < pool" and p: "pow2 (- 401) \<le> p" "p \<le> pow2 450" and T: "pow2 (- 450) \<le> T" "T \<le> pow2 450"
  obtains k where "portionFromWeight pool (Fin p) (Fin T) = Some k" "0 \<le> k" "of_int k \<le> of_int pool * (p / T) * (1 + uro) ^ 2"
proof -
  have pos: "0 < p" "0 < T" using p(1) T(1) pow2_pos [of "- 401"] pow2_pos [of "- 450"] by linarith+
  have "pow2 (- 401) / pow2 450 \<le> p / T" using p T pos by (intro frac_le) simp_all
  moreover have "pow2 (- 401) / pow2 450 = pow2 (- 851)" using pow2_add [of "- 851" 450] by (simp add: field_simps)
  moreover have "pow2 (- 1022) \<le> pow2 (- 851)" by simp
  ultimately have lo: "pow2 (- 1022) \<le> p / T" by linarith
  have "p / T \<le> pow2 450 / pow2 (- 450)" using p T pos by (intro frac_le) simp_all
  moreover have "pow2 450 / pow2 (- 450) = pow2 900" using pow2_add [of 900 "- 450"] by (simp add: field_simps)
  moreover have "pow2 900 \<le> pow2 1000" by simp
  ultimately have hi: "p / T \<le> pow2 1000" by linarith
  obtain q where q: "rnd (p / T) = Fin q" "\<bar>q - p / T\<bar> \<le> p / T * uro" by (rule rnd_normal [OF lo hi])
  have "0 < q" if "\<bar>q - x\<bar> \<le> x * uro" "0 < x" for x
  proof -
    have "x * uro \<le> x * (1 / 4)" using uro_small(3) that(2) by (intro mult_left_mono) simp_all
    moreover have "x - q \<le> x * uro" using that(1) by (simp add: abs_le_iff)
    ultimately show ?thesis using that(2) by linarith
  qed
  from this [OF q(2)] have q0: "0 < q" using divide_pos_pos [OF pos] .
  have q1: "q \<le> p / T * (1 + uro)" using q(2) by (simp add: distrib_left)
  let ?x = "of_int pool * q"
  define k where "k = truncRat (roundTo (max 64 (bitLen pool)) ?x)"
  have x: "0 < ?x" using pool q0 by simp
  have r: "0 \<le> roundTo (max 64 (bitLen pool)) ?x" "roundTo (max 64 (bitLen pool)) ?x \<le> ?x * (1 + uro)"
    using roundTo_le [OF x, of "max 64 (bitLen pool)"] by simp_all
  have "of_int k \<le> roundTo (max 64 (bitLen pool)) ?x" using r(1) by (simp add: k_def truncRat_def)
  also have "\<dots> \<le> of_int pool * (p / T * (1 + uro)) * (1 + uro)"
    using r(2) q1 pool uro_pos by (meson mult_left_mono mult_right_mono of_int_0_le_iff less_imp_le order_trans add_nonneg_nonneg zero_le_one)
  finally have "of_int k \<le> of_int pool * (p / T) * (1 + uro) ^ 2" by (simp add: power2_eq_square mult_ac)
  moreover have "0 \<le> k" using r(1) by (simp add: k_def truncRat_def)
  moreover have "portionFromWeight pool (Fin p) (Fin T) = Some k"
    using pool pos q(1) by (simp add: portionFromWeight_def k_def)
  ultimately show thesis by (intro that)
qed

text \<open>All portions of a pool together.\<close>

lemma pow_ratio:
  assumes "of_nat m * uro \<le> 1 / 2"
  shows "1 \<le> (1 - uro) ^ m * (1 + 2 * of_nat m * uro)"
proof -
  have "1 - of_nat m * uro \<le> (1 - uro) ^ m" by (rule one_minus_power [OF uro_pos])
  moreover have "0 \<le> of_nat m * uro" using uro_pos by simp
  ultimately have "(1 - of_nat m * uro) * (1 + 2 * of_nat m * uro) \<le> (1 - uro) ^ m * (1 + 2 * of_nat m * uro)"
    by (intro mult_right_mono) (simp_all add: mult.assoc)
  moreover have "1 \<le> (1 - d) * (1 + 2 * d)" if "0 \<le> d" "d \<le> 1 / 2" for d :: rat
  proof -
    have "d * d \<le> d * (1 / 2)" using that by (intro mult_left_mono) simp_all
    then show ?thesis by (simp add: algebra_simps)
  qed
  from this [of "of_nat m * uro"] assms uro_pos have "1 \<le> (1 - of_nat m * uro) * (1 + 2 * of_nat m * uro)"
    by (simp add: mult.assoc)
  ultimately show ?thesis by linarith
qed

lemma plus_minus_pow: "(1 + uro) ^ m * (1 - uro) ^ m \<le> 1"
proof -
  have "(1 + uro) ^ m * (1 - uro) ^ m = ((1 + uro) * (1 - uro)) ^ m" by (simp add: power_mult_distrib)
  also have "\<dots> \<le> 1" using uro_pos by (intro power_le_one) (simp_all add: algebra_simps mult_le_one)
  finally show ?thesis .
qed

text \<open>The weights may exceed the total by the rounding of \<open>n\<close> additions on either side.\<close>

lemma portions_fit:
  assumes S: "0 < S" and P: "P \<le> (1 + uro) ^ n * S" and T: "(1 - uro) ^ n * S \<le> T" "0 < T" and pool: "0 \<le> pool"
    and fit: "pool * (8 * int n + 8) < 2 ^ 53" and sum: "of_int k \<le> of_int pool * (P / T) * (1 + uro) ^ 2" and n: "n \<le> 2 ^ 40"
  shows "k \<le> pool"
proof (cases "pool = 0")
  case False
  define m where "m = 2 * n + 2"
  have u: "0 < uro" by (rule uro_small)
  have mn: "of_nat m * uro \<le> (1 :: rat) / 2"
  proof -
    have "m \<le> 2 ^ 42" using n by (simp add: m_def)
    then have "(of_nat m :: rat) \<le> 2 ^ 42" by (metis of_nat_le_iff of_nat_numeral of_nat_power)
    then have "of_nat m * uro \<le> 2 ^ 42 * (1 / 2 ^ 52)" using uro_small by (intro mult_mono) simp_all
    then show ?thesis by simp
  qed
  have a: "0 < (1 - uro) ^ n" "0 < (1 - uro) ^ (n + 2)" using uro_small by simp_all
  have "P / T \<le> ((1 + uro) ^ n * S) / ((1 - uro) ^ n * S)"
    using P T a S u by (intro frac_le) simp_all
  also have "\<dots> = (1 + uro) ^ n / (1 - uro) ^ n" using S by simp
  finally have "P / T * (1 + uro) ^ 2 \<le> (1 + uro) ^ n / (1 - uro) ^ n * (1 + uro) ^ 2" using u by (intro mult_right_mono) simp_all
  also have "\<dots> = (1 + uro) ^ (n + 2) / (1 - uro) ^ n" by (simp add: power_add power2_eq_square)
  also have "\<dots> \<le> (1 / (1 - uro) ^ (n + 2)) / (1 - uro) ^ n"
    using plus_minus_pow [of "n + 2"] a by (intro divide_right_mono) (simp_all add: pos_le_divide_eq)
  also have "\<dots> = 1 / (1 - uro) ^ m" by (simp add: m_def power_add mult_2)
  also have "\<dots> \<le> 1 + 2 * of_nat m * uro"
    using pow_ratio [OF mn] uro_small by (simp add: pos_divide_le_eq mult.commute)
  finally have r: "P / T * (1 + uro) ^ 2 \<le> 1 + 2 * of_nat m * uro" .
  have "of_int k \<le> of_int pool * (P / T * (1 + uro) ^ 2)" using sum by (simp add: mult.assoc)
  also have "\<dots> \<le> of_int pool * (1 + 2 * of_nat m * uro)" using r pool by (intro mult_left_mono) simp_all
  also have "\<dots> = of_int pool + of_int (pool * (2 * int m)) * uro" by (simp add: distrib_left)
  also have "\<dots> < of_int pool + 1"
  proof -
    have "0 \<le> pool * (4 * int n)" using pool by simp
    then have "pool * (2 * int m) < 2 ^ 53" using fit pool by (simp add: m_def distrib_left)
    then have "(of_int (pool * (2 * int m)) :: rat) < 2 ^ 53" by (metis of_int_less_iff of_int_numeral of_int_power)
    then have "of_int (pool * (2 * int m)) * uro < 2 ^ 53 * uro" by (rule mult_strict_right_mono [OF _ u])
    also have "2 ^ 53 * uro = 1" using pow2_add [of 53 "- 53"] pow2_of_nat [of 53] by simp
    finally show ?thesis by simp
  qed
  finally have "(of_int k :: rat) < of_int (pool + 1)" by simp
  then have "k < pool + 1" by (simp only: of_int_less_iff)
  then show ?thesis by simp
qed (use sum in simp)

section \<open>What a category pays\<close>

definition books_ok :: "liq_world \<Rightarrow> bool" where
  "books_ok w \<longleftrightarrow> wf_map (lw_Accounts w) \<and> wf_map (lw_Providers w)"

text \<open>A payment of a category: it adds the amount to the value the system holds.\<close>

definition pays :: "('a \<Rightarrow> int \<Rightarrow> reward_state \<Rightarrow> reward_state) \<Rightarrow> bool" where
  "pays pay \<longleftrightarrow> (\<forall>a p s. books_ok (fst s) \<longrightarrow> books_ok (fst (pay a p s)) \<and>
     total_value (fst (pay a p s)) = total_value (fst s) + p)"

definition usable :: "rat \<Rightarrow> bool" where
  "usable p \<longleftrightarrow> pow2 (- 401) \<le> p \<and> p \<le> pow2 450"

lemma payOut_value:
  assumes "pays pay" "0 < pool" "pow2 (- 450) \<le> T" "T \<le> pow2 450" "list_all (\<lambda>x. \<exists>p. snd x = Fin p \<and> usable p) xs"
    "books_ok (fst s)" "payOut pay pool (Fin T) xs s = Some s'"
  shows "books_ok (fst s') \<and> total_value (fst s) \<le> total_value (fst s') \<and>
    of_int (total_value (fst s') - total_value (fst s)) \<le>
      of_int pool * (sum_list (map (\<lambda>x. case snd x of Fin p \<Rightarrow> p | _ \<Rightarrow> 0) xs) / T) * (1 + uro) ^ 2"
  using assms(5-7)
proof (induction xs arbitrary: s)
  case (Cons x xs)
  obtain a p where x: "x = (a, Fin p)" "usable p" using Cons.prems(1) by (cases x) auto
  obtain k where k: "portionFromWeight pool (Fin p) (Fin T) = Some k" "0 \<le> k" "of_int k \<le> of_int pool * (p / T) * (1 + uro) ^ 2"
    using portion_bound [OF assms(2) _ _ assms(3,4), of p] x(2) by (auto simp: usable_def)
  have s1: "books_ok (fst (pay a k s))" "total_value (fst (pay a k s)) = total_value (fst s) + k"
    using assms(1) Cons.prems(2) unfolding pays_def by blast+
  have run: "payOut pay pool (Fin T) xs (pay a k s) = Some s'" using Cons.prems(3) by (simp add: x(1) k(1))
  let ?S = "sum_list (map (\<lambda>x. case snd x of Fin p \<Rightarrow> p | _ \<Rightarrow> 0) xs)"
  from Cons.IH [OF _ s1(1) run] Cons.prems(1)
  have ih: "books_ok (fst s')" "total_value (fst (pay a k s)) \<le> total_value (fst s')"
    "of_int (total_value (fst s') - total_value (fst (pay a k s))) \<le> of_int pool * (?S / T) * (1 + uro) ^ 2" by auto
  have "of_int pool * ((p + ?S) / T) * (1 + uro) ^ 2 = of_int pool * (p / T) * (1 + uro) ^ 2 + of_int pool * (?S / T) * (1 + uro) ^ 2"
    by (simp add: add_divide_distrib distrib_left distrib_right)
  with ih k(2,3) s1(2) show ?case by (simp add: x(1))
qed simp

lemma category_value:
  assumes "pays pay" "books_ok (fst s)" "list_all (\<lambda>x. \<exists>p. snd x = Fin p \<and> usable p) xs"
    and S: "0 < S" "sum_list (map (\<lambda>x. case snd x of Fin p \<Rightarrow> p | _ \<Rightarrow> 0) xs) \<le> (1 + uro) ^ n * S" "(1 - uro) ^ n * S \<le> T"
    and T: "pow2 (- 450) \<le> T" "T \<le> pow2 450" and pool: "0 \<le> pool" "pool * (8 * int n + 8) < 2 ^ 53" "n \<le> 2 ^ 40"
    and run: "category pay pool (Fin T) xs s = Some s'"
  shows "books_ok (fst s') \<and> total_value (fst s) \<le> total_value (fst s') \<and> total_value (fst s') \<le> total_value (fst s) + pool"
proof (cases "0 < pool")
  case True
  have T0: "0 < T" using T(1) pow2_pos [of "- 450"] by linarith
  from run True T0 have "payOut pay pool (Fin T) xs s = Some s'" by (simp add: category_def)
  note v = payOut_value [OF assms(1) True T assms(3,2) this]
  have "total_value (fst s') - total_value (fst s) \<le> pool"
    by (rule portions_fit [OF S T0 pool(1,2) _ pool(3)]) (use v in simp)
  with v show ?thesis by simp
qed (use run assms(2) pool(1) in \<open>simp add: category_def\<close>)

lemma pays_credit: "books_ok w \<Longrightarrow> books_ok (credit a p w) \<and> total_value (credit a p w) = total_value w + p"
  using acc.credit_supply [of "lw_Accounts w" a p] acc.credit_inv [of "lw_Accounts w" a p]
  by (simp add: books_ok_def credit_def total_value_def)

lemma pays_provider: "books_ok w \<Longrightarrow> books_ok (AddLPReward a p w) \<and> total_value (AddLPReward a p w) = total_value w + p"
  by (auto simp: books_ok_def AddLPReward_def Let_def total_value_def putProvider_def wf_mput vsum_mput holding_def NewProvider_def split: option.split)

lemma pays_all: "pays payProvider" "pays payValidator" "pays payParticipant"
  using pays_provider pays_credit
  by (auto simp: pays_def payProvider_def payValidator_def payParticipant_def AddParticipantReward_def split_beta)

lemma usable_range: "pow2 (- 400) \<le> p \<Longrightarrow> p \<le> pow2 400 \<Longrightarrow> usable p"
proof -
  have "pow2 (- 401) \<le> pow2 (- 400)" "pow2 400 \<le> pow2 450" by simp_all
  then show "pow2 (- 400) \<le> p \<Longrightarrow> p \<le> pow2 400 \<Longrightarrow> usable p" unfolding usable_def by linarith
qed

lemma usable_pos: "usable p \<Longrightarrow> 0 < p"
  using order_less_le_trans [OF pow2_pos [of "- 401"]] by (simp add: usable_def)

text \<open>Weights in the range of roots of token amounts.\<close>

definition in_range :: "('a \<times> f64) list \<Rightarrow> bool" where
  "in_range xs \<longleftrightarrow> list_all (\<lambda>x. \<exists>p. snd x = Fin p \<and> pow2 (- 400) \<le> p \<and> p \<le> pow2 400) xs"

abbreviation val :: "f64 \<Rightarrow> rat" where
  "val f \<equiv> (case f of Fin p \<Rightarrow> p | _ \<Rightarrow> 0)"

abbreviation weights :: "('a \<times> f64) list \<Rightarrow> rat list" where
  "weights xs \<equiv> map (\<lambda>x. val (snd x)) xs"

lemma in_range_weights:
  assumes "in_range xs"
  shows "map snd xs = map Fin (weights xs)" "\<forall>p \<in> set (weights xs). pow2 (- 400) \<le> p \<and> p \<le> pow2 400"
    "\<forall>p \<in> set (weights xs). power_ok p"
proof -
  show w: "\<forall>p \<in> set (weights xs). pow2 (- 400) \<le> p \<and> p \<le> pow2 400"
    using assms by (auto simp: in_range_def list_all_iff split: f64.splits)
  show "map snd xs = map Fin (weights xs)" using assms by (auto simp: in_range_def list_all_iff split: f64.splits)
  have "pow2 (- 1000) \<le> pow2 (- 400)" "pow2 400 \<le> pow2 900" by simp_all
  with w show "\<forall>p \<in> set (weights xs). power_ok p" unfolding power_ok_def by (meson order_trans)
qed

lemma weights_sum:
  assumes "in_range xs" "length xs \<le> 2 ^ 40"
  shows "sum_list (weights xs) \<le> pow2 440" "xs \<noteq> [] \<Longrightarrow> pow2 (- 400) \<le> sum_list (weights xs)" "0 \<le> sum_list (weights xs)"
proof -
  note w = in_range_weights(2) [OF assms(1)]
  have "sum_list (weights xs) \<le> of_nat (length (weights xs)) * pow2 400"
    using w by (induction xs) (auto simp: distrib_right)
  also have "\<dots> \<le> 2 ^ 40 * pow2 400" by (rule mult_right_mono [OF of_nat_le_pow40]) (use assms(2) in simp_all)
  also have "(2 :: rat) ^ 40 * pow2 400 = pow2 440" using pow2_add [of 40 400] pow2_of_nat [of 40] by simp
  finally show "sum_list (weights xs) \<le> pow2 440" .
  have nn: "0 \<le> sum_list (weights ys)" if "set ys \<subseteq> set xs" for ys
    using that w by (intro sum_list_nonneg) (auto intro: order_trans [OF less_imp_le [OF pow2_pos]])
  then show "0 \<le> sum_list (weights xs)" by simp
  show "pow2 (- 400) \<le> sum_list (weights xs)" if "xs \<noteq> []"
    using that w nn [of "tl xs"] by (cases xs) (auto simp: subset_eq)
qed

lemma total_bounds:
  assumes "in_range xs" "length xs \<le> 2 ^ 40" "xs \<noteq> []"
  obtains T where "total_weight xs = Fin T" "(1 - uro) ^ length xs * sum_list (weights xs) \<le> T" "pow2 (- 450) \<le> T" "T \<le> pow2 450"
proof -
  have ne: "weights xs \<noteq> []" using assms(3) by simp
  obtain T where T: "total_weight xs = Fin T" "(1 - uro) ^ length xs * sum_list (weights xs) \<le> T" "T \<le> (1 + uro) ^ length xs * sum_list (weights xs)"
    using fsum_bounds [OF in_range_weights(3) [OF assms(1)]] assms(2) in_range_weights(1) [OF assms(1)] by auto
  note s = weights_sum [OF assms(1,2)]
  have two: "(1 + uro) ^ length xs \<le> 2" by (rule order_trans [OF pow_uro_bounds(2) [OF assms(2)]]) simp
  have "(1 + uro) ^ length xs * sum_list (weights xs) \<le> 2 * pow2 440" by (rule mult_mono [OF two s(1) _ s(3)]) simp
  then have "T \<le> 2 * pow2 440" using T(3) by linarith
  also have "2 * pow2 440 = pow2 441" using pow2_add [of 1 440] pow2_of_nat [of 1] by simp
  also have "pow2 441 \<le> pow2 450" by simp
  finally have hi: "T \<le> pow2 450" .
  have "pow2 (- 401) = 1 / 2 * pow2 (- 400)" using pow2_add [of "- 401" 1] pow2_of_nat [of 1] by simp
  also have "\<dots> \<le> (1 - uro) ^ length xs * sum_list (weights xs)"
    using s(2) [OF assms(3)] pow_uro_bounds(1) [OF assms(2)] by (intro mult_mono) simp_all
  finally have "pow2 (- 401) \<le> T" using T(2) by linarith
  moreover have "pow2 (- 450) \<le> pow2 (- 401)" by simp
  ultimately have "pow2 (- 450) \<le> T" by linarith
  with T hi show thesis by (intro that)
qed

lemma plain_category:
  assumes "pays pay" "books_ok (fst s)" "in_range xs" "length xs \<le> n" "0 \<le> pool" "pool * (8 * int n + 8) < 2 ^ 53" "n \<le> 2 ^ 40"
    and run: "category pay pool (total_weight xs) xs s = Some s'"
  shows "books_ok (fst s') \<and> total_value (fst s) \<le> total_value (fst s') \<and> total_value (fst s') \<le> total_value (fst s) + pool"
proof (cases "xs = []")
  case True
  with run assms(2,5) show ?thesis by (auto simp: category_def)
next
  case False
  have len: "length xs \<le> 2 ^ 40" using assms(4,7) by simp
  obtain T where T: "total_weight xs = Fin T" "(1 - uro) ^ length xs * sum_list (weights xs) \<le> T" "pow2 (- 450) \<le> T" "T \<le> pow2 450"
    by (rule total_bounds [OF assms(3) len False])
  have use: "list_all (\<lambda>x. \<exists>p. snd x = Fin p \<and> usable p) xs"
    using assms(3) unfolding in_range_def list_all_iff by (meson usable_range)
  have S: "0 < sum_list (weights xs)" using weights_sum(2) [OF assms(3) len False] pow2_pos [of "- 400"] by linarith
  have "1 \<le> (1 + uro) ^ length xs" using uro_pos by (intro one_le_power) simp
  then have P: "sum_list (weights xs) \<le> (1 + uro) ^ length xs * sum_list (weights xs)" using S by simp
  have "pool * (8 * int (length xs) + 8) \<le> pool * (8 * int n + 8)" using assms(4,5) by (intro mult_left_mono) simp_all
  then have fit: "pool * (8 * int (length xs) + 8) < 2 ^ 53" using assms(6) by linarith
  show ?thesis
    by (rule category_value [OF assms(1,2) use S P T(2,3,4) assms(5) fit len]) (use run T(1) in simp)
qed

text \<open>The long-lock share adds the weights of one address up first.\<close>

abbreviation weight_sum :: "(string, f64) gomap \<Rightarrow> rat" where
  "weight_sum m \<equiv> vsum val m"

lemma vsum_val_nonneg: "list_all (\<lambda>x. \<exists>p. snd x = Fin p \<and> usable p) m \<Longrightarrow> 0 \<le> weight_sum m"
proof (rule vsum_nonneg)
  fix k v assume "list_all (\<lambda>x. \<exists>p. snd x = Fin p \<and> usable p) m" "(k, v) \<in> set m"
  then obtain p where "v = Fin p" "usable p" by (auto simp: list_all_iff)
  then show "0 \<le> val v" using usable_pos [of p] by simp
qed

lemma member_le_weight_sum:
  "list_all (\<lambda>x. \<exists>p. snd x = Fin p \<and> usable p) m \<Longrightarrow> map_of m a = Some (Fin v) \<Longrightarrow> v \<le> weight_sum m \<and> usable v"
proof (induction m)
  case (Cons x m)
  then obtain p where p: "snd x = Fin p" "usable p" by auto
  then have "0 \<le> p" using usable_pos [of p] by simp
  with Cons p vsum_val_nonneg [of m] show ?case by (auto split: if_splits)
qed simp

lemma addWeight_bound:
  assumes "wf_map m" "list_all (\<lambda>x. \<exists>p. snd x = Fin p \<and> usable p) m" "weight_sum m \<le> pow2 442"
    and p: "pow2 (- 400) \<le> p" "p \<le> pow2 400"
  shows "wf_map (addWeight (a, Fin p) m)" "list_all (\<lambda>x. \<exists>p. snd x = Fin p \<and> usable p) (addWeight (a, Fin p) m)"
    "weight_sum (addWeight (a, Fin p) m) \<le> (1 + uro) * (weight_sum m + p)"
proof -
  obtain v where v: "(case map_of m a of None \<Rightarrow> Fin 0 | Some y \<Rightarrow> y) = Fin v" "0 \<le> v" "v \<le> weight_sum m"
    "v = (case map_of m a of None \<Rightarrow> 0 | Some y \<Rightarrow> val y)"
  proof (cases "map_of m a")
    case None
    then show thesis using that [of 0] vsum_val_nonneg [OF assms(2)] by simp
  next
    case (Some y)
    then have "(a, y) \<in> set m" by (rule map_of_SomeD)
    then obtain q where "y = Fin q" using assms(2) by (auto simp: list_all_iff)
    with Some member_le_weight_sum [OF assms(2), of a q] usable_pos [of q] show thesis
      by (intro that [of q]) auto
  qed
  have p0: "0 < p" using p(1) pow2_pos [of "- 400"] by linarith
  have "pow2 (- 1022) \<le> pow2 (- 400)" "pow2 400 \<le> pow2 442" by simp_all
  then have lo: "pow2 (- 1022) \<le> v + p" and "v + p \<le> 2 * pow2 442" using p v assms(3) by linarith+
  moreover have "2 * pow2 442 = pow2 443" using pow2_add [of 1 442] pow2_of_nat [of 1] by simp
  moreover have "pow2 443 \<le> pow2 1000" "pow2 444 \<le> pow2 450" by simp_all
  moreover have "2 * pow2 443 = pow2 444" using pow2_add [of 1 443] pow2_of_nat [of 1] by simp
  ultimately have hi: "v + p \<le> pow2 1000" and hi2: "v + p \<le> pow2 443" by linarith+
  obtain z where z: "rnd (v + p) = Fin z" "\<bar>z - (v + p)\<bar> \<le> (v + p) * uro" by (rule rnd_normal [OF lo hi])
  have zb: "z \<le> (v + p) * (1 + uro)" "(v + p) * (1 - uro) \<le> z" using z(2) by (simp_all add: abs_le_iff algebra_simps)
  have "(v + p) * (1 + uro) \<le> (v + p) * 2" using v(2) p0 uro_small(3) by (intro mult_left_mono) simp_all
  then have "z \<le> (v + p) * 2" using zb(1) by (rule order_trans [rotated])
  moreover have "(v + p) * 2 \<le> pow2 443 * 2" using hi2 by (rule mult_right_mono) simp
  moreover have "pow2 443 * 2 = pow2 444" using pow2_add [of 443 1] pow2_of_nat [of 1] by simp
  ultimately have "z \<le> pow2 444" by (metis order_trans)
  then have "z \<le> pow2 450" using \<open>pow2 444 \<le> pow2 450\<close> by (rule order_trans)
  moreover have "pow2 (- 401) = pow2 (- 400) * (1 / 2)" using pow2_add [of "- 401" 1] pow2_of_nat [of 1] by simp
  moreover have "pow2 (- 400) * (1 / 2) \<le> (v + p) * (1 - uro)" using v(2) p(1) p0 uro_small(3) by (intro mult_mono) simp_all
  ultimately have use: "usable z" using zb(2) by (simp add: usable_def)
  have add: "addWeight (a, Fin p) m = mput a (Fin z) m" by (simp add: addWeight_def v(1) z(1))
  show "wf_map (addWeight (a, Fin p) m)" using assms(1) by (simp add: add wf_mput)
  show "list_all (\<lambda>x. \<exists>p. snd x = Fin p \<and> usable p) (addWeight (a, Fin p) m)"
    unfolding add by (rule list_all_mput [OF assms(2)]) (use use in simp_all)
  have "weight_sum (mput a (Fin z) m) = weight_sum m + z - v"
    using vsum_mput [OF assms(1), of val a "Fin z"] v(4) by simp
  also have "\<dots> \<le> weight_sum m + p + (v + p) * uro" using zb(1) by (simp add: algebra_simps)
  also have "\<dots> \<le> weight_sum m + p + (weight_sum m + p) * uro" using v(3) uro_pos by (intro add_left_mono mult_right_mono) simp_all
  finally show "weight_sum (addWeight (a, Fin p) m) \<le> (1 + uro) * (weight_sum m + p)" by (simp add: add algebra_simps)
qed

lemma fold_addWeight:
  assumes "in_range xs" "length xs \<le> 2 ^ 40"
  shows "wf_map (fold addWeight xs []) \<and> list_all (\<lambda>x. \<exists>p. snd x = Fin p \<and> usable p) (fold addWeight xs []) \<and>
    weight_sum (fold addWeight xs []) \<le> (1 + uro) ^ length xs * sum_list (weights xs)"
  using assms
proof (induction xs rule: rev_induct)
  case (snoc x xs)
  let ?m = "fold addWeight xs []" and ?S = "sum_list (weights xs)"
  obtain a p where x: "x = (a, Fin p)" "pow2 (- 400) \<le> p" "p \<le> pow2 400" using snoc.prems(1) by (cases x) (auto simp: in_range_def)
  have xs: "in_range xs" "length xs \<le> 2 ^ 40" using snoc.prems by (simp_all add: in_range_def)
  note ih = snoc.IH [OF xs]
  note s = weights_sum [OF xs]
  have two: "(1 + uro) ^ length xs \<le> 2" by (rule order_trans [OF pow_uro_bounds(2) [OF xs(2)]]) simp
  have "(1 + uro) ^ length xs * ?S \<le> 2 * pow2 440" by (rule mult_mono [OF two s(1) _ s(3)]) simp
  moreover have "pow2 441 = 2 * pow2 440" using pow2_add [of 1 440] pow2_of_nat [of 1] by simp
  moreover have "pow2 441 \<le> pow2 442" by simp
  ultimately have "weight_sum ?m \<le> pow2 442" using ih by linarith
  note b = addWeight_bound [OF ih [THEN conjunct1] ih [THEN conjunct2, THEN conjunct1] this x(2,3), of a]
  have one: "1 \<le> (1 + uro) ^ length xs" using uro_pos by (intro one_le_power) simp
  have p0: "0 \<le> p" using x(2) pow2_pos [of "- 400"] by linarith
  have "weight_sum ?m + p \<le> (1 + uro) ^ length xs * ?S + (1 + uro) ^ length xs * p"
    using ih mult_right_mono [OF one p0] by linarith
  then have "(1 + uro) * (weight_sum ?m + p) \<le> (1 + uro) * ((1 + uro) ^ length xs * (?S + p))"
    using uro_pos by (intro mult_left_mono) (simp_all add: distrib_left)
  with b show ?case by (simp add: x(1) mult.assoc)
qed simp

lemma long_category:
  assumes "pays pay" "books_ok (fst s)" "in_range xs" "length xs \<le> n" "0 \<le> pool" "pool * (8 * int n + 8) < 2 ^ 53" "n \<le> 2 ^ 40"
    and run: "category pay pool (total_weight xs) (filter (\<lambda>p. \<not> fle (snd p) (Fin 0)) (fold addWeight xs [])) s = Some s'"
  shows "books_ok (fst s') \<and> total_value (fst s) \<le> total_value (fst s') \<and> total_value (fst s') \<le> total_value (fst s) + pool"
proof (cases "xs = []")
  case True
  with run assms(2,5) show ?thesis by (auto simp: category_def)
next
  case False
  have len: "length xs \<le> 2 ^ 40" using assms(4,7) by simp
  obtain T where T: "total_weight xs = Fin T" "(1 - uro) ^ length xs * sum_list (weights xs) \<le> T" "pow2 (- 450) \<le> T" "T \<le> pow2 450"
    by (rule total_bounds [OF assms(3) len False])
  let ?m = "fold addWeight xs []"
  note f = fold_addWeight [OF assms(3) len]
  have "filter (\<lambda>p. \<not> fle (snd p) (Fin 0)) ?m = ?m"
  proof (rule filter_True, rule ballI)
    fix x assume "x \<in> set ?m"
    then obtain p where "snd x = Fin p" "usable p" using f by (auto simp: list_all_iff)
    then show "\<not> fle (snd x) (Fin 0)" using usable_pos [of p] by simp
  qed
  then have run': "category pay pool (Fin T) ?m s = Some s'" using run T(1) by simp
  have S: "0 < sum_list (weights xs)" using weights_sum(2) [OF assms(3) len False] pow2_pos [of "- 400"] by linarith
  have P: "sum_list (weights ?m) \<le> (1 + uro) ^ length xs * sum_list (weights xs)" using f by (simp add: vsum_def comp_def)
  have "pool * (8 * int (length xs) + 8) \<le> pool * (8 * int n + 8)" using assms(4,5) by (intro mult_left_mono) simp_all
  then have fit: "pool * (8 * int (length xs) + 8) < 2 ^ 53" using assms(6) by linarith
  show ?thesis
    by (rule category_value [OF assms(1,2) f [THEN conjunct2, THEN conjunct1] S P T(2,3,4) assms(5) fit len run'])
qed

section \<open>A whole block\<close>

text \<open>What the payee lists see of the positions does not change while rewards are credited.\<close>

definition stake_view :: "liq_world \<Rightarrow> (string \<times> int \<times> int) list" where
  "stake_view w = map (\<lambda>lp. (lp_Address lp, lp_StakeAmount lp, lp_LockDays lp)) (stakers w)"

lemma stakers_mput:
  assumes "map_of m k = Some lp" "lp_Address lp' = lp_Address lp" "lp_StakeAmount lp' = lp_StakeAmount lp" "lp_LockDays lp' = lp_LockDays lp"
  shows "map (\<lambda>lp. (lp_Address lp, lp_StakeAmount lp, lp_LockDays lp)) (filter (\<lambda>lp. 0 < lp_StakeAmount lp) (map snd (mput k lp' m))) =
    map (\<lambda>lp. (lp_Address lp, lp_StakeAmount lp, lp_LockDays lp)) (filter (\<lambda>lp. 0 < lp_StakeAmount lp) (map snd m))"
  using assms(1) by (induction m) (auto simp: assms(2-4) split: if_splits)

lemma stake_view_reward [simp]: "stake_view (AddLPReward a p w) = stake_view w"
proof -
  define k where "k = (case providerKey (lw_Providers w) a of None \<Rightarrow> a | Some k \<Rightarrow> k)"
  show ?thesis
  proof (cases "map_of (lw_Providers w) k")
    case None
    then show ?thesis
      by (simp add: stake_view_def stakers_def AddLPReward_def Let_def putProvider_def mput_fresh NewProvider_def flip: k_def)
  next
    case (Some lp)
    then show ?thesis
      unfolding stake_view_def stakers_def AddLPReward_def Let_def putProvider_def k_def [symmetric]
      by (simp add: stakers_mput [OF Some])
  qed
qed

lemma lpPayees_view: "lpPayees dex w = map (\<lambda>(a, s, d). (a, fsqrt (f_of_int s))) (stake_view w) @ map (\<lambda>d. (dp_Address d, dp_Weight d)) dex"
  by (simp add: lpPayees_def stake_view_def stakeWeight_def)

lemma longEntries_view: "longEntries dex w = map (\<lambda>(a, s, d). (a, fsqrt (f_of_int s))) (filter (\<lambda>(a, s, d). 365 \<le> d \<and> d \<le> 2000) (stake_view w)) @
    map (\<lambda>d. (normalizeAccountAddress (dp_Address d), dexLongWeight d)) (filter (\<lambda>d. dp_Locked d \<and> \<not> fle (dp_LiquidityUSD d) (Fin 0)) dex)"
  by (simp add: longEntries_def stake_view_def stakeWeight_def filter_map comp_def)

lemma credit_view [simp]: "stake_view (credit a p w) = stake_view w" "lw_Validators (credit a p w) = lw_Validators w"
  "lw_Cumulative (credit a p w) = lw_Cumulative w" "lw_Validators (AddLPReward a p w) = lw_Validators w"
  "lw_Cumulative (AddLPReward a p w) = lw_Cumulative w"
  by (simp_all add: credit_def stake_view_def stakers_def AddLPReward_def Let_def putProvider_def)

text \<open>A function of the state that no payment changes.\<close>

lemma payOut_keeps:
  assumes "\<And>a p s. g (fst (pay a p s)) = g (fst s)" "category pay pool T xs s = Some s'"
  shows "g (fst s') = g (fst s)"
proof -
  have "payOut pay pool T xs s = Some s' \<Longrightarrow> g (fst s') = g (fst s)" for s
  proof (induction xs arbitrary: s)
    case (Cons x xs)
    then obtain k where "payOut pay pool T xs (pay (fst x) k s) = Some s'" by (cases x) (auto split: option.splits)
    from Cons.IH [OF this] show ?case by (simp only: assms(1))
  qed simp
  with assms(2) show ?thesis by (auto simp: category_def split: if_splits)
qed

lemma pay_views:
  "g = stake_view \<or> g = (\<lambda>w. []) \<Longrightarrow> g (fst (payProvider a p s)) = g (fst s)"
  "lw_Validators (fst (payProvider a p s)) = lw_Validators (fst s)" "lw_Cumulative (fst (payProvider a p s)) = lw_Cumulative (fst s)"
  "lw_Cumulative (fst (payValidator a p s)) = lw_Cumulative (fst s)" "lw_Cumulative (fst (payParticipant tx p s)) = lw_Cumulative (fst s)"
  by (auto simp: payProvider_def payValidator_def payParticipant_def AddParticipantReward_def split_beta)

text \<open>The weights of every category are finite, at least \<open>2 ^ -400\<close> and at most \<open>2 ^ 400\<close>, and \<open>n\<close> is the largest number of payees.\<close>

definition weights_ok :: "(Validator \<Rightarrow> bool) \<Rightarrow> dex_position list \<Rightarrow> int \<Rightarrow> string \<Rightarrow> Transaction list \<Rightarrow> nat \<Rightarrow> liq_world \<Rightarrow> bool" where
  "weights_ok eligible dex now winner txs n w \<longleftrightarrow>
     in_range (lpPayees dex w) \<and> in_range (longEntries dex w) \<and> in_range (otherValidators eligible now winner w) \<and> in_range (participants txs) \<and>
     length (lpPayees dex w) \<le> n \<and> length (longEntries dex w) \<le> n \<and> length (otherValidators eligible now winner w) \<le> n \<and> length txs \<le> n"

lemma pct_bounds:
  assumes "0 \<le> pot" "0 \<le> c" "c \<le> 100" "pot * (8 * int n + 8) < 2 ^ 53"
  shows "0 \<le> pctAmount pot c" "pctAmount pot c * (8 * int n + 8) < 2 ^ 53" "pctAmount pot c * 100 \<le> pot * c"
proof -
  have "pot * c \<le> pot * 100" using assms by (intro mult_left_mono) simp_all
  then have "pot * c div 100 \<le> pot * 100 div 100" by (rule zdiv_mono1) simp
  then have le: "pctAmount pot c \<le> pot" by (simp add: pctAmount_def)
  have "0 \<le> pot * c" using assms(1,2) by simp
  then show "0 \<le> pctAmount pot c" by (simp add: pctAmount_def pos_imp_zdiv_nonneg_iff)
  have "pctAmount pot c * (8 * int n + 8) \<le> pot * (8 * int n + 8)" using le by (intro mult_right_mono) simp_all
  with assms(4) show "pctAmount pot c * (8 * int n + 8) < 2 ^ 53" by linarith
  show "pctAmount pot c * 100 \<le> pot * c" using div_mult_le_self [of 100 "pot * c"] by (simp add: pctAmount_def)
qed

lemma distribute_bound:
  assumes ok: "books_ok (fst s0)" "weights_ok eligible dex now winner txs n (fst s0)" and pot: "0 \<le> pot" "pot * (8 * int n + 8) < 2 ^ 53" "n \<le> 2 ^ 40"
    and run: "distribute eligible dex now winner txs pot s0 = Some s'"
  shows "total_value (fst s0) \<le> total_value (fst s') \<and> total_value (fst s') \<le> total_value (fst s0) + pot \<and>
    lw_Cumulative (fst s') = lw_Cumulative (fst s0)"
proof -
  let ?s1 = "payProposer winner (pctAmount pot 40) s0"
  have s1: "books_ok (fst ?s1)" "total_value (fst ?s1) = total_value (fst s0) + pctAmount pot 40" "stake_view (fst ?s1) = stake_view (fst s0)"
    "lw_Validators (fst ?s1) = lw_Validators (fst s0)" "lw_Cumulative (fst ?s1) = lw_Cumulative (fst s0)"
    using ok(1) pays_credit [of "fst s0" winner "pctAmount pot 40"] pct_bounds(1) [OF pot(1) _ _ pot(2), of 40]
    by (auto simp: payProposer_def split_beta)
  let ?lps = "lpPayees dex (fst ?s1)"
  obtain s2 where s2: "category payProvider (pctAmount pot 30) (total_weight ?lps) ?lps ?s1 = Some s2"
    using run by (auto simp: distribute_def Let_def split: option.splits)
  let ?longs = "longEntries dex (fst s2)"
  let ?sum = "filter (\<lambda>p. \<not> fle (snd p) (Fin 0)) (fold addWeight ?longs [])"
  obtain s3 where s3: "category payProvider (pctAmount pot 5) (total_weight ?longs) ?sum s2 = Some s3"
    using run s2 by (auto simp: distribute_def Let_def split: option.splits)
  let ?vals = "otherValidators eligible now winner (fst s3)"
  obtain s4 where s4: "category payValidator (pctAmount pot 12) (total_weight ?vals) ?vals s3 = Some s4"
    using run s2 s3 by (auto simp: distribute_def Let_def split: option.splits)
  let ?txs = "participants txs"
  obtain s5 where s5: "category payParticipant (pctAmount pot 2) (total_weight ?txs) ?txs s4 = Some s5"
    using run s2 s3 s4 by (auto simp: distribute_def Let_def split: option.splits)
  have fin: "s' = payTreasury (pctAmount pot 11) s5" using run s2 s3 s4 s5 by (simp add: distribute_def Let_def)
  have v2: "stake_view (fst s2) = stake_view (fst s0)" "lw_Validators (fst s2) = lw_Validators (fst s0)"
    using payOut_keeps [where g = stake_view, OF _ s2] payOut_keeps [where g = lw_Validators, OF _ s2] s1(3,4) by (simp_all add: pay_views)
  have v3: "lw_Validators (fst s3) = lw_Validators (fst s0)"
    using payOut_keeps [where g = lw_Validators, OF _ s3] v2(2) by (simp add: pay_views)
  have lists: "?lps = lpPayees dex (fst s0)" "?longs = longEntries dex (fst s0)" "?vals = otherValidators eligible now winner (fst s0)"
    using s1(3) v2(1) v3 by (simp_all add: lpPayees_view longEntries_view otherValidators_def)
  note w = ok(2) [unfolded weights_ok_def, folded lists]
  note b = pct_bounds [OF pot(1) _ _ pot(2)]
  have c2: "books_ok (fst s2) \<and> total_value (fst ?s1) \<le> total_value (fst s2) \<and> total_value (fst s2) \<le> total_value (fst ?s1) + pctAmount pot 30"
    by (rule plain_category [OF pays_all(1) s1(1) _ _ b(1,2) pot(3) s2]) (use w in simp_all)
  have c3: "books_ok (fst s3) \<and> total_value (fst s2) \<le> total_value (fst s3) \<and> total_value (fst s3) \<le> total_value (fst s2) + pctAmount pot 5"
    by (rule long_category [OF pays_all(1) _ _ _ b(1,2) pot(3) s3]) (use w c2 in simp_all)
  have c4: "books_ok (fst s4) \<and> total_value (fst s3) \<le> total_value (fst s4) \<and> total_value (fst s4) \<le> total_value (fst s3) + pctAmount pot 12"
    by (rule plain_category [OF pays_all(2) _ _ _ b(1,2) pot(3) s4]) (use w c3 in simp_all)
  have c5: "books_ok (fst s5) \<and> total_value (fst s4) \<le> total_value (fst s5) \<and> total_value (fst s5) \<le> total_value (fst s4) + pctAmount pot 2"
    by (rule plain_category [OF pays_all(3) _ _ _ b(1,2) pot(3) s5]) (use w c4 in \<open>simp_all add: participants_def\<close>)
  have t: "total_value (fst s') = total_value (fst s5) + pctAmount pot 11" "lw_Cumulative (fst s') = lw_Cumulative (fst s5)"
    using c5 pays_credit [of "fst s5" LiquidityPoolAddress "pctAmount pot 11"] b(1) [of 11] by (auto simp: fin payTreasury_def split_beta)
  have cum: "lw_Cumulative (fst s5) = lw_Cumulative (fst s0)"
    using payOut_keeps [where g = lw_Cumulative, OF _ s2] payOut_keeps [where g = lw_Cumulative, OF _ s3]
      payOut_keeps [where g = lw_Cumulative, OF _ s4] payOut_keeps [where g = lw_Cumulative, OF _ s5] s1(5) by (simp add: pay_views)
  have "pctAmount pot 40 + pctAmount pot 30 + pctAmount pot 5 + pctAmount pot 12 + pctAmount pot 2 + pctAmount pot 11 \<le> pot"
    using b(3) [of 40] b(3) [of 30] b(3) [of 5] b(3) [of 12] b(3) [of 2] b(3) [of 11] by simp
  with c2 c3 c4 c5 t s1(2) cum b(1) [of 40] b(1) [of 11] show ?thesis by simp
qed

text \<open>No category fails on such weights.\<close>

lemma payOut_some:
  assumes "0 < pool" "pow2 (- 450) \<le> T" "T \<le> pow2 450" "list_all (\<lambda>x. \<exists>p. snd x = Fin p \<and> usable p) xs"
  shows "payOut pay pool (Fin T) xs s \<noteq> None"
  using assms(4)
proof (induction xs arbitrary: s)
  case (Cons x xs)
  then obtain a p where x: "x = (a, Fin p)" "usable p" by (cases x) auto
  obtain k where "portionFromWeight pool (Fin p) (Fin T) = Some k"
    using portion_bound [OF assms(1) _ _ assms(2,3), of p] x(2) by (auto simp: usable_def)
  with Cons x(1) show ?case by simp
qed simp

lemma category_some:
  assumes "in_range xs" "length xs \<le> 2 ^ 40" "list_all (\<lambda>x. \<exists>p. snd x = Fin p \<and> usable p) ys"
  shows "category pay pool (total_weight xs) ys s \<noteq> None"
proof (cases "xs = []")
  case False
  obtain T where T: "total_weight xs = Fin T" "pow2 (- 450) \<le> T" "T \<le> pow2 450" by (rule total_bounds [OF assms(1,2) False])
  show ?thesis
  proof (cases "0 < pool")
    case True
    with payOut_some [OF True T(2,3) assms(3)] show ?thesis by (simp add: category_def T(1))
  qed (simp add: category_def)
qed (simp add: category_def)

lemma in_range_usable: "in_range xs \<Longrightarrow> list_all (\<lambda>x. \<exists>p. snd x = Fin p \<and> usable p) xs"
  unfolding in_range_def list_all_iff by (meson usable_range)

lemma distribute_some:
  assumes "weights_ok eligible dex now winner txs n (fst s0)" "n \<le> 2 ^ 40"
  shows "distribute eligible dex now winner txs pot s0 \<noteq> None"
proof -
  let ?s1 = "payProposer winner (pctAmount pot 40) s0"
  have s1: "stake_view (fst ?s1) = stake_view (fst s0)" "lw_Validators (fst ?s1) = lw_Validators (fst s0)"
    by (simp_all add: payProposer_def split_beta)
  note w = assms(1) [unfolded weights_ok_def] and n = assms(2)
  let ?lps = "lpPayees dex (fst ?s1)"
  have l: "?lps = lpPayees dex (fst s0)" by (simp add: lpPayees_view s1)
  have "category payProvider (pctAmount pot 30) (total_weight ?lps) ?lps ?s1 \<noteq> None"
    unfolding l by (rule category_some) (use w n in \<open>auto intro: in_range_usable\<close>)
  then obtain s2 where s2: "category payProvider (pctAmount pot 30) (total_weight ?lps) ?lps ?s1 = Some s2" by blast
  have v2: "stake_view (fst s2) = stake_view (fst s0)" "lw_Validators (fst s2) = lw_Validators (fst s0)"
    using payOut_keeps [where g = stake_view, OF _ s2] payOut_keeps [where g = lw_Validators, OF _ s2] s1 by (simp_all add: pay_views)
  let ?longs = "longEntries dex (fst s2)" and ?sum = "\<lambda>longs. filter (\<lambda>p. \<not> fle (snd p) (Fin 0)) (fold addWeight longs [])"
  have g: "?longs = longEntries dex (fst s0)" by (simp add: longEntries_view v2)
  have len: "length (longEntries dex (fst s0)) \<le> 2 ^ 40" using w n by simp
  have "list_all (\<lambda>x. \<exists>p. snd x = Fin p \<and> usable p) (?sum ?longs)"
    using fold_addWeight [OF _ len] w unfolding g by (simp add: list_all_iff)
  then have "category payProvider (pctAmount pot 5) (total_weight ?longs) (?sum ?longs) s2 \<noteq> None"
    by (intro category_some) (use w len in \<open>simp_all add: g\<close>)
  then obtain s3 where s3: "category payProvider (pctAmount pot 5) (total_weight ?longs) (?sum ?longs) s2 = Some s3" by blast
  have v3: "lw_Validators (fst s3) = lw_Validators (fst s0)"
    using payOut_keeps [where g = lw_Validators, OF _ s3] v2(2) by (simp add: pay_views)
  let ?vals = "otherValidators eligible now winner (fst s3)"
  have v: "?vals = otherValidators eligible now winner (fst s0)" by (simp add: otherValidators_def v3)
  have "category payValidator (pctAmount pot 12) (total_weight ?vals) ?vals s3 \<noteq> None"
    unfolding v by (rule category_some) (use w n in \<open>auto intro: in_range_usable\<close>)
  then obtain s4 where s4: "category payValidator (pctAmount pot 12) (total_weight ?vals) ?vals s3 = Some s4" by blast
  have "category payParticipant (pctAmount pot 2) (total_weight (participants txs)) (participants txs) s4 \<noteq> None"
    by (rule category_some) (use w n in \<open>auto intro: in_range_usable simp: participants_def\<close>)
  then obtain s5 where "category payParticipant (pctAmount pot 2) (total_weight (participants txs)) (participants txs) s4 = Some s5" by blast
  with s2 s3 s4 show ?thesis by (simp add: distribute_def Let_def)
qed

lemma EmissionReward_pos: "0 < EmissionReward n"
proof -
  have "reward \<noteq> 0 \<Longrightarrow> 0 < uint reward" for reward :: u64
    by (metis uint_0_iff unsigned_0 order_le_less uint_ge_0)
  then show ?thesis by (simp add: EmissionReward_def Let_def)
qed

lemma takeCappedEmission_effect:
  assumes "takeCappedEmission n w = (w1, e)"
  shows "0 \<le> e \<and> e \<le> EmissionReward n \<and> issued w1 = issued (ensureEmission w) + e \<and>
    issued w1 \<le> max (issued (ensureEmission w)) (issuanceCap (ensureEmission w)) \<and>
    lw_Accounts w1 = lw_Accounts w \<and> lw_Providers w1 = lw_Providers w \<and> lw_Locks w1 = lw_Locks w \<and> lw_Validators w1 = lw_Validators w"
proof -
  define v where "v = ensureEmission w"
  have f: "lw_Accounts v = lw_Accounts w" "lw_Providers v = lw_Providers w" "lw_Locks v = lw_Locks w" "lw_Validators v = lw_Validators w"
    by (simp_all add: v_def ensureEmission_def Let_def)
  show ?thesis
  proof (cases "issuanceCap v - issued v \<le> 0")
    case True
    with assms f less_imp_le [OF EmissionReward_pos, of n] show ?thesis by (simp add: takeCappedEmission_def Let_def flip: v_def)
  next
    case False
    then have "w1 = v\<lparr>lw_Cumulative := Some (issued v + e)\<rparr>" "e = min (EmissionReward n) (issuanceCap v - issued v)"
      using assms by (auto simp: takeCappedEmission_def Let_def simp flip: v_def)
    with False f EmissionReward_pos [of n] show ?thesis by (simp add: issued_def flip: v_def)
  qed
qed

text \<open>C39: No block issues more than its schedule and its fees. For weights in the range of roots of token amounts the distribution of a block always has
  a result; what it takes from the schedule is between zero and the scheduled reward and never lifts the issued total above the
  governed cap; and the balances and positions together grow by no more than that plus the fees of the block, and never shrink, although every share is
  computed from floating-point weights. The bound on the number \<open>n\<close> of payees is that the pot times \<open>8 n + 8\<close> stays
  below \<open>2 ^ 53\<close>: half a million payees for twenty coins.\<close>

theorem block_rewards_bounded:
  assumes "books_ok w" "weights_ok eligible dex now winner txs n w" "n \<le> 2 ^ 40"
    "(EmissionReward blockNumber + uint gasFees) * (8 * int n + 8) < 2 ^ 53"
  shows "\<exists>s'. CalculateBlockRewards eligible dex now winner txs gasFees blockNumber w = Some s' \<and>
    (let e = issued (fst s') - issued (ensureEmission w) in 0 \<le> e \<and> e \<le> EmissionReward blockNumber \<and>
       issued (fst s') \<le> max (issued (ensureEmission w)) (issuanceCap (ensureEmission w)) \<and>
       total_value w \<le> total_value (fst s') \<and> total_value (fst s') \<le> total_value w + e + uint gasFees)"
proof -
  obtain w1 e where t: "takeCappedEmission blockNumber w = (w1, e)" by (cases "takeCappedEmission blockNumber w")
  note te = takeCappedEmission_effect [OF t]
  let ?s0 = "(w1, emptyBreakdown winner)" and ?pot = "e + uint gasFees"
  have ok: "books_ok (fst ?s0)" "weights_ok eligible dex now winner txs n (fst ?s0)" "total_value w1 = total_value w"
    using assms(1,2) te by (simp_all add: books_ok_def weights_ok_def lpPayees_def longEntries_def stakers_def otherValidators_def total_value_def)
  have pot: "0 \<le> ?pot" using te by simp
  have "?pot * (8 * int n + 8) \<le> (EmissionReward blockNumber + uint gasFees) * (8 * int n + 8)" using te by (intro mult_right_mono) simp_all
  then have fit: "?pot * (8 * int n + 8) < 2 ^ 53" using assms(4) by linarith
  obtain s' where s': "distribute eligible dex now winner txs ?pot ?s0 = Some s'" using distribute_some [OF ok(2) assms(3)] by blast
  note d = distribute_bound [OF ok(1,2) pot fit assms(3) s']
  have "issued (fst s') = issued w1" using d by (simp add: issued_def)
  with d te ok(3) s' t show ?thesis by (intro exI [of _ s']) (simp add: CalculateBlockRewards_def Let_def)
qed

lemma small_weights: "pow2 (- 400) \<le> 1" "1 \<le> pow2 400"
  by (simp_all add: pow2_def)

definition demo_dex :: "dex_position list" where
  "demo_dex = [\<lparr>dp_Address = demo_owner, dp_Weight = Fin 1, dp_LiquidityUSD = Fin 1, dp_TierWeight = Fin 1, dp_Locked = True\<rparr>]"

lemma block_rewards_bounded_witness:
  "\<exists>s'. CalculateBlockRewards (\<lambda>_. True) demo_dex 0 demo_owner [] 42 5 demo_liq = Some s' \<and>
     total_value (fst s') \<le> 1000 + 2000000000 + 42"
proof -
  have l: "lpPayees demo_dex demo_liq = [(demo_owner, Fin 1)]" "longEntries demo_dex demo_liq = [(normalizeAccountAddress demo_owner, Fin 1)]"
    "otherValidators (\<lambda>_. True) 0 demo_owner demo_liq = []"
    by (simp_all add: lpPayees_def longEntries_def stakers_def demo_liq_def demo_position_def NewProvider_def demo_dex_def dexLongWeight_def otherValidators_def)
  have w: "weights_ok (\<lambda>_. True) demo_dex 0 demo_owner [] 1 demo_liq"
    by (simp add: weights_ok_def l in_range_def participants_def small_weights)
  have b: "books_ok demo_liq" by (simp add: books_ok_def demo_liq_def)
  have r: "EmissionReward 5 = 2000000000" by (simp add: EmissionReward_def BlocksPerHalving_def GenesisRewardSats_def)
  have v: "total_value demo_liq = 1000"
    by (simp add: total_value_def demo_liq_def demo_position_def NewProvider_def holding_def)
  have "(EmissionReward 5 + uint (42 :: u64)) * (8 * int 1 + 8) < 2 ^ 53" by (simp add: r)
  from block_rewards_bounded [OF b w _ this] obtain s' where
    "CalculateBlockRewards (\<lambda>_. True) demo_dex 0 demo_owner [] 42 5 demo_liq = Some s'"
    "total_value (fst s') \<le> 1000 + (issued (fst s') - issued (ensureEmission demo_liq)) + 42"
    "issued (fst s') - issued (ensureEmission demo_liq) \<le> 2000000000"
    by (auto simp: Let_def r v)
  then show ?thesis by (intro exI [of _ s']) simp
qed

end
