(* ===== verification/Spec2Isabelle.thy ===== *)
theory Spec2Isabelle
  imports ConsensusTheorems BFTModel Ledger Economics BatchAuction AdvancedAMM ArbAuction
    RuntimeTheorems ContractVM ContractToken ContractVaults ContractLending ContractWrapped
    BridgeTheorems GovernanceTheorems ChainTxTheorems RewardsTheorems
begin

text \<open>
  Verification development of the PoDL blockchain, whose Go sources are under \<open>src/\<close>. Paths below are
  relative to \<open>src/BlockchainComponent\<close> unless they begin with \<open>contract/\<close>.

  The program and its parts. A node runs a BFT protocol over validators whose voting power follows from
  stake and liquidity; the blocks it finalizes move native coins between accounts, route protocol revenue
  through an economic policy, clear batch auctions, run pools and arbitrage auctions natively, execute
  contract transactions in a plugin runtime, pay block rewards and apply governance. The contracts call each other
  through that runtime and move native coins of the same account ledger. Transactions wait in a pool with a fee market;
  bridge requests need attestations or a light-client proof.

  Theories, in the order of their dependencies.
  \<^item> \<open>GoBase\<close> is the prelude: ASCII strings, decimal numbers, \<open>big.Int\<close> division, \<open>int64\<close> wrap-around, Go maps as
    association lists. \<open>Float64\<close> is binary64 arithmetic with its rounding bounds. \<open>Crypto\<close> has hexadecimal,
    \<open>strconv\<close>, and the record of the primitives that are parameters: SHA-256 and signature recovery.
  \<^item> \<open>ConsensusState\<close>, \<open>ConsensusPower\<close>, \<open>ConsensusVotes\<close>, \<open>ConsensusProposer\<close>, \<open>ConsensusProtocol\<close>: \<open>consensus_bft.go\<close>,
    \<open>consensus_safety.go\<close> (timeouts, proposer certificates), the voting power of \<open>validator.go\<close>. The state is the
    record \<open>BFTConsensusState\<close>; one definition per handler; reachable states are an inductive relation over all
    handlers. \<open>ConsensusTheorems\<close> holds soundness of certificates, agreement, locking, round changes, pruning and
    proposer selection; \<open>ConsensusDemo\<close> the concrete validators of the witnesses. \<open>BFTModel\<close> is the bounded
    checker of \<open>consensus_model.go\<close>.
  \<^item> \<open>Ledger\<close>: native balances of \<open>blockchain_struct.go\<close> with their address normalization. \<open>Economics\<close>: policy, revenue
    waterfall, capture, burning and deployment of \<open>economic_policy.go\<close> and \<open>economic_operations.go\<close>; \<open>moved_exactly\<close> says
    what a payment does to all accounts.
  \<^item> \<open>BatchAuction\<close> (\<open>batch_auction.go\<close>), \<open>AdvancedAMM\<close> (\<open>advanced_amm.go\<close>, stable swap and concentrated pools),
    \<open>ArbAuction\<close> (keeper bonds and the auction of \<open>arb_auction.go\<close>).
  \<^item> \<open>ContractRuntime\<close>: the runtime of \<open>lqd_contract_engine.go\<close>. A contract method is a \<open>prog\<close>, the tree of
    requests it makes to its \<open>Context\<close>; \<open>run\<close> interprets it with gas, the buffered storage, native flows and nested
    calls. \<open>RuntimeLaws\<close> shows what no execution can do to the buffer, the call stack and the attached coins;
    \<open>RuntimeTheorems\<close> states the promises of the runtime; \<open>ContractVM\<close> is its bytecode interpreter and statement DSL.
  \<^item> \<open>ContractLaws\<close>: the predicate transformer \<open>wp\<close> over what a method sees, its soundness for \<open>run\<close>, and the
    locales \<open>contract_law\<close> (a storage invariant that survives every transaction of every registry) and
    \<open>native_vault\<close> (what the contract owes stays covered by its native balance). They are interpreted on the
    contracts: \<open>ContractVaults\<close> (\<open>contract/validator_bond.go\<close>, \<open>contract/insurance_vault.go\<close>) and
    \<open>ContractLending\<close> (\<open>contract/lending_pool.go\<close>). \<open>ContractToken\<close> (\<open>contract/lqd20.go\<close>) refines an abstract token;
    \<open>ContractWrapped\<close> is the wrapped coin of \<open>contract/wlqd.go\<close> with its reserve.
  \<^item> \<open>ChainData\<close>: the records of transactions and blocks, constants, gas. \<open>Bridge\<close>: the requests of \<open>bridge.go\<close> and their
    attestation (\<open>bridge_security.go\<close>); \<open>BridgeLight\<close>: the light client of \<open>bridge_light_client.go\<close>;
    \<open>BridgeTheorems\<close> has thresholds, header quorum and Merkle proofs.
  \<^item> \<open>Governance\<close>: \<open>governance.go\<close>, the slashing cases of \<open>consensus_safety.go\<close> and the penalty of \<open>validator.go\<close>.
    \<open>GovernanceTx\<close>: the signed transactions of \<open>governance_transactions.go\<close> and \<open>liquidity_policy.go\<close>.
    \<open>GovernanceTheorems\<close>: execution is earned by a vote and a delay, the books of votes and delegation, rollback.
  \<^item> \<open>ChainTx\<close>: fees, nonces, the pool, signing digests and verification (\<open>blockchain_struct.go\<close>, \<open>transaction.go\<close>,
    \<open>blocks.go\<close>); \<open>ChainTxTheorems\<close>: admission, replay protection, what a signature binds, the fee market.
  \<^item> \<open>Liquidity\<close>: locks, positions, vested exits, pools and the reward ledger (\<open>rewards.go\<close>, \<open>blockchain_struct.go\<close>);
    \<open>LiquidityTheorems\<close>: conservation, the books of the pools, and vesting. \<open>Rewards\<close>: emission, its cap and the distribution of a block's
    rewards (\<open>rewards.go\<close>); \<open>RewardsTheorems\<close>: the schedule as a sum, and the bound on what a block creates.

  Correspondence. A Go struct is a record or datatype with the fields the modelled code uses, a method is the
  definition of its name (\<open>Type_Method\<close> for contracts), an early return or error is a branch of a sum or option
  type, a contract revert is \<open>Revert\<close> and a Go panic \<open>Crash\<close>. A Go map is an association list with
  distinct keys; the order of the list is the iteration order that Go leaves open. A mutex is the atomicity of the
  operation. The clock, SHA-256, signature recovery, the logarithm and JSON encodings are arguments.

  Bounds and fuel. Nested execution takes fuel \<open>maxCallDepth + 1\<close>, which the depth limit makes enough
  (\<open>call_depth_bounds_recursion\<close>). The unbuffered call path \<open>Execute\<close> is bounded in the source by the stack only, so
  its fuel is an argument. The interpreter loop takes the step limit of the source. Loops of the pools carry the
  iteration limits of the source. Amounts are unbounded integers as in the source; \<open>uint64\<close> gas is a word.

  Hypotheses that recur. \<open>registry_ok\<close>: contracts are deployed at normalized non-empty addresses; \<open>plain_addresses\<close>: such
  an address has no colon, as hexadecimal addresses do not, so that storage keys of different contracts differ;
  \<open>canon\<close>: the account map has normalized distinct keys. What a hash binds is stated without assuming that it is injective:
  by the collision among the strings actually hashed (\<open>collide\<close>), or by its absence among them.

  Limits the theorems state. Nonces are compared with the blocks in memory only, which \<open>TrimInMemoryBlocks\<close> bounds, and
  the \<open>uint64\<close> counter of an account wraps; the light-client quorum is exact while twice the total power is below \<open>2 ^ 64\<close>;
  ticks of net liquidity zero are never removed; a negative lock is refused by the caller of \<open>LockLiquidity\<close> only.

  Not modelled. Network, persistence, HTTP servers, wallets, signers, bridge relayers and adapters (input and output
  around the modelled handlers, or clients of other chains); reports; scripts and vendored code. The VRF beacon (its
  curve is a library), registration and liquidity proofs of validators, block assembly, state root and replay, the path
  search of arbitrage, pool metrics and reward tiers, and the remaining contracts (the DEX pair, factory, router, swap,
  advanced pool, strategy vault, treasury, NFT and bridged tokens) are not modelled.
  Of the runtime, plugin loading, contract deployment from a contract, the ABI, metadata and the event database are
  left out, and events carry no time stamp.
\<close>

end
